(* ===== verification/Json.thy ===== *)
theory Json
  imports Prelude
begin

text \<open>
  The JSON documents the program passes around (\<open>serde_json::Value\<close>). An object is an
  association list: the code only looks keys up, iterates over the entries and replaces
  values in place. The byte encoding of a document belongs to the \<open>serde_json\<close> package
  and is a parameter wherever the code depends on it.
\<close>

datatype json_num = Unsigned nat | Negative int | Float u64

datatype json =
    JNull
  | JBool bool
  | JNum json_num
  | JStr string
  | JArr "json list"
  | JObj "(string \<times> json) list"

fun json_get :: "json \<Rightarrow> string \<Rightarrow> json option" where
  "json_get (JObj kvs) k = map_of kvs k"
| "json_get _ k = None"

fun as_str :: "json \<Rightarrow> string option" where
  "as_str (JStr s) = Some s"
| "as_str _ = None"

fun as_array :: "json \<Rightarrow> json list option" where
  "as_array (JArr xs) = Some xs"
| "as_array _ = None"

fun as_object :: "json \<Rightarrow> (string \<times> json) list option" where
  "as_object (JObj kvs) = Some kvs"
| "as_object _ = None"

fun as_u64 :: "json \<Rightarrow> nat option" where
  "as_u64 (JNum (Unsigned n)) = Some n"
| "as_u64 _ = None"

fun is_null :: "json \<Rightarrow> bool" where
  "is_null JNull = True"
| "is_null _ = False"

fun is_boolean :: "json \<Rightarrow> bool" where
  "is_boolean (JBool _) = True"
| "is_boolean _ = False"

fun is_object :: "json \<Rightarrow> bool" where
  "is_object (JObj _) = True"
| "is_object _ = False"

fun is_array :: "json \<Rightarrow> bool" where
  "is_array (JArr _) = True"
| "is_array _ = False"

text \<open>\<open>value.get(k).and_then(Value::as_str)\<close>, the accessor the code uses most.\<close>

definition get_str :: "json \<Rightarrow> string \<Rightarrow> string option" where
  "get_str v k = Option.bind (json_get v k) as_str"

lemma size_json_obj [simp]: "(k, v) \<in> set kvs \<Longrightarrow> size v < Suc (size_list (size_prod (\<lambda>_. 0) size) kvs)"
proof (induction kvs)
  case (Cons a kvs)
  then show ?case by (cases a) (auto simp: less_Suc_eq_le)
qed simp

lemma size_json_arr [simp]: "i < length vs \<Longrightarrow> size (vs ! i) < Suc (size_list size vs)"
  by (metis less_Suc_eq_le nth_mem size_list_estimation' order_refl)

lemma json_get_Some_obj: "json_get v k = Some w \<Longrightarrow> \<exists>kvs. v = JObj kvs \<and> (k, w) \<in> set kvs"
  by (cases v) (auto dest: map_of_SomeD)

end
