(* ===== verification/Domain.thy ===== *)
theory Domain
  imports Prelude
begin

text \<open>
  The dependency-free vocabulary of \<open>crates/colossus-domain/src/lib.rs\<close>: the closed
  enumerations every other crate speaks, and their wire spelling (\<open>Display\<close> and
  \<open>FromStr\<close>, generated by the \<open>string_enum!\<close> macro).
\<close>

datatype ActorType = User | Application | Model | Workflow | Subagent | System

datatype EventClassification =
  DomainClass | EffectClass | PolicyClass | ApprovalClass | WorkflowClass | SystemClass

datatype EffectPhase = PreEffect | PostEffect

datatype DecisionOutcome = Allow | Deny | RequireApproval

datatype RiskStatus = Available | Unavailable

datatype WorkflowStatus =
  Queued | Running | Waiting | Completed | Failed | Cancelled | Interrupted

section \<open>Wire spelling\<close>

fun actor_type_display :: "ActorType \<Rightarrow> string" where
  "actor_type_display User = ''user''"
| "actor_type_display Application = ''application''"
| "actor_type_display Model = ''model''"
| "actor_type_display Workflow = ''workflow''"
| "actor_type_display Subagent = ''subagent''"
| "actor_type_display System = ''system''"

fun classification_display :: "EventClassification \<Rightarrow> string" where
  "classification_display DomainClass = ''domain''"
| "classification_display EffectClass = ''effect''"
| "classification_display PolicyClass = ''policy''"
| "classification_display ApprovalClass = ''approval''"
| "classification_display WorkflowClass = ''workflow''"
| "classification_display SystemClass = ''system''"

fun effect_phase_display :: "EffectPhase \<Rightarrow> string" where
  "effect_phase_display PreEffect = ''pre_effect''"
| "effect_phase_display PostEffect = ''post_effect''"

fun decision_outcome_display :: "DecisionOutcome \<Rightarrow> string" where
  "decision_outcome_display Allow = ''allow''"
| "decision_outcome_display Deny = ''deny''"
| "decision_outcome_display RequireApproval = ''require_approval''"

fun risk_status_display :: "RiskStatus \<Rightarrow> string" where
  "risk_status_display Available = ''available''"
| "risk_status_display Unavailable = ''unavailable''"

fun workflow_status_display :: "WorkflowStatus \<Rightarrow> string" where
  "workflow_status_display Queued = ''queued''"
| "workflow_status_display Running = ''running''"
| "workflow_status_display Waiting = ''waiting''"
| "workflow_status_display Completed = ''completed''"
| "workflow_status_display Failed = ''failed''"
| "workflow_status_display Cancelled = ''cancelled''"
| "workflow_status_display Interrupted = ''interrupted''"

text \<open>
  \<open>FromStr\<close> tries the spellings in the order of the macro's list; the error is the
  constant \<open>"unknown <Name>"\<close>.
\<close>

definition from_wire :: "string \<Rightarrow> (string \<times> 'a) list \<Rightarrow> string \<Rightarrow> (string, 'a) result" where
  "from_wire name table value =
     (case map_of table value of Some v \<Rightarrow> Inr v | None \<Rightarrow> Inl (''unknown '' @ name))"

definition actor_type_from_str :: "string \<Rightarrow> (string, ActorType) result" where
  "actor_type_from_str = from_wire ''ActorType''
     [(''user'', User), (''application'', Application), (''model'', Model),
      (''workflow'', Workflow), (''subagent'', Subagent), (''system'', System)]"

definition classification_from_str :: "string \<Rightarrow> (string, EventClassification) result" where
  "classification_from_str = from_wire ''EventClassification''
     [(''domain'', DomainClass), (''effect'', EffectClass), (''policy'', PolicyClass),
      (''approval'', ApprovalClass), (''workflow'', WorkflowClass), (''system'', SystemClass)]"

definition effect_phase_from_str :: "string \<Rightarrow> (string, EffectPhase) result" where
  "effect_phase_from_str = from_wire ''EffectPhase''
     [(''pre_effect'', PreEffect), (''post_effect'', PostEffect)]"

definition decision_outcome_from_str :: "string \<Rightarrow> (string, DecisionOutcome) result" where
  "decision_outcome_from_str = from_wire ''DecisionOutcome''
     [(''allow'', Allow), (''deny'', Deny), (''require_approval'', RequireApproval)]"

definition risk_status_from_str :: "string \<Rightarrow> (string, RiskStatus) result" where
  "risk_status_from_str = from_wire ''RiskStatus''
     [(''available'', Available), (''unavailable'', Unavailable)]"

definition workflow_status_from_str :: "string \<Rightarrow> (string, WorkflowStatus) result" where
  "workflow_status_from_str = from_wire ''WorkflowStatus''
     [(''queued'', Queued), (''running'', Running), (''waiting'', Waiting),
      (''completed'', Completed), (''failed'', Failed), (''cancelled'', Cancelled),
      (''interrupted'', Interrupted)]"

section \<open>The wire vocabulary is a bijection\<close>

text \<open>
  The interface every generated enumeration promises: what is displayed parses back to
  the same value, and nothing else parses.
\<close>

locale wire_enum =
  fixes display :: "'a \<Rightarrow> string"
    and from_str :: "string \<Rightarrow> (string, 'a) result"
  assumes parse_display: "from_str (display v) = Inr v"
    and display_parse: "from_str s = Inr v \<Longrightarrow> display v = s"
begin

lemma display_inject: "display v = display w \<longleftrightarrow> v = w"
  using parse_display by (metis sum.inject(2))

lemma parses_iff: "from_str s = Inr v \<longleftrightarrow> s = display v"
  using parse_display display_parse by blast

lemma rejects_iff: "(\<exists>e. from_str s = Inl e) \<longleftrightarrow> s \<notin> range display"
proof (cases "from_str s")
  case (Inl e)
  then have "s \<noteq> display v" for v using parse_display by auto
  with Inl show ?thesis by auto
next
  case (Inr v)
  then have "s = display v" by (simp add: parses_iff)
  with Inr show ?thesis by auto
qed

end

lemma from_wire_Inr_iff:
  "from_wire name table s = Inr v \<longleftrightarrow> map_of table s = Some v"
  by (simp add: from_wire_def split: option.splits)

lemmas wire_tables = actor_type_from_str_def classification_from_str_def
  effect_phase_from_str_def decision_outcome_from_str_def risk_status_from_str_def
  workflow_status_from_str_def

interpretation actor_wire: wire_enum actor_type_display actor_type_from_str
proof unfold_locales
  show "actor_type_from_str (actor_type_display v) = Inr v" for v
    by (cases v) (simp_all add: wire_tables from_wire_def)
  show "actor_type_from_str s = Inr v \<Longrightarrow> actor_type_display v = s" for s v
    by (auto simp: wire_tables from_wire_Inr_iff split: if_splits)
qed

interpretation classification_wire: wire_enum classification_display classification_from_str
proof unfold_locales
  show "classification_from_str (classification_display v) = Inr v" for v
    by (cases v) (simp_all add: wire_tables from_wire_def)
  show "classification_from_str s = Inr v \<Longrightarrow> classification_display v = s" for s v
    by (auto simp: wire_tables from_wire_Inr_iff split: if_splits)
qed

interpretation phase_wire: wire_enum effect_phase_display effect_phase_from_str
proof unfold_locales
  show "effect_phase_from_str (effect_phase_display v) = Inr v" for v
    by (cases v) (simp_all add: wire_tables from_wire_def)
  show "effect_phase_from_str s = Inr v \<Longrightarrow> effect_phase_display v = s" for s v
    by (auto simp: wire_tables from_wire_Inr_iff split: if_splits)
qed

interpretation outcome_wire: wire_enum decision_outcome_display decision_outcome_from_str
proof unfold_locales
  show "decision_outcome_from_str (decision_outcome_display v) = Inr v" for v
    by (cases v) (simp_all add: wire_tables from_wire_def)
  show "decision_outcome_from_str s = Inr v \<Longrightarrow> decision_outcome_display v = s" for s v
    by (auto simp: wire_tables from_wire_Inr_iff split: if_splits)
qed

interpretation risk_wire: wire_enum risk_status_display risk_status_from_str
proof unfold_locales
  show "risk_status_from_str (risk_status_display v) = Inr v" for v
    by (cases v) (simp_all add: wire_tables from_wire_def)
  show "risk_status_from_str s = Inr v \<Longrightarrow> risk_status_display v = s" for s v
    by (auto simp: wire_tables from_wire_Inr_iff split: if_splits)
qed

interpretation workflow_wire: wire_enum workflow_status_display workflow_status_from_str
proof unfold_locales
  show "workflow_status_from_str (workflow_status_display v) = Inr v" for v
    by (cases v) (simp_all add: wire_tables from_wire_def)
  show "workflow_status_from_str s = Inr v \<Longrightarrow> workflow_status_display v = s" for s v
    by (auto simp: wire_tables from_wire_Inr_iff split: if_splits)
qed

section \<open>Properties\<close>

text \<open>C24. The wire vocabulary is canonical: for each of the six persisted enumerations a string
  parses to a value exactly when it is the string that value displays as, so persisted names
  round trip, no two values share a name and no alias is accepted.\<close>

theorem wire_vocabulary_canonical:
  "(actor_type_from_str s = Inr a \<longleftrightarrow> s = actor_type_display a) \<and>
   (classification_from_str s = Inr c \<longleftrightarrow> s = classification_display c) \<and>
   (effect_phase_from_str s = Inr p \<longleftrightarrow> s = effect_phase_display p) \<and>
   (decision_outcome_from_str s = Inr d \<longleftrightarrow> s = decision_outcome_display d) \<and>
   (risk_status_from_str s = Inr k \<longleftrightarrow> s = risk_status_display k) \<and>
   (workflow_status_from_str s = Inr w \<longleftrightarrow> s = workflow_status_display w)"
  by (simp add: actor_wire.parses_iff classification_wire.parses_iff phase_wire.parses_iff
      outcome_wire.parses_iff risk_wire.parses_iff workflow_wire.parses_iff)

end
