(* ===== verification/Contracts.thy ===== *)
theory Contracts
  imports Json Domain
begin

text \<open>
  The typed contracts of \<open>crates/colossus-contracts\<close> that the policy, access and
  journal components exchange: tool name selectors (\<open>tool_pattern.rs\<close>), sandbox modes
  (\<open>sandbox.rs\<close>), execution contexts and events (\<open>journal.rs\<close>), effect requests,
  policy obligations and decisions (\<open>agent.rs\<close>).
\<close>

section \<open>Tool name selectors\<close>

text \<open>\<open>ToolNamePattern::parse\<close>: bounded syntax, \<open>*\<close> the only wildcard, never doubled.\<close>

datatype tool_name_pattern_error = ToolNamePatternError

definition tool_pattern_byte :: "char \<Rightarrow> bool" where
  "tool_pattern_byte c = (is_ascii_alphanumeric c \<or> c \<in> {CHR ''.'', CHR ''_'', CHR ''-'', CHR ''*''})"

definition tool_pattern_parse :: "string \<Rightarrow> (tool_name_pattern_error, string) result" where
  "tool_pattern_parse v =
     (if v = [] \<or> length v > 128 \<or> contains_str ''**'' v \<or> \<not> list_all tool_pattern_byte v
      then Inl ToolNamePatternError else Inr v)"

text \<open>
  \<open>ToolNamePattern::matches\<close>: the loop over the two cursors \<open>p\<close> and \<open>n\<close>, the last
  star seen and the position to retry from. No bound on its iterations is written in the
  code, so it is a partial function; \<open>None\<close> would be a loop that never ends.
\<close>

partial_function (option) matches_loop ::
    "string \<Rightarrow> string \<Rightarrow> nat \<Rightarrow> nat \<Rightarrow> nat option \<Rightarrow> nat \<Rightarrow> bool option" where
  "matches_loop pattern name p n star retry =
     (if n < length name then
        (if p < length pattern \<and> pattern ! p = CHR ''*'' then
           matches_loop pattern name (p + 1) n (Some p) n
         else if p < length pattern \<and> pattern ! p = name ! n then
           matches_loop pattern name (p + 1) (n + 1) star retry
         else (case star of
             Some last_star \<Rightarrow>
               matches_loop pattern name (last_star + 1) (retry + 1) star (retry + 1)
           | None \<Rightarrow> Some False))
      else
        (let p' = (if p < length pattern \<and> pattern ! p = CHR ''*'' then p + 1 else p)
         in Some (p' = length pattern)))"

declare matches_loop.simps [code]

definition pattern_matches :: "string \<Rightarrow> string \<Rightarrow> bool option" where
  "pattern_matches pattern name = matches_loop pattern name 0 0 None 0"

text \<open>What a selector means: \<open>*\<close> stands for any string, every other byte for itself.\<close>

fun glob :: "string \<Rightarrow> string \<Rightarrow> bool" where
  "glob [] s = (s = [])"
| "glob (c # p) [] = (c = CHR ''*'' \<and> glob p [])"
| "glob (c # p) (d # s) =
     (if c = CHR ''*'' then glob p (d # s) \<or> glob (c # p) s
      else c = d \<and> glob p s)"

lemma glob_star_iff: "glob (CHR ''*'' # p) s \<longleftrightarrow> (\<exists>u v. s = u @ v \<and> glob p v)"
proof (induction s)
  case Nil
  then show ?case by simp
next
  case (Cons d s)
  have "(\<exists>u v. d # s = u @ v \<and> glob p v)
      \<longleftrightarrow> glob p (d # s) \<or> (\<exists>u v. s = u @ v \<and> glob p v)"
    by (metis append_Cons append_Nil list.exhaust list.inject)
  with Cons show ?case by simp
qed

lemma glob_literal_append:
  "CHR ''*'' \<notin> set seg \<Longrightarrow> glob (seg @ p) s \<longleftrightarrow> (\<exists>t. s = seg @ t \<and> glob p t)"
proof (induction seg arbitrary: s)
  case Nil
  then show ?case by simp
next
  case (Cons c seg)
  then show ?case by (cases s) auto
qed

lemma glob_star_extend: "glob (CHR ''*'' # p) t \<Longrightarrow> glob (CHR ''*'' # p) (u @ t)"
  by (metis append.assoc glob_star_iff)

lemma glob_star_tl:
  "glob (CHR ''*'' # p) (d # s) \<longleftrightarrow> glob p (d # s) \<or> glob (CHR ''*'' # p) s"
  by simp

text \<open>
  The two facts behind the absence of recursive backtracking: once the literal segment
  after a star has matched at its first position, a later star forgets the earlier one,
  and a mismatch moves the segment one byte to the right.
\<close>

lemma glob_second_star:
  assumes "CHR ''*'' \<notin> set seg"
  shows "glob (CHR ''*'' # seg @ CHR ''*'' # r) (seg @ t) \<longleftrightarrow> glob (CHR ''*'' # r) t"
proof
  assume "glob (CHR ''*'' # seg @ CHR ''*'' # r) (seg @ t)"
  then obtain u v where uv: "seg @ t = u @ v" and "glob (seg @ CHR ''*'' # r) v"
    by (auto simp: glob_star_iff)
  then obtain w where v: "v = seg @ w" and w: "glob (CHR ''*'' # r) w"
    using glob_literal_append [OF assms] by blast
  have "t = drop (length seg) (u @ seg @ w)" using uv v by (metis append_eq_conv_conj)
  then have "t = drop (length seg) (u @ seg) @ w" by simp
  with w show "glob (CHR ''*'' # r) t" by (simp add: glob_star_extend del: glob.simps)
next
  assume "glob (CHR ''*'' # r) t"
  then have "glob (seg @ CHR ''*'' # r) (seg @ t)"
    using glob_literal_append [OF assms] by blast
  then show "glob (CHR ''*'' # seg @ CHR ''*'' # r) (seg @ t)"
    by (metis append_Nil glob_star_iff)
qed

lemma glob_mismatch_shift:
  assumes "CHR ''*'' \<notin> set seg"
    and "rest = [] \<or> (hd rest \<noteq> CHR ''*'' \<and> hd rest \<noteq> c)"
  shows "glob (CHR ''*'' # seg @ rest) (seg @ c # t)
    \<longleftrightarrow> glob (CHR ''*'' # seg @ rest) (tl (seg @ c # t))"
proof -
  have "\<not> glob rest (c # t)" using assms(2) by (cases rest) auto
  then have no: "\<not> glob (seg @ rest) (seg @ c # t)"
    using glob_literal_append [OF assms(1)] by auto
  show ?thesis
  proof (cases "seg @ c # t")
    case Nil
    then show ?thesis by simp
  next
    case (Cons d s)
    with no show ?thesis by simp
  qed
qed

lemma glob_star_exact:
  assumes "CHR ''*'' \<notin> set seg"
  shows "glob (CHR ''*'' # seg @ rest) seg \<longleftrightarrow> glob rest []"
proof
  assume "glob (CHR ''*'' # seg @ rest) seg"
  then obtain u v where uv: "seg = u @ v" and "glob (seg @ rest) v"
    by (auto simp: glob_star_iff)
  then obtain w where w: "v = seg @ w" "glob rest w"
    using glob_literal_append [OF assms] by blast
  with uv have "length seg = length u + (length seg + length w)" by (metis length_append)
  with w(2) show "glob rest []" by simp
next
  assume "glob rest []"
  then show "glob (CHR ''*'' # seg @ rest) seg"
    by (metis append_Nil append_Nil2 assms glob_literal_append glob_star_iff)
qed

lemma glob_empty_name:
  assumes "\<not> contains_str ''**'' rest"
  shows "glob rest [] \<longleftrightarrow> rest = [] \<or> rest = ''*''"
proof (cases rest)
  case (Cons c p)
  show ?thesis
  proof (cases p)
    case (Cons d q)
    with assms \<open>rest = c # p\<close> show ?thesis by auto
  qed (use Cons in auto)
qed simp

text \<open>The loop invariant: what the two cursors and the retry position say of the match.\<close>

definition loop_inv :: "string \<Rightarrow> string \<Rightarrow> nat \<Rightarrow> nat \<Rightarrow> nat option \<Rightarrow> nat \<Rightarrow> bool" where
  "loop_inv pat name p n star retry =
     (p \<le> length pat \<and> n \<le> length name \<and>
      (case star of
         None \<Rightarrow> glob pat name = glob (drop p pat) (drop n name)
       | Some q \<Rightarrow> (\<exists>seg. CHR ''*'' \<notin> set seg \<and> drop q pat = CHR ''*'' # seg @ drop p pat
            \<and> q + 1 + length seg = p \<and> drop retry name = seg @ drop n name
            \<and> retry + length seg = n
            \<and> glob pat name = glob (drop q pat) (drop retry name))))"

lemma loop_inv_SomeE:
  assumes "loop_inv pat name p n (Some q) retry"
  obtains seg where "CHR ''*'' \<notin> set seg" "drop q pat = CHR ''*'' # seg @ drop p pat"
    "q + 1 + length seg = p" "drop retry name = seg @ drop n name" "retry + length seg = n"
    "glob pat name = glob (drop q pat) (drop retry name)"
  using assms unfolding loop_inv_def option.case by blast

lemma drop_Cons_nth: "i < length xs \<Longrightarrow> drop i xs = xs ! i # drop (i + 1) xs"
  by (simp add: Cons_nth_drop_Suc)

lemma loop_inv_star:
  assumes inv: "loop_inv pat name p n star retry" and p: "p < length pat"
    and star: "pat ! p = CHR ''*''" and n: "n < length name"
  shows "loop_inv pat name (p + 1) n (Some p) n"
proof -
  have dp: "drop p pat = CHR ''*'' # drop (p + 1) pat" using p star by (simp add: drop_Cons_nth)
  have "glob pat name = glob (drop p pat) (drop n name)"
  proof (cases star)
    case None
    with inv show ?thesis by (simp add: loop_inv_def)
  next
    case (Some q)
    with inv obtain seg where seg: "CHR ''*'' \<notin> set seg" "drop q pat = CHR ''*'' # seg @ drop p pat"
      "drop retry name = seg @ drop n name" "glob pat name = glob (drop q pat) (drop retry name)"
      by (auto simp: loop_inv_def)
    have "glob (drop q pat) (drop retry name)
        = glob (CHR ''*'' # seg @ CHR ''*'' # drop (p + 1) pat) (seg @ drop n name)"
      by (simp add: seg(2,3) dp)
    also have "\<dots> = glob (CHR ''*'' # drop (p + 1) pat) (drop n name)"
      by (rule glob_second_star [OF seg(1)])
    finally show ?thesis using seg(4) dp by simp
  qed
  with dp p n show ?thesis
    by (auto simp: loop_inv_def simp del: glob.simps intro!: exI [of _ "[]"])
qed

lemma loop_inv_char:
  assumes inv: "loop_inv pat name p n star retry" and p: "p < length pat"
    and not_star: "pat ! p \<noteq> CHR ''*''" and eq: "pat ! p = name ! n" and n: "n < length name"
  shows "loop_inv pat name (p + 1) (n + 1) star retry"
proof -
  have dp: "drop p pat = pat ! p # drop (p + 1) pat" using p by (rule drop_Cons_nth)
  have dn: "drop n name = pat ! p # drop (n + 1) name" using n eq by (simp add: drop_Cons_nth)
  show ?thesis
  proof (cases star)
    case None
    with inv dp dn p n not_star show ?thesis by (simp add: loop_inv_def)
  next
    case (Some q)
    from inv [unfolded Some] obtain seg where seg: "CHR ''*'' \<notin> set seg"
      "drop q pat = CHR ''*'' # seg @ drop p pat" "q + 1 + length seg = p"
      "drop retry name = seg @ drop n name" "retry + length seg = n"
      "glob pat name = glob (drop q pat) (drop retry name)"
      by (rule loop_inv_SomeE)
    have "\<exists>seg'. CHR ''*'' \<notin> set seg' \<and> drop q pat = CHR ''*'' # seg' @ drop (p + 1) pat
      \<and> q + 1 + length seg' = p + 1 \<and> drop retry name = seg' @ drop (n + 1) name
      \<and> retry + length seg' = n + 1"
    proof (intro exI [of _ "seg @ [pat ! p]"] conjI)
      show "drop q pat = CHR ''*'' # (seg @ [pat ! p]) @ drop (p + 1) pat"
        unfolding seg(2) dp by simp
      show "drop retry name = (seg @ [pat ! p]) @ drop (n + 1) name"
        unfolding seg(4) dn by simp
    qed (use seg(1,3,5) not_star in auto)
    with Some p n seg(6) show ?thesis by (simp add: loop_inv_def)
  qed
qed

lemma loop_inv_backtrack:
  assumes inv: "loop_inv pat name p n (Some q) retry" and n: "n < length name"
    and mis: "\<not> (p < length pat \<and> pat ! p = CHR ''*'')" "\<not> (p < length pat \<and> pat ! p = name ! n)"
  shows "loop_inv pat name (q + 1) (retry + 1) (Some q) (retry + 1)"
proof -
  from inv obtain seg where seg: "CHR ''*'' \<notin> set seg"
      "drop q pat = CHR ''*'' # seg @ drop p pat" "q + 1 + length seg = p"
      "drop retry name = seg @ drop n name" "retry + length seg = n"
      "glob pat name = glob (drop q pat) (drop retry name)"
    by (rule loop_inv_SomeE)
  have pl: "p \<le> length pat" using inv by (simp add: loop_inv_def)
  have dn: "drop n name = name ! n # drop (n + 1) name" using n by (rule drop_Cons_nth)
  have rest: "drop p pat = [] \<or> (hd (drop p pat) \<noteq> CHR ''*'' \<and> hd (drop p pat) \<noteq> name ! n)"
    using mis by (cases "p < length pat") (simp_all add: hd_drop_conv_nth)
  have "glob (drop q pat) (drop retry name) = glob (drop q pat) (tl (drop retry name))"
    unfolding seg(2,4) dn by (rule glob_mismatch_shift [OF seg(1) rest])
  also have "tl (drop retry name) = drop (retry + 1) name" by (simp add: tl_drop drop_Suc)
  finally have "glob pat name = glob (drop q pat) (drop (retry + 1) name)" using seg(6) by simp
  moreover have "drop q pat = CHR ''*'' # drop (q + 1) pat"
    using seg(2) by (metis drop_Suc drop_tl list.sel(3) Suc_eq_plus1)
  moreover have "q + 1 \<le> length pat" "retry + 1 \<le> length name" using seg(3,5) pl n by auto
  ultimately show ?thesis by (auto simp: loop_inv_def simp del: glob.simps intro!: exI [of _ "[]"])
qed

lemma loop_inv_final:
  assumes inv: "loop_inv pat name p (length name) star retry" and ns: "\<not> contains_str ''**'' pat"
  shows "glob pat name \<longleftrightarrow> drop p pat = [] \<or> drop p pat = ''*''"
proof -
  have pl: "p \<le> length pat" using inv by (simp add: loop_inv_def)
  have "\<not> contains_str ''**'' (drop p pat)"
    using ns contains_str_iff by (metis append.assoc append_take_drop_id)
  then have empty: "glob (drop p pat) [] \<longleftrightarrow> drop p pat = [] \<or> drop p pat = ''*''"
    by (rule glob_empty_name)
  show ?thesis
  proof (cases star)
    case None
    with inv empty show ?thesis by (simp add: loop_inv_def)
  next
    case (Some q)
    with inv obtain seg where "CHR ''*'' \<notin> set seg" "drop q pat = CHR ''*'' # seg @ drop p pat"
      "drop retry name = seg" "glob pat name = glob (drop q pat) (drop retry name)"
      by (auto simp: loop_inv_def)
    then show ?thesis using empty glob_star_exact by simp
  qed
qed

lemma matches_loop_correct:
  assumes "loop_inv pat name p n star retry" and ns: "\<not> contains_str ''**'' pat"
  shows "matches_loop pat name p n star retry = Some (glob pat name)"
  using assms(1)
proof (induction "(p, n, star, retry)" arbitrary: p n star retry
    rule: wf_induct_rule [OF wf_measures [of "[\<lambda>(p, n, star, retry).
      length pat - (case star of None \<Rightarrow> 0 | Some q \<Rightarrow> q + 1),
      \<lambda>(p, n, star, retry). length name - retry, \<lambda>(p, n, star, retry). length name - n]"]])
  case (1 p n star retry)
  note IH = "1.hyps" and inv = "1.prems"
  note unfold = matches_loop.simps [of pat name p n star retry]
  show ?case
  proof (cases "n < length name")
    case False
    then have n: "n = length name" using inv by (auto simp: loop_inv_def)
    have "glob pat name \<longleftrightarrow> drop p pat = [] \<or> drop p pat = ''*''"
      using loop_inv_final inv ns n by blast
    moreover have "p \<le> length pat" using inv by (simp add: loop_inv_def)
    ultimately show ?thesis unfolding unfold using False
      by (cases "p < length pat") (auto simp: Let_def drop_Cons_nth simp del: Cons_nth_drop_Suc)
  next
    case n: True
    consider (star) "p < length pat" "pat ! p = CHR ''*''"
      | (char) "p < length pat" "pat ! p \<noteq> CHR ''*''" "pat ! p = name ! n"
      | (mis) "\<not> (p < length pat \<and> pat ! p = CHR ''*'')" "\<not> (p < length pat \<and> pat ! p = name ! n)"
      by blast
    then show ?thesis
    proof cases
      case star
      have less: "length pat - (p + 1) < length pat - (case star of None \<Rightarrow> 0 | Some q \<Rightarrow> q + 1)"
        using inv star(1) by (auto simp: loop_inv_def split: option.splits)
      show ?thesis
        using n star IH [OF _ loop_inv_star [OF inv star n]] less by (simp add: unfold)
    next
      case char
      show ?thesis
        using n char IH [OF _ loop_inv_char [OF inv char n]] by (auto simp add: unfold)
    next
      case mis
      show ?thesis
      proof (cases star)
        case None
        have "\<not> glob (drop p pat) (drop n name)"
          using mis n by (cases "p < length pat") (auto simp: drop_Cons_nth)
        with None inv mis n show ?thesis unfolding unfold by (auto simp: loop_inv_def)
      next
        case (Some q)
        have "retry \<le> n" using inv Some by (auto simp: loop_inv_def)
        with n have "length name - (retry + 1) < length name - retry" by simp
        with n mis Some IH [OF _ loop_inv_backtrack [OF inv [unfolded Some] n mis]] show ?thesis
          unfolding unfold by auto
      qed
    qed
  qed
qed

lemma pattern_matches_glob:
  "\<not> contains_str ''**'' pat \<Longrightarrow> pattern_matches pat name = Some (glob pat name)"
  unfolding pattern_matches_def by (rule matches_loop_correct) (simp_all add: loop_inv_def)

lemma tool_pattern_parse_Inr:
  "tool_pattern_parse v = Inr pat \<longleftrightarrow>
     pat = v \<and> v \<noteq> [] \<and> length v \<le> 128 \<and> \<not> contains_str ''**'' v \<and> list_all tool_pattern_byte v"
  by (auto simp: tool_pattern_parse_def)

text \<open>C22. Tool name selectors: the backtracking matcher terminates on every accepted pattern and
  every name, and computes the language of the pattern, in which a star stands for any string
  and every other byte for itself.\<close>

theorem accepted_pattern_matches_glob:
  assumes "tool_pattern_parse v = Inr pat"
  shows "pattern_matches pat name = Some (glob pat name)"
  using assms by (intro pattern_matches_glob) (simp add: tool_pattern_parse_Inr)

theorem accepted_pattern_matches_glob_witness:
  "tool_pattern_parse ''git.*s'' = Inr ''git.*s'' \<and>
   pattern_matches ''git.*s'' ''git.status'' = Some True \<and>
   pattern_matches ''git.*s'' ''git.diff'' = Some False"
proof -
  have "tool_pattern_parse ''git.*s'' = Inr ''git.*s''" by code_simp
  moreover have "glob ''git.*s'' ''git.status''" by code_simp
  moreover have "\<not> glob ''git.*s'' ''git.diff''" by code_simp
  ultimately show ?thesis using accepted_pattern_matches_glob by metis
qed

section \<open>Sandbox modes\<close>

datatype ResourceAuthority = Declared | Ambient

datatype SandboxBoundaryMode = External | DangerFullAccess

definition DEFAULT_SANDBOX_TIMEOUT_MS :: nat where
  "DEFAULT_SANDBOX_TIMEOUT_MS = 15 * 60 * 1000"

fun as_backend :: "SandboxBoundaryMode \<Rightarrow> string" where
  "as_backend External = ''external''"
| "as_backend DangerFullAccess = ''danger_full_access''"

definition from_backend :: "string \<Rightarrow> SandboxBoundaryMode option" where
  "from_backend backend =
     (if backend = ''external'' then Some External
      else if backend = ''danger_full_access'' then Some DangerFullAccess
      else None)"

lemma from_backend_Some_iff [simp]: "from_backend b = Some m \<longleftrightarrow> b = as_backend m"
  by (cases m) (auto simp: from_backend_def)

section \<open>Actors, contexts and events\<close>

datatype RiskLevel = Low | Medium | High

datatype RiskRecommendation = RecommendAllow | RecommendDeny | RecommendApproval

record Actor =
  actor_type :: ActorType
  actor_id :: string

record ImageInputBudget =
  ib_remaining_count :: nat
  ib_remaining_bytes :: nat

text \<open>
  \<open>ExecutionContext\<close>. The fields the code marks \<open>#[serde(skip)]\<close> (dispatch hints that
  are never journaled) are kept: they are part of the value that is passed around.
\<close>

record ExecutionContext =
  cx_image_input_budget :: "ImageInputBudget option"
  cx_correlation_id :: string
  cx_causation_id :: "string option"
  cx_session_id :: "string option"
  cx_run_id :: "string option"
  cx_goal_id :: "string option"
  cx_plan_id :: "string option"
  cx_draft_plan_id :: "string option"
  cx_draft_plan_revision :: "nat option"
  cx_subagent_id :: "string option"
  cx_skill_ids :: "string list"
  cx_plugin_digests :: "(string \<times> string) list"
  cx_offered_tools :: "string list"
  cx_workflow_id :: "string option"
  cx_workflow_hash :: "string option"
  cx_step_id :: "string option"
  cx_attempt :: "nat option"

definition default_context :: ExecutionContext where
  "default_context = \<lparr>cx_image_input_budget = None, cx_correlation_id = [],
     cx_causation_id = None, cx_session_id = None, cx_run_id = None, cx_goal_id = None,
     cx_plan_id = None, cx_draft_plan_id = None, cx_draft_plan_revision = None,
     cx_subagent_id = None, cx_skill_ids = [], cx_plugin_digests = [], cx_offered_tools = [],
     cx_workflow_id = None, cx_workflow_hash = None, cx_step_id = None, cx_attempt = None\<rparr>"

record NewEvent =
  ne_event_version :: nat
  ne_stream_id :: string
  ne_expected_stream_version :: nat
  ne_classification :: EventClassification
  ne_event_type :: string
  ne_actor :: Actor
  ne_context :: ExecutionContext
  ne_payload :: json

record EncryptedPayload =
  ep_key_id :: string
  ep_algorithm :: string
  ep_nonce :: string
  ep_ciphertext :: string
  ep_plaintext_hash :: string

record EventEnvelope =
  ev_schema_version :: nat
  ev_event_version :: nat
  ev_event_id :: string
  ev_global_sequence :: nat
  ev_stream_id :: string
  ev_stream_version :: nat
  ev_classification :: EventClassification
  ev_event_type :: string
  ev_actor :: Actor
  ev_context :: ExecutionContext
  ev_occurred_at :: string
  ev_payload :: EncryptedPayload
  ev_previous_hash :: string
  ev_record_hash :: string

section \<open>Effects and policy\<close>

record RiskInput =
  ri_status :: RiskStatus
  ri_level :: "string option"
  ri_reason :: "string option"

record CredentialReference =
  cr_reference :: string
  cr_value_hash :: "string option"

record ApprovalProof =
  ap_approval_id :: string
  ap_request_hash :: string
  ap_approved_by :: string
  ap_approved_at :: string

record EffectRequest =
  er_schema_version :: nat
  er_request_id :: string
  er_actor :: Actor
  er_action :: string
  er_resource :: string
  er_capabilities :: "string list"
  er_risk :: RiskInput
  er_content :: json
  er_command_intent :: "string option"
  er_credential_references :: "CredentialReference list"
  er_context :: ExecutionContext
  er_idempotency_id :: "string option"
  er_phase :: EffectPhase
  er_approval :: "ApprovalProof option"

record FilesystemGrant =
  fg_root :: string
  fg_mode :: string

record PolicyObligations =
  po_sandbox_backend :: string
  po_sandbox_profile :: string
  po_resource_authority :: ResourceAuthority
  po_filesystem :: "FilesystemGrant list"
  po_protected_filesystem :: "string list"
  po_network_destinations :: "string list"
  po_allowed_environment :: "string list"
  po_allow_sandbox_downgrade :: bool
  po_timeout_ms :: nat
  po_max_output_bytes :: nat
  po_max_processes :: nat
  po_max_memory_bytes :: nat
  po_max_concurrency :: nat
  po_required_redactions :: "string list"
  po_require_post_effect :: bool
  po_audit_labels :: "(string \<times> string) list"
  po_retention :: string

record PolicyDecision =
  pd_decision_id :: string
  pd_policy_revision :: string
  pd_outcome :: DecisionOutcome
  pd_reason :: string
  pd_obligations :: PolicyObligations

record QuarantinedEffectResult =
  qr_media_type :: string
  qr_bytes :: "u8 list"
  qr_effect_succeeded :: bool

end
