(* ===== verification/Access.thy ===== *)
theory Access
  imports Contracts
begin

text \<open>
  Tool exposure and built-in policy profiles (\<open>crates/colossus-access\<close>): the operator's
  configuration and its validation (\<open>config.rs\<close>), the descriptors of tools and actions
  (\<open>descriptor.rs\<close>), the resolution of both through one profile (\<open>resolver.rs\<close>) and
  the result with its queries (\<open>diagnostics.rs\<close>).
\<close>

section \<open>Configuration\<close>

datatype AccessProfile = Minimal | Development | AllowAll | Pinned

datatype AccessError = Invalid string | Unclassified string

fun access_profile_display :: "AccessProfile \<Rightarrow> string" where
  "access_profile_display Minimal = ''minimal''"
| "access_profile_display Development = ''development''"
| "access_profile_display AllowAll = ''allow_all''"
| "access_profile_display Pinned = ''pinned''"

definition access_profile_from_str :: "string \<Rightarrow> (AccessError, AccessProfile) result" where
  "access_profile_from_str v =
     (if v = ''minimal'' then Inr Minimal
      else if v = ''development'' then Inr Development
      else if v = ''allow_all'' \<or> v = ''allow-all'' then Inr AllowAll
      else if v = ''pinned'' then Inr Pinned
      else Inl (Invalid (''unknown access profile '' @ v @
        ''; expected minimal, development, allow_all, or pinned'')))"

record ToolAccessConfig =
  ta_include :: "string list"
  ta_exclude :: "string list"

record ActionAccessConfig =
  aa_allow :: "string list"
  aa_require_approval :: "string list"
  aa_deny :: "string list"

record AccessConfig =
  ac_profile :: AccessProfile
  ac_tools :: ToolAccessConfig
  ac_actions :: ActionAccessConfig

definition action_config_is_empty :: "ActionAccessConfig \<Rightarrow> bool" where
  "action_config_is_empty a = (aa_allow a = [] \<and> aa_require_approval a = [] \<and> aa_deny a = [])"

definition default_access_config :: AccessConfig where
  "default_access_config = \<lparr>ac_profile = AllowAll,
     ac_tools = \<lparr>ta_include = [], ta_exclude = []\<rparr>,
     ac_actions = \<lparr>aa_allow = [], aa_require_approval = [], aa_deny = []\<rparr>\<rparr>"

definition validate_unique :: "string \<Rightarrow> string list \<Rightarrow> (AccessError, unit) result" where
  "validate_unique label values =
     (if card (set values) \<noteq> length values
      then Inl (Invalid (label @ '' contains duplicate entries''))
      else if list_ex (\<lambda>v. trim v = []) values
      then Inl (Invalid (label @ '' contains an empty entry''))
      else Inr ())"

definition reject_overlap ::
    "string \<Rightarrow> string list \<Rightarrow> string \<Rightarrow> string list \<Rightarrow> (AccessError, unit) result" where
  "reject_overlap left_label left right_label right =
     (case find (\<lambda>v. v \<in> set right) left of
        Some overlap \<Rightarrow> Inl (Invalid (left_label @ '' and '' @ right_label @ '' both contain '' @ overlap))
      | None \<Rightarrow> Inr ())"

definition tool_pattern_error_text :: string where
  "tool_pattern_error_text = ''tool selectors must use 1..=128 ASCII letters, digits, dot, underscore, hyphen, or single * wildcards; regex and consecutive stars are unsupported''"

text \<open>A name that contains no star is an exact name and is not parsed as a selector.\<close>

definition check_selector :: "string \<Rightarrow> (AccessError, unit) result" where
  "check_selector name =
     (if CHR ''*'' \<in> set name then
        (case tool_pattern_parse name of
           Inl _ \<Rightarrow> Inl (Invalid (''access.tools: '' @ tool_pattern_error_text))
         | Inr _ \<Rightarrow> Inr ())
      else Inr ())"

definition check_action_name :: "string \<Rightarrow> (AccessError, unit) result" where
  "check_action_name action =
     (if CHR ''*'' \<in> set action
      then Inl (Invalid ''action wildcards are unsupported; use access.profile: allow_all'')
      else Inr ())"

definition validate_config :: "AccessConfig \<Rightarrow> bool \<Rightarrow> (AccessError, unit) result" where
  "validate_config config external_policy =
    (let tools = ac_tools config; actions = ac_actions config in
     bind_r (validate_unique ''access.tools.include'' (ta_include tools)) (\<lambda>_.
     bind_r (validate_unique ''access.tools.exclude'' (ta_exclude tools)) (\<lambda>_.
     bind_r (check_all check_selector (ta_include tools @ ta_exclude tools)) (\<lambda>_.
     bind_r (check_all (\<lambda>name. if name = ''*''
         then Inl (Invalid ''access.tools.exclude does not accept *'') else Inr ())
         (ta_exclude tools)) (\<lambda>_.
     if ''*'' \<in> set (ta_include tools) \<and> length (ta_include tools) \<noteq> 1
     then Inl (Invalid ''access.tools.include * must be the only include entry'') else
     bind_r (reject_overlap ''access.tools.include'' (ta_include tools)
         ''access.tools.exclude'' (ta_exclude tools)) (\<lambda>_.
     bind_r (validate_unique ''access.actions.allow'' (aa_allow actions)) (\<lambda>_.
     bind_r (validate_unique ''access.actions.requireApproval'' (aa_require_approval actions)) (\<lambda>_.
     bind_r (validate_unique ''access.actions.deny'' (aa_deny actions)) (\<lambda>_.
     bind_r (check_all check_action_name
         (aa_allow actions @ aa_require_approval actions @ aa_deny actions)) (\<lambda>_.
     bind_r (reject_overlap ''access.actions.allow'' (aa_allow actions)
         ''access.actions.requireApproval'' (aa_require_approval actions)) (\<lambda>_.
     bind_r (reject_overlap ''access.actions.allow'' (aa_allow actions)
         ''access.actions.deny'' (aa_deny actions)) (\<lambda>_.
     bind_r (reject_overlap ''access.actions.requireApproval'' (aa_require_approval actions)
         ''access.actions.deny'' (aa_deny actions)) (\<lambda>_.
     if external_policy \<and> \<not> action_config_is_empty actions
     then Inl (Invalid ''access.actions overrides are unavailable with policy.kind: opa'')
     else Inr ())))))))))))))"

section \<open>Descriptors\<close>

datatype ActionClass =
  Provider | Read | LocalState | WorkspaceMutation | Execution | ExternalNetwork | Administration

datatype CapabilitySource = Core | Integration | Mcp | SignedPack

record ActionDescriptor =
  ad_name :: string
  ad_class :: ActionClass
  ad_source :: CapabilitySource

datatype ToolPrerequisite =
    FilesystemRead | FilesystemWrite | GitExecutable | AnyExecutable | NetworkDestination
  | ModelNetworkTools | AgentSearchRoute | Interactive | McpConfigured | BrowserAvailable
  | ComputerAvailable

record ToolDescriptor =
  td_name :: string
  td_family :: string
  td_source :: CapabilitySource
  td_prerequisites :: "ToolPrerequisite list"

record AccessContext =
  ctx_filesystem_read :: bool
  ctx_filesystem_write :: bool
  ctx_git_executable :: bool
  ctx_any_executable :: bool
  ctx_network_destination :: bool
  ctx_model_network_tools :: bool
  ctx_agent_search_route :: bool
  ctx_interactive :: bool
  ctx_mcp_configured :: bool
  ctx_browser_available :: bool
  ctx_computer_available :: bool

record ToolSpec =
  ts_name :: string
  ts_description :: string
  ts_input_schema :: json
  ts_effect_action :: "string option"
  ts_capability :: "string option"
  ts_max_output_bytes :: nat

fun prerequisite_met :: "ToolPrerequisite \<Rightarrow> AccessContext \<Rightarrow> bool" where
  "prerequisite_met FilesystemRead c = ctx_filesystem_read c"
| "prerequisite_met FilesystemWrite c = ctx_filesystem_write c"
| "prerequisite_met GitExecutable c = ctx_git_executable c"
| "prerequisite_met AnyExecutable c = ctx_any_executable c"
| "prerequisite_met NetworkDestination c = ctx_network_destination c"
| "prerequisite_met ModelNetworkTools c = ctx_model_network_tools c"
| "prerequisite_met AgentSearchRoute c = ctx_agent_search_route c"
| "prerequisite_met Interactive c = ctx_interactive c"
| "prerequisite_met McpConfigured c = ctx_mcp_configured c"
| "prerequisite_met BrowserAvailable c = ctx_browser_available c"
| "prerequisite_met ComputerAvailable c = ctx_computer_available c"

fun prerequisite_label :: "ToolPrerequisite \<Rightarrow> string" where
  "prerequisite_label FilesystemRead = ''filesystem read grant''"
| "prerequisite_label FilesystemWrite = ''filesystem write grant''"
| "prerequisite_label GitExecutable = ''exact Git executable''"
| "prerequisite_label AnyExecutable = ''exact sandbox executable''"
| "prerequisite_label NetworkDestination = ''network destination''"
| "prerequisite_label ModelNetworkTools = ''model-visible network tools enabled by host''"
| "prerequisite_label AgentSearchRoute = ''agent search route''"
| "prerequisite_label Interactive = ''interactive user interface''"
| "prerequisite_label McpConfigured = ''configured MCP server''"
| "prerequisite_label BrowserAvailable = ''verified browser backend''"
| "prerequisite_label ComputerAvailable = ''enabled verified interactive computer backend''"

section \<open>Resolution\<close>

datatype AccessDecision = AccessAllow | AccessRequireApproval | AccessDeny | ExternalPolicy

datatype ToolAvailability = Active | Hidden

record ResolvedTool =
  rt_name :: string
  rt_family :: string
  rt_source :: CapabilitySource
  rt_availability :: ToolAvailability
  rt_reason :: string
  rt_unmet_prerequisite :: "string option"
  rt_effect_action :: "string option"
  rt_capability :: "string option"
  rt_action_class :: "ActionClass option"
  rt_decision :: "AccessDecision option"

record ResolvedAction =
  ra_name :: string
  ra_class :: ActionClass
  ra_source :: CapabilitySource
  ra_decision :: AccessDecision
  ra_reason :: string

record AccessResolution =
  ar_profile :: AccessProfile
  ar_external_policy :: bool
  ar_tools :: "ResolvedTool list"
  ar_actions :: "ResolvedAction list"

definition profile_decision :: "AccessProfile \<Rightarrow> ActionDescriptor \<Rightarrow> AccessDecision" where
  "profile_decision profile d =
     (case profile of
        Minimal \<Rightarrow> (if ad_class d = Provider then AccessAllow else AccessDeny)
      | Development \<Rightarrow>
          (if ad_class d \<in> {Provider, Read, LocalState} then AccessAllow else AccessRequireApproval)
      | AllowAll \<Rightarrow>
          (if ad_name d \<in> {''workflow.schedule.create'', ''workflow.schedule.set_enabled'',
             ''workflow.schedule.delete''} then AccessRequireApproval else AccessAllow)
      | Pinned \<Rightarrow> (if ad_name d = ''provider.echo'' then AccessAllow else AccessDeny))"

text \<open>
  Filling a \<open>BTreeMap\<close> by name: the first descriptor whose name is already present is an
  error, and the values come out in the order of their names.
\<close>

fun first_duplicate :: "('a \<Rightarrow> string) \<Rightarrow> string list \<Rightarrow> 'a list \<Rightarrow> string option" where
  "first_duplicate name seen [] = None"
| "first_duplicate name seen (d # ds) =
     (if name d \<in> set seen then Some (name d) else first_duplicate name (name d # seen) ds)"

definition collect_by_name ::
    "string \<Rightarrow> ('a \<Rightarrow> string) \<Rightarrow> 'a list \<Rightarrow> (AccessError, 'a list) result" where
  "collect_by_name label name ds =
     (case first_duplicate name [] ds of
        Some n \<Rightarrow> Inl (Invalid (label @ n))
      | None \<Rightarrow> Inr (sort_key name ds))"

definition resolve_action ::
    "AccessConfig \<Rightarrow> bool \<Rightarrow> ActionDescriptor \<Rightarrow> ResolvedAction" where
  "resolve_action config external_policy d =
    (let actions = ac_actions config;
       (decision, reason) =
         (if external_policy then (ExternalPolicy, ''external policy'')
          else if ad_name d \<in> set (aa_deny actions) then (AccessDeny, ''explicit deny'')
          else if ad_name d \<in> set (aa_require_approval actions)
            then (AccessRequireApproval, ''explicit approval'')
          else if ad_name d \<in> set (aa_allow actions) then (AccessAllow, ''explicit allow'')
          else (profile_decision (ac_profile config) d, ''profile default''))
     in \<lparr>ra_name = ad_name d, ra_class = ad_class d, ra_source = ad_source d,
         ra_decision = decision, ra_reason = reason\<rparr>)"

definition wildcard_patterns :: "string list \<Rightarrow> (AccessError, string list) result" where
  "wildcard_patterns names =
     traverse (\<lambda>name. map_err (\<lambda>_. Invalid tool_pattern_error_text) (tool_pattern_parse name))
       (filter (\<lambda>name. CHR ''*'' \<in> set name) names)"

definition selector_matches :: "string \<Rightarrow> string \<Rightarrow> bool" where
  "selector_matches pattern name = (pattern_matches pattern name = Some True)"

text \<open>
  The availability of one tool: the chain of conditions in the loop over the tool
  specifications, from the selectors that matched and the first unmet prerequisite.
\<close>

definition tool_availability ::
    "AccessConfig \<Rightarrow> ToolSpec \<Rightarrow> string option \<Rightarrow> string option \<Rightarrow> ToolPrerequisite option
      \<Rightarrow> (AccessError, ToolAvailability \<times> string) result" where
  "tool_availability config spec matched_include matched_exclude unmet =
    (let name = ts_name spec;
      exactly_included = (name \<in> set (ta_include (ac_tools config)));
      explicitly_selected = (matched_include \<noteq> None \<or> exactly_included);
      selected = ((case ac_profile config of
          Minimal \<Rightarrow> ts_effect_action spec = None
        | Development \<Rightarrow> True
        | AllowAll \<Rightarrow> True
        | Pinned \<Rightarrow> explicitly_selected) \<or> explicitly_selected)
     in
     if name \<in> set (ta_exclude (ac_tools config)) then Inr (Hidden, ''explicit exclude'')
     else (case matched_exclude of
       Some pattern \<Rightarrow> Inr (Hidden, ''wildcard exclude: '' @ pattern)
     | None \<Rightarrow>
       if \<not> selected then Inr (Hidden, ''profile does not select tool'')
       else (case unmet of
         Some requirement \<Rightarrow>
           if exactly_included \<and> requirement \<notin> {Interactive, BrowserAvailable, ComputerAvailable}
           then Inl (Invalid (''explicitly included tool '' @ name @ '' has unmet prerequisite ''
             @ prerequisite_label requirement))
           else Inr (Hidden, ''unmet prerequisite: '' @ prerequisite_label requirement)
       | None \<Rightarrow>
           if exactly_included then Inr (Active, ''explicit include'')
           else (case matched_include of
             Some pattern \<Rightarrow> Inr (Active, ''wildcard include: '' @ pattern)
           | None \<Rightarrow> Inr (Active, ''profile selection'')))))"

text \<open>The class and decision of the tool's effect, when it has one.\<close>

definition tool_effect ::
    "ResolvedAction list \<Rightarrow> ToolSpec
      \<Rightarrow> (AccessError, ActionClass option \<times> AccessDecision option) result" where
  "tool_effect actions spec =
     (case ts_effect_action spec of
        Some action \<Rightarrow>
          bind_r (ok_or (Unclassified action) (find (\<lambda>a. ra_name a = action) actions))
            (\<lambda>a. Inr (Some (ra_class a), Some (ra_decision a)))
      | None \<Rightarrow> Inr (None, None))"

text \<open>One iteration of the loop over the tool specifications.\<close>

definition resolve_tool ::
    "AccessConfig \<Rightarrow> ToolDescriptor list \<Rightarrow> ResolvedAction list \<Rightarrow> string list \<Rightarrow> string list
      \<Rightarrow> AccessContext \<Rightarrow> ToolSpec \<Rightarrow> (AccessError, ResolvedTool) result" where
  "resolve_tool config tool_metadata actions include_patterns exclude_patterns ctx spec =
    bind_r (ok_or (Unclassified (''tool '' @ ts_name spec))
        (find (\<lambda>m. td_name m = ts_name spec) tool_metadata)) (\<lambda>metadata.
    let matched_include = find (\<lambda>p. selector_matches p (ts_name spec)) include_patterns;
      matched_exclude = find (\<lambda>p. selector_matches p (ts_name spec)) exclude_patterns;
      unmet = find (\<lambda>r. \<not> prerequisite_met r ctx) (td_prerequisites metadata)
    in
    bind_r (tool_availability config spec matched_include matched_exclude unmet)
      (\<lambda>(availability, reason).
    bind_r (tool_effect actions spec) (\<lambda>(action_class, decision).
    if (case ts_capability spec of
          Some capability \<Rightarrow> capability \<notin> set (map ra_name actions) | None \<Rightarrow> False)
    then Inl (Unclassified (the (ts_capability spec)))
    else Inr \<lparr>rt_name = ts_name spec, rt_family = td_family metadata,
      rt_source = td_source metadata, rt_availability = availability, rt_reason = reason,
      rt_unmet_prerequisite = map_option prerequisite_label unmet,
      rt_effect_action = ts_effect_action spec, rt_capability = ts_capability spec,
      rt_action_class = action_class, rt_decision = decision\<rparr>)))"

definition resolve_access ::
    "AccessConfig \<Rightarrow> ToolSpec list \<Rightarrow> ActionDescriptor list \<Rightarrow> ToolDescriptor list
      \<Rightarrow> AccessContext \<Rightarrow> bool \<Rightarrow> (AccessError, AccessResolution) result" where
  "resolve_access config tool_specs action_descriptors tool_descriptors ctx external_policy =
    bind_r (validate_config config external_policy) (\<lambda>_.
    bind_r (collect_by_name ''duplicate action descriptor '' ad_name action_descriptors) (\<lambda>actions.
    bind_r (collect_by_name ''duplicate tool descriptor '' td_name tool_descriptors) (\<lambda>tool_metadata.
    bind_r (check_all (\<lambda>action. if action \<in> set (map ad_name actions) then Inr ()
          else Inl (Unclassified action))
        (aa_allow (ac_actions config) @ aa_require_approval (ac_actions config)
          @ aa_deny (ac_actions config))) (\<lambda>_.
    let resolved_actions = map (resolve_action config external_policy) actions in
    bind_r (wildcard_patterns (ta_include (ac_tools config))) (\<lambda>include_patterns.
    bind_r (wildcard_patterns (ta_exclude (ac_tools config))) (\<lambda>exclude_patterns.
    bind_r (check_all (\<lambda>name. if name \<in> set (map ts_name tool_specs) then Inr ()
          else Inl (Unclassified name))
        (filter (\<lambda>name. CHR ''*'' \<notin> set name)
          (ta_include (ac_tools config) @ ta_exclude (ac_tools config)))) (\<lambda>_.
    bind_r (traverse (resolve_tool config tool_metadata resolved_actions include_patterns
          exclude_patterns ctx) tool_specs) (\<lambda>resolved_tools.
    Inr \<lparr>ar_profile = ac_profile config, ar_external_policy = external_policy,
      ar_tools = sort_key rt_name resolved_tools, ar_actions = resolved_actions\<rparr>))))))))"

definition active_tool_names :: "AccessResolution \<Rightarrow> string list" where
  "active_tool_names r = map rt_name (filter (\<lambda>t. rt_availability t = Active) (ar_tools r))"

definition action_decision :: "AccessResolution \<Rightarrow> string \<Rightarrow> AccessDecision option" where
  "action_decision r name = map_option ra_decision (find (\<lambda>a. ra_name a = name) (ar_actions r))"

section \<open>Validation and collection\<close>

lemma glob_literal: "CHR ''*'' \<notin> set p \<Longrightarrow> glob p s \<longleftrightarrow> s = p"
  using glob_literal_append [of p "[]" s] by auto

lemma reject_overlap_ok [result_simps]:
  "reject_overlap l xs r ys = Inr u \<longleftrightarrow> set xs \<inter> set ys = {}"
  by (auto simp: reject_overlap_def find_None_iff_set split: option.splits dest: find_SomeD)

lemma validate_unique_ok [result_simps]:
  "validate_unique l xs = Inr u \<longleftrightarrow> distinct xs \<and> (\<forall>x \<in> set xs. trim x \<noteq> [])"
  by (auto simp: validate_unique_def list_ex_iff card_distinct distinct_card)

lemma first_duplicate_None:
  "first_duplicate name seen ds = None
    \<longleftrightarrow> distinct (map name ds) \<and> set (map name ds) \<inter> set seen = {}"
  by (induction ds arbitrary: seen) auto

lemma collect_by_name_ok [result_simps]:
  "collect_by_name l name ds = Inr xs \<longleftrightarrow> distinct (map name ds) \<and> xs = sort_key name ds"
  using first_duplicate_None [of name "[]" ds]
  by (cases "first_duplicate name [] ds") (auto simp: collect_by_name_def)

lemma wildcard_patterns_ok [result_simps]:
  "wildcard_patterns names = Inr ps \<longleftrightarrow>
     ps = filter (\<lambda>n. CHR ''*'' \<in> set n) names \<and> (\<forall>p \<in> set ps. tool_pattern_parse p = Inr p)"
    (is "_ \<longleftrightarrow> ps = ?xs \<and> _")
proof -
  have same: "tool_pattern_parse x = Inr y \<Longrightarrow> x = y" for x y
    by (simp add: tool_pattern_parse_Inr)
  have "wildcard_patterns names = Inr ps \<longleftrightarrow> list_all2 (\<lambda>x y. tool_pattern_parse x = Inr y) ?xs ps"
    by (simp add: wildcard_patterns_def traverse_Inr_iff map_err_Inr_iff)
  also have "\<dots> \<longleftrightarrow> ps = ?xs \<and> (\<forall>p \<in> set ps. tool_pattern_parse p = Inr p)"
  proof
    assume l: "list_all2 (\<lambda>x y. tool_pattern_parse x = Inr y) ?xs ps"
    then have "list_all2 (=) ?xs ps" by (rule list_all2_mono) (rule same)
    then have "ps = ?xs" by (simp add: list.rel_eq)
    with l show "ps = ?xs \<and> (\<forall>p \<in> set ps. tool_pattern_parse p = Inr p)"
      by (simp add: list_all2_same)
  qed (simp add: list_all2_same)
  finally show ?thesis .
qed

lemma validate_config_ok:
  assumes "validate_config config external = Inr u"
  shows "set (aa_allow (ac_actions config)) \<inter> set (aa_require_approval (ac_actions config)) = {}"
    and "set (aa_allow (ac_actions config)) \<inter> set (aa_deny (ac_actions config)) = {}"
    and "set (aa_require_approval (ac_actions config)) \<inter> set (aa_deny (ac_actions config)) = {}"
    and "external \<Longrightarrow> action_config_is_empty (ac_actions config)"
    and "set (ta_include (ac_tools config)) \<inter> set (ta_exclude (ac_tools config)) = {}"
  using assms by (auto simp: validate_config_def Let_def result_simps split: if_splits)

text \<open>Everything a successful resolution has established.\<close>

lemma resolve_access_okE:
  assumes "resolve_access config specs acts tools ctx external = Inr r"
  obtains ts where
    "validate_config config external = Inr ()"
    "distinct (map ad_name acts)" "distinct (map td_name tools)"
    "ar_actions r = map (resolve_action config external) (sort_key ad_name acts)"
    "traverse (resolve_tool config (sort_key td_name tools) (ar_actions r)
       (filter (\<lambda>n. CHR ''*'' \<in> set n) (ta_include (ac_tools config)))
       (filter (\<lambda>n. CHR ''*'' \<in> set n) (ta_exclude (ac_tools config))) ctx) specs = Inr ts"
    "ar_tools r = sort_key rt_name ts"
    "\<forall>p \<in> set (ta_include (ac_tools config)). CHR ''*'' \<in> set p \<longrightarrow> tool_pattern_parse p = Inr p"
    "\<forall>p \<in> set (ta_exclude (ac_tools config)). CHR ''*'' \<in> set p \<longrightarrow> tool_pattern_parse p = Inr p"
  using assms unfolding resolve_access_def Let_def
  by (auto simp: bind_r_Inr_iff collect_by_name_ok wildcard_patterns_ok split: if_splits)

section \<open>Resolved actions\<close>

lemma find_unique_key:
  assumes "distinct (map f xs)" and "x \<in> set xs"
  shows "find (\<lambda>y. f y = f x) xs = Some x"
  using assms by (induction xs) auto

lemma resolve_action_name [simp]: "ra_name (resolve_action config external d) = ad_name d"
  by (simp add: resolve_action_def Let_def split_beta)

lemma action_decision_resolved:
  assumes ok: "resolve_access config specs acts tools ctx external = Inr r"
    and d: "d \<in> set acts"
  shows "action_decision r (ad_name d) = Some (ra_decision (resolve_action config external d))"
proof -
  from ok obtain ts where acts: "distinct (map ad_name acts)"
    "ar_actions r = map (resolve_action config external) (sort_key ad_name acts)"
    by (rule resolve_access_okE)
  have "distinct (map ad_name (sort_key ad_name acts))"
    using acts(1) by (simp add: distinct_map)
  then have "find (\<lambda>y. ad_name y = ad_name d) (sort_key ad_name acts) = Some d"
    using d by (intro find_unique_key) auto
  then show ?thesis
    by (simp add: action_decision_def acts(2) find_map_comp option.map_comp comp_def)
qed

lemma action_decision_SomeE:
  assumes "resolve_access config specs acts tools ctx external = Inr r"
    and "action_decision r a = Some x"
  obtains d where "d \<in> set acts" "ad_name d = a"
    "ra_decision (resolve_action config external d) = x"
proof -
  from assms(1) have "ar_actions r = map (resolve_action config external) (sort_key ad_name acts)"
    by (rule resolve_access_okE)
  with assms(2) that show thesis
    by (auto simp: action_decision_def find_map_comp dest!: find_SomeD)
qed

lemma resolve_action_decision:
  "ra_decision (resolve_action config external d) =
     (if external then ExternalPolicy
      else if ad_name d \<in> set (aa_deny (ac_actions config)) then AccessDeny
      else if ad_name d \<in> set (aa_require_approval (ac_actions config)) then AccessRequireApproval
      else if ad_name d \<in> set (aa_allow (ac_actions config)) then AccessAllow
      else profile_decision (ac_profile config) d)"
  by (simp add: resolve_action_def)

section \<open>Resolved tools\<close>

text \<open>A selector selects a name when it is that name or a wildcard pattern that matches it.\<close>

definition selects :: "string list \<Rightarrow> string \<Rightarrow> bool" where
  "selects selectors name = (\<exists>s \<in> set selectors. glob s name)"

definition profile_selects :: "AccessProfile \<Rightarrow> ToolSpec \<Rightarrow> bool" where
  "profile_selects profile spec =
     (case profile of
        Minimal \<Rightarrow> ts_effect_action spec = None
      | Development \<Rightarrow> True | AllowAll \<Rightarrow> True | Pinned \<Rightarrow> False)"

lemma selector_matches_glob:
  "tool_pattern_parse p = Inr p \<Longrightarrow> selector_matches p n = glob p n"
  by (simp add: selector_matches_def tool_pattern_parse_Inr pattern_matches_glob)

lemma selects_split:
  assumes "\<forall>p \<in> set sel. CHR ''*'' \<in> set p \<longrightarrow> tool_pattern_parse p = Inr p"
  shows "selects sel n \<longleftrightarrow>
    n \<in> set sel \<or> find (\<lambda>p. selector_matches p n) (filter (\<lambda>n. CHR ''*'' \<in> set n) sel) \<noteq> None"
    (is "_ \<longleftrightarrow> ?rhs")
proof
  assume "selects sel n"
  then obtain p where p: "p \<in> set sel" "glob p n" by (auto simp: selects_def)
  show ?rhs
  proof (cases "CHR ''*'' \<in> set p")
    case True
    with p assms have "selector_matches p n" by (simp add: selector_matches_glob)
    with p(1) True show ?thesis by (auto simp: find_None_iff_set)
  next
    case False
    with p show ?thesis by (auto simp: glob_literal)
  qed
next
  assume ?rhs
  moreover have "glob n n" for n
  proof (induction n)
    case (Cons c n)
    show ?case
    proof (cases "c = CHR ''*''")
      case True
      have "glob (c # n) ([c] @ n)" unfolding True glob_star_iff using Cons by blast
      then show ?thesis by simp
    qed (use Cons in simp)
  qed simp
  ultimately show "selects sel n"
    using assms by (auto simp: selects_def selector_matches_glob dest!: find_SomeD)
qed

lemma sort_key_find:
  assumes "distinct (map f xs)"
  shows "find (\<lambda>y. f y = k) (sort_key f xs) = find (\<lambda>y. f y = k) xs"
proof (cases "find (\<lambda>y. f y = k) xs")
  case None
  moreover from None have "find (\<lambda>y. f y = k) (sort_key f xs) = None"
    by (simp add: find_None_iff_set)
  ultimately show ?thesis by simp
next
  case (Some x)
  then have x: "x \<in> set xs" "f x = k" by (auto dest: find_SomeD)
  have "distinct (map f (sort_key f xs))"
    using assms by (simp add: distinct_map)
  with x Some show ?thesis using find_unique_key [of f "sort_key f xs" x] by auto
qed

lemma tool_availability_active:
  assumes "tool_availability config spec inc exc unmet = Inr (a, why)"
  shows "a = Active \<longleftrightarrow>
    ts_name spec \<notin> set (ta_exclude (ac_tools config)) \<and> exc = None \<and>
    (profile_selects (ac_profile config) spec \<or> ts_name spec \<in> set (ta_include (ac_tools config))
      \<or> inc \<noteq> None) \<and> unmet = None"
  using assms unfolding tool_availability_def Let_def profile_selects_def
  by (cases "ac_profile config"; cases inc; cases exc; cases unmet) (auto split: if_splits)

lemma tool_effect_decision:
  assumes "tool_effect actions spec = Inr (cls, dec)" and "ts_effect_action spec = Some a"
  shows "\<exists>ra. find (\<lambda>x. ra_name x = a) actions = Some ra \<and> dec = Some (ra_decision ra)"
  using assms by (auto simp: tool_effect_def bind_r_Inr_iff ok_or_Inr_iff)

text \<open>What one iteration of the loop has established of the tool it resolved.\<close>

lemma resolve_tool_okE:
  assumes "resolve_tool config ms actions inc exc ctx spec = Inr t"
  obtains m a why cls dec where
    "find (\<lambda>m. td_name m = ts_name spec) ms = Some m"
    "tool_availability config spec (find (\<lambda>p. selector_matches p (ts_name spec)) inc)
       (find (\<lambda>p. selector_matches p (ts_name spec)) exc)
       (find (\<lambda>r. \<not> prerequisite_met r ctx) (td_prerequisites m)) = Inr (a, why)"
    "tool_effect actions spec = Inr (cls, dec)"
    "rt_name t = ts_name spec" "rt_availability t = a"
    "rt_effect_action t = ts_effect_action spec" "rt_decision t = dec"
proof -
  from assms obtain m av ef where *:
    "find (\<lambda>m. td_name m = ts_name spec) ms = Some m"
    "tool_availability config spec (find (\<lambda>p. selector_matches p (ts_name spec)) inc)
       (find (\<lambda>p. selector_matches p (ts_name spec)) exc)
       (find (\<lambda>r. \<not> prerequisite_met r ctx) (td_prerequisites m)) = Inr av"
    "tool_effect actions spec = Inr ef"
    "rt_name t = ts_name spec" "rt_availability t = fst av"
    "rt_effect_action t = ts_effect_action spec" "rt_decision t = snd ef"
    unfolding resolve_tool_def Let_def
    by (auto simp: bind_r_Inr_iff ok_or_Inr_iff split: if_splits prod.splits)
  then show thesis by (cases av; cases ef) (auto intro: that)
qed

lemma resolve_tool_active:
  assumes t: "resolve_tool config (sort_key td_name tools) actions
       (filter (\<lambda>n. CHR ''*'' \<in> set n) (ta_include (ac_tools config)))
       (filter (\<lambda>n. CHR ''*'' \<in> set n) (ta_exclude (ac_tools config))) ctx spec = Inr t"
    and d: "distinct (map td_name tools)"
    and inc: "\<forall>p \<in> set (ta_include (ac_tools config)). CHR ''*'' \<in> set p \<longrightarrow> tool_pattern_parse p = Inr p"
    and exc: "\<forall>p \<in> set (ta_exclude (ac_tools config)). CHR ''*'' \<in> set p \<longrightarrow> tool_pattern_parse p = Inr p"
  shows "rt_availability t = Active \<longleftrightarrow>
    \<not> selects (ta_exclude (ac_tools config)) (ts_name spec) \<and>
    (profile_selects (ac_profile config) spec \<or> selects (ta_include (ac_tools config)) (ts_name spec)) \<and>
    (\<forall>m \<in> set tools. td_name m = ts_name spec
      \<longrightarrow> (\<forall>q \<in> set (td_prerequisites m). prerequisite_met q ctx))"
proof -
  from t obtain m a why where m: "find (\<lambda>m. td_name m = ts_name spec) (sort_key td_name tools) = Some m"
    and av: "tool_availability config spec
       (find (\<lambda>p. selector_matches p (ts_name spec))
         (filter (\<lambda>n. CHR ''*'' \<in> set n) (ta_include (ac_tools config))))
       (find (\<lambda>p. selector_matches p (ts_name spec))
         (filter (\<lambda>n. CHR ''*'' \<in> set n) (ta_exclude (ac_tools config))))
       (find (\<lambda>r. \<not> prerequisite_met r ctx) (td_prerequisites m)) = Inr (a, why)"
    and a: "rt_availability t = a"
    by (rule resolve_tool_okE)
  have mm: "m \<in> set tools" "td_name m = ts_name spec" using m by (auto dest: find_SomeD)
  have "m' = m" if "m' \<in> set tools" "td_name m' = ts_name spec" for m'
    using that mm d by (metis distinct_map inj_on_def)
  with mm have pre: "(\<forall>m' \<in> set tools. td_name m' = ts_name spec
      \<longrightarrow> (\<forall>q \<in> set (td_prerequisites m'). prerequisite_met q ctx))
    \<longleftrightarrow> find (\<lambda>r. \<not> prerequisite_met r ctx) (td_prerequisites m) = None"
    unfolding find_None_iff_set by blast
  show ?thesis
    unfolding a tool_availability_active [OF av] pre selects_split [OF inc] selects_split [OF exc]
    by simp
qed

lemma resolve_access_overrides_known:
  assumes "resolve_access config specs acts tools ctx external = Inr r"
    and "a \<in> set (aa_allow (ac_actions config)) \<or> a \<in> set (aa_require_approval (ac_actions config))
      \<or> a \<in> set (aa_deny (ac_actions config))"
  shows "a \<in> ad_name ` set acts"
  using assms unfolding resolve_access_def Let_def
  by (auto simp: bind_r_Inr_iff collect_by_name_ok check_all_Inr_iff split: if_splits)

lemma ok_exists: "is_ok x \<Longrightarrow> \<exists>r. x = Inr r"
  by (cases x) auto

text \<open>A small configuration on which the properties are instantiated: the development profile with
  one denied action, a wildcard exclude and an exact include.\<close>

definition example_config :: AccessConfig where
  "example_config = \<lparr>ac_profile = Development,
     ac_tools = \<lparr>ta_include = [''shell.run''], ta_exclude = [''git.*'']\<rparr>,
     ac_actions = \<lparr>aa_allow = [''network.http''], aa_require_approval = [''task.list''],
       aa_deny = [''shell.run'']\<rparr>\<rparr>"

definition example_actions :: "ActionDescriptor list" where
  "example_actions =
     [\<lparr>ad_name = ''shell.run'', ad_class = Execution, ad_source = Core\<rparr>,
      \<lparr>ad_name = ''task.list'', ad_class = Read, ad_source = Core\<rparr>,
      \<lparr>ad_name = ''network.http'', ad_class = ExternalNetwork, ad_source = Core\<rparr>,
      \<lparr>ad_name = ''git.status'', ad_class = Read, ad_source = Core\<rparr>]"

definition example_tools :: "ToolDescriptor list" where
  "example_tools =
     [\<lparr>td_name = ''shell.run'', td_family = ''process'', td_source = Core,
        td_prerequisites = [AnyExecutable]\<rparr>,
      \<lparr>td_name = ''git.status'', td_family = ''git'', td_source = Core,
        td_prerequisites = [FilesystemRead, GitExecutable]\<rparr>]"

definition example_specs :: "ToolSpec list" where
  "example_specs =
     [\<lparr>ts_name = ''shell.run'', ts_description = [], ts_input_schema = JNull,
        ts_effect_action = Some ''shell.run'', ts_capability = Some ''shell.run'',
        ts_max_output_bytes = 1\<rparr>,
      \<lparr>ts_name = ''git.status'', ts_description = [], ts_input_schema = JNull,
        ts_effect_action = Some ''git.status'', ts_capability = None, ts_max_output_bytes = 1\<rparr>]"

definition example_context :: AccessContext where
  "example_context = \<lparr>ctx_filesystem_read = True, ctx_filesystem_write = False,
     ctx_git_executable = True, ctx_any_executable = True, ctx_network_destination = False,
     ctx_model_network_tools = False, ctx_agent_search_route = False, ctx_interactive = False,
     ctx_mcp_configured = False, ctx_browser_available = False, ctx_computer_available = False\<rparr>"

lemma example_resolves:
  "is_ok (resolve_access example_config example_specs example_actions example_tools
     example_context False)"
  by code_simp

section \<open>Properties\<close>

text \<open>C19. The operator's explicit decisions: in a configuration that resolves with the built-in
  policy, every action on the deny list is denied, every action on the approval list requires
  approval, every action on the allow list is allowed, whatever the profile says, and every
  other classified action gets exactly the decision of the profile. (The three lists are
  tested in a fixed order; that the order never matters is what the validation ensures.)\<close>

theorem explicit_overrides_decide:
  assumes ok: "resolve_access config specs acts tools ctx False = Inr r"
  shows "(\<forall>a \<in> set (aa_deny (ac_actions config)). action_decision r a = Some AccessDeny) \<and>
    (\<forall>a \<in> set (aa_require_approval (ac_actions config)).
       action_decision r a = Some AccessRequireApproval) \<and>
    (\<forall>a \<in> set (aa_allow (ac_actions config)). action_decision r a = Some AccessAllow) \<and>
    (\<forall>d \<in> set acts. ad_name d \<notin> set (aa_deny (ac_actions config))
        \<union> set (aa_require_approval (ac_actions config)) \<union> set (aa_allow (ac_actions config))
      \<longrightarrow> action_decision r (ad_name d) = Some (profile_decision (ac_profile config) d))"
proof -
  have valid: "validate_config config False = Inr ()" using ok by (rule resolve_access_okE)
  note disjoint = validate_config_ok [OF valid]
  have dec: "action_decision r a = Some (ra_decision (resolve_action config False d))"
    if "d \<in> set acts" "ad_name d = a" for a d
    using action_decision_resolved [OF ok that(1)] that(2) by simp
  note known = resolve_access_overrides_known [OF ok]
  show ?thesis
  proof (intro conjI ballI impI)
    fix a assume a: "a \<in> set (aa_deny (ac_actions config))"
    then obtain d where "d \<in> set acts" "ad_name d = a" using known by blast
    with a show "action_decision r a = Some AccessDeny" by (simp add: dec resolve_action_decision)
  next
    fix a assume a: "a \<in> set (aa_require_approval (ac_actions config))"
    then obtain d where "d \<in> set acts" "ad_name d = a" using known by blast
    with a disjoint(3) show "action_decision r a = Some AccessRequireApproval"
      by (auto simp: dec resolve_action_decision)
  next
    fix a assume a: "a \<in> set (aa_allow (ac_actions config))"
    then obtain d where "d \<in> set acts" "ad_name d = a" using known by blast
    with a disjoint(1,2) show "action_decision r a = Some AccessAllow"
      by (auto simp: dec resolve_action_decision)
  next
    fix d assume "d \<in> set acts" and "ad_name d \<notin> set (aa_deny (ac_actions config))
        \<union> set (aa_require_approval (ac_actions config)) \<union> set (aa_allow (ac_actions config))"
    then show "action_decision r (ad_name d) = Some (profile_decision (ac_profile config) d)"
      by (simp add: dec resolve_action_decision)
  qed
qed

theorem explicit_overrides_decide_witness:
  "\<exists>r. resolve_access example_config example_specs example_actions example_tools
      example_context False = Inr r \<and> action_decision r ''shell.run'' = Some AccessDeny"
proof -
  obtain r where ok: "resolve_access example_config example_specs example_actions example_tools
      example_context False = Inr r"
    using ok_exists [OF example_resolves] by blast
  with explicit_overrides_decide [OF ok] show ?thesis
    by (auto simp: example_config_def)
qed

text \<open>C20. Tool exposure: a name is offered to the model exactly when it names a specified tool that
  no exclude selector matches, that the profile or an include selector selects, and all of
  whose descriptor's prerequisites are met by the runtime. Selectors mean what the wildcard
  grammar says (\<open>glob\<close>), although the code tests exact names and patterns separately.\<close>

theorem active_tools_exact:
  assumes ok: "resolve_access config specs acts tools ctx external = Inr r"
  shows "n \<in> set (active_tool_names r) \<longleftrightarrow>
    (\<exists>spec \<in> set specs. ts_name spec = n
      \<and> \<not> selects (ta_exclude (ac_tools config)) n
      \<and> (profile_selects (ac_profile config) spec \<or> selects (ta_include (ac_tools config)) n)
      \<and> (\<forall>m \<in> set tools. td_name m = n
          \<longrightarrow> (\<forall>q \<in> set (td_prerequisites m). prerequisite_met q ctx)))"
proof -
  from ok obtain ts where d: "distinct (map td_name tools)"
    and ts: "traverse (resolve_tool config (sort_key td_name tools) (ar_actions r)
       (filter (\<lambda>n. CHR ''*'' \<in> set n) (ta_include (ac_tools config)))
       (filter (\<lambda>n. CHR ''*'' \<in> set n) (ta_exclude (ac_tools config))) ctx) specs = Inr ts"
    and r: "ar_tools r = sort_key rt_name ts"
    and pats: "\<forall>p \<in> set (ta_include (ac_tools config)). CHR ''*'' \<in> set p \<longrightarrow> tool_pattern_parse p = Inr p"
      "\<forall>p \<in> set (ta_exclude (ac_tools config)). CHR ''*'' \<in> set p \<longrightarrow> tool_pattern_parse p = Inr p"
    by (rule resolve_access_okE)
  let ?ok = "\<lambda>spec. \<not> selects (ta_exclude (ac_tools config)) (ts_name spec)
      \<and> (profile_selects (ac_profile config) spec \<or> selects (ta_include (ac_tools config)) (ts_name spec))
      \<and> (\<forall>m \<in> set tools. td_name m = ts_name spec
          \<longrightarrow> (\<forall>q \<in> set (td_prerequisites m). prerequisite_met q ctx))"
  have "list_all2 (\<lambda>spec t. rt_name t = ts_name spec \<and> (rt_availability t = Active \<longleftrightarrow> ?ok spec)) specs ts"
    using ts unfolding traverse_Inr_iff
  proof (rule list_all2_mono)
    fix spec t
    assume t: "resolve_tool config (sort_key td_name tools) (ar_actions r)
       (filter (\<lambda>n. CHR ''*'' \<in> set n) (ta_include (ac_tools config)))
       (filter (\<lambda>n. CHR ''*'' \<in> set n) (ta_exclude (ac_tools config))) ctx spec = Inr t"
    then have "rt_name t = ts_name spec" by (rule resolve_tool_okE)
    with resolve_tool_active [OF t d pats]
    show "rt_name t = ts_name spec \<and> (rt_availability t = Active \<longleftrightarrow> ?ok spec)" by blast
  qed
  then have "(\<exists>t \<in> set ts. rt_name t = n \<and> rt_availability t = Active)
      \<longleftrightarrow> (\<exists>spec \<in> set specs. ts_name spec = n \<and> ?ok spec)"
    by (induction rule: list_all2_induct) auto
  moreover have "n \<in> set (active_tool_names r) \<longleftrightarrow> (\<exists>t \<in> set ts. rt_name t = n \<and> rt_availability t = Active)"
    by (auto simp: active_tool_names_def r)
  moreover have "(\<exists>spec \<in> set specs. ts_name spec = n \<and> ?ok spec) \<longleftrightarrow>
    (\<exists>spec \<in> set specs. ts_name spec = n
      \<and> \<not> selects (ta_exclude (ac_tools config)) n
      \<and> (profile_selects (ac_profile config) spec \<or> selects (ta_include (ac_tools config)) n)
      \<and> (\<forall>m \<in> set tools. td_name m = n
          \<longrightarrow> (\<forall>q \<in> set (td_prerequisites m). prerequisite_met q ctx)))"
    by (rule bex_cong) auto
  ultimately show ?thesis by simp
qed

theorem active_tools_exact_witness:
  "\<exists>r. resolve_access example_config example_specs example_actions example_tools
      example_context False = Inr r \<and> ''git.status'' \<notin> set (active_tool_names r)"
proof -
  obtain r where ok: "resolve_access example_config example_specs example_actions example_tools
      example_context False = Inr r"
    using ok_exists [OF example_resolves] by blast
  have "selects (ta_exclude (ac_tools example_config)) ''git.status''"
    by (simp add: selects_def example_config_def)
  with ok active_tools_exact [OF ok, of "''git.status''"] show ?thesis by blast
qed



end
