(* ===== verification/Registry.thy ===== *)
theory Registry
  imports Access
begin

text \<open>
  The built-in registry (crate \<open>colossus-access\<close>, \<open>registry.rs\<close>): the descriptor of every
  built-in tool and the class of every first-party action, as the resolver receives them.
\<close>

section \<open>Tools\<close>

definition simple_tool :: "string \<Rightarrow> string \<times> ToolPrerequisite list" where
  "simple_tool family = (family, [])"

definition builtin_tool_class :: "string \<Rightarrow> (string \<times> ToolPrerequisite list) option" where
  "builtin_tool_class name =
    (if name \<in> {
        ''echo'', ''user.ask'', ''tool.search'', ''trace.show''}
      then Some ((''utility'', if name = ''user.ask'' then [Interactive] else []))
     else if name \<in> {
        ''filesystem.list'', ''filesystem.read'', ''filesystem.search'', ''image.view''}
      then Some ((''filesystem'', [FilesystemRead]))
     else if name \<in> {
        ''filesystem.write'', ''filesystem.replace''}
      then Some ((''filesystem'', [FilesystemWrite]))
     else if name \<in> {
        ''git.status'', ''git.diff'', ''git.show''}
      then Some ((''git'', [FilesystemRead, GitExecutable]))
     else if name \<in> {
        ''shell.wait'', ''shell.read'', ''shell.list'', ''shell.stop''}
      then Some (simple_tool ''process'')
     else if name \<in> {
        ''shell.run''}
      then Some ((''process'', [AnyExecutable]))
     else if name \<in> {
        ''repo.map'', ''repo.symbol_search'', ''repo.references'', ''repo.file_summary''}
      then Some ((''repository'', [FilesystemRead]))
     else if name \<in> {
        ''patch.preview''}
      then Some ((''patch'', [FilesystemRead]))
     else if name \<in> {
        ''patch.apply'', ''patch.reverse''}
      then Some ((''patch'', [FilesystemWrite]))
     else if name \<in> {
        ''trace.export''}
      then Some ((''trace'', [FilesystemWrite]))
     else if name \<in> {
        ''session.set_title''}
      then Some (simple_tool ''sessions'')
     else if name \<in> {
        ''workflow.definition.list'', ''workflow.definition.get'', ''workflow.schedule.list'',
        ''workflow.schedule.get'', ''workflow.schedule.create'', ''workflow.task.schedule'',
        ''workflow.schedule.set_enabled'', ''workflow.schedule.delete''}
      then Some (simple_tool ''workflows'')
     else if name \<in> {
        ''task.create'', ''task.update'', ''task.list''}
      then Some (simple_tool ''tasks'')
     else if name \<in> {
        ''decision.create'', ''decision.update'', ''decision.list'', ''decision.archive'',
        ''decision.supersede''}
      then Some (simple_tool ''decisions'')
     else if name \<in> {
        ''plan.create'', ''plan.update'', ''plan.show'', ''plan.approve_request''}
      then Some (simple_tool ''plans'')
     else if name \<in> {
        ''goal.show'', ''goal.update''}
      then Some (simple_tool ''goals'')
     else if name \<in> {
        ''agent.delegate'', ''agent.result'', ''agent.list''}
      then Some (simple_tool ''subagents'')
     else if name \<in> {
        ''agent.participants'', ''agent.send_message'', ''agent.inbox'', ''agent.await_message''}
      then Some (simple_tool ''communication'')
     else if name \<in> {
        ''memory.create'', ''memory.update'', ''memory.list'', ''memory.search'',
        ''memory.archive'', ''memory.supersede''}
      then Some (simple_tool ''memory'')
     else if name \<in> {
        ''context.show'', ''context.compact'', ''context.snapshots'', ''context.restore''}
      then Some (simple_tool ''context'')
     else if name \<in> {
        ''plugin.list'', ''plugin.inspect'', ''plugin.skill.read'', ''plugin.resource.list'',
        ''plugin.resource.read''}
      then Some (simple_tool ''plugins'')
     else if name \<in> {
        ''web.search''}
      then Some ((''web'', [AgentSearchRoute]))
     else if name \<in> {
        ''web.fetch'', ''docs.fetch'', ''network.http''}
      then Some ((''web'', [NetworkDestination, ModelNetworkTools]))
     else if name \<in> {
        ''mcp.servers'', ''mcp.search'', ''mcp.tools'', ''mcp.call''}
      then Some ((''mcp'', [McpConfigured]))
     else if name \<in> {
        ''browser.open'', ''browser.status'', ''browser.tabs'', ''browser.tab.open'',
        ''browser.tab.select'', ''browser.tab.close'', ''browser.navigate'', ''browser.back'',
        ''browser.forward'', ''browser.reload'', ''browser.stop'', ''browser.snapshot'',
        ''browser.screenshot'', ''browser.click'', ''browser.fill'', ''browser.select'',
        ''browser.upload'', ''browser.download'', ''browser.press'', ''browser.scroll'',
        ''browser.wait'', ''browser.close''}
      then Some ((''browser'', [BrowserAvailable]))
     else if name \<in> {
        ''browser.evaluate'', ''browser.cdp'', ''browser.hover'', ''browser.double_click'',
        ''browser.right_click'', ''browser.drag'', ''browser.click_at'', ''browser.drag_at'',
        ''browser.annotate'', ''browser.annotation.clear'', ''browser.screenshot.annotated''}
      then Some ((''browser'', [BrowserAvailable]))
     else if name \<in> {
        ''computer.windows'', ''computer.open'', ''computer.status'', ''computer.snapshot'',
        ''computer.screenshot'', ''computer.focus'', ''computer.move'', ''computer.click'',
        ''computer.drag'', ''computer.scroll'', ''computer.type'', ''computer.press'',
        ''computer.close''}
      then Some ((''computer'', [ComputerAvailable]))
     else None)"

definition builtin_tool_descriptor :: "string \<Rightarrow> (AccessError, ToolDescriptor) result" where
  "builtin_tool_descriptor name =
     (case builtin_tool_class name of
        None \<Rightarrow> Inl (Unclassified (''tool '' @ name))
      | Some (family, prerequisites) \<Rightarrow>
          Inr \<lparr>td_name = name, td_family = family,
            td_source = (if family = ''mcp'' then Mcp else Core),
            td_prerequisites = prerequisites\<rparr>)"

section \<open>Actions\<close>

definition push_sourced_actions ::
    "ActionDescriptor list \<Rightarrow> ActionClass \<Rightarrow> CapabilitySource \<Rightarrow> string list
      \<Rightarrow> ActionDescriptor list" where
  "push_sourced_actions descriptors class source names =
     descriptors @ map (\<lambda>name. \<lparr>ad_name = name, ad_class = class, ad_source = source\<rparr>) names"

definition push_actions ::
    "ActionDescriptor list \<Rightarrow> ActionClass \<Rightarrow> string list \<Rightarrow> ActionDescriptor list" where
  "push_actions descriptors class names = push_sourced_actions descriptors class Core names"

text \<open>The names of the nine blocks, in the order in which they are pushed.\<close>

definition provider_action_names :: "string list" where
  "provider_action_names = [
     ''provider.echo'', ''provider.openai.responses'', ''provider.openai.codex'',
     ''provider.openai.chat'', ''provider.anthropic.messages'', ''provider.models'',
     ''provider.call'']"

definition read_action_names :: "string list" where
  "read_action_names = [
     ''workflow.definition.read'', ''workflow.schedule.list'', ''workflow.schedule.get'',
     ''workflow.run.read'', ''filesystem.read'', ''filesystem.read_image'', ''filesystem.list'',
     ''filesystem.metadata'', ''filesystem.search'', ''git.status'', ''git.diff'', ''git.show'',
     ''repo.map'', ''repo.symbol_search'', ''repo.references'', ''repo.file_summary'',
     ''context.show'', ''context.snapshots'', ''patch.preview'', ''shell.read'', ''shell.list'',
     ''task.list'', ''decision.list'', ''plan.show'', ''goal.show'', ''subagent.read'',
     ''subagent.list'', ''agent.message.read'', ''memory.read'', ''memory.list'',
     ''memory.search'', ''memory.index.status'', ''plugin.list'', ''plugin.inspect'',
     ''plugin.skill.read'', ''plugin.resource.list'', ''plugin.resource.read'',
     ''plugin.validate'', ''plugin.verify'', ''bundle.verify'', ''bundle.key.inspect'',
     ''browser.status'', ''browser.tabs'', ''browser.snapshot'', ''browser.screenshot'',
     ''browser.screenshot.annotated'', ''browser.evaluate'', ''browser.cdp'', ''browser.wait'',
     ''computer.windows'', ''computer.status'', ''computer.snapshot'', ''computer.screenshot'']"

definition local_state_action_names :: "string list" where
  "local_state_action_names = [
     ''shell.stop'', ''session.set_title'', ''context.compact'', ''context.restore'',
     ''presentation.preferences.update'', ''presentation.history.append'', ''task.create'',
     ''task.update'', ''decision.create'', ''decision.update'', ''decision.archive'',
     ''decision.supersede'', ''plan.create'', ''plan.update'', ''plan.discard'',
     ''goal.create'', ''goal.update'', ''goal.iteration.record'', ''subagent.create'',
     ''subagent.start'', ''subagent.complete'', ''subagent.fail'', ''subagent.cancel'',
     ''subagent.interrupt'', ''subagent.requeue'', ''agent.message.send'', ''memory.create'',
     ''memory.update'', ''memory.archive'', ''memory.supersede'', ''memory.index.sync'',
     ''memory.index.rebuild'', ''workflow.webhook.ingest'', ''workflow.subscription.dispatch'',
     ''browser.tab.select'', ''browser.annotate'', ''browser.annotation.clear'',
     ''browser.tab.close'', ''browser.stop'', ''browser.close'', ''computer.open'',
     ''computer.close'']"

definition workspace_mutation_action_names :: "string list" where
  "workspace_mutation_action_names = [
     ''filesystem.write'', ''patch.apply'', ''patch.reverse'', ''trace.export'',
     ''audit.export.write'']"

definition execution_action_names :: "string list" where
  "execution_action_names = [
     ''plugin.registry.credential_helper'', ''process.spawn'', ''shell.run'',
     ''workflow.execute'', ''workflow.start'', ''agent.run'', ''plan.execute'',
     ''computer.focus'', ''computer.move'', ''computer.click'', ''computer.drag'',
     ''computer.scroll'', ''computer.type'', ''computer.press'']"

definition external_network_action_names :: "string list" where
  "external_network_action_names = [
     ''network.http'', ''web.search'', ''research.run'', ''integration.openapi.import'',
     ''integration.connect'', ''integration.disconnect'', ''integration.invoke'',
     ''browser.open'', ''browser.tab.open'', ''browser.navigate'', ''browser.back'',
     ''browser.forward'', ''browser.reload'', ''browser.click'', ''browser.hover'',
     ''browser.double_click'', ''browser.right_click'', ''browser.drag'', ''browser.click_at'',
     ''browser.drag_at'', ''browser.upload'', ''browser.download'', ''browser.fill'',
     ''browser.select'', ''browser.press'', ''browser.scroll'']"

definition mcp_read_action_names :: "string list" where
  "mcp_read_action_names = [
     ''mcp.tools'']"

definition mcp_network_action_names :: "string list" where
  "mcp_network_action_names = [
     ''mcp.invoke'', ''mcp.call'']"

definition administration_action_names :: "string list" where
  "administration_action_names = [
     ''workflow.schedule.create'', ''workflow.schedule.set_enabled'',
     ''workflow.schedule.delete'', ''workflow.definition.register'', ''workflow.run.start'',
     ''plan.approve_request'', ''audit.export.worm.write'', ''plugin.install'',
     ''plugin.enable'', ''plugin.workspace.accept'', ''plugin.workspace.disable'',
     ''plugin.disable'', ''plugin.update'', ''plugin.uninstall'', ''plugin.gc'',
     ''plugin.package'', ''plugin.push'', ''plugin.pull'', ''plugin.export'', ''bundle.build'',
     ''bundle.install'']"

definition builtin_action_descriptors :: "ActionDescriptor list" where
  "builtin_action_descriptors =
    (let descriptors = [];
      descriptors = push_actions descriptors Provider provider_action_names;
      descriptors = push_actions descriptors Read read_action_names;
      descriptors = push_actions descriptors LocalState local_state_action_names;
      descriptors = push_actions descriptors WorkspaceMutation workspace_mutation_action_names;
      descriptors = push_actions descriptors Execution execution_action_names;
      descriptors = push_actions descriptors ExternalNetwork external_network_action_names;
      descriptors = push_sourced_actions descriptors Read Mcp mcp_read_action_names;
      descriptors = push_sourced_actions descriptors ExternalNetwork Mcp mcp_network_action_names;
      descriptors = push_actions descriptors Administration administration_action_names
     in sort_key ad_name descriptors)"

section \<open>Lemmas\<close>

lemmas action_name_defs = provider_action_names_def read_action_names_def
  local_state_action_names_def workspace_mutation_action_names_def execution_action_names_def
  external_network_action_names_def mcp_read_action_names_def mcp_network_action_names_def
  administration_action_names_def

definition builtin_action_names :: "string list" where
  "builtin_action_names = provider_action_names @ read_action_names @ local_state_action_names
     @ workspace_mutation_action_names @ execution_action_names @ external_network_action_names
     @ mcp_read_action_names @ mcp_network_action_names @ administration_action_names"

lemma builtin_action_names_set:
  "ad_name ` set builtin_action_descriptors = set builtin_action_names"
  by (simp add: builtin_action_descriptors_def builtin_action_names_def push_actions_def
      push_sourced_actions_def Let_def image_Un image_image Un_assoc)

text \<open>
  Distinctness of a long list of names, decided by splitting on the first character: every
  character is looked at once, where the quadratic definition would compare all pairs.
\<close>

definition heads_with :: "char \<Rightarrow> string list \<Rightarrow> string list" where
  "heads_with c xs = filter (\<lambda>z. case z of [] \<Rightarrow> False | d # _ \<Rightarrow> d = c) xs"

definition heads_without :: "char \<Rightarrow> string list \<Rightarrow> string list" where
  "heads_without c xs = filter (\<lambda>z. case z of [] \<Rightarrow> True | d # _ \<Rightarrow> d \<noteq> c) xs"

lemma sum_list_filter_le: "sum_list (map f (filter P xs)) \<le> (sum_list (map f xs) :: nat)"
  by (induction xs) auto

lemma heads_with_tl: "sum_list (map (Suc \<circ> length) (map tl (heads_with c xs)))
    \<le> sum_list (map (Suc \<circ> length) xs)"
proof -
  have "sum_list (map (Suc \<circ> length) (map tl ys)) \<le> sum_list (map (Suc \<circ> length) ys)" for ys :: "string list"
    by (induction ys) auto
  also have "sum_list (map (Suc \<circ> length) (heads_with c xs)) \<le> sum_list (map (Suc \<circ> length) xs)"
    unfolding heads_with_def by (rule sum_list_filter_le)
  finally show ?thesis by this
qed

function names_distinct :: "string list \<Rightarrow> bool" where
  "names_distinct [] = True"
| "names_distinct ([] # xs) = (\<not> list_ex (\<lambda>z. z = []) xs \<and> names_distinct xs)"
| "names_distinct ((c # cs) # xs) =
     (xs = [] \<or> (names_distinct (cs # map tl (heads_with c xs)) \<and> names_distinct (heads_without c xs)))"
  by pat_completeness auto
termination
proof (relation "measure (\<lambda>xs. sum_list (map (Suc \<circ> length) xs))", goal_cases)
  case (3 c cs xs)
  then show ?case using heads_with_tl [of c xs] by simp
next
  case (4 c cs xs)
  have "sum_list (map (Suc \<circ> length) (heads_without c xs)) \<le> sum_list (map (Suc \<circ> length) xs)"
    unfolding heads_without_def by (rule sum_list_filter_le)
  then show ?case by simp
qed auto

lemma heads_with_mem: "ds \<in> set (map tl (heads_with c xs)) \<longleftrightarrow> c # ds \<in> set xs"
proof -
  have "z \<in> set (heads_with c xs) \<longleftrightarrow> (\<exists>zs. z = c # zs \<and> z \<in> set xs)" for z
    by (cases z) (auto simp: heads_with_def)
  note mem = this
  show ?thesis
  proof
    assume "ds \<in> set (map tl (heads_with c xs))"
    then show "c # ds \<in> set xs" using mem by auto
  next
    assume "c # ds \<in> set xs"
    then have "c # ds \<in> set (heads_with c xs)" using mem by auto
    then have "tl (c # ds) \<in> tl ` set (heads_with c xs)" by (rule imageI)
    then show "ds \<in> set (map tl (heads_with c xs))" by simp
  qed
qed

lemma heads_without_mem: "d \<noteq> c \<Longrightarrow> d # ds \<in> set (heads_without c xs) \<longleftrightarrow> d # ds \<in> set xs"
  by (simp add: heads_without_def)

lemma heads_with_Cons: "heads_with c ((d # ds) # xs)
    = (if d = c then (d # ds) # heads_with c xs else heads_with c xs)"
  by (simp add: heads_with_def)

lemma heads_without_Cons: "heads_without c ((d # ds) # xs)
    = (if d = c then heads_without c xs else (d # ds) # heads_without c xs)"
  by (simp add: heads_without_def)

lemma heads_distinct:
  "distinct xs \<longleftrightarrow> distinct (map tl (heads_with c xs)) \<and> distinct (heads_without c xs)"
proof (induction xs)
  case (Cons x xs)
  show ?case
  proof (cases x)
    case Nil
    with Cons show ?thesis by (auto simp: heads_with_def heads_without_def)
  next
    case (Cons d ds)
    with Cons.IH show ?thesis
      using heads_with_mem [of ds c xs] heads_without_mem [of d c ds xs]
      by (cases "d = c") (simp_all add: heads_with_Cons heads_without_Cons del: set_map, blast+)
  qed
qed (simp add: heads_with_def heads_without_def)

lemma names_distinct_iff: "names_distinct xs \<longleftrightarrow> distinct xs"
proof (induction xs rule: names_distinct.induct)
  case (2 xs)
  then show ?case by (auto simp: list_ex_iff)
next
  case (3 c cs xs)
  show ?case
  proof (cases "xs = []")
    case False
    with 3 have "names_distinct ((c # cs) # xs) \<longleftrightarrow>
        distinct (cs # map tl (heads_with c xs)) \<and> distinct (heads_without c xs)" by simp
    also have "\<dots> \<longleftrightarrow> distinct ((c # cs) # xs)"
      using heads_distinct [of "(c # cs) # xs" c]
      by (simp add: heads_with_Cons heads_without_Cons)
    finally show ?thesis .
  qed simp
qed simp

lemma builtin_action_names_distinct: "distinct builtin_action_names"
  unfolding names_distinct_iff [symmetric] by code_simp

lemma map_push_names [simp]:
  "map ad_name (push_sourced_actions ds cl so names) = map ad_name ds @ names"
  by (simp add: push_sourced_actions_def comp_def)

lemma builtin_descriptor_distinct: "distinct (map ad_name builtin_action_descriptors)"
proof -
  obtain ds where "builtin_action_descriptors = sort_key ad_name ds"
    and "map ad_name ds = builtin_action_names"
    by (rule that [OF builtin_action_descriptors_def [unfolded Let_def]])
      (simp add: push_actions_def builtin_action_names_def)
  with builtin_action_names_distinct show ?thesis by (metis distinct_map distinct_sort set_sort)
qed

section \<open>Properties\<close>

text \<open>The built-in registry is canonical: no action name is classified twice and the
  descriptors come sorted by name, so the resolver accepts the registry without ever reporting
  a duplicate action descriptor.\<close>

theorem builtin_actions_canonical:
  "distinct (map ad_name builtin_action_descriptors) \<and>
   sorted (map ad_name builtin_action_descriptors) \<and>
   collect_by_name ''duplicate action descriptor '' ad_name builtin_action_descriptors
     = Inr builtin_action_descriptors"
proof -
  have "sorted (map ad_name builtin_action_descriptors)"
    by (simp add: builtin_action_descriptors_def Let_def)
  with builtin_descriptor_distinct show ?thesis
    by (simp add: collect_by_name_ok sorted_sort_id sort_key_id_if_sorted)
qed

text \<open>What the default configuration leaves to the operator: with the built-in registry and
  the default (allow-all) profile, exactly the three actions that change workflow schedules
  require approval and nothing is denied.\<close>

theorem default_profile_exceptions:
  assumes ok: "resolve_access default_access_config specs builtin_action_descriptors tools ctx False = Inr r"
  shows "{a. action_decision r a = Some AccessRequireApproval}
      = {''workflow.schedule.create'', ''workflow.schedule.set_enabled'', ''workflow.schedule.delete''}
    \<and> (\<forall>a. action_decision r a \<noteq> Some AccessDeny)"
proof -
  have dec: "action_decision r a = Some x \<longleftrightarrow>
      (\<exists>d \<in> set builtin_action_descriptors. ad_name d = a \<and> profile_decision AllowAll d = x)" for a x
  proof
    assume "action_decision r a = Some x"
    with ok obtain d where "d \<in> set builtin_action_descriptors" "ad_name d = a"
      "ra_decision (resolve_action default_access_config False d) = x"
      by (rule action_decision_SomeE)
    then show "\<exists>d \<in> set builtin_action_descriptors. ad_name d = a \<and> profile_decision AllowAll d = x"
      by (auto simp: resolve_action_decision default_access_config_def)
  next
    assume "\<exists>d \<in> set builtin_action_descriptors. ad_name d = a \<and> profile_decision AllowAll d = x"
    then show "action_decision r a = Some x"
      using action_decision_resolved [OF ok]
      by (auto simp: resolve_action_decision default_access_config_def)
  qed
  have "{''workflow.schedule.create'', ''workflow.schedule.set_enabled'', ''workflow.schedule.delete''}
      \<subseteq> ad_name ` set builtin_action_descriptors"
    unfolding builtin_action_names_set by (simp add: builtin_action_names_def administration_action_names_def)
  moreover have "action_decision r a = Some AccessRequireApproval \<longleftrightarrow>
      a \<in> ad_name ` set builtin_action_descriptors
      \<and> a \<in> {''workflow.schedule.create'', ''workflow.schedule.set_enabled'', ''workflow.schedule.delete''}" for a
  proof -
    have "profile_decision AllowAll d = AccessRequireApproval \<longleftrightarrow> ad_name d \<in>
        {''workflow.schedule.create'', ''workflow.schedule.set_enabled'', ''workflow.schedule.delete''}"
      for d :: ActionDescriptor by (simp add: profile_decision_def)
    then show ?thesis unfolding dec by (simp only:) blast
  qed
  ultimately have "{a. action_decision r a = Some AccessRequireApproval}
      = {''workflow.schedule.create'', ''workflow.schedule.set_enabled'', ''workflow.schedule.delete''}"
    by blast
  moreover have "\<forall>a. action_decision r a \<noteq> Some AccessDeny"
    unfolding dec by (simp add: profile_decision_def)
  ultimately show ?thesis by blast
qed

theorem default_profile_exceptions_witness:
  "\<exists>r. resolve_access default_access_config [] builtin_action_descriptors [] example_context False = Inr r
     \<and> action_decision r ''workflow.schedule.delete'' = Some AccessRequireApproval"
proof -
  have "validate_config default_access_config False = Inr ()" by code_simp
  moreover have "collect_by_name l ad_name builtin_action_descriptors
      = Inr (sort_key ad_name builtin_action_descriptors)" for l
    using builtin_descriptor_distinct by (simp add: collect_by_name_ok)
  moreover have "ac_tools default_access_config = \<lparr>ta_include = [], ta_exclude = []\<rparr>"
    "ac_actions default_access_config = \<lparr>aa_allow = [], aa_require_approval = [], aa_deny = []\<rparr>"
    by (simp_all add: default_access_config_def)
  moreover have "collect_by_name l td_name ([] :: ToolDescriptor list) = Inr []" for l by (simp add: collect_by_name_def)
  moreover have "wildcard_patterns [] = Inr []" by (simp add: wildcard_patterns_def)
  ultimately have "is_ok (resolve_access default_access_config [] builtin_action_descriptors []
      example_context False)"
    by (simp only: resolve_access_def bind_r_simps Let_def) simp
  then obtain r where
    ok: "resolve_access default_access_config [] builtin_action_descriptors [] example_context False = Inr r"
    using ok_exists by blast
  have "''workflow.schedule.delete'' \<in> {a. action_decision r a = Some AccessRequireApproval}"
    unfolding conjunct1 [OF default_profile_exceptions [OF ok]] by simp
  with ok show ?thesis by simp
qed

end
