(* ===== verification/Network.thy ===== *)
theory Network
  imports Prelude
begin

text \<open>
  Network destinations (crate \<open>colossus-network\<close>, \<open>http.rs\<close>): IP literals as the standard
  library parses them, the classification of addresses outside public routing and the bounded,
  filtered list of addresses that one operation is pinned to. Name resolution itself is a
  parameter. Building the HTTP client and TLS identities are not modelled.
\<close>

section \<open>IP addresses\<close>

text \<open>\<open>V6\<close> carries the eight 16-bit segments.\<close>

datatype IpAddr = V4 nat nat nat nat | V6 "nat list"

fun is_ipv6 :: "IpAddr \<Rightarrow> bool" where
  "is_ipv6 (V4 _ _ _ _) = False"
| "is_ipv6 (V6 _) = True"

fun ip_wf :: "IpAddr \<Rightarrow> bool" where
  "ip_wf (V4 a b c d) = (a < 256 \<and> b < 256 \<and> c < 256 \<and> d < 256)"
| "ip_wf (V6 segs) = (length segs = 8 \<and> (\<forall>s \<in> set segs. s < 65536))"

fun v4_non_public :: "nat \<Rightarrow> nat \<Rightarrow> nat \<Rightarrow> nat \<Rightarrow> bool" where
  "v4_non_public a b c d =
     ( \<comment> \<open>private\<close> a = 10 \<or> (a = 172 \<and> 16 \<le> b \<and> b \<le> 31) \<or> (a = 192 \<and> b = 168)
     \<or> \<comment> \<open>loopback\<close> a = 127
     \<or> \<comment> \<open>link local\<close> (a = 169 \<and> b = 254)
     \<or> \<comment> \<open>multicast\<close> (224 \<le> a \<and> a \<le> 239)
     \<or> \<comment> \<open>broadcast\<close> (a = 255 \<and> b = 255 \<and> c = 255 \<and> d = 255)
     \<or> \<comment> \<open>documentation\<close> (a = 192 \<and> b = 0 \<and> c = 2) \<or> (a = 198 \<and> b = 51 \<and> c = 100)
         \<or> (a = 203 \<and> b = 0 \<and> c = 113)
     \<or> \<comment> \<open>unspecified\<close> (a = 0 \<and> b = 0 \<and> c = 0 \<and> d = 0)
     \<or> a = 0
     \<or> (a = 100 \<and> 64 \<le> b \<and> b \<le> 127)
     \<or> (a = 198 \<and> (b = 18 \<or> b = 19)))"

text \<open>\<open>Ipv6Addr::to_ipv4_mapped\<close>: the last two segments of \<open>::ffff:0:0/96\<close> as four octets.\<close>

fun to_ipv4_mapped :: "nat list \<Rightarrow> (nat \<times> nat \<times> nat \<times> nat) option" where
  "to_ipv4_mapped [s0, s1, s2, s3, s4, s5, s6, s7] =
     (if s0 = 0 \<and> s1 = 0 \<and> s2 = 0 \<and> s3 = 0 \<and> s4 = 0 \<and> s5 = 65535
      then Some (s6 div 256, s6 mod 256, s7 div 256, s7 mod 256) else None)"
| "to_ipv4_mapped _ = None"

text \<open>
  The masks of \<open>is_unique_local\<close> (\<open>fc00::/7\<close>), \<open>is_unicast_link_local\<close>
  (\<open>fe80::/10\<close>) and \<open>is_multicast\<close> (\<open>ff00::/8\<close>) keep the leading bits of the first
  segment, which is a division by the weight of the bits masked away.
\<close>

definition v6_non_public :: "nat list \<Rightarrow> bool" where
  "v6_non_public segs =
     ( (case to_ipv4_mapped segs of Some (a, b, c, d) \<Rightarrow> v4_non_public a b c d | None \<Rightarrow> False)
     \<or> \<comment> \<open>loopback\<close> segs = [0, 0, 0, 0, 0, 0, 0, 1]
     \<or> \<comment> \<open>unspecified\<close> segs = [0, 0, 0, 0, 0, 0, 0, 0]
     \<or> \<comment> \<open>unique local\<close> hd segs div 512 = 126
     \<or> \<comment> \<open>unicast link local\<close> hd segs div 64 = 1018
     \<or> \<comment> \<open>multicast\<close> hd segs div 256 = 255
     \<or> (hd segs = 8193 \<and> hd (tl segs) = 3512))"

fun non_public_network_address :: "IpAddr \<Rightarrow> bool" where
  "non_public_network_address (V4 a b c d) = v4_non_public a b c d"
| "non_public_network_address (V6 segs) = v6_non_public segs"

fun is_loopback :: "IpAddr \<Rightarrow> bool" where
  "is_loopback (V4 a b c d) = (a = 127)"
| "is_loopback (V6 segs) = (segs = [0, 0, 0, 0, 0, 0, 0, 1])"

section \<open>Parsing of IP literals\<close>

text \<open>
  \<open>str::parse::<IpAddr>\<close> of the standard library. A reader returns the value and the rest
  of the input, or \<open>None\<close> with nothing consumed.
\<close>

definition hex_digit :: "nat \<Rightarrow> char \<Rightarrow> nat option" where
  "hex_digit radix c =
     (let v = (if is_ascii_digit c then Some (code c - 48)
               else if 97 \<le> code c \<and> code c \<le> 102 then Some (code c - 87)
               else if 65 \<le> code c \<and> code c \<le> 70 then Some (code c - 55) else None)
      in case v of Some d \<Rightarrow> if d < radix then Some d else None | None \<Rightarrow> None)"

text \<open>\<open>read_number\<close>: digits, value and rest; more than \<open>max_digits\<close> or a value over the
  type's maximum fails.\<close>

fun read_digits :: "nat \<Rightarrow> nat \<Rightarrow> nat \<Rightarrow> nat \<Rightarrow> nat \<Rightarrow> string \<Rightarrow> (nat \<times> nat \<times> string) option" where
  "read_digits radix max_digits max_value count acc [] = Some (count, acc, [])"
| "read_digits radix max_digits max_value count acc (c # cs) =
     (case hex_digit radix c of
        None \<Rightarrow> Some (count, acc, c # cs)
      | Some d \<Rightarrow>
          if acc * radix + d > max_value \<or> count + 1 > max_digits then None
          else read_digits radix max_digits max_value (count + 1) (acc * radix + d) cs)"

definition read_number ::
    "nat \<Rightarrow> nat \<Rightarrow> nat \<Rightarrow> bool \<Rightarrow> string \<Rightarrow> (nat \<times> string) option" where
  "read_number radix max_digits max_value allow_zero_prefix s =
     (case read_digits radix max_digits max_value 0 0 s of
        None \<Rightarrow> None
      | Some (count, v, rest) \<Rightarrow>
          if count = 0 then None
          else if \<not> allow_zero_prefix \<and> s \<noteq> [] \<and> hd s = CHR ''0'' \<and> count > 1 then None
          else Some (v, rest))"

definition read_separator :: "char \<Rightarrow> nat \<Rightarrow> string \<Rightarrow> string option" where
  "read_separator sep index s =
     (if index = 0 then Some s
      else case s of c # cs \<Rightarrow> if c = sep then Some cs else None | [] \<Rightarrow> None)"

definition read_octet :: "nat \<Rightarrow> string \<Rightarrow> (nat \<times> string) option" where
  "read_octet index s = Option.bind (read_separator CHR ''.'' index s) (read_number 10 3 255 False)"

definition read_ipv4_addr :: "string \<Rightarrow> ((nat \<times> nat \<times> nat \<times> nat) \<times> string) option" where
  "read_ipv4_addr s =
     Option.bind (read_octet 0 s) (\<lambda>(a, s1).
     Option.bind (read_octet 1 s1) (\<lambda>(b, s2).
     Option.bind (read_octet 2 s2) (\<lambda>(c, s3).
     Option.bind (read_octet 3 s3) (\<lambda>(d, s4). Some ((a, b, c, d), s4)))))"

text \<open>\<open>read_groups\<close>: up to \<open>limit\<close> groups from index \<open>i\<close>; the flag says that an
  embedded IPv4 address ended the list.\<close>

function read_groups :: "nat \<Rightarrow> nat \<Rightarrow> string \<Rightarrow> nat list \<times> bool \<times> string" where
  "read_groups limit i s =
     (if i \<ge> limit then ([], False, s)
      else case (if i < limit - 1 then Option.bind (read_separator CHR '':'' i s) read_ipv4_addr
                 else None) of
        Some ((a, b, c, d), rest) \<Rightarrow> ([a * 256 + b, c * 256 + d], True, rest)
      | None \<Rightarrow>
          (case Option.bind (read_separator CHR '':'' i s) (read_number 16 4 65535 True) of
             Some (g, rest) \<Rightarrow>
               (let (gs, v4, rest') = read_groups limit (i + 1) rest in (g # gs, v4, rest'))
           | None \<Rightarrow> ([], False, s)))"
  by pat_completeness auto
termination by (relation "measure (\<lambda>(limit, i, _). limit - i)") auto

declare read_groups.simps [simp del]

definition read_ipv6_addr :: "string \<Rightarrow> (nat list \<times> string) option" where
  "read_ipv6_addr s =
     (let (head, head_ipv4, rest) = read_groups 8 0 s in
      if length head = 8 then Some (head, rest)
      else if head_ipv4 then None
      else if \<not> starts_with ''::'' rest then None
      else let (tail, _, rest') = read_groups (8 - (length head + 1)) 0 (drop 2 rest) in
        Some (head @ replicate (8 - length head - length tail) 0 @ tail, rest'))"

definition parse_ip :: "string \<Rightarrow> IpAddr option" where
  "parse_ip s =
     (case read_ipv4_addr s of
        Some ((a, b, c, d), rest) \<Rightarrow> if rest = [] then Some (V4 a b c d) else None
      | None \<Rightarrow>
          (case read_ipv6_addr s of
             Some (segs, rest) \<Rightarrow> if rest = [] then Some (V6 segs) else None
           | None \<Rightarrow> None))"

definition unbracketed_host :: "string \<Rightarrow> string" where
  "unbracketed_host host =
     (case Option.bind (strip_prefix ''['' host) (strip_suffix '']'') of
        Some v \<Rightarrow> v | None \<Rightarrow> host)"

definition parse_host_ip :: "string \<Rightarrow> IpAddr option" where
  "parse_host_ip host = parse_ip (unbracketed_host host)"

section \<open>Pinned destinations\<close>

record SocketAddr =
  sa_ip :: IpAddr
  sa_port :: nat

datatype PinnedHttpClientError =
  InvalidDestination string | Resolution string | Client string

definition MAX_PINNED_ADDRESSES :: nat where
  "MAX_PINNED_ADDRESSES = 16"

text \<open>\<open>resolve_destinations\<close> after \<open>lookup_host\<close>, whose answer is the argument.\<close>

definition resolve_destinations ::
    "(string, SocketAddr list) result \<Rightarrow> bool \<Rightarrow> (PinnedHttpClientError, SocketAddr list) result" where
  "resolve_destinations lookup allow_non_public =
     bind_r (map_err Resolution lookup) (\<lambda>found.
     let addresses = filter (\<lambda>a. allow_non_public \<or> \<not> non_public_network_address (sa_ip a)) found in
     if addresses = [] then Inl (Resolution ''destination resolved to no permitted address'')
     else Inr (take MAX_PINNED_ADDRESSES
       (dedup (sort_key (\<lambda>a. if is_ipv6 (sa_ip a) then 1 else (0::nat)) addresses))))"

section \<open>Lemmas\<close>

lemma hex_digit_less: "hex_digit radix c = Some d \<Longrightarrow> d < radix"
  by (auto simp: hex_digit_def Let_def split: if_splits option.splits)

lemma read_digits_bound:
  "read_digits radix m mx count acc s = Some (n, v, rest) \<Longrightarrow> acc \<le> mx \<Longrightarrow> v \<le> mx"
  by (induction radix m mx count acc s arbitrary: n v rest rule: read_digits.induct)
    (auto split: option.splits if_splits)

lemma read_number_bound: "read_number radix m mx z s = Some (v, rest) \<Longrightarrow> v \<le> mx"
  by (auto simp: read_number_def split: option.splits if_splits dest: read_digits_bound)

lemma read_ipv4_addr_bound:
  assumes "read_ipv4_addr s = Some ((a, b, c, d), rest)"
  shows "a < 256 \<and> b < 256 \<and> c < 256 \<and> d < 256"
proof -
  have "read_octet i t = Some (v, r) \<Longrightarrow> v < 256" for i t v r
    by (auto simp: read_octet_def bind_eq_Some_conv dest: read_number_bound)
  with assms show ?thesis
    by (auto simp: read_ipv4_addr_def bind_eq_Some_conv)
qed

lemma read_groups_wf:
  "read_groups limit i s = (gs, v4, rest) \<Longrightarrow>
     length gs \<le> limit - i \<and> (\<forall>g \<in> set gs. g < 65536)"
proof (induction limit i s arbitrary: gs v4 rest rule: read_groups.induct)
  case (1 limit i s)
  note def = read_groups.simps [of limit i s]
  show ?case
  proof (cases "i \<ge> limit")
    case True
    with 1(2) def show ?thesis by simp
  next
    case False
    let ?v4 = "if i < limit - 1 then Option.bind (read_separator CHR '':'' i s) read_ipv4_addr else None"
    show ?thesis
    proof (cases ?v4)
      case (Some x)
      then obtain a b c d r where x: "x = ((a, b, c, d), r)" by (metis prod.collapse)
      from Some x have "a < 256 \<and> b < 256 \<and> c < 256 \<and> d < 256" "i < limit - 1"
        by (auto simp: bind_eq_Some_conv split: if_splits dest: read_ipv4_addr_bound)
      with 1(2) False Some x def show ?thesis by auto
    next
      case None
      let ?g = "Option.bind (read_separator CHR '':'' i s) (read_number 16 4 65535 True)"
      show ?thesis
      proof (cases ?g)
        case None': None
        with 1(2) False None def show ?thesis by simp
      next
        case (Some y)
        then obtain g r where y: "y = (g, r)" by (cases y)
        obtain gs' v' r' where rec: "read_groups limit (i + 1) r = (gs', v', r')"
          by (metis prod_cases3)
        have "g < 65536" using Some y
          by (auto simp: bind_eq_Some_conv dest: read_number_bound)
        moreover have "length gs' \<le> limit - (i + 1) \<and> (\<forall>g \<in> set gs'. g < 65536)"
          using 1(1) [OF False None Some y [symmetric] rec] .
        moreover have "gs = g # gs'" using 1(2) False None Some y rec def by simp
        ultimately show ?thesis using False by auto
      qed
    qed
  qed
qed

lemma parse_ip_wf:
  assumes "parse_ip s = Some ip"
  shows "ip_wf ip"
proof (cases "read_ipv4_addr s")
  case (Some x)
  then obtain a b c d r where "x = ((a, b, c, d), r)" by (metis prod.collapse)
  with Some assms read_ipv4_addr_bound [of s a b c d r] show ?thesis
    by (auto simp: parse_ip_def split: if_splits)
next
  case None
  with assms obtain segs where segs: "read_ipv6_addr s = Some (segs, [])" and ip: "ip = V6 segs"
    by (auto simp: parse_ip_def split: option.splits if_splits)
  obtain h v r where h: "read_groups 8 0 s = (h, v, r)" by (metis prod_cases3)
  obtain t v' r' where t: "read_groups (8 - (length h + 1)) 0 (drop 2 r) = (t, v', r')"
    by (metis prod_cases3)
  from segs h t have "segs = h \<and> length h = 8
      \<or> segs = h @ replicate (8 - length h - length t) 0 @ t \<and> length h \<noteq> 8"
    by (auto simp: read_ipv6_addr_def split: if_splits)
  with read_groups_wf [OF h] read_groups_wf [OF t] show ?thesis
    unfolding ip by auto
qed

lemma resolve_destinations_ok:
  "resolve_destinations lookup allow = Inr addresses \<longleftrightarrow>
    (\<exists>found. lookup = Inr found \<and>
      filter (\<lambda>a. allow \<or> \<not> non_public_network_address (sa_ip a)) found \<noteq> [] \<and>
      addresses = take MAX_PINNED_ADDRESSES
        (dedup (sort_key (\<lambda>a. if is_ipv6 (sa_ip a) then 1 else (0::nat))
          (filter (\<lambda>a. allow \<or> \<not> non_public_network_address (sa_ip a)) found))))"
  unfolding resolve_destinations_def Let_def by (auto simp: bind_r_Inr_iff map_err_Inr_iff)

lemma sorted_dedup_key: "sorted (map f xs) \<Longrightarrow> sorted (map f (dedup xs))"
  by (induction xs rule: dedup.induct) (auto simp del: set_dedup simp: set_dedup)

lemma dedup_eq_Nil [simp]: "dedup xs = [] \<longleftrightarrow> xs = []"
  by (induction xs rule: dedup.induct) auto

section \<open>Properties\<close>

text \<open>C23. Address pinning: when a destination resolves, the client is pinned to between one and
  sixteen of the resolved addresses, none of them outside public routing unless the caller
  allows it, with the IPv4 addresses first; and resolution fails only when the lookup failed
  or found no permitted address.\<close>

theorem pinned_addresses_bounded:
  "(case resolve_destinations lookup allow of
      Inr addresses \<Rightarrow> addresses \<noteq> [] \<and> length addresses \<le> 16
        \<and> (\<exists>found. lookup = Inr found \<and> set addresses \<subseteq>
            {a \<in> set found. allow \<or> \<not> non_public_network_address (sa_ip a)})
        \<and> sorted (map (is_ipv6 \<circ> sa_ip) addresses)
    | Inl _ \<Rightarrow> (case lookup of Inl _ \<Rightarrow> True
        | Inr found \<Rightarrow> \<not> allow \<and> list_all (non_public_network_address \<circ> sa_ip) found
            \<or> found = []))"
proof (cases "resolve_destinations lookup allow")
  case (Inl e)
  then show ?thesis
    by (auto simp: resolve_destinations_def Let_def filter_empty_conv list_all_iff
        split: sum.splits if_splits)
next
  case (Inr addresses)
  then obtain found where f: "lookup = Inr found"
    and ne: "filter (\<lambda>a. allow \<or> \<not> non_public_network_address (sa_ip a)) found \<noteq> []"
    and a: "addresses = take MAX_PINNED_ADDRESSES
        (dedup (sort_key (\<lambda>a. if is_ipv6 (sa_ip a) then 1 else (0::nat))
          (filter (\<lambda>a. allow \<or> \<not> non_public_network_address (sa_ip a)) found)))"
    unfolding resolve_destinations_ok by blast
  let ?k = "\<lambda>a. if is_ipv6 (sa_ip a) then 1 else (0::nat)"
  let ?all = "dedup (sort_key ?k (filter (\<lambda>a. allow \<or> \<not> non_public_network_address (sa_ip a)) found))"
  have "sorted (map ?k ?all)" by (intro sorted_dedup_key) simp
  then have "sorted (map ?k addresses)"
    unfolding a by (simp add: take_map [symmetric] sorted_wrt_take)
  then have "sorted (map (is_ipv6 \<circ> sa_ip) addresses)"
    by (auto simp: sorted_iff_nth_mono split: if_splits)
  moreover have "set addresses \<subseteq> set ?all" unfolding a by (rule set_take_subset)
  moreover have "addresses \<noteq> []" using ne unfolding a
    by (simp add: MAX_PINNED_ADDRESSES_def del: sort_key_simps) (metis ne set_empty set_sort)
  moreover have "length addresses \<le> 16" unfolding a by (simp add: MAX_PINNED_ADDRESSES_def)
  ultimately show ?thesis using Inr f by auto
qed

theorem pinned_addresses_bounded_witness:
  "\<exists>addresses. resolve_destinations (Inr [\<lparr>sa_ip = V4 10 0 0 1, sa_port = 443\<rparr>, \<lparr>sa_ip = V4 8 8 8 8, sa_port = 443\<rparr>]) False
     = Inr addresses \<and> addresses \<noteq> [] \<and> length addresses \<le> 16"
proof -
  let ?lookup = "Inr [\<lparr>sa_ip = V4 10 0 0 1, sa_port = 443\<rparr>, \<lparr>sa_ip = V4 8 8 8 8, sa_port = 443\<rparr>] :: (string, SocketAddr list) result"
  have "resolve_destinations ?lookup False = Inr [\<lparr>sa_ip = V4 8 8 8 8, sa_port = 443\<rparr>]" by code_simp
  with pinned_addresses_bounded [where lookup = ?lookup and allow = False] show ?thesis by simp
qed

text \<open>No bypass through IPv6 spelling: an IPv4-mapped IPv6 address is outside public routing
  exactly when the IPv4 address it maps is.\<close>

theorem mapped_address_same_class:
  assumes "a < 256" "b < 256" "c < 256" "d < 256"
  shows "non_public_network_address (V6 [0, 0, 0, 0, 0, 65535, a * 256 + b, c * 256 + d])
     = non_public_network_address (V4 a b c d)"
  using assms by (simp add: v6_non_public_def)

theorem mapped_address_same_class_witness:
  "parse_host_ip ''[::ffff:169.254.169.254]'' = Some (V6 [0, 0, 0, 0, 0, 65535, 169 * 256 + 254, 169 * 256 + 254])
   \<and> non_public_network_address (V6 [0, 0, 0, 0, 0, 65535, 169 * 256 + 254, 169 * 256 + 254])"
proof
  show "parse_host_ip ''[::ffff:169.254.169.254]''
    = Some (V6 [0, 0, 0, 0, 0, 65535, 169 * 256 + 254, 169 * 256 + 254])" by code_simp
  show "non_public_network_address (V6 [0, 0, 0, 0, 0, 65535, 169 * 256 + 254, 169 * 256 + 254])"
    using mapped_address_same_class [of 169 254 169 254] by simp
qed

end
