(* ===== verification/Effects.thy ===== *)
theory Effects
  imports Contracts
begin

text \<open>
  The types the policy crate's components exchange: its errors with their messages, the opaque
  execution permit, the results and notices, and the platform the kernel runs on. The platform
  is what the sources call and do not define: the JSON encoder, SHA-256 and HMAC, the URL
  parser, the file system and the display projection of shell commands.
\<close>

section \<open>Errors\<close>

datatype PolicyError =
  InputTooLarge nat | PolicyUnavailable string | InvalidDecision string

datatype StoreError =
    Conflict string nat nat
  | Verification string
  | NotFound string
  | KeyUnavailable string
  | WriterLeaseHeld
  | WorkspaceIdentityChanged
  | StoreAdapter string
  | StoreOutcomeUnknown string
  | RecoveryMode

datatype RiskEvaluationError = RiskUnavailable string | RiskInvalidAssessment string

datatype ProviderFailureReason =
    ContextLimitExceeded | RequestTooLarge | OutputLimitExceeded | RateLimited | QuotaExceeded
  | ContentFiltered | ProviderUnavailable | OtherFailure

record ProviderFailure =
  pf_reason :: ProviderFailureReason
  pf_http_status :: "nat option"

fun failure_code :: "ProviderFailureReason \<Rightarrow> string" where
  "failure_code ContextLimitExceeded = ''provider.context_limit_exceeded''"
| "failure_code RequestTooLarge = ''provider.request_too_large''"
| "failure_code OutputLimitExceeded = ''provider.output_limit_exceeded''"
| "failure_code RateLimited = ''provider.rate_limited''"
| "failure_code QuotaExceeded = ''provider.quota_exceeded''"
| "failure_code ContentFiltered = ''provider.content_filtered''"
| "failure_code ProviderUnavailable = ''provider.unavailable''"
| "failure_code OtherFailure = ''provider.failed''"

fun failure_message :: "ProviderFailureReason \<Rightarrow> string" where
  "failure_message ContextLimitExceeded = ''the request exceeds the model's context window; shorten the message, reduce tool arguments or output, or start a new session''"
| "failure_message RequestTooLarge = ''the provider request exceeds its size limit; reduce the message, tool arguments, attachments, or instructions''"
| "failure_message OutputLimitExceeded = ''the provider reached the output token limit; increase the configured output limit or request a shorter response''"
| "failure_message RateLimited = ''the provider rate limit was reached; wait before retrying''"
| "failure_message QuotaExceeded = ''the provider quota is exhausted; check the account's quota and billing settings''"
| "failure_message ContentFiltered = ''the provider stopped the response because of a content filter; revise the request''"
| "failure_message ProviderUnavailable = ''the provider could not complete the request; check its availability before retrying''"
| "failure_message OtherFailure = ''the provider could not complete the request; check the provider and model settings''"

datatype GatewayError =
    GProviderRejected ProviderFailure
  | GSafety string
  | GDenied string
  | GApproval string
  | GPolicy PolicyError
  | GJournal StoreError
  | GExecution string
  | GRecoverable string string "nat option" "nat option"
  | GHttpStatus nat string
  | GOutcomeUnknown string
  | GContract string

datatype ExecutionError =
    XProviderRejected ProviderFailure
  | XFailed string
  | XRecoverable string string "nat option" "nat option"
  | XHttpStatus nat string
  | XOutcomeUnknown string
  | XReleaseDenied string

fun policy_error_text :: "PolicyError \<Rightarrow> string" where
  "policy_error_text (InputTooLarge limit) = ''policy input exceeds '' @ nat_text limit @ '' bytes''"
| "policy_error_text (PolicyUnavailable m) = ''policy unavailable: '' @ m"
| "policy_error_text (InvalidDecision m) = ''invalid policy response: '' @ m"

fun store_error_text :: "StoreError \<Rightarrow> string" where
  "store_error_text (Conflict stream expected actual) =
     ''optimistic concurrency conflict for '' @ stream @ '': expected '' @ nat_text expected
       @ '', actual '' @ nat_text actual"
| "store_error_text (Verification m) = ''journal verification failed: '' @ m"
| "store_error_text (NotFound m) = ''not found: '' @ m"
| "store_error_text (KeyUnavailable m) = ''key unavailable: '' @ m"
| "store_error_text WriterLeaseHeld = ''runtime writer lease is already held''"
| "store_error_text WorkspaceIdentityChanged = ''workspace identity changed''"
| "store_error_text (StoreAdapter m) = ''storage adapter failure: '' @ m"
| "store_error_text (StoreOutcomeUnknown m) = ''external storage outcome is unknown: '' @ m"
| "store_error_text RecoveryMode = ''runtime is in read-only recovery mode''"

fun gateway_error_text :: "GatewayError \<Rightarrow> string" where
  "gateway_error_text (GProviderRejected f) = failure_message (pf_reason f)"
| "gateway_error_text (GSafety m) = ''safety kernel rejected request: '' @ m"
| "gateway_error_text (GDenied m) = ''policy denied effect: '' @ m"
| "gateway_error_text (GApproval m) = ''effect was not approved: '' @ m"
| "gateway_error_text (GPolicy e) = policy_error_text e"
| "gateway_error_text (GJournal e) = store_error_text e"
| "gateway_error_text (GExecution m) = ''effect failed: '' @ m"
| "gateway_error_text (GRecoverable c m _ _) =
     ''recoverable effect failure '' @ c @ '': '' @ m"
| "gateway_error_text (GHttpStatus _ m) = ''effect failed: '' @ m"
| "gateway_error_text (GOutcomeUnknown m) = ''effect outcome is unknown: '' @ m"
| "gateway_error_text (GContract m) = ''contract failure: '' @ m"

section \<open>Permits, results and notices\<close>

record ReleasedEffectResult =
  rr_media_type :: string
  rr_bytes :: "u8 list"

record PermitClaims =
  pc_request_hash :: string
  pc_decision_id :: string
  pc_obligations_hash :: string
  pc_actor_id :: string
  pc_nonce :: string
  pc_expires_at_unix_ms :: int

record ExecutionPermit =
  ep_request_hash :: string
  ep_decision_id :: string
  ep_obligations_hash :: string
  ep_actor_id :: string
  ep_permit_nonce :: string
  ep_expires_at_unix_ms :: int
  ep_authentication_tag :: "u8 list"
  ep_obligations :: PolicyObligations
  ep_consumed :: bool

record CommandApprovalContext =
  cc_justification :: string
  cc_executable :: string
  cc_arguments :: "string list"
  cc_working_directory :: string
  cc_redacted :: bool

record RiskAssessment =
  as_risk_level :: RiskLevel
  as_recommended_decision :: RiskRecommendation
  as_reason :: string

datatype RiskReviewFailure = EvaluatorUnavailable | InvalidAssessment

record RiskReviewFallbackNotice =
  fn_action :: string
  fn_resource :: string
  fn_failure :: RiskReviewFailure
  fn_reason :: string

record AutomaticApprovalNotice =
  an_action :: string
  an_resource :: string
  an_risk_level :: RiskLevel
  an_reason :: string

section \<open>The platform\<close>

text \<open>
  A parsed URL, as far as the code asks: \<open>scheme()\<close>, \<open>host_str()\<close>, \<open>username()\<close>,
  \<open>password()\<close> and \<open>origin().ascii_serialization()\<close>.
\<close>

record Url =
  url_scheme :: string
  url_host :: "string option"
  url_username :: string
  url_password :: "string option"
  url_origin :: string

text \<open>
  The code outside the repository. Encoders and the hash are functions; a file path that the
  file system has canonicalised is the list of its components, so that the component-wise
  \<open>Path::starts_with\<close> is the prefix order. \<open>pl_command_context\<close> is the display projection
  \<open>command_approval_context\<close>, whose recognisers are regular expressions of the
  \<open>regex\<close> package.
\<close>

record Platform =
  pl_request_bytes :: "EffectRequest \<Rightarrow> (string, u8 list) result"
  pl_obligations_bytes :: "PolicyObligations \<Rightarrow> (string, u8 list) result"
  pl_claims_bytes :: "PermitClaims \<Rightarrow> (string, u8 list) result"
  pl_json_bytes :: "json \<Rightarrow> (string, u8 list) result"
  pl_sha256_hex :: "u8 list \<Rightarrow> string"
  pl_hmac :: "u8 list \<Rightarrow> u8 list \<Rightarrow> u8 list"
  pl_base64 :: "u8 list \<Rightarrow> string"
  pl_url_parse :: "string \<Rightarrow> (string, Url) result"
  pl_canonicalize :: "string \<Rightarrow> (string, string list) result"
  pl_is_file :: "string list \<Rightarrow> bool"
  pl_command_context :: "EffectRequest \<Rightarrow> (GatewayError, CommandApprovalContext option) result"

definition canonical_bytes :: "('a \<Rightarrow> (string, u8 list) result) \<Rightarrow> 'a \<Rightarrow> (GatewayError, u8 list) result" where
  "canonical_bytes encode v = map_err GContract (encode v)"

text \<open>The UTF-8 bytes of a string.\<close>

definition as_bytes :: "string \<Rightarrow> u8 list" where
  "as_bytes s = map (\<lambda>c. word_of_nat (code c)) s"

section \<open>An example platform and request\<close>

text \<open>
  A concrete platform on which the properties are instantiated: an encoding that shows the
  fields the examples differ in, a hash and a message authentication code that are injective,
  and a file system in which every path exists and is canonical.
\<close>

definition example_platform :: Platform where
  "example_platform = \<lparr>
     pl_request_bytes = (\<lambda>r. Inr (as_bytes (er_request_id r @ er_action r @ er_resource r))),
     pl_obligations_bytes = (\<lambda>o'. Inr (as_bytes (po_sandbox_backend o'))),
     pl_claims_bytes = (\<lambda>c. Inr (as_bytes (pc_request_hash c @ pc_nonce c))),
     pl_json_bytes = (\<lambda>v. Inr (case v of JStr s \<Rightarrow> as_bytes s | _ \<Rightarrow> [])),
     pl_sha256_hex = map (\<lambda>b. char_of (unat b)),
     pl_hmac = (\<lambda>k m. k @ m),
     pl_base64 = map (\<lambda>b. char_of (unat b)),
     pl_url_parse = (\<lambda>s. Inr \<lparr>url_scheme = ''https'', url_host = Some ''example.org'',
       url_username = [], url_password = None, url_origin = ''https://example.org''\<rparr>),
     pl_canonicalize = (\<lambda>s. Inr (filter (\<lambda>c. c \<noteq> []) (split_on CHR ''/'' s))),
     pl_is_file = (\<lambda>_. True),
     pl_command_context = (\<lambda>_. Inr None)\<rparr>"

definition example_request :: EffectRequest where
  "example_request = \<lparr>er_schema_version = 1, er_request_id = ''r1'',
     er_actor = \<lparr>actor_type = Model, actor_id = ''agent''\<rparr>, er_action = ''task.create'',
     er_resource = ''task'', er_capabilities = [],
     er_risk = \<lparr>ri_status = Unavailable, ri_level = None, ri_reason = None\<rparr>,
     er_content = JObj [], er_command_intent = None, er_credential_references = [],
     er_context = default_context, er_idempotency_id = None, er_phase = PreEffect,
     er_approval = None\<rparr>"

end
