(* ===== verification/Redaction.thy ===== *)
theory Redaction
  imports Effects Json
begin

text \<open>
  What a request discloses to policy: the redaction of hard secrets (crate
  \<open>colossus-policy\<close>, \<open>kernel.rs\<close>) and the treatment of tool schemas, whose property names
  must survive redaction (\<open>schema_disclosure.rs\<close>).
\<close>

section \<open>Secret names and credential references\<close>

definition is_hard_secret_key :: "string \<Rightarrow> bool" where
  "is_hard_secret_key key =
     (map (\<lambda>c. if c = CHR ''-'' then CHR ''_'' else c) (to_ascii_lowercase key) \<in>
       {''authorization'', ''proxy_authorization'', ''api_key'', ''apikey'', ''access_token'',
        ''refresh_token'', ''private_key'', ''client_secret'', ''password'', ''key_material'',
        ''hidden_reasoning''})"

definition env_name :: "string \<Rightarrow> bool" where
  "env_name name = (case name of
      [] \<Rightarrow> False
    | c # cs \<Rightarrow> (c = CHR ''_'' \<or> is_ascii_alphabetic c)
        \<and> list_all (\<lambda>d. d = CHR ''_'' \<or> is_ascii_alphanumeric d) cs)"

definition valid_environment_name :: "string \<Rightarrow> bool" where
  "valid_environment_name name = env_name name"

definition is_environment_credential_reference :: "json \<Rightarrow> bool" where
  "is_environment_credential_reference v =
     (case as_str v of
        None \<Rightarrow> False
      | Some s \<Rightarrow> (case strip_prefix ''env:'' s of None \<Rightarrow> False | Some name \<Rightarrow> env_name name))"

definition is_host_credential_reference :: "json \<Rightarrow> bool" where
  "is_host_credential_reference v =
     (case as_str v of
        None \<Rightarrow> False
      | Some s \<Rightarrow> (case strip_prefix ''host:'' s of
          None \<Rightarrow> False
        | Some i \<Rightarrow> i \<noteq> [] \<and> length i \<le> 128
            \<and> list_all (\<lambda>c. is_ascii_alphanumeric c \<or> c \<in> {CHR ''-'', CHR ''_'', CHR ''.''}) i))"

definition is_credential_header_reference :: "json \<Rightarrow> bool" where
  "is_credential_header_reference v =
     (case as_object v of
        None \<Rightarrow> False
      | Some kvs \<Rightarrow>
          if length kvs > 2 \<or> ''reference'' \<notin> set (map fst kvs)
            \<or> list_ex (\<lambda>k. k \<notin> {''reference'', ''scheme''}) (map fst kvs)
            \<or> \<not> (case map_of kvs ''reference'' of None \<Rightarrow> False
                | Some r \<Rightarrow> is_environment_credential_reference r \<or> is_host_credential_reference r)
          then False
          else (case map_of kvs ''scheme'' of
              None \<Rightarrow> True
            | Some sc \<Rightarrow> is_null sc \<or> (case as_str sc of None \<Rightarrow> False
                | Some s \<Rightarrow> s \<noteq> [] \<and> length s \<le> 64
                    \<and> list_all (\<lambda>c. is_ascii_alphanumeric c \<or> c \<in> {CHR ''-'', CHR ''_''}) s)))"

section \<open>Redaction of hard secrets\<close>

definition redacted_placeholder :: "Platform \<Rightarrow> json \<Rightarrow> json" where
  "redacted_placeholder pl v =
     (let bytes = (case pl_json_bytes pl v of Inr b \<Rightarrow> b | Inl _ \<Rightarrow> []) in
      JObj [(''redacted'', JBool True), (''sha256'', JStr (pl_sha256_hex pl bytes)),
        (''size'', JNum (Unsigned (length bytes)))])"

definition CREDENTIAL_HEADERS_FIELD :: string where
  "CREDENTIAL_HEADERS_FIELD = ''credential_headers''"

text \<open>
  \<open>redact_effect_content\<close> with \<open>at_content_root\<close> false: every value under a hard-secret
  name is replaced, unless it is a reference to an environment variable.
\<close>

fun redact_nested :: "Platform \<Rightarrow> json \<Rightarrow> json" where
  "redact_nested pl (JObj kvs) =
     JObj (map (\<lambda>(k, v). (k,
       if is_hard_secret_key k \<and> \<not> is_environment_credential_reference v
       then redacted_placeholder pl v else redact_nested pl v)) kvs)"
| "redact_nested pl (JArr vs) = JArr (map (redact_nested pl) vs)"
| "redact_nested pl v = v"

definition redact_credential_headers :: "Platform \<Rightarrow> json \<Rightarrow> json" where
  "redact_credential_headers pl v =
     (case v of
        JObj kvs \<Rightarrow> JObj (map (\<lambda>(k, c).
          (k, if is_credential_header_reference c then c else redacted_placeholder pl c)) kvs)
      | _ \<Rightarrow> redact_nested pl v)"

text \<open>\<open>redact_hard_secrets\<close>: the content root, where \<open>credential_headers\<close> is exempt.\<close>

definition redact_hard_secrets :: "Platform \<Rightarrow> json \<Rightarrow> json" where
  "redact_hard_secrets pl v =
     (case v of
        JObj kvs \<Rightarrow> JObj (map (\<lambda>(k, c). (k,
          if k = CREDENTIAL_HEADERS_FIELD then redact_credential_headers pl c
          else if is_hard_secret_key k \<and> \<not> is_environment_credential_reference c
          then redacted_placeholder pl c
          else redact_nested pl c)) kvs)
      | _ \<Rightarrow> redact_nested pl v)"

fun contains_secret_data :: "json \<Rightarrow> bool" where
  "contains_secret_data (JObj kvs) =
     list_ex (\<lambda>(k, v). is_hard_secret_key k \<or> contains_secret_data v) kvs"
| "contains_secret_data (JArr vs) = list_ex contains_secret_data vs"
| "contains_secret_data _ = False"

end
