(* ===== verification/SchemaDisclosure.thy ===== *)
theory SchemaDisclosure
  imports Redaction
begin

text \<open>
  Tool schemas in requests (crate \<open>colossus-policy\<close>, \<open>schema_disclosure.rs\<close>): a schema's
  property names would be taken for secrets by the redactor, so the schemas at the known
  protocol positions are detached, checked for literal secret data, and restored after the
  rest of the request is redacted. The check follows local references with a worklist.
\<close>

section \<open>JSON pointers\<close>

text \<open>
  \<open>Value::pointer\<close>: tokens are separated by slashes, \<open>~1\<close> and \<open>~0\<close> are escapes, and an
  array is indexed by a decimal number without leading zeros.
\<close>

fun unescape_token :: "string \<Rightarrow> string" where
  "unescape_token (a # b # cs) =
     (if a = CHR ''~'' \<and> b = CHR ''1'' then CHR ''/'' # unescape_token cs
      else if a = CHR ''~'' \<and> b = CHR ''0'' then CHR ''~'' # unescape_token cs
      else a # unescape_token (b # cs))"
| "unescape_token cs = cs"

definition parse_index :: "string \<Rightarrow> nat option" where
  "parse_index s =
     (if s = [] \<or> \<not> list_all is_ascii_digit s \<or> (hd s = CHR ''0'' \<and> length s \<noteq> 1) then None
      else let n = foldl (\<lambda>acc c. acc * 10 + (code c - 48)) 0 s in
        if n \<le> u64_max then Some n else None)"

fun json_child :: "json \<Rightarrow> string \<Rightarrow> json option" where
  "json_child (JObj kvs) t = map_of kvs t"
| "json_child (JArr vs) t =
     (case parse_index t of
        Some i \<Rightarrow> if i < length vs then Some (vs ! i) else None
      | None \<Rightarrow> None)"
| "json_child _ t = None"

fun json_at :: "json \<Rightarrow> string list \<Rightarrow> json option" where
  "json_at v [] = Some v"
| "json_at v (t # ts) = Option.bind (json_child v t) (\<lambda>c. json_at c ts)"

definition pointer_tokens :: "string \<Rightarrow> string list option" where
  "pointer_tokens p =
     (if p = [] then Some []
      else if hd p = CHR ''/'' then Some (map unescape_token (split_on CHR ''/'' (tl p)))
      else None)"

definition json_pointer :: "json \<Rightarrow> string \<Rightarrow> json option" where
  "json_pointer v p = Option.bind (pointer_tokens p) (json_at v)"

text \<open>Writing through \<open>pointer_mut\<close>: the first entry of the key, or the indexed element.\<close>

fun update_entry :: "string \<Rightarrow> json \<Rightarrow> (string \<times> json) list \<Rightarrow> (string \<times> json) list" where
  "update_entry k w [] = []"
| "update_entry k w ((k', v) # kvs) =
     (if k' = k then (k', w) # kvs else (k', v) # update_entry k w kvs)"

fun json_set_child :: "json \<Rightarrow> string \<Rightarrow> json \<Rightarrow> json" where
  "json_set_child (JObj kvs) t w = JObj (update_entry t w kvs)"
| "json_set_child (JArr vs) t w =
     (case parse_index t of Some i \<Rightarrow> JArr (vs[i := w]) | None \<Rightarrow> JArr vs)"
| "json_set_child v t w = v"

fun json_set :: "json \<Rightarrow> string list \<Rightarrow> json \<Rightarrow> json" where
  "json_set v [] w = w"
| "json_set v (t # ts) w =
     (case json_child v t of
        Some c \<Rightarrow> json_set_child v t (json_set c ts w)
      | None \<Rightarrow> v)"

section \<open>Dialects and references\<close>

datatype SchemaDialect = Draft4 | Draft6Or7 | Modern

definition trim_end_char :: "char \<Rightarrow> string \<Rightarrow> string" where
  "trim_end_char c s = rev (dropWhile (\<lambda>d. d = c) (rev s))"

definition dialect_detect :: "SchemaDialect \<Rightarrow> json \<Rightarrow> SchemaDialect option" where
  "dialect_detect self schema =
     (case get_str schema ''$schema'' of
        None \<Rightarrow> Some self
      | Some uri \<Rightarrow>
          let u = trim_end_char CHR ''#'' uri in
          if u = ''http://json-schema.org/draft-04/schema'' then Some Draft4
          else if u \<in> {''http://json-schema.org/draft-06/schema'',
              ''http://json-schema.org/draft-07/schema''} then Some Draft6Or7
          else if u \<in> {''https://json-schema.org/draft/2019-09/schema'',
              ''https://json-schema.org/draft/2020-12/schema''} then Some Modern
          else None)"

definition dialect_is_resource :: "SchemaDialect \<Rightarrow> json \<Rightarrow> bool" where
  "dialect_is_resource self schema =
     (case get_str schema (if self = Draft4 then ''id'' else ''$id'') of
        None \<Rightarrow> False
      | Some ident \<Rightarrow>
          self = Modern \<or> (json_get schema ''$ref'' = None \<and> \<not> starts_with ''#'' ident))"

text \<open>
  A value together with its position below the schema being checked; the position stands for
  the address that the code compares.
\<close>

type_synonym located = "string list \<times> json"

fun address_token :: "json \<Rightarrow> string \<Rightarrow> string" where
  "address_token (JArr vs) t = (case parse_index t of Some i \<Rightarrow> nat_text i | None \<Rightarrow> t)"
| "address_token v t = t"

definition hex_value :: "char \<Rightarrow> nat option" where
  "hex_value c =
     (if is_ascii_digit c then Some (code c - 48)
      else if 97 \<le> code c \<and> code c \<le> 102 then Some (code c - 87)
      else if 65 \<le> code c \<and> code c \<le> 70 then Some (code c - 55) else None)"

fun percent_decode :: "string \<Rightarrow> string option" where
  "percent_decode [] = Some []"
| "percent_decode (c # cs) =
     (if c = CHR ''%'' then
        (case cs of
           h # l # rest \<Rightarrow>
             Option.bind (hex_value h) (\<lambda>hi. Option.bind (hex_value l) (\<lambda>lo.
               map_option ((#) (char_of (hi * 16 + lo))) (percent_decode rest)))
         | _ \<Rightarrow> None)
      else map_option ((#) c) (percent_decode cs))"

text \<open>\<open>String::from_utf8\<close>: the well-formed byte sequences of the Unicode standard.\<close>

definition utf8_cont :: "char \<Rightarrow> bool" where
  "utf8_cont c = (128 \<le> code c \<and> code c \<le> 191)"

fun utf8_valid :: "string \<Rightarrow> bool" where
  "utf8_valid [] = True"
| "utf8_valid (a # s) =
     (if code a < 128 then utf8_valid s
      else if 194 \<le> code a \<and> code a \<le> 223 then
        (case s of b # s' \<Rightarrow> utf8_cont b \<and> utf8_valid s' | _ \<Rightarrow> False)
      else if 224 \<le> code a \<and> code a \<le> 239 then
        (case s of b # c # s' \<Rightarrow> utf8_cont b \<and> utf8_cont c
            \<and> (code a = 224 \<longrightarrow> 160 \<le> code b) \<and> (code a = 237 \<longrightarrow> code b \<le> 159) \<and> utf8_valid s'
          | _ \<Rightarrow> False)
      else if 240 \<le> code a \<and> code a \<le> 244 then
        (case s of b # c # d # s' \<Rightarrow> utf8_cont b \<and> utf8_cont c \<and> utf8_cont d
            \<and> (code a = 240 \<longrightarrow> 144 \<le> code b) \<and> (code a = 244 \<longrightarrow> code b \<le> 143) \<and> utf8_valid s'
          | _ \<Rightarrow> False)
      else False)"

definition decode_fragment :: "string \<Rightarrow> string option" where
  "decode_fragment fragment =
     Option.bind (percent_decode fragment) (\<lambda>s. if utf8_valid s then Some s else None)"

text \<open>The walk of \<open>local_reference_target\<close> over the segments of the path.\<close>

fun reference_walk ::
    "located \<Rightarrow> located \<Rightarrow> SchemaDialect \<Rightarrow> string list \<Rightarrow> (located \<times> located \<times> SchemaDialect) option" where
  "reference_walk target scope dialect [] = Some (target, scope, dialect)"
| "reference_walk target scope dialect (segment # segments) =
     (let t = unescape_token segment in
      Option.bind (json_child (snd target) t) (\<lambda>v.
      let target' = (fst target @ [address_token (snd target) t], v) in
      Option.bind (dialect_detect dialect v) (\<lambda>dialect'.
      reference_walk target' (if dialect_is_resource dialect' v then target' else scope) dialect' segments)))"

definition local_reference_target ::
    "located \<Rightarrow> string \<Rightarrow> SchemaDialect \<Rightarrow> (located \<times> located \<times> SchemaDialect) option" where
  "local_reference_target root fragment dialect =
     Option.bind (decode_fragment fragment) (\<lambda>path.
     Option.bind (dialect_detect dialect (snd root)) (\<lambda>dialect'.
     if path = [] then Some (root, root, dialect')
     else Option.bind (strip_prefix ''/'' path) (\<lambda>rest.
       reference_walk root root dialect' (split_on CHR ''/'' rest))))"

section \<open>The worklist\<close>

type_synonym schema_item = "located \<times> bool \<times> located \<times> SchemaDialect"
type_synonym reference = "string list \<times> string list \<times> SchemaDialect"

text \<open>The arms of the match over the keywords of a schema object.\<close>

definition map_keywords :: "string set" where
  "map_keywords = {''properties'', ''patternProperties'', ''$defs'', ''definitions'',
     ''dependentSchemas'', ''dependencies'', ''dependentRequired''}"

definition list_keywords :: "string set" where
  "list_keywords = {''allOf'', ''anyOf'', ''oneOf'', ''prefixItems'', ''items''}"

definition schema_keywords :: "string set" where
  "schema_keywords = {''additionalProperties'', ''unevaluatedProperties'', ''additionalItems'',
     ''unevaluatedItems'', ''contains'', ''propertyNames'', ''not'', ''if'', ''then'', ''else'',
     ''contentSchema''}"

definition reference_keywords :: "string set" where
  "reference_keywords = {''$ref'', ''$dynamicRef'', ''$recursiveRef''}"

definition literal_keywords :: "string set" where
  "literal_keywords = {''default'', ''examples'', ''const'', ''enum''}"

definition dependency_keywords :: "string set" where
  "dependency_keywords = {''dependencies'', ''dependentRequired''}"

text \<open>
  One keyword of a schema object. \<open>None\<close> is \<open>return true\<close>; otherwise the items pushed, in
  order, and the references checked.
\<close>

definition named_children ::
    "string \<Rightarrow> string list \<Rightarrow> bool \<Rightarrow> located \<Rightarrow> SchemaDialect \<Rightarrow> (string \<times> json) list
      \<Rightarrow> schema_item list option" where
  "named_children keyword path sensitive root dialect schemas =
     (if list_ex (\<lambda>(name, child).
           if keyword \<in> dependency_keywords \<and> is_array child
           then contains_secret_data child
           else is_hard_secret_key name \<and> \<not> is_object child \<and> \<not> is_boolean child) schemas
      then None
      else Some (map (\<lambda>(name, child).
           ((path @ [keyword, name], child), sensitive \<or> is_hard_secret_key name, root, dialect))
         (filter (\<lambda>(name, child).
           \<not> (keyword \<in> dependency_keywords \<and> is_array child)) schemas)))"

definition scan_keyword ::
    "string list \<Rightarrow> bool \<Rightarrow> located \<Rightarrow> SchemaDialect \<Rightarrow> reference list \<Rightarrow> string \<times> json
      \<Rightarrow> (schema_item list \<times> reference list) option" where
  "scan_keyword path sensitive root dialect checked entry =
    (let (keyword, v) = entry; here = path @ [keyword] in
     if keyword \<in> map_keywords then
       (case v of
          JObj schemas \<Rightarrow> map_option (\<lambda>items. (items, checked))
            (named_children keyword path sensitive root dialect schemas)
        | _ \<Rightarrow> if contains_secret_data v then None else Some ([], checked))
     else if keyword \<in> list_keywords then
       (case v of
          JArr schemas \<Rightarrow> Some (map (\<lambda>i. ((here @ [nat_text i], schemas ! i), sensitive, root, dialect))
            [0..<length schemas], checked)
        | _ \<Rightarrow> Some ([((here, v), sensitive, root, dialect)], checked))
     else if keyword \<in> schema_keywords then
       Some ([((here, v), sensitive, root, dialect)], checked)
     else if keyword \<in> reference_keywords \<and> sensitive then
       (case Option.bind (as_str v) (\<lambda>reference. Option.bind (strip_prefix ''#'' reference)
           (\<lambda>p. local_reference_target root p dialect)) of
          None \<Rightarrow> None
        | Some (target, scope, target_dialect) \<Rightarrow>
            if (fst target, fst scope, target_dialect) \<in> set checked then Some ([], checked)
            else Some ([(target, True, scope, target_dialect)],
              (fst target, fst scope, target_dialect) # checked))
     else if keyword \<in> literal_keywords \<and> sensitive then
       (if is_null v then Some ([], checked) else None)
     else if is_hard_secret_key keyword \<or> contains_secret_data v then None
     else Some ([], checked))"

fun scan_keywords ::
    "string list \<Rightarrow> bool \<Rightarrow> located \<Rightarrow> SchemaDialect \<Rightarrow> reference list \<Rightarrow> (string \<times> json) list
      \<Rightarrow> (schema_item list \<times> reference list) option" where
  "scan_keywords path sensitive root dialect checked [] = Some ([], checked)"
| "scan_keywords path sensitive root dialect checked (entry # entries) =
     Option.bind (scan_keyword path sensitive root dialect checked entry) (\<lambda>(items, checked').
     Option.bind (scan_keywords path sensitive root dialect checked' entries) (\<lambda>(items', checked'').
     Some (items @ items', checked'')))"

definition inspect_item :: "schema_item \<Rightarrow> reference list \<Rightarrow> (schema_item list \<times> reference list) option" where
  "inspect_item item checked =
    (let ((path, schema), sensitive, root, dialect) = item in
     case schema of
       JObj kvs \<Rightarrow>
         (case dialect_detect dialect schema of
            None \<Rightarrow> None
          | Some dialect' \<Rightarrow>
              scan_keywords path sensitive
                (if dialect_is_resource dialect' schema then (path, schema) else root)
                dialect' checked kvs)
     | _ \<Rightarrow> if contains_secret_data schema then None else Some ([], checked))"

section \<open>Termination of the worklist\<close>

text \<open>The located values below a located value, and the size that children share out.\<close>

fun located_below :: "string list \<Rightarrow> json \<Rightarrow> located set" where
  "located_below p (JObj kvs) = insert (p, JObj kvs) (\<Union>(k, c) \<in> set kvs. located_below (p @ [k]) c)"
| "located_below p (JArr vs) = insert (p, JArr vs)
     (\<Union>i \<in> {..<length vs}. located_below (p @ [nat_text i]) (vs ! i))"
| "located_below p v = {(p, v)}"

fun json_weight :: "json \<Rightarrow> nat" where
  "json_weight (JObj kvs) = Suc (sum_list (map (\<lambda>(k, c). json_weight c) kvs))"
| "json_weight (JArr vs) = Suc (sum_list (map json_weight vs))"
| "json_weight v = 1"

lemma located_self [simp]: "(p, v) \<in> located_below p v"
  by (cases v) auto

lemma finite_located [simp]: "finite (located_below p v)"
  by (induction p v rule: located_below.induct) auto

lemma located_trans: "(q, w) \<in> located_below p v \<Longrightarrow> located_below q w \<subseteq> located_below p v"
proof (induction p v rule: located_below.induct)
  case (1 p kvs)
  from "1.prems" consider "(q, w) = (p, JObj kvs)"
    | k c where "(k, c) \<in> set kvs" "(q, w) \<in> located_below (p @ [k]) c" by auto
  then show ?case
  proof cases
    case (2 k c)
    with "1.IH" [of "(k, c)" k c] have "located_below q w \<subseteq> located_below (p @ [k]) c" by simp
    with 2(1) show ?thesis by auto
  qed simp
next
  case (2 p vs)
  from "2.prems" consider "(q, w) = (p, JArr vs)"
    | i where "i < length vs" "(q, w) \<in> located_below (p @ [nat_text i]) (vs ! i)" by auto
  then show ?case
  proof cases
    case (2 i)
    with "2.IH" [of i] have "located_below q w \<subseteq> located_below (p @ [nat_text i]) (vs ! i)" by simp
    with 2(1) show ?thesis by auto
  qed simp
qed auto

lemma located_child:
  assumes "json_child v t = Some c"
  shows "(p @ [address_token v t], c) \<in> located_below p v"
  using assms by (cases v) (auto dest!: map_of_SomeD split: option.splits if_splits intro: located_self)

lemma reference_walk_below:
  assumes "reference_walk target scope d segs = Some (target', scope', d')"
    and "target \<in> located_below p v" "scope \<in> located_below p v"
  shows "target' \<in> located_below p v \<and> scope' \<in> located_below p v"
  using assms
proof (induction target scope d segs rule: reference_walk.induct)
  case (2 target scope d segment segs)
  let ?t = "unescape_token segment"
  from "2.prems"(1) obtain c d1 where c: "json_child (snd target) ?t = Some c"
    and d1: "dialect_detect d c = Some d1"
    and rest: "reference_walk (fst target @ [address_token (snd target) ?t], c)
      (if dialect_is_resource d1 c then (fst target @ [address_token (snd target) ?t], c) else scope)
      d1 segs = Some (target', scope', d')"
    by (auto simp: Let_def bind_eq_Some_conv)
  have "(fst target @ [address_token (snd target) ?t], c) \<in> located_below p v"
    using located_trans [of "fst target" "snd target" p v] located_child [OF c] "2.prems"(2) by auto
  then show ?case using "2.IH" [OF refl c refl d1 rest] "2.prems"(3) by simp
qed simp

lemma local_reference_below:
  assumes "local_reference_target (p, v) fragment d = Some (target, scope, d')"
  shows "target \<in> located_below p v \<and> scope \<in> located_below p v"
  using assms reference_walk_below [of "(p, v)" "(p, v)" _ _ target scope d' p v]
  by (auto simp: local_reference_target_def bind_eq_Some_conv split: if_splits)

fun item_nodes :: "schema_item \<Rightarrow> string list set" where
  "item_nodes ((p, v), _, (rp, rv), _) = fst ` located_below p v \<union> fst ` located_below rp rv"

fun item_weight :: "schema_item \<Rightarrow> nat" where
  "item_weight ((_, v), _) = json_weight v"

definition scan_bounds ::
    "string list set \<Rightarrow> nat \<Rightarrow> reference list \<Rightarrow> schema_item list \<Rightarrow> reference list \<Rightarrow> bool" where
  "scan_bounds nodes weight checked items checked' \<longleftrightarrow>
     (\<forall>item \<in> set items. item_nodes item \<subseteq> nodes) \<and>
     (\<exists>new. checked' = new @ checked \<and> set new \<subseteq> nodes \<times> nodes \<times> UNIV \<and>
        (new = [] \<longrightarrow> sum_list (map item_weight items) \<le> weight) \<and>
        (new \<noteq> [] \<longrightarrow> hd new \<notin> set checked))"

lemma scan_bounds_plain:
  assumes "\<forall>item \<in> set items. item_nodes item \<subseteq> nodes"
    and "sum_list (map item_weight items) \<le> weight"
  shows "scan_bounds nodes weight checked items checked"
  using assms by (auto simp: scan_bounds_def)

lemma sum_list_pairs_filter_le:
  "sum_list (map (\<lambda>x. f (snd x)) (filter P xs)) \<le> (sum_list (map (\<lambda>(k, c). f c) xs) :: nat)"
  by (induction xs) auto

lemma json_weight_pos [simp]: "0 < json_weight v"
  by (cases v) auto

lemma named_children_bounds:
  assumes items: "named_children k path s (rp, rv) d schemas = Some items"
    and below: "fst ` located_below (path @ [k]) (JObj schemas) \<subseteq> nodes"
    and root: "fst ` located_below rp rv \<subseteq> nodes"
  shows "scan_bounds nodes (json_weight (JObj schemas)) checked items checked"
proof (rule scan_bounds_plain)
  let ?keep = "\<lambda>(name, child). \<not> (k \<in> dependency_keywords \<and> is_array child)"
  have it: "items = map (\<lambda>(name, child).
      ((path @ [k, name], child), s \<or> is_hard_secret_key name, (rp, rv), d)) (filter ?keep schemas)"
    using items by (simp add: named_children_def split: if_splits)
  show "\<forall>item \<in> set items. item_nodes item \<subseteq> nodes"
  proof
    fix item assume "item \<in> set items"
    then obtain name child where nc: "(name, child) \<in> set schemas"
      "item = ((path @ [k, name], child), s \<or> is_hard_secret_key name, (rp, rv), d)"
      unfolding it by auto
    have "located_below (path @ [k, name]) child \<subseteq> located_below (path @ [k]) (JObj schemas)"
      using nc(1) by auto
    then have "fst ` located_below (path @ [k, name]) child \<subseteq> nodes"
      using below by blast
    with nc(2) root show "item_nodes item \<subseteq> nodes" by simp
  qed
  have "map item_weight items = map (\<lambda>x. json_weight (snd x)) (filter ?keep schemas)"
    unfolding it by (simp add: case_prod_unfold)
  then show "sum_list (map item_weight items) \<le> json_weight (JObj schemas)"
    using sum_list_pairs_filter_le [of json_weight ?keep schemas] by simp
qed

lemma array_children_bounds:
  assumes below: "fst ` located_below here (JArr schemas) \<subseteq> nodes"
    and root: "fst ` located_below rp rv \<subseteq> nodes"
  shows "scan_bounds nodes (json_weight (JArr schemas)) checked
    (map (\<lambda>i. ((here @ [nat_text i], schemas ! i), s, (rp, rv), d)) [0..<length schemas]) checked"
proof (rule scan_bounds_plain)
  show "\<forall>item \<in> set (map (\<lambda>i. ((here @ [nat_text i], schemas ! i), s, (rp, rv), d))
      [0..<length schemas]). item_nodes item \<subseteq> nodes"
  proof
    fix item assume "item \<in> set (map (\<lambda>i. ((here @ [nat_text i], schemas ! i), s, (rp, rv), d))
      [0..<length schemas])"
    then obtain i where i: "i < length schemas"
      "item = ((here @ [nat_text i], schemas ! i), s, (rp, rv), d)" by auto
    have "located_below (here @ [nat_text i]) (schemas ! i) \<subseteq> located_below here (JArr schemas)"
      using i(1) by auto
    then have "fst ` located_below (here @ [nat_text i]) (schemas ! i) \<subseteq> nodes"
      using below by blast
    with i(2) root show "item_nodes item \<subseteq> nodes" by simp
  qed
  have "map item_weight (map (\<lambda>i. ((here @ [nat_text i], schemas ! i), s, (rp, rv), d)) [0..<length schemas])
      = map json_weight schemas"
    by (rule nth_equalityI) simp_all
  then show "sum_list (map item_weight (map (\<lambda>i. ((here @ [nat_text i], schemas ! i), s, (rp, rv), d))
      [0..<length schemas])) \<le> json_weight (JArr schemas)" by simp
qed

lemma single_child_bounds:
  assumes "fst ` located_below here v \<subseteq> nodes" "fst ` located_below rp rv \<subseteq> nodes"
  shows "scan_bounds nodes (json_weight v) checked [((here, v), s, (rp, rv), d)] checked"
  using assms by (intro scan_bounds_plain) simp_all

lemma no_items_bounds: "scan_bounds nodes w checked [] checked"
  by (simp add: scan_bounds_def)

lemma reference_bounds:
  assumes "local_reference_target (rp, rv) fragment d = Some (target, scope, d')"
    and "(fst target, fst scope, d') \<notin> set checked"
    and root: "fst ` located_below rp rv \<subseteq> nodes"
  shows "scan_bounds nodes w checked [(target, True, scope, d')] ((fst target, fst scope, d') # checked)"
proof -
  have "target \<in> located_below rp rv \<and> scope \<in> located_below rp rv"
    using assms(1) by (rule local_reference_below)
  moreover obtain tp tv sp sv where ts: "target = (tp, tv)" "scope = (sp, sv)" by (metis surj_pair)
  moreover have sub: "fst ` located_below q u \<subseteq> nodes" if "(q, u) \<in> located_below rp rv" for q u
    using located_trans [OF that] root by blast
  ultimately have nodes: "fst ` located_below tp tv \<subseteq> nodes" "fst ` located_below sp sv \<subseteq> nodes"
    by simp_all
  then have "tp \<in> nodes" "sp \<in> nodes" using located_self by (metis fst_conv imageI subsetD)+
  with nodes assms(2) show ?thesis
    unfolding scan_bounds_def ts by (intro conjI exI [of _ "[(tp, sp, d')]"]) auto
qed

lemma scan_keyword_bounds:
  assumes scan: "scan_keyword path s (rp, rv) d checked (k, v) = Some (items, checked')"
    and below: "fst ` located_below (path @ [k]) v \<subseteq> nodes"
    and root: "fst ` located_below rp rv \<subseteq> nodes"
  shows "scan_bounds nodes (json_weight v) checked items checked'"
proof -
  have obj: "scan_bounds nodes (json_weight v) checked items checked'"
    if "(case v of JObj schemas \<Rightarrow> map_option (\<lambda>items. (items, checked))
            (named_children k path s (rp, rv) d schemas)
        | _ \<Rightarrow> if contains_secret_data v then None else Some ([], checked)) = Some (items, checked')"
    using that named_children_bounds [OF _ _ root] below
    by (cases v) (auto simp: no_items_bounds split: if_splits)
  have arr: "scan_bounds nodes (json_weight v) checked items checked'"
    if "(case v of JArr schemas \<Rightarrow>
            Some (map (\<lambda>i. (((path @ [k]) @ [nat_text i], schemas ! i), s, (rp, rv), d))
              [0..<length schemas], checked)
        | _ \<Rightarrow> Some ([((path @ [k], v), s, (rp, rv), d)], checked)) = Some (items, checked')"
    using that below root
    by (cases v) (auto intro: single_child_bounds array_children_bounds simp del: located_below.simps json_weight.simps append_assoc)
  have ref: "scan_bounds nodes (json_weight v) checked items checked'"
    if "(case Option.bind (as_str v) (\<lambda>reference. Option.bind (strip_prefix ''#'' reference)
           (\<lambda>p. local_reference_target (rp, rv) p d)) of
          None \<Rightarrow> None
        | Some (target, scope, target_dialect) \<Rightarrow>
            if (fst target, fst scope, target_dialect) \<in> set checked then Some ([], checked)
            else Some ([(target, True, scope, target_dialect)],
              (fst target, fst scope, target_dialect) # checked)) = Some (items, checked')"
    using that reference_bounds [OF _ _ root] no_items_bounds [of nodes]
    by (auto simp: bind_eq_Some_conv split: option.splits if_splits)
  show ?thesis
    using scan obj arr ref single_child_bounds [OF below root] no_items_bounds [of nodes]
    unfolding scan_keyword_def Let_def case_prod_conv
    by (auto simp del: append_assoc split: if_splits)
qed

lemma scan_bounds_append:
  assumes "scan_bounds nodes w1 checked items1 checked1" "scan_bounds nodes w2 checked1 items2 checked2"
  shows "scan_bounds nodes (w1 + w2) checked (items1 @ items2) checked2"
proof -
  from assms obtain n1 n2 where n: "checked1 = n1 @ checked" "checked2 = n2 @ checked1"
    and sub: "set n1 \<subseteq> nodes \<times> nodes \<times> UNIV" "set n2 \<subseteq> nodes \<times> nodes \<times> UNIV"
    and w: "n1 = [] \<longrightarrow> sum_list (map item_weight items1) \<le> w1"
      "n2 = [] \<longrightarrow> sum_list (map item_weight items2) \<le> w2"
    and hd: "n1 \<noteq> [] \<longrightarrow> hd n1 \<notin> set checked" "n2 \<noteq> [] \<longrightarrow> hd n2 \<notin> set checked1"
    unfolding scan_bounds_def by blast
  have "n2 @ n1 \<noteq> [] \<longrightarrow> hd (n2 @ n1) \<notin> set checked"
    using hd n by (cases n2) auto
  with assms n sub w show ?thesis
    unfolding scan_bounds_def
    by (intro conjI exI [of _ "n2 @ n1"]) (auto intro: add_mono)
qed

lemma scan_keywords_bounds:
  assumes "scan_keywords path s (rp, rv) d checked kvs = Some (items, checked')"
    and "\<forall>(k, v) \<in> set kvs. fst ` located_below (path @ [k]) v \<subseteq> nodes"
    and root: "fst ` located_below rp rv \<subseteq> nodes"
  shows "scan_bounds nodes (sum_list (map (\<lambda>(k, c). json_weight c) kvs)) checked items checked'"
  using assms(1,2)
proof (induction kvs arbitrary: checked items)
  case Nil
  then show ?case by (simp add: no_items_bounds)
next
  case (Cons kv kvs)
  obtain k v where kv: "kv = (k, v)" by (cases kv)
  from Cons.prems(1) obtain i1 c1 i2 where
    one: "scan_keyword path s (rp, rv) d checked (k, v) = Some (i1, c1)"
    and rest: "scan_keywords path s (rp, rv) d c1 kvs = Some (i2, checked')"
    and items: "items = i1 @ i2"
    by (auto simp: kv bind_eq_Some_conv)
  have "scan_bounds nodes (json_weight v) checked i1 c1"
    using Cons.prems(2) by (intro scan_keyword_bounds [OF one _ root]) (simp add: kv)
  moreover have "scan_bounds nodes (sum_list (map (\<lambda>(k, c). json_weight c) kvs)) c1 i2 checked'"
    using Cons.prems(2) by (intro Cons.IH [OF rest]) simp
  ultimately show ?case unfolding items kv by (simp add: scan_bounds_append)
qed

lemma inspect_item_bounds:
  assumes "inspect_item item checked = Some (items, checked')"
  shows "\<exists>w < item_weight item. scan_bounds (item_nodes item) w checked items checked'"
proof -
  obtain path schema s rp rv d where item: "item = ((path, schema), s, (rp, rv), d)"
    by (metis surj_pair)
  show ?thesis
  proof (cases "is_object schema")
    case True
    then obtain kvs where schema: "schema = JObj kvs" by (cases schema) auto
    with assms obtain d' where scan: "scan_keywords path s
        (if dialect_is_resource d' schema then (path, schema) else (rp, rv)) d' checked kvs
        = Some (items, checked')"
      by (auto simp: inspect_item_def item split: option.splits)
    let ?root = "if dialect_is_resource d' schema then (path, schema) else (rp, rv)"
    have "scan_bounds (item_nodes item) (sum_list (map (\<lambda>(k, c). json_weight c) kvs)) checked items checked'"
    proof (rule scan_keywords_bounds [of _ _ "fst ?root" "snd ?root"])
      show "scan_keywords path s (fst ?root, snd ?root) d' checked kvs = Some (items, checked')"
        using scan by simp
      show "\<forall>(k, v) \<in> set kvs. fst ` located_below (path @ [k]) v \<subseteq> item_nodes item"
        unfolding item schema by force
      show "fst ` located_below (fst ?root) (snd ?root) \<subseteq> item_nodes item"
        unfolding item by simp
    qed
    then show ?thesis by (intro exI [of _ "sum_list (map (\<lambda>(k, c). json_weight c) kvs)"]) (simp add: item schema)
  next
    case False
    then have "items = [] \<and> checked' = checked"
      using assms by (cases schema) (auto simp: inspect_item_def item split: if_splits)
    then show ?thesis using no_items_bounds [of "item_nodes item" 0 checked]
      by (intro exI [of _ 0]) (simp add: item)
  qed
qed

definition pending_nodes :: "schema_item list \<Rightarrow> string list set" where
  "pending_nodes pending = \<Union> (item_nodes ` set pending)"

definition unchecked_references :: "reference list \<times> schema_item list \<Rightarrow> reference set" where
  "unchecked_references = (\<lambda>(checked, pending).
     pending_nodes pending \<times> pending_nodes pending \<times> UNIV - set checked)"

lemma finite_unchecked: "finite (unchecked_references st)"
proof -
  have "finite (UNIV :: SchemaDialect set)"
    by (rule finite_subset [of _ "{Draft4, Draft6Or7, Modern}"]) (use SchemaDialect.exhaust in auto)
  moreover have "finite (item_nodes item)" for item by (cases item rule: item_nodes.cases) auto
  ultimately show ?thesis by (cases st) (simp add: unchecked_references_def pending_nodes_def)
qed

function schema_scan :: "reference list \<Rightarrow> schema_item list \<Rightarrow> bool" where
  "schema_scan checked [] = False"
| "schema_scan checked (item # pending) =
     (case inspect_item item checked of
        None \<Rightarrow> True
      | Some (pushed, checked') \<Rightarrow> schema_scan checked' (rev pushed @ pending))"
  by pat_completeness auto
termination
proof (relation "inv_image (less_than <*lex*> less_than)
    (\<lambda>st. (card (unchecked_references st), sum_list (map item_weight (snd st))))", goal_cases)
  case 1
  show ?case by (intro wf_inv_image wf_lex_prod wf_less_than)
next
  case (2 checked item pending x pushed checked')
  then obtain w where w: "w < item_weight item"
    and b: "scan_bounds (item_nodes item) w checked pushed checked'"
    using inspect_item_bounds by (metis prod.collapse)
  then obtain new where new: "checked' = new @ checked"
    "set new \<subseteq> item_nodes item \<times> item_nodes item \<times> UNIV"
    "new = [] \<longrightarrow> sum_list (map item_weight pushed) \<le> w" "new \<noteq> [] \<longrightarrow> hd new \<notin> set checked"
    and nodes: "\<forall>it \<in> set pushed. item_nodes it \<subseteq> item_nodes item"
    unfolding scan_bounds_def by blast
  have sub: "pending_nodes (rev pushed @ pending) \<subseteq> pending_nodes (item # pending)"
    using nodes by (auto simp: pending_nodes_def)
  have le: "unchecked_references (checked', rev pushed @ pending) \<subseteq> unchecked_references (checked, item # pending)"
    using sub unfolding unchecked_references_def new(1) by auto
  show ?case
  proof (cases new)
    case Nil
    have "sum_list (map item_weight (rev pushed @ pending)) < sum_list (map item_weight (item # pending))"
      using new(3) w Nil by (simp flip: rev_map)
    with card_mono [OF finite_unchecked le] show ?thesis by auto
  next
    case (Cons r rs)
    then have "r \<in> unchecked_references (checked, item # pending)"
      "r \<notin> unchecked_references (checked', rev pushed @ pending)"
      using new by (auto simp: unchecked_references_def pending_nodes_def)
    with le have "unchecked_references (checked', rev pushed @ pending)
        \<subset> unchecked_references (checked, item # pending)" by blast
    then show ?thesis using psubset_card_mono [OF finite_unchecked] by simp
  qed
qed

definition schema_contains_secret :: "json \<Rightarrow> bool" where
  "schema_contains_secret schema = schema_scan [] [(([], schema), False, ([], schema), Modern)]"

section \<open>Redaction of a request\<close>

definition schema_paths :: "EffectRequest \<Rightarrow> string list" where
  "schema_paths request =
    (let action = er_action request; content = er_content request in
     if er_phase request \<noteq> PreEffect then []
     else if (action = ''mcp.call''
         \<or> (starts_with ''plugin.mcp.'' action \<and> ends_with ''.call'' action))
       \<and> Option.bind (json_pointer content ''/operation/kind'') as_str = Some ''call_tool''
     then [''/operation/input_schema'', ''/operation/output_schema'']
     else if action \<in> {''provider.echo'', ''provider.openai.responses'', ''provider.openai.codex'',
         ''provider.openai.chat'', ''provider.anthropic.messages''}
     then (case Option.bind (json_pointer content ''/request/tools'') as_array of
         Some tools \<Rightarrow> map (\<lambda>index. ''/request/tools/'' @ nat_text index @ ''/input_schema'')
           [0..<length tools]
       | None \<Rightarrow> [])
     else [])"

text \<open>The loop that detaches the schemas: each is checked and replaced by null.\<close>

fun detach_schemas ::
    "json \<Rightarrow> string list \<Rightarrow> (GatewayError, json \<times> (string \<times> json) list) result" where
  "detach_schemas content [] = Inr (content, [])"
| "detach_schemas content (path # paths) =
     (case json_pointer content path of
        None \<Rightarrow> detach_schemas content paths
      | Some schema \<Rightarrow>
          if schema_contains_secret schema
          then Inl (GSafety ''tool schema contains hard-secret literal data'')
          else bind_r (detach_schemas (json_set content (the (pointer_tokens path)) JNull) paths)
            (\<lambda>(content', schemas). Inr (content', (path, schema) # schemas)))"

fun restore_schemas :: "json \<Rightarrow> (string \<times> json) list \<Rightarrow> (GatewayError, json) result" where
  "restore_schemas content [] = Inr content"
| "restore_schemas content ((path, schema) # schemas) =
     (case json_pointer content path of
        None \<Rightarrow> Inl (GContract ''tool schema position changed during redaction'')
      | Some _ \<Rightarrow> restore_schemas (json_set content (the (pointer_tokens path)) schema) schemas)"

definition redact_request_content :: "Platform \<Rightarrow> EffectRequest \<Rightarrow> (GatewayError, EffectRequest) result" where
  "redact_request_content pl request =
     bind_r (detach_schemas (er_content request) (schema_paths request)) (\<lambda>(content, schemas).
     bind_r (restore_schemas (redact_hard_secrets pl content) schemas) (\<lambda>content'.
     Inr (request\<lparr>er_content := content'\<rparr>)))"

section \<open>What redaction hides\<close>

text \<open>A placeholder shows a digest and a size.\<close>

definition is_placeholder :: "json \<Rightarrow> bool" where
  "is_placeholder v = (\<exists>digest n. v = JObj [(''redacted'', JBool True), (''sha256'', JStr digest),
     (''size'', JNum (Unsigned n))])"

text \<open>No value under a hard-secret name, at any depth, but references and placeholders.\<close>

fun secrets_hidden :: "json \<Rightarrow> bool" where
  "secrets_hidden (JObj kvs) = (\<forall>(k, v) \<in> set kvs.
     if is_hard_secret_key k then is_environment_credential_reference v \<or> is_placeholder v
     else secrets_hidden v)"
| "secrets_hidden (JArr vs) = (\<forall>v \<in> set vs. secrets_hidden v)"
| "secrets_hidden v = True"

definition headers_hidden :: "json \<Rightarrow> bool" where
  "headers_hidden c = (case c of
      JObj hs \<Rightarrow> (\<forall>(h, r) \<in> set hs. is_credential_header_reference r \<or> is_placeholder r)
    | _ \<Rightarrow> secrets_hidden c)"

definition content_hidden :: "json \<Rightarrow> bool" where
  "content_hidden v = (case v of
      JObj kvs \<Rightarrow> (\<forall>(k, c) \<in> set kvs.
        if k = ''credential_headers'' then headers_hidden c else secrets_hidden (JObj [(k, c)]))
    | _ \<Rightarrow> secrets_hidden v)"

lemma is_placeholder_redacted [simp]: "is_placeholder (redacted_placeholder pl v)"
  by (simp add: is_placeholder_def redacted_placeholder_def Let_def)

lemma redact_nested_hidden: "secrets_hidden (redact_nested pl v)"
proof (induction pl v rule: redact_nested.induct)
  case (1 pl kvs)
  have "is_environment_credential_reference (redact_nested pl v)"
    if "is_environment_credential_reference v" for v
    using that by (cases v) (auto simp: is_environment_credential_reference_def)
  with 1 show ?case by fastforce
qed auto

lemma redact_hard_secrets_hidden: "content_hidden (redact_hard_secrets pl v)"
proof (cases v)
  case (JObj kvs)
  have env: "is_environment_credential_reference (redact_nested pl w)"
    if "is_environment_credential_reference w" for w
    using that by (cases w) (auto simp: is_environment_credential_reference_def)
  have headers: "headers_hidden (redact_credential_headers pl c)" for c
  proof (cases c)
    case (JArr vs)
    then show ?thesis using redact_nested_hidden [of pl c]
      by (simp add: redact_credential_headers_def headers_hidden_def)
  qed (auto simp: redact_credential_headers_def headers_hidden_def)
  show ?thesis
    unfolding JObj content_hidden_def redact_hard_secrets_def
    using headers env redact_nested_hidden
    by (auto simp: CREDENTIAL_HEADERS_FIELD_def)
qed (use redact_nested_hidden [of pl v] in \<open>auto simp: content_hidden_def redact_hard_secrets_def split: json.splits\<close>)

section \<open>Schemas keep their positions\<close>

lemma digit_code: "is_ascii_digit c \<Longrightarrow> \<exists>d < 10. c = char_of (48 + d) \<and> code c = 48 + d"
proof -
  assume "is_ascii_digit c"
  then have "48 \<le> code c \<and> code c \<le> 57" by (simp add: is_ascii_digit_def)
  then show ?thesis by (intro exI [of _ "code c - 48"]) auto
qed

lemma decimal_nat_text:
  assumes "s \<noteq> []" "list_all is_ascii_digit s" "hd s \<noteq> CHR ''0'' \<or> length s = 1"
  shows "nat_text (foldl (\<lambda>acc c. acc * 10 + (code c - 48)) 0 s) = s
    \<and> (hd s \<noteq> CHR ''0'' \<longrightarrow> 0 < foldl (\<lambda>acc c. acc * 10 + (code c - 48)) 0 s)"
  using assms
proof (induction s rule: rev_induct)
  case (snoc c s)
  let ?v = "\<lambda>s. foldl (\<lambda>acc c. acc * 10 + (code c - 48)) (0::nat) s"
  obtain d where d: "d < 10" "c = char_of (48 + d)" "code c = 48 + d"
    using digit_code [of c] snoc.prems by auto
  show ?case
  proof (cases s)
    case Nil
    have "char_of (48 :: nat) = CHR ''0''" by code_simp
    then have "c \<noteq> CHR ''0'' \<Longrightarrow> 0 < d" using d by (cases "d = 0") auto
    with Nil d show ?thesis by (simp add: nat_text.simps [of d])
  next
    case (Cons a s')
    then have "nat_text (?v s) = s \<and> 0 < ?v s" using snoc by auto
    moreover have "?v (s @ [c]) = ?v s * 10 + d" using d by simp
    ultimately show ?thesis
      using d nat_text.simps [of "?v s * 10 + d"] by auto
  qed
qed simp

lemma parse_index_nat_text: "parse_index t = Some i \<Longrightarrow> nat_text i = t"
  using decimal_nat_text [of t] by (auto simp: parse_index_def Let_def split: if_splits)

lemma update_entry_same: "map_of kvs k = Some c \<Longrightarrow> map_of (update_entry k w kvs) k = Some w"
  by (induction kvs) (auto split: if_splits)

lemma update_entry_other: "k \<noteq> k' \<Longrightarrow> map_of (update_entry k w kvs) k' = map_of kvs k'"
  by (induction kvs) auto

lemma child_set_same: "json_child v t = Some c \<Longrightarrow> json_child (json_set_child v t w) t = Some w"
  by (cases v) (auto simp: update_entry_same split: option.splits if_splits)

lemma child_set_other:
  assumes "t \<noteq> t'"
  shows "json_child (json_set_child v t w) t' = json_child v t'"
proof (cases v)
  case (JArr vs)
  have "i \<noteq> j" if "parse_index t = Some i" "parse_index t' = Some j" for i j
    using that assms parse_index_nat_text by metis
  with JArr show ?thesis by (auto split: option.splits)
qed (use assms in \<open>auto simp: update_entry_other\<close>)

lemma json_at_set_same: "json_at v ts = Some c \<Longrightarrow> json_at (json_set v ts w) ts = Some w"
  by (induction v ts arbitrary: c rule: json_at.induct)
    (auto simp: bind_eq_Some_conv child_set_same split: option.splits)

definition incomparable :: "string list \<Rightarrow> string list \<Rightarrow> bool" where
  "incomparable ts us = (\<not> prefix ts us \<and> \<not> prefix us ts)"

lemma json_at_set_other:
  "incomparable ts us \<Longrightarrow> json_at (json_set v ts w) us = json_at v us"
proof (induction ts arbitrary: v us)
  case (Cons t ts)
  then obtain u us' where us: "us = u # us'" by (cases us) (auto simp: incomparable_def)
  show ?case
  proof (cases "json_child v t")
    case (Some c)
    show ?thesis
    proof (cases "t = u")
      case True
      with Cons.prems us have "incomparable ts us'" by (simp add: incomparable_def)
      with Cons.IH Some True us show ?thesis by (simp add: child_set_same)
    next
      case False
      with Some us show ?thesis by (simp add: child_set_other)
    qed
  qed simp
qed (simp add: incomparable_def)

lemma redact_nested_child:
  "\<not> is_hard_secret_key t \<Longrightarrow> json_child (redact_nested pl v) t = map_option (redact_nested pl) (json_child v t)"
proof (cases v)
  case (JObj kvs)
  assume t: "\<not> is_hard_secret_key t"
  have "map_of (map (\<lambda>(k, v). (k, f k v)) kvs) t = map_option (f t) (map_of kvs t)" for f :: "string \<Rightarrow> json \<Rightarrow> json"
    by (induction kvs) auto
  with t JObj show ?thesis by simp
qed (auto split: option.splits)

lemma redact_nested_at:
  "list_all (\<lambda>t. \<not> is_hard_secret_key t) ts \<Longrightarrow>
     json_at (redact_nested pl v) ts = map_option (redact_nested pl) (json_at v ts)"
proof (induction ts arbitrary: v)
  case (Cons t ts)
  then show ?case by (cases "json_child v t") (simp_all add: redact_nested_child)
qed simp

lemma redact_root_child:
  assumes "\<not> is_hard_secret_key t" "t \<noteq> ''credential_headers''"
  shows "json_child (redact_hard_secrets pl v) t = map_option (redact_nested pl) (json_child v t)"
proof (cases v)
  case (JObj kvs)
  have "map_of (map (\<lambda>(k, v). (k, f k v)) kvs) t = map_option (f t) (map_of kvs t)" for f :: "string \<Rightarrow> json \<Rightarrow> json"
    by (induction kvs) auto
  with assms JObj show ?thesis by (simp add: redact_hard_secrets_def CREDENTIAL_HEADERS_FIELD_def)
qed (auto simp: redact_hard_secrets_def split: option.splits)

lemma redact_root_at:
  assumes "list_all (\<lambda>t. \<not> is_hard_secret_key t) (t # ts)" "t \<noteq> ''credential_headers''"
  shows "json_at (redact_hard_secrets pl v) (t # ts) = map_option (redact_nested pl) (json_at v (t # ts))"
  using assms by (cases "json_child v t") (simp_all add: redact_root_child redact_nested_at)

lemma nat_text_digits: "list_all is_ascii_digit (nat_text n)"
proof (induction n rule: nat_text.induct)
  case (1 n)
  have "is_ascii_digit (char_of (48 + d))" if "d < 10" for d :: nat
    using that by (simp add: is_ascii_digit_def)
  with 1 show ?case by (subst nat_text.simps) simp
qed

lemma nat_text_value: "foldl (\<lambda>acc c. acc * 10 + (code c - 48)) 0 (nat_text n) = n"
proof (induction n rule: nat_text.induct)
  case (1 n)
  have "code (char_of (48 + d)) = 48 + d" if "d < 10" for d :: nat
    using that by simp
  with 1 show ?case by (subst nat_text.simps) simp
qed

lemma nat_text_inject [simp]: "nat_text m = nat_text n \<longleftrightarrow> m = n"
  using nat_text_value by metis

lemma split_on_append: "c \<notin> set a \<Longrightarrow> split_on c (a @ c # b) = a # split_on c b"
  by (induction a) auto

lemma split_on_single: "c \<notin> set a \<Longrightarrow> split_on c a = [a]"
  by (induction a) auto

lemma unescape_plain: "CHR ''~'' \<notin> set s \<Longrightarrow> unescape_token s = s"
  by (induction s rule: unescape_token.induct) auto

lemma tool_path_tokens:
  "pointer_tokens (''/request/tools/'' @ nat_text i @ ''/input_schema'')
     = Some [''request'', ''tools'', nat_text i, ''input_schema'']"
proof -
  have d: "CHR ''/'' \<notin> set (nat_text i)" "CHR ''~'' \<notin> set (nat_text i)"
    using nat_text_digits [of i] by (auto simp: list_all_iff is_ascii_digit_def)
  have "split_on CHR ''/'' (''request'' @ CHR ''/'' # ''tools'' @ CHR ''/'' # nat_text i @ CHR ''/'' # ''input_schema'')
      = [''request'', ''tools'', nat_text i, ''input_schema'']"
    using d(1) by (subst split_on_append, simp, subst split_on_append, simp, subst split_on_append)
      (simp_all add: split_on_single)
  then show ?thesis using d(2) by (simp add: pointer_tokens_def unescape_plain)
qed

lemma operation_path_tokens:
  "pointer_tokens ''/operation/input_schema'' = Some [''operation'', ''input_schema'']"
  "pointer_tokens ''/operation/output_schema'' = Some [''operation'', ''output_schema'']"
  by code_simp+

definition schema_tokens :: "string \<Rightarrow> string list" where
  "schema_tokens p = the (pointer_tokens p)"

text \<open>What the positions have in common: they are disjoint and no step of them is a secret name.\<close>

definition disjoint_paths :: "string list \<Rightarrow> bool" where
  "disjoint_paths ps = (sorted_wrt (\<lambda>p q. incomparable (schema_tokens p) (schema_tokens q)) ps
     \<and> (\<forall>p \<in> set ps. pointer_tokens p = Some (schema_tokens p)))"

lemma incomparable_sym: "incomparable ts us \<longleftrightarrow> incomparable us ts"
  by (auto simp: incomparable_def)

lemma sorted_wrt_pairwise:
  assumes "sorted_wrt P xs" "x \<in> set xs" "y \<in> set xs" "x \<noteq> y"
  shows "P x y \<or> P y x"
  using assms by (induction xs) auto

lemma disjoint_paths_Cons: "disjoint_paths (p # ps) \<longleftrightarrow>
    disjoint_paths ps \<and> pointer_tokens p = Some (schema_tokens p)
    \<and> (\<forall>q \<in> set ps. incomparable (schema_tokens p) (schema_tokens q))"
  by (auto simp: disjoint_paths_def)

lemma schema_paths_shape:
  "schema_paths request = [] \<or> schema_paths request = [''/operation/input_schema'', ''/operation/output_schema'']
   \<or> (\<exists>n. schema_paths request
        = map (\<lambda>i. ''/request/tools/'' @ nat_text i @ ''/input_schema'') [0..<n])"
  unfolding schema_paths_def Let_def by (auto split: option.splits)

lemma tool_paths_disjoint:
  "disjoint_paths (map (\<lambda>i. ''/request/tools/'' @ nat_text i @ ''/input_schema'') [0..<n])"
proof -
  have "sorted_wrt (\<lambda>i j. incomparable [''request'', ''tools'', nat_text i, ''input_schema'']
      [''request'', ''tools'', nat_text j, ''input_schema'']) [0..<n]"
    by (rule sorted_wrt_mono_rel [OF _ sorted_wrt_upt]) (auto simp: incomparable_def)
  then show ?thesis
    unfolding disjoint_paths_def schema_tokens_def
    by (auto simp del: append.simps simp: sorted_wrt_map tool_path_tokens)
qed

lemma schema_paths_disjoint: "disjoint_paths (schema_paths request)"
  using schema_paths_shape [of request]
proof (elim disjE exE)
  assume "schema_paths request = [''/operation/input_schema'', ''/operation/output_schema'']"
  then show ?thesis
    by (simp add: disjoint_paths_def schema_tokens_def operation_path_tokens incomparable_def)
qed (simp_all only: tool_paths_disjoint, simp add: disjoint_paths_def)

lemma schema_paths_plain:
  assumes "p \<in> set (schema_paths request)"
  shows "\<exists>t ts. schema_tokens p = t # ts \<and> list_all (\<lambda>t. \<not> is_hard_secret_key t) (t # ts)
    \<and> t \<noteq> ''credential_headers''"
proof -
  have "\<not> is_hard_secret_key (nat_text i)" for i
  proof -
    have "nat_text i \<noteq> []" by (subst nat_text.simps) simp
    then obtain c cs where c: "nat_text i = c # cs" by (cases "nat_text i") auto
    then have "is_ascii_digit c" using nat_text_digits [of i] by simp
    then show ?thesis unfolding c
      by (auto simp: is_hard_secret_key_def to_ascii_lowercase_def ascii_lower_def is_ascii_digit_def
          is_ascii_uppercase_def split: if_splits)
  qed
  moreover have "\<not> is_hard_secret_key ''operation'' \<and> \<not> is_hard_secret_key ''input_schema''
    \<and> \<not> is_hard_secret_key ''output_schema'' \<and> \<not> is_hard_secret_key ''request''
    \<and> \<not> is_hard_secret_key ''tools''" by code_simp
  ultimately show ?thesis
    using assms schema_paths_shape [of request]
    by (auto simp: schema_tokens_def operation_path_tokens tool_path_tokens simp del: append.simps)
qed

lemma json_pointer_tokens: "pointer_tokens p = Some ts \<Longrightarrow> json_pointer v p = json_at v ts"
  by (simp add: json_pointer_def)

lemma detach_schemas_ok:
  assumes "detach_schemas content ps = Inr (content', schemas)" and "disjoint_paths ps"
  shows "map fst schemas = filter (\<lambda>p. json_pointer content p \<noteq> None) ps
    \<and> (\<forall>(p, s) \<in> set schemas. json_pointer content p = Some s \<and> \<not> schema_contains_secret s)
    \<and> (\<forall>p \<in> set ps. json_pointer content' p = None \<longleftrightarrow> json_pointer content p = None)
    \<and> (\<forall>us. (\<forall>p \<in> set ps. incomparable (schema_tokens p) us) \<longrightarrow> json_at content' us = json_at content us)"
  using assms
proof (induction content ps arbitrary: content' schemas rule: detach_schemas.induct)
  case (2 content p ps)
  note dis = "2.prems"(2) [unfolded disjoint_paths_Cons]
  have at: "json_pointer v p = json_at v (schema_tokens p)" for v
    using dis by (simp add: json_pointer_tokens)
  have other: "json_pointer (json_set v (schema_tokens p) w) q = json_pointer v q" if "q \<in> set ps" for v w q
    using dis that by (simp add: json_pointer_def disjoint_paths_def json_at_set_other)
  show ?case
  proof (cases "json_pointer content p")
    case None
    then have rec: "detach_schemas content ps = Inr (content', schemas)" using "2.prems"(1) by simp
    note IH = "2.IH"(1) [OF None rec conjunct1 [OF dis]]
    have "json_pointer content' p = json_pointer content p"
      using IH dis unfolding at by (auto simp: incomparable_sym)
    with IH None show ?thesis by auto
  next
    case (Some s)
    with "2.prems"(1) obtain schemas' where ns: "\<not> schema_contains_secret s"
      and rec: "detach_schemas (json_set content (schema_tokens p) JNull) ps = Inr (content', schemas')"
      and sch: "schemas = (p, s) # schemas'"
      by (auto simp: schema_tokens_def bind_r_Inr_iff split: if_splits)
    note IH = "2.IH"(2) [OF Some ns rec [unfolded schema_tokens_def] conjunct1 [OF dis]]
    have keep: "json_pointer content' p = Some JNull"
      using IH dis json_at_set_same [OF Some [unfolded at]] unfolding at schema_tokens_def
      by (auto simp: incomparable_sym)
    have "map fst schemas' = filter (\<lambda>q. json_pointer content q \<noteq> None) ps"
      using IH other unfolding schema_tokens_def by (auto cong: filter_cong)
    moreover have "json_pointer content q = Some u \<and> \<not> schema_contains_secret u" if "(q, u) \<in> set schemas'" for q u
    proof -
      from that have "q \<in> set (map fst schemas')" by force
      then have "q \<in> set ps" using calculation by auto
      with IH that other show ?thesis unfolding schema_tokens_def by fastforce
    qed
    ultimately show ?thesis
      using IH other ns Some sch keep json_at_set_other unfolding schema_tokens_def
      by (auto simp: incomparable_sym)
  qed
qed simp

lemma restore_schemas_ok:
  assumes "disjoint_paths (map fst schemas)"
    and "\<forall>(p, s) \<in> set schemas. json_pointer content p \<noteq> None"
  shows "\<exists>content'. restore_schemas content schemas = Inr content'
    \<and> (\<forall>(p, s) \<in> set schemas. json_pointer content' p = Some s)
    \<and> (\<forall>us. (\<forall>p \<in> fst ` set schemas. incomparable (schema_tokens p) us)
        \<longrightarrow> json_at content' us = json_at content us)"
  using assms
proof (induction content schemas rule: restore_schemas.induct)
  case (2 content p s schemas)
  note dis = "2.prems"(1) [simplified, unfolded disjoint_paths_Cons]
  obtain old where old: "json_pointer content p = Some old" using "2.prems"(2) by auto
  have at: "json_pointer v p = json_at v (schema_tokens p)" for v
    using dis by (simp add: json_pointer_tokens)
  have other: "json_pointer (json_set v (schema_tokens p) w) q = json_pointer v q"
    if "q \<in> fst ` set schemas" for v w q
  proof -
    have "pointer_tokens q = Some (schema_tokens q)" "incomparable (schema_tokens p) (schema_tokens q)"
      using dis that by (auto simp: disjoint_paths_def)
    then show ?thesis by (simp add: json_pointer_tokens json_at_set_other)
  qed
  have "\<forall>(q, u) \<in> set schemas. json_pointer (json_set content (schema_tokens p) s) q \<noteq> None"
    using "2.prems"(2) other by (force simp del: not_None_eq)
  then obtain content' where rec: "restore_schemas (json_set content (schema_tokens p) s) schemas = Inr content'"
    and got: "\<forall>(q, u) \<in> set schemas. json_pointer content' q = Some u"
    and rest: "\<forall>us. (\<forall>p \<in> fst ` set schemas. incomparable (schema_tokens p) us)
        \<longrightarrow> json_at content' us = json_at (json_set content (schema_tokens p) s) us"
    using "2.IH" [OF old] conjunct1 [OF dis] unfolding schema_tokens_def [symmetric] by blast
  have "json_pointer content' p = Some s"
    using rest dis json_at_set_same [OF old [unfolded at]] unfolding at by (auto simp: incomparable_sym)
  with rec got rest old show ?case by (auto simp: schema_tokens_def json_at_set_other)
qed simp

lemma redact_request_cases:
  obtains (secret) "redact_request_content pl request
      = Inl (GSafety ''tool schema contains hard-secret literal data'')"
  | (redacted) content schemas content' where
      "detach_schemas (er_content request) (schema_paths request) = Inr (content, schemas)"
      "restore_schemas (redact_hard_secrets pl content) schemas = Inr content'"
      "redact_request_content pl request = Inr (request\<lparr>er_content := content'\<rparr>)"
      "\<forall>p \<in> set (schema_paths request). json_pointer content' p = json_pointer (er_content request) p"
proof (cases "detach_schemas (er_content request) (schema_paths request)")
  case (Inl e)
  have "detach_schemas c ps = Inl e' \<Longrightarrow> e' = GSafety ''tool schema contains hard-secret literal data''" for c ps e'
    by (induction c ps rule: detach_schemas.induct)
      (auto simp: bind_r_def split: option.splits if_splits sum.splits)
  with Inl secret show thesis by (simp add: redact_request_content_def)
next
  case (Inr r)
  then obtain content schemas where d: "detach_schemas (er_content request) (schema_paths request)
      = Inr (content, schemas)" by (cases r) auto
  note ok = detach_schemas_ok [OF d schema_paths_disjoint]
  have keys: "map fst schemas = filter (\<lambda>p. json_pointer (er_content request) p \<noteq> None) (schema_paths request)"
    using ok by blast
  have sub: "fst ` set schemas \<subseteq> set (schema_paths request)"
    using keys by (metis filter_is_subset set_map)
  have red: "json_pointer (redact_hard_secrets pl content) p = None \<longleftrightarrow> json_pointer (er_content request) p = None"
    if p: "p \<in> set (schema_paths request)" for p
  proof -
    obtain t ts where "schema_tokens p = t # ts" "list_all (\<lambda>t. \<not> is_hard_secret_key t) (t # ts)"
      "t \<noteq> ''credential_headers''" using schema_paths_plain [OF p] by blast
    moreover have "pointer_tokens p = Some (schema_tokens p)"
      using schema_paths_disjoint [of request] p by (simp add: disjoint_paths_def)
    moreover have "json_at (redact_hard_secrets pl content) (t # ts)
        = map_option (redact_nested pl) (json_at content (t # ts))"
      using calculation by (intro redact_root_at)
    ultimately have "json_pointer (redact_hard_secrets pl content) p
        = map_option (redact_nested pl) (json_pointer content p)"
      by (simp only: json_pointer_tokens)
    with ok p show ?thesis by auto
  qed
  have dis: "disjoint_paths (map fst schemas)"
    unfolding keys using schema_paths_disjoint [of request]
    by (auto simp: disjoint_paths_def sorted_wrt_filter)
  have "\<forall>(p, s) \<in> set schemas. json_pointer (redact_hard_secrets pl content) p \<noteq> None"
    using ok red sub by fastforce
  then obtain content' where r: "restore_schemas (redact_hard_secrets pl content) schemas = Inr content'"
    and got: "\<forall>(p, s) \<in> set schemas. json_pointer content' p = Some s"
    and rest: "\<forall>us. (\<forall>p \<in> fst ` set schemas. incomparable (schema_tokens p) us)
        \<longrightarrow> json_at content' us = json_at (redact_hard_secrets pl content) us"
    using restore_schemas_ok [OF dis] by blast
  have "\<forall>p \<in> set (schema_paths request). json_pointer content' p = json_pointer (er_content request) p"
  proof
    fix p assume p: "p \<in> set (schema_paths request)"
    show "json_pointer content' p = json_pointer (er_content request) p"
    proof (cases "json_pointer (er_content request) p")
      case None
      have "p \<notin> set (map fst schemas)" unfolding keys using None by simp
      then have "\<forall>q \<in> fst ` set schemas. incomparable (schema_tokens q) (schema_tokens p)"
        using sub p schema_paths_disjoint [of request]
        unfolding disjoint_paths_def set_map by (metis (no_types, lifting) incomparable_sym sorted_wrt_pairwise subsetD)
      then show ?thesis
        using None rest red [OF p] p schema_paths_disjoint [of request]
        by (simp add: disjoint_paths_def json_pointer_tokens)
    next
      case (Some s)
      then have "p \<in> set (map fst schemas)" using p unfolding keys by simp
      then obtain u where "(p, u) \<in> set schemas" by auto
      with got ok Some show ?thesis by fastforce
    qed
  qed
  with d r show thesis by (intro redacted) (simp_all add: redact_request_content_def)
qed

section \<open>Properties\<close>


definition example_secret_request :: EffectRequest where
  "example_secret_request = example_request\<lparr>er_content := JObj [(''user'', JStr ''u''),
     (''nested'', JArr [JObj [(''Api-Key'', JStr ''s3cret''), (''password'', JStr ''env:DB_PASSWORD'')]])]\<rparr>"


end
