(* ===== verification/Boundary.thy ===== *)
theory Boundary
  imports Effects
begin

text \<open>
  The sandbox boundary gate (crate \<open>colossus-policy\<close>, \<open>kernel.rs\<close>,
  \<open>SandboxBoundaryGate\<close>): which sessions acknowledged that processes run without isolation.
  The sets and maps behind its locks are lists without repetition; a poisoned lock (a panic
  while it was held) is not modelled. The task-local acknowledgement of the running operation
  is an argument: \<open>None\<close> when the task has none or carries none.
\<close>

definition MAX_ACKNOWLEDGEMENTS :: nat where
  "MAX_ACKNOWLEDGEMENTS = 4096"

record ScopedAcknowledgement =
  sk_session_id :: string
  sk_mode :: SandboxBoundaryMode

record SandboxBoundaryGate =
  gate_mode :: "SandboxBoundaryMode option"
  gate_globally_acknowledged :: bool
  gate_sessions :: "string list"
  gate_scoped :: "(string \<times> ScopedAcknowledgement) list"

definition gate_new :: "SandboxBoundaryMode option \<Rightarrow> bool \<Rightarrow> SandboxBoundaryGate" where
  "gate_new mode globally = \<lparr>gate_mode = mode, gate_globally_acknowledged = globally,
     gate_sessions = [], gate_scoped = []\<rparr>"

definition pending_for_session :: "SandboxBoundaryGate \<Rightarrow> string \<Rightarrow> SandboxBoundaryMode option" where
  "pending_for_session g session_id =
     (case gate_mode g of
        None \<Rightarrow> None
      | Some mode \<Rightarrow>
          if gate_globally_acknowledged g \<or> session_id \<in> set (gate_sessions g) then None
          else Some mode)"

definition not_configured :: "SandboxBoundaryMode \<Rightarrow> GatewayError" where
  "not_configured mode = GSafety (''cannot acknowledge '' @ as_backend mode
     @ '' when that sandbox backend is not configured'')"

definition acknowledge_session ::
    "SandboxBoundaryGate \<Rightarrow> string \<Rightarrow> SandboxBoundaryMode \<Rightarrow> (GatewayError, SandboxBoundaryGate) result" where
  "acknowledge_session g session_id mode =
     (if session_id = [] then
        Inl (GSafety ''sandbox boundary acknowledgement requires a nonempty session id'')
      else if gate_mode g \<noteq> Some mode then Inl (not_configured mode)
      else if session_id \<notin> set (gate_sessions g) \<and> length (gate_sessions g) \<ge> MAX_ACKNOWLEDGEMENTS then
        Inl (GSafety ''sandbox boundary acknowledgement capacity is exhausted; restart the runtime'')
      else Inr (g\<lparr>gate_sessions := List.insert session_id (gate_sessions g)\<rparr>))"

definition revoke_session_acknowledgement :: "SandboxBoundaryGate \<Rightarrow> string \<Rightarrow> SandboxBoundaryGate" where
  "revoke_session_acknowledgement g session_id =
     g\<lparr>gate_sessions := removeAll session_id (gate_sessions g)\<rparr>"

definition capability_syntax :: "string \<Rightarrow> bool" where
  "capability_syntax a = (length a = 64
     \<and> list_all (\<lambda>c. is_ascii_digit c \<or> (97 \<le> code c \<and> code c \<le> 102)) a)"

definition acknowledge_interactive_client ::
    "SandboxBoundaryGate \<Rightarrow> string \<Rightarrow> string \<Rightarrow> SandboxBoundaryMode
      \<Rightarrow> (GatewayError, SandboxBoundaryGate) result" where
  "acknowledge_interactive_client g acknowledgement session_id mode =
     (if \<not> capability_syntax acknowledgement \<or> session_id = [] then
        Inl (GSafety ''interactive sandbox boundary acknowledgement requires an exact opaque capability and nonempty session id'')
      else if gate_mode g \<noteq> Some mode then Inl (not_configured mode)
      else if acknowledgement \<in> set (map fst (gate_scoped g)) then
        Inl (GSafety ''interactive sandbox boundary acknowledgement was replayed'')
      else if length (gate_scoped g) \<ge> MAX_ACKNOWLEDGEMENTS then
        Inl (GSafety ''interactive sandbox boundary acknowledgement capacity is exhausted; restart the runtime'')
      else Inr (g\<lparr>gate_scoped := (acknowledgement, \<lparr>sk_session_id = session_id, sk_mode = mode\<rparr>)
        # gate_scoped g\<rparr>))"

definition revoke_interactive_client_acknowledgement ::
    "SandboxBoundaryGate \<Rightarrow> string \<Rightarrow> SandboxBoundaryGate" where
  "revoke_interactive_client_acknowledgement g acknowledgement =
     g\<lparr>gate_scoped := filter (\<lambda>(k, _). k \<noteq> acknowledgement) (gate_scoped g)\<rparr>"

definition active_scoped_acknowledgement_matches ::
    "SandboxBoundaryGate \<Rightarrow> string option \<Rightarrow> string \<Rightarrow> SandboxBoundaryMode \<Rightarrow> bool" where
  "active_scoped_acknowledgement_matches g active session_id mode =
     (case active of
        None \<Rightarrow> False
      | Some acknowledgement \<Rightarrow>
          (case map_of (gate_scoped g) acknowledgement of
             None \<Rightarrow> False
           | Some entry \<Rightarrow> sk_session_id entry = session_id \<and> sk_mode entry = mode))"

definition acknowledged ::
    "SandboxBoundaryGate \<Rightarrow> string option \<Rightarrow> string option \<Rightarrow> SandboxBoundaryMode \<Rightarrow> bool" where
  "acknowledged g active session_id mode =
     (gate_globally_acknowledged g
      \<or> (case session_id of
           None \<Rightarrow> False
         | Some s \<Rightarrow> s \<in> set (gate_sessions g) \<or> active_scoped_acknowledgement_matches g active s mode))"

definition acknowledged_mode ::
    "SandboxBoundaryGate \<Rightarrow> string option \<Rightarrow> string option \<Rightarrow> SandboxBoundaryMode option" where
  "acknowledged_mode g active session_id =
     (case gate_mode g of
        None \<Rightarrow> None
      | Some mode \<Rightarrow> if acknowledged g active session_id mode then Some mode else None)"

fun boundary_requirement :: "SandboxBoundaryMode \<Rightarrow> string" where
  "boundary_requirement External = ''set sandbox.acknowledgeExternalBoundary: true for an operator-managed headless runtime or acknowledge the external boundary in the TUI''"
| "boundary_requirement DangerFullAccess = ''set sandbox.acknowledgeDangerFullAccess: true for an operator-managed headless runtime or acknowledge danger full access in the TUI''"

definition gate_validate ::
    "SandboxBoundaryGate \<Rightarrow> string option \<Rightarrow> EffectRequest \<Rightarrow> SandboxBoundaryMode \<Rightarrow> (GatewayError, unit) result" where
  "gate_validate g active request mode =
     (if gate_mode g \<noteq> Some mode then
        Inl (GSafety (''policy selected '' @ as_backend mode
          @ '' but the runtime was not configured for that direct-execution boundary''))
      else if acknowledged g active (cx_session_id (er_context request)) mode then Inr ()
      else Inl (GSafety (as_backend mode @ '' process execution is not acknowledged; ''
        @ boundary_requirement mode)))"

section \<open>Runs of the gate\<close>

text \<open>The operations that change the gate, and what a history of them leaves acknowledged.\<close>

datatype gate_op =
    AckSession string SandboxBoundaryMode
  | RevokeSession string
  | AckClient string string SandboxBoundaryMode
  | RevokeClient string

text \<open>A refused operation leaves the gate as it was.\<close>

fun gate_step :: "SandboxBoundaryGate \<Rightarrow> gate_op \<Rightarrow> SandboxBoundaryGate" where
  "gate_step g (AckSession s m) = (case acknowledge_session g s m of Inr g' \<Rightarrow> g' | Inl _ \<Rightarrow> g)"
| "gate_step g (RevokeSession s) = revoke_session_acknowledgement g s"
| "gate_step g (AckClient a s m) =
     (case acknowledge_interactive_client g a s m of Inr g' \<Rightarrow> g' | Inl _ \<Rightarrow> g)"
| "gate_step g (RevokeClient a) = revoke_interactive_client_acknowledgement g a"

definition gate_run :: "SandboxBoundaryGate \<Rightarrow> gate_op list \<Rightarrow> SandboxBoundaryGate" where
  "gate_run g ops = foldl gate_step g ops"

definition gate_wf :: "SandboxBoundaryGate \<Rightarrow> bool" where
  "gate_wf g = (distinct (gate_sessions g) \<and> length (gate_sessions g) \<le> MAX_ACKNOWLEDGEMENTS
     \<and> [] \<notin> set (gate_sessions g)
     \<and> distinct (map fst (gate_scoped g)) \<and> length (gate_scoped g) \<le> MAX_ACKNOWLEDGEMENTS
     \<and> (\<forall>(a, e) \<in> set (gate_scoped g).
          capability_syntax a \<and> sk_session_id e \<noteq> [] \<and> gate_mode g = Some (sk_mode e)))"

lemma gate_step_mode [simp]: "gate_mode (gate_step g op) = gate_mode g"
  "gate_globally_acknowledged (gate_step g op) = gate_globally_acknowledged g"
  by (cases op; auto simp: acknowledge_session_def revoke_session_acknowledgement_def
      acknowledge_interactive_client_def revoke_interactive_client_acknowledgement_def
      split: sum.splits if_splits)+

lemma acknowledge_session_wf:
  assumes "gate_wf g" "acknowledge_session g s m = Inr g'"
  shows "gate_wf g'"
  using assms by (auto simp: acknowledge_session_def gate_wf_def List.insert_def split: if_splits)

lemma acknowledge_client_wf:
  assumes "gate_wf g" "acknowledge_interactive_client g a s m = Inr g'"
  shows "gate_wf g'"
  using assms by (auto simp: acknowledge_interactive_client_def gate_wf_def split: if_splits)

lemma gate_step_wf: "gate_wf g \<Longrightarrow> gate_wf (gate_step g op)"
proof (cases op)
  case (RevokeSession s)
  assume "gate_wf g"
  with RevokeSession show ?thesis
    by (auto simp: gate_wf_def revoke_session_acknowledgement_def distinct_removeAll
        intro: order_trans [OF length_removeAll_less_eq])
next
  case (RevokeClient a)
  assume "gate_wf g"
  with RevokeClient show ?thesis
    by (auto simp: gate_wf_def revoke_interactive_client_acknowledgement_def distinct_map_filter
        intro: order_trans [OF length_filter_le])
qed (auto intro: acknowledge_session_wf acknowledge_client_wf split: sum.splits)

lemma gate_run_wf: "gate_wf g \<Longrightarrow> gate_wf (gate_run g ops)"
  unfolding gate_run_def by (induction ops arbitrary: g) (simp_all add: gate_step_wf)

lemma gate_new_wf [simp]: "gate_wf (gate_new mode globally)"
  by (simp add: gate_wf_def gate_new_def)

lemma gate_run_snoc: "gate_run g (ops @ [op]) = gate_step (gate_run g ops) op"
  by (simp add: gate_run_def)

lemma gate_run_mode [simp]: "gate_mode (gate_run g ops) = gate_mode g"
  "gate_globally_acknowledged (gate_run g ops) = gate_globally_acknowledged g"
  unfolding gate_run_def by (induction ops arbitrary: g) simp_all

lemma gate_step_sessions:
  "s \<in> set (gate_sessions (gate_step g op)) \<Longrightarrow>
     (s \<in> set (gate_sessions g) \<and> op \<noteq> RevokeSession s)
     \<or> (\<exists>m. op = AckSession s m \<and> gate_mode g = Some m)"
  by (cases op) (auto simp: acknowledge_session_def revoke_session_acknowledgement_def
      acknowledge_interactive_client_def revoke_interactive_client_acknowledgement_def
      split: sum.splits if_splits)

lemma gate_step_scoped:
  "(a, e) \<in> set (gate_scoped (gate_step g op)) \<Longrightarrow>
     ((a, e) \<in> set (gate_scoped g) \<and> op \<noteq> RevokeClient a)
     \<or> op = AckClient a (sk_session_id e) (sk_mode e)"
  by (cases op) (auto simp: acknowledge_session_def revoke_session_acknowledgement_def
      acknowledge_interactive_client_def revoke_interactive_client_acknowledgement_def
      split: sum.splits if_splits)

text \<open>An acknowledgement in the history that no later operation revokes.\<close>

definition session_standing :: "gate_op list \<Rightarrow> string \<Rightarrow> SandboxBoundaryMode \<Rightarrow> bool" where
  "session_standing ops s m = (\<exists>pre post. ops = pre @ AckSession s m # post \<and> RevokeSession s \<notin> set post)"

definition client_standing :: "gate_op list \<Rightarrow> string \<Rightarrow> string \<Rightarrow> SandboxBoundaryMode \<Rightarrow> bool" where
  "client_standing ops a s m = (\<exists>pre post. ops = pre @ AckClient a s m # post \<and> RevokeClient a \<notin> set post)"

lemma session_standing_snoc:
  "session_standing ops s m \<Longrightarrow> op \<noteq> RevokeSession s \<Longrightarrow> session_standing (ops @ [op]) s m"
  unfolding session_standing_def by force

lemma client_standing_snoc:
  "client_standing ops a s m \<Longrightarrow> op \<noteq> RevokeClient a \<Longrightarrow> client_standing (ops @ [op]) a s m"
  unfolding client_standing_def by force

lemma session_standing_last: "session_standing (ops @ [AckSession s m]) s m"
  unfolding session_standing_def by (intro exI [of _ ops] exI [of _ "[]"]) simp

lemma client_standing_last: "client_standing (ops @ [AckClient a s m]) a s m"
  unfolding client_standing_def by (intro exI [of _ ops] exI [of _ "[]"]) simp

lemma session_history:
  "s \<in> set (gate_sessions (gate_run (gate_new mode globally) ops))
     \<Longrightarrow> \<exists>m. mode = Some m \<and> session_standing ops s m"
proof (induction ops rule: rev_induct)
  case Nil
  then show ?case by (simp add: gate_run_def gate_new_def)
next
  case (snoc op ops)
  from gate_step_sessions [OF snoc.prems [unfolded gate_run_snoc]] show ?case
  proof (elim disjE conjE exE)
    assume "s \<in> set (gate_sessions (gate_run (gate_new mode globally) ops))" "op \<noteq> RevokeSession s"
    with snoc.IH show ?thesis by (auto intro: session_standing_snoc)
  next
    fix m assume "op = AckSession s m" "gate_mode (gate_run (gate_new mode globally) ops) = Some m"
    then show ?thesis by (auto simp: session_standing_last gate_new_def)
  qed
qed

lemma client_history:
  "(a, e) \<in> set (gate_scoped (gate_run (gate_new mode globally) ops))
     \<Longrightarrow> client_standing ops a (sk_session_id e) (sk_mode e)"
proof (induction ops rule: rev_induct)
  case Nil
  then show ?case by (simp add: gate_run_def gate_new_def)
next
  case (snoc op ops)
  from gate_step_scoped [OF snoc.prems [unfolded gate_run_snoc]] snoc.IH show ?case
    by (auto intro: client_standing_snoc simp: client_standing_last)
qed

section \<open>Properties\<close>

text \<open>C15. No unisolated process without consent: when the operator did not acknowledge the
  boundary in the configuration, a direct-execution effect passes the gate only in the
  configured mode and only for a session for which that mode was acknowledged and not revoked
  since, either for the session itself or by the attached client whose opaque capability the
  running operation carries.\<close>

theorem boundary_needs_acknowledgement:
  assumes "gate_validate (gate_run (gate_new mode False) ops) active request m = Inr ()"
  shows "mode = Some m \<and> (\<exists>s. cx_session_id (er_context request) = Some s \<and>
    (session_standing ops s m \<or> (\<exists>a. active = Some a \<and> client_standing ops a s m)))"
proof -
  let ?g = "gate_run (gate_new mode False) ops"
  have mode: "mode = Some m" and ack: "acknowledged ?g active (cx_session_id (er_context request)) m"
    using assms by (auto simp: gate_validate_def gate_new_def split: if_splits)
  from ack obtain s where s: "cx_session_id (er_context request) = Some s"
    and or: "s \<in> set (gate_sessions ?g) \<or> active_scoped_acknowledgement_matches ?g active s m"
    by (auto simp: acknowledged_def gate_new_def split: option.splits)
  from or show ?thesis
  proof
    assume "s \<in> set (gate_sessions ?g)"
    with mode s session_history show ?thesis by blast
  next
    assume "active_scoped_acknowledgement_matches ?g active s m"
    then obtain a e where "active = Some a" "map_of (gate_scoped ?g) a = Some e"
      "sk_session_id e = s" "sk_mode e = m"
      by (auto simp: active_scoped_acknowledgement_matches_def split: option.splits)
    with mode s client_history [of a e mode False ops] show ?thesis by (auto dest: map_of_SomeD)
  qed
qed

theorem boundary_needs_acknowledgement_witness:
  "gate_validate (gate_run (gate_new (Some External) False) [AckSession ''s1'' External]) None
     (example_request\<lparr>er_context := default_context\<lparr>cx_session_id := Some ''s1''\<rparr>\<rparr>) External = Inr ()
   \<and> session_standing [AckSession ''s1'' External] ''s1'' External"
proof -
  have "gate_validate (gate_run (gate_new (Some External) False) [AckSession ''s1'' External]) None
     (example_request\<lparr>er_context := default_context\<lparr>cx_session_id := Some ''s1''\<rparr>\<rparr>) External = Inr ()"
    by (simp add: gate_run_def gate_new_def acknowledge_session_def gate_validate_def acknowledged_def
        MAX_ACKNOWLEDGEMENTS_def)
  with boundary_needs_acknowledgement [OF this] show ?thesis by simp
qed

text \<open>The gate stays bounded and sound under every sequence of operations: at most 4096
  distinct sessions and 4096 distinct client capabilities, none empty or malformed, and every
  recorded capability is for the configured mode, so a capability can neither be replayed for
  another session nor outlive a change of mode.\<close>

theorem boundary_gate_bounded: "gate_wf (gate_run (gate_new mode globally) ops)"
  by (rule gate_run_wf) simp

end
