(* ===== verification/Kernel.thy ===== *)
theory Kernel
  imports SchemaDisclosure Boundary Network
begin

text \<open>
  The safety kernel (crate \<open>colossus-policy\<close>, \<open>kernel.rs\<close>): the checks policy can never
  override. The model is of a build for a Unix target: the branches of the code that test
  \<open>cfg!(target_os = "windows")\<close> are kept, with that constant false, and \<open>std::path\<close> has
  its Unix meaning.
\<close>

definition target_os_windows :: bool where
  "target_os_windows = False"

section \<open>Limits and actions\<close>

definition DEFAULT_POLICY_INPUT_LIMIT :: nat where
  "DEFAULT_POLICY_INPUT_LIMIT = 1024 * 1024"

definition DEFAULT_POST_EFFECT_POLICY_INPUT_LIMIT :: nat where
  "DEFAULT_POST_EFFECT_POLICY_INPUT_LIMIT = 8 * 1024 * 1024"

definition MIN_OCI_EFFECT_TIMEOUT_MS :: nat where
  "MIN_OCI_EFFECT_TIMEOUT_MS = 5000"

definition MIN_OCI_NETWORK_EFFECT_TIMEOUT_MS :: nat where
  "MIN_OCI_NETWORK_EFFECT_TIMEOUT_MS = 10000"

definition MIN_WINDOWS_JOB_EFFECT_TIMEOUT_MS :: nat where
  "MIN_WINDOWS_JOB_EFFECT_TIMEOUT_MS = 10000"

definition is_process_action :: "string \<Rightarrow> bool" where
  "is_process_action action =
     (starts_with ''plugin.mcp.'' action \<or> action \<in> {''process.spawn'',
       ''plugin.registry.credential_helper'', ''shell.run'', ''git.status'', ''git.diff'',
       ''git.show'', ''mcp.tools'', ''mcp.call''})"

definition is_streamable_http_mcp :: "EffectRequest \<Rightarrow> bool" where
  "is_streamable_http_mcp request =
     (er_action request \<in> {''mcp.tools'', ''mcp.call''}
      \<and> get_str (er_content request) ''transport'' = Some ''streamable_http'')"

definition is_process_effect :: "EffectRequest \<Rightarrow> bool" where
  "is_process_effect request = (is_process_action (er_action request) \<and> \<not> is_streamable_http_mcp request)"

definition is_filesystem_action :: "string \<Rightarrow> bool" where
  "is_filesystem_action action =
     (starts_with ''filesystem.'' action \<or> starts_with ''repo.'' action
      \<or> action \<in> {''patch.preview'', ''patch.apply'', ''patch.reverse'', ''trace.export''})"

section \<open>Network authority\<close>

datatype NetworkDestinationMatch = MatchAmbient | MatchExact | MatchPublicWildcard

definition canonical_network_origin :: "Platform \<Rightarrow> string \<Rightarrow> (GatewayError, string) result" where
  "canonical_network_origin pl resource =
     bind_r (map_err (\<lambda>e. GSafety (''invalid network URL: '' @ e)) (pl_url_parse pl resource)) (\<lambda>url.
     if url_scheme url \<notin> {''http'', ''https''} \<or> url_host url = None \<or> url_username url \<noteq> []
        \<or> url_password url \<noteq> None
     then Inl (GSafety ''network URLs require HTTP(S), a host, and no embedded credentials'')
     else Inr (url_origin url))"

definition metadata_host :: "string \<Rightarrow> bool" where
  "metadata_host lower = (lower = ''localhost'' \<or> lower \<in> {''metadata.google.internal'',
     ''metadata.goog'', ''instance-data'', ''instance-data.ec2.internal''})"

definition network_destination_match ::
    "Platform \<Rightarrow> string list \<Rightarrow> string \<Rightarrow> (GatewayError, NetworkDestinationMatch option) result" where
  "network_destination_match pl destinations resource =
     bind_r (canonical_network_origin pl resource) (\<lambda>origin.
     if origin \<in> set destinations then Inr (Some MatchExact)
     else if ''*'' \<notin> set destinations then Inr None
     else bind_r (map_err (\<lambda>e. GSafety (''invalid network origin: '' @ e)) (pl_url_parse pl origin)) (\<lambda>url.
     bind_r (ok_or (GSafety ''network origin has no host'') (url_host url)) (\<lambda>host.
     if metadata_host (to_ascii_lowercase (trim_end_char CHR ''.'' host))
        \<or> (case parse_host_ip host of Some ip \<Rightarrow> non_public_network_address ip | None \<Rightarrow> False)
     then Inr None
     else Inr (Some MatchPublicWildcard))))"

definition network_authority_match ::
    "Platform \<Rightarrow> PolicyObligations \<Rightarrow> string \<Rightarrow> (GatewayError, NetworkDestinationMatch option) result" where
  "network_authority_match pl obligations resource =
     bind_r (canonical_network_origin pl resource) (\<lambda>_.
     if po_resource_authority obligations = Ambient then Inr (Some MatchAmbient)
     else network_destination_match pl (po_network_destinations obligations) resource)"

definition http_transport_authority_match ::
    "Platform \<Rightarrow> PolicyObligations \<Rightarrow> string \<Rightarrow> (GatewayError, NetworkDestinationMatch option) result" where
  "http_transport_authority_match pl obligations resource =
     bind_r (map_err (\<lambda>e. GSafety (''invalid network URL: '' @ e)) (pl_url_parse pl resource)) (\<lambda>url.
     bind_r (canonical_network_origin pl resource) (\<lambda>_.
     let loopback = (case url_host url of
         None \<Rightarrow> False
       | Some host \<Rightarrow> eq_ignore_ascii_case host ''localhost''
           \<or> (case parse_host_ip host of Some ip \<Rightarrow> is_loopback ip | None \<Rightarrow> False))
     in
     if url_scheme url = ''http'' \<and> \<not> loopback \<and> po_resource_authority obligations \<noteq> Ambient
     then Inl (GSafety ''non-loopback plaintext HTTP requires ambient resource authority in the execution permit'')
     else network_authority_match pl obligations resource))"

section \<open>Paths\<close>

definition normalized_absolute_path :: "string \<Rightarrow> bool" where
  "normalized_absolute_path v =
     (starts_with ''/'' v \<and> length v > 1
      \<and> list_all (\<lambda>c. c \<noteq> [] \<and> c \<noteq> ''.'' \<and> c \<noteq> ''..'') (tl (split_on CHR ''/'' v)))"

text \<open>\<open>Path::components\<close>, \<open>parent\<close> and \<open>file_name\<close> on Unix: empty and \<open>.\<close> components are
  skipped, a leading \<open>.\<close> of a relative path is kept.\<close>

definition path_components :: "string \<Rightarrow> string list" where
  "path_components s =
     (let parts = split_on CHR ''/'' s;
        kept = filter (\<lambda>c. c \<noteq> [] \<and> c \<noteq> ''.'') (tl parts)
      in if hd parts = [] then kept else hd parts # kept)"

definition path_join :: "bool \<Rightarrow> string list \<Rightarrow> string" where
  "path_join rooted cs =
     (if rooted then ''/'' else []) @ concat (case cs of [] \<Rightarrow> [] | c # cs' \<Rightarrow> c # map (\<lambda>d. CHR ''/'' # d) cs')"

definition path_parent :: "string \<Rightarrow> string option" where
  "path_parent s =
     (if path_components s = [] then None
      else Some (path_join (starts_with ''/'' s) (butlast (path_components s))))"

definition path_file_name :: "string \<Rightarrow> string option" where
  "path_file_name s =
     (let cs = path_components s in
      if cs = [] \<or> last cs \<in> {''.'', ''..''} then None else Some (last cs))"

definition canonical_effect_path :: "Platform \<Rightarrow> string \<Rightarrow> bool \<Rightarrow> (GatewayError, string list) result" where
  "canonical_effect_path pl resource allow_missing_leaf =
     (case pl_canonicalize pl resource of
        Inr path \<Rightarrow> Inr path
      | Inl error \<Rightarrow>
          if allow_missing_leaf then
            bind_r (ok_or (GSafety (''effect path has no parent: '' @ resource)) (path_parent resource)) (\<lambda>parent.
            bind_r (ok_or (GSafety (''effect path has no filename: '' @ resource)) (path_file_name resource)) (\<lambda>name.
            (case pl_canonicalize pl parent of
               Inr p \<Rightarrow> Inr (p @ [name])
             | Inl _ \<Rightarrow> Inl (GSafety error))))
          else Inl (GSafety error))"

definition absolute_policy_root :: "string \<Rightarrow> bool" where
  "absolute_policy_root root =
     (starts_with ''/'' root
      \<or> (length root \<ge> 3 \<and> is_ascii_alphabetic (root ! 0) \<and> root ! 1 = CHR '':''
         \<and> (root ! 2 = char_of (92 :: nat) \<or> root ! 2 = CHR ''/'')))"

definition root_contains :: "Platform \<Rightarrow> string list \<Rightarrow> FilesystemGrant \<Rightarrow> bool" where
  "root_contains pl path grant =
     (case pl_canonicalize pl (fg_root grant) of Inr root \<Rightarrow> prefix root path | Inl _ \<Rightarrow> False)"

definition requested_mode :: "string \<Rightarrow> string" where
  "requested_mode action =
     (if contains_str ''write'' action \<or> action \<in> {''patch.apply'', ''patch.reverse''}
         \<or> action = ''trace.export'' then ''write''
      else if contains_str ''metadata'' action then ''metadata''
      else ''read'')"

definition validate_filesystem_containment ::
    "Platform \<Rightarrow> EffectRequest \<Rightarrow> PolicyObligations \<Rightarrow> (GatewayError, unit) result" where
  "validate_filesystem_containment pl request obligations =
    (let mode = requested_mode (er_action request) in
     bind_r (canonical_effect_path pl (er_resource request) (mode = ''write'')) (\<lambda>target.
     if po_resource_authority obligations = Ambient then Inr ()
     else if list_ex (\<lambda>grant.
         (fg_mode grant = ''write'' \<or> fg_mode grant = mode
          \<or> (mode = ''metadata'' \<and> fg_mode grant = ''read''))
         \<and> root_contains pl target grant) (po_filesystem obligations)
     then Inr ()
     else Inl (GSafety (er_resource request @ '' is outside allowed '' @ mode @ '' roots''))))"

definition executable_allowed ::
    "Platform \<Rightarrow> EffectRequest \<Rightarrow> PolicyObligations \<Rightarrow> (GatewayError, bool) result" where
  "executable_allowed pl request obligations =
     (if po_sandbox_backend obligations = as_backend DangerFullAccess then
        bind_r (canonical_effect_path pl (er_resource request) False) (\<lambda>p. Inr (pl_is_file pl p))
      else if po_sandbox_backend obligations = ''oci'' then
        Inr (normalized_absolute_path (er_resource request)
          \<and> list_ex (\<lambda>grant. fg_mode grant = ''execute'' \<and> fg_root grant = er_resource request)
              (po_filesystem obligations))
      else
        bind_r (canonical_effect_path pl (er_resource request) False) (\<lambda>executable.
        Inr (list_ex (\<lambda>grant. fg_mode grant = ''execute''
            \<and> pl_canonicalize pl (fg_root grant) = Inr executable) (po_filesystem obligations))))"

definition validate_process_obligations ::
    "Platform \<Rightarrow> EffectRequest \<Rightarrow> PolicyObligations \<Rightarrow> (GatewayError, unit) result" where
  "validate_process_obligations pl request obligations =
    (let danger_full_access = (po_sandbox_backend obligations = as_backend DangerFullAccess) in
     bind_r (executable_allowed pl request obligations) (\<lambda>allowed.
     if \<not> allowed then Inl (GSafety (''executable '' @ er_resource request @ '' is not explicitly granted''))
     else
     bind_r (ok_or (GSafety ''process cwd is absent'') (get_str (er_content request) ''cwd'')) (\<lambda>cwd.
     bind_r (canonical_effect_path pl cwd False) (\<lambda>cwd.
     if from_backend (po_sandbox_backend obligations) = None
        \<and> \<not> list_ex (\<lambda>grant. fg_mode grant \<in> {''read'', ''write''} \<and> root_contains pl cwd grant)
             (po_filesystem obligations)
     then Inl (GSafety ''process cwd is outside allowed filesystem roots'')
     else
     bind_r (ok_or (GSafety ''process environment object is absent'')
       (Option.bind (json_get (er_content request) ''environment'') as_object)) (\<lambda>environment.
     check_all (\<lambda>(name, _).
       if \<not> danger_full_access \<and> name \<notin> set (po_allowed_environment obligations)
       then Inl (GSafety (''environment variable '' @ name @ '' is not allowed''))
       else Inr ()) environment)))))"

section \<open>The kernel\<close>

text \<open>
  \<open>kr_active\<close> is the task-local acknowledgement of the operation that is running, which the
  gate reads through \<open>ACTIVE_SANDBOX_BOUNDARY_ACKNOWLEDGEMENT\<close>.
\<close>

record SafetyKernel =
  kr_known_capabilities :: "string list"
  kr_policy_input_limit :: nat
  kr_post_effect_policy_input_limit :: nat
  kr_browser_upload_policy_input_limit :: nat
  kr_computer_screenshot_policy_input_limit :: nat
  kr_sandbox_boundary_gate :: "SandboxBoundaryGate option"
  kr_active :: "string option"

definition kernel_new :: "string list \<Rightarrow> SafetyKernel" where
  "kernel_new known = \<lparr>kr_known_capabilities = known,
     kr_policy_input_limit = DEFAULT_POLICY_INPUT_LIMIT,
     kr_post_effect_policy_input_limit = DEFAULT_POST_EFFECT_POLICY_INPUT_LIMIT,
     kr_browser_upload_policy_input_limit = DEFAULT_POST_EFFECT_POLICY_INPUT_LIMIT,
     kr_computer_screenshot_policy_input_limit = 24 * 1024 * 1024,
     kr_sandbox_boundary_gate = None, kr_active = None\<rparr>"

definition with_policy_input_limit :: "SafetyKernel \<Rightarrow> nat \<Rightarrow> SafetyKernel" where
  "with_policy_input_limit k bytes = k\<lparr>kr_policy_input_limit := bytes,
     kr_post_effect_policy_input_limit := bytes, kr_browser_upload_policy_input_limit := bytes,
     kr_computer_screenshot_policy_input_limit := bytes\<rparr>"

definition with_sandbox_boundary_gate :: "SafetyKernel \<Rightarrow> SandboxBoundaryGate \<Rightarrow> SafetyKernel" where
  "with_sandbox_boundary_gate k gate = k\<lparr>kr_sandbox_boundary_gate := Some gate\<rparr>"

definition policy_input_limit :: "SafetyKernel \<Rightarrow> EffectRequest \<Rightarrow> nat" where
  "policy_input_limit k request =
     (if er_phase request = PostEffect \<and> er_action request = ''computer.screenshot''
      then kr_computer_screenshot_policy_input_limit k
      else if er_phase request = PostEffect then kr_post_effect_policy_input_limit k
      else if er_action request = ''browser.upload'' then kr_browser_upload_policy_input_limit k
      else kr_policy_input_limit k)"

definition validate_policy_input_size ::
    "Platform \<Rightarrow> SafetyKernel \<Rightarrow> EffectRequest \<Rightarrow> (GatewayError, unit) result" where
  "validate_policy_input_size pl k request =
     bind_r (canonical_bytes (pl_request_bytes pl) request) (\<lambda>bytes.
     let limit = policy_input_limit k request in
     reject_if (length bytes > limit) (GPolicy (InputTooLarge limit)))"

definition kernel_prepare :: "Platform \<Rightarrow> SafetyKernel \<Rightarrow> EffectRequest \<Rightarrow> (GatewayError, EffectRequest) result" where
  "kernel_prepare pl k request =
     bind_r (reject_if (er_schema_version request \<noteq> 1 \<or> er_request_id request = [])
       (GSafety ''unsupported schema version or empty request id'')) (\<lambda>_.
     bind_r (reject_if (er_action request = [] \<or> er_resource request = [])
       (GSafety ''action and resource must be non-empty'')) (\<lambda>_.
     bind_r (check_all (\<lambda>capability. reject_if (capability \<notin> set (kr_known_capabilities k))
       (GSafety (''unknown or unsigned capability '' @ capability))) (er_capabilities request)) (\<lambda>_.
     bind_r (if er_phase request = PreEffect
       then bind_r (pl_command_context pl request) (\<lambda>_. Inr ()) else Inr ()) (\<lambda>_.
     bind_r (redact_request_content pl request) (\<lambda>prepared.
     bind_r (validate_policy_input_size pl k prepared) (\<lambda>_. Inr prepared))))))"

definition policy_projection :: "Platform \<Rightarrow> SafetyKernel \<Rightarrow> EffectRequest \<Rightarrow> (GatewayError, EffectRequest) result" where
  "policy_projection pl k request =
    (let projected = request\<lparr>er_command_intent := map_option
        (\<lambda>justification. ''sha256:'' @ pl_sha256_hex pl (as_bytes justification))
        (er_command_intent request)\<rparr> in
     bind_r (validate_policy_input_size pl k projected) (\<lambda>_. Inr projected))"

section \<open>Validation of decisions\<close>

definition decision_field_absent :: "PolicyDecision \<Rightarrow> bool" where
  "decision_field_absent d =
    (let o' = pd_obligations d in
     pd_decision_id d = [] \<or> pd_policy_revision d = [] \<or> pd_reason d = []
     \<or> po_sandbox_backend o' = [] \<or> po_sandbox_profile o' = [] \<or> po_timeout_ms o' = 0
     \<or> po_max_output_bytes o' = 0 \<or> po_max_processes o' = 0 \<or> po_max_memory_bytes o' = 0
     \<or> po_max_concurrency o' = 0 \<or> po_retention o' = [])"

definition known_backends :: "string set" where
  "known_backends = {''broker'', ''native'', ''oci'', ''windows_job'', ''external'', ''danger_full_access''}"

text \<open>The checks of the sandbox backend up to the acknowledgement gate.\<close>

definition check_backend :: "EffectRequest \<Rightarrow> PolicyObligations \<Rightarrow> (GatewayError, unit) result" where
  "check_backend request o' =
     bind_r (reject_if (po_sandbox_backend o' \<notin> known_backends)
       (GSafety (''unknown sandbox backend '' @ po_sandbox_backend o'))) (\<lambda>_.
     bind_r (reject_if (po_resource_authority o' = Ambient
         \<and> po_sandbox_backend o' \<noteq> as_backend DangerFullAccess)
       (GSafety ''ambient resource authority requires the danger_full_access sandbox backend'')) (\<lambda>_.
     bind_r (reject_if (is_process_effect request
         \<and> po_sandbox_backend o' = as_backend DangerFullAccess
         \<and> po_resource_authority o' \<noteq> Ambient)
       (GSafety ''danger_full_access process execution requires explicit ambient resource authority'')) (\<lambda>_.
     reject_if (po_sandbox_backend o' = ''broker'' \<and> is_process_effect request
         \<and> \<not> po_allow_sandbox_downgrade o')
       (GSafety ''process execution cannot downgrade to the broker without an explicit obligation''))))"

definition boundary_mode :: "EffectRequest \<Rightarrow> PolicyObligations \<Rightarrow> SandboxBoundaryMode option" where
  "boundary_mode request o' =
     (if po_resource_authority o' = Ambient then Some DangerFullAccess
      else if is_process_effect request then from_backend (po_sandbox_backend o')
      else None)"

definition check_boundary :: "SafetyKernel \<Rightarrow> EffectRequest \<Rightarrow> PolicyDecision \<Rightarrow> (GatewayError, unit) result" where
  "check_boundary k request d =
     (if er_phase request = PreEffect \<and> pd_outcome d \<noteq> Deny then
        (case boundary_mode request (pd_obligations d) of
           None \<Rightarrow> Inr ()
         | Some mode \<Rightarrow>
             bind_r (ok_or (GSafety (as_backend mode @ '' execution requires a runtime acknowledgement gate''))
               (kr_sandbox_boundary_gate k)) (\<lambda>gate.
             gate_validate gate (kr_active k) request mode))
      else Inr ())"

definition check_process_limits :: "EffectRequest \<Rightarrow> PolicyObligations \<Rightarrow> (GatewayError, unit) result" where
  "check_process_limits request o' =
    (let process = is_process_effect request; backend = po_sandbox_backend o' in
     bind_r (reject_if (backend = ''windows_job'' \<and> process \<and> \<not> target_os_windows)
       (GSafety ''windows_job process execution is available only on Windows'')) (\<lambda>_.
     bind_r (reject_if (backend = ''windows_job'' \<and> process
         \<and> po_timeout_ms o' < MIN_WINDOWS_JOB_EFFECT_TIMEOUT_MS)
       (GSafety ''Windows Job Object process execution requires timeout_ms >= 10000 so cleanup can be confirmed'')) (\<lambda>_.
     bind_r (reject_if (target_os_windows \<and> backend = ''oci'' \<and> process)
       (GSafety ''OCI process execution is disabled on Windows until path mapping passes live acceptance'')) (\<lambda>_.
     bind_r (reject_if (backend = ''oci'' \<and> process \<and> po_timeout_ms o' < MIN_OCI_EFFECT_TIMEOUT_MS)
       (GSafety ''OCI process execution requires timeout_ms >= 5000 so cleanup can be confirmed'')) (\<lambda>_.
     reject_if (backend = ''oci'' \<and> process \<and> po_network_destinations o' \<noteq> []
         \<and> po_timeout_ms o' < MIN_OCI_NETWORK_EFFECT_TIMEOUT_MS)
       (GSafety ''networked OCI process execution requires timeout_ms >= 10000 so proxy cleanup can be confirmed''))))))"

text \<open>The loop over the protected paths, with the paths seen so far.\<close>

definition covered_by_write :: "Platform \<Rightarrow> PolicyObligations \<Rightarrow> string list \<Rightarrow> bool" where
  "covered_by_write pl o' canonical =
     list_ex (\<lambda>grant. fg_mode grant = ''write'' \<and> root_contains pl canonical grant
       \<and> pl_canonicalize pl (fg_root grant) \<noteq> Inr canonical) (po_filesystem o')"

fun check_protected ::
    "Platform \<Rightarrow> PolicyObligations \<Rightarrow> string list \<Rightarrow> string list \<Rightarrow> (GatewayError, unit) result" where
  "check_protected pl o' seen [] = Inr ()"
| "check_protected pl o' seen (path # paths) =
     (if \<not> absolute_policy_root path \<or> path \<in> set seen
      then Inl (GSafety ''protected filesystem obligations require unique absolute paths'')
      else bind_r (map_err (\<lambda>e. GSafety (''protected filesystem path is unavailable: '' @ e))
          (pl_canonicalize pl path)) (\<lambda>canonical.
        if \<not> covered_by_write pl o' canonical
        then Inl (GSafety ''protected filesystem paths must be strict descendants of writable grants'')
        else check_protected pl o' (path # seen) paths))"

definition check_grants :: "Platform \<Rightarrow> PolicyObligations \<Rightarrow> (GatewayError, unit) result" where
  "check_grants pl o' =
     bind_r (reject_if (\<not> list_all valid_environment_name (po_allowed_environment o')
         \<or> \<not> distinct (po_allowed_environment o'))
       (GSafety ''environment obligations must be unique POSIX-style names'')) (\<lambda>_.
     bind_r (check_all (\<lambda>destination.
         if destination = ''*'' then Inr ()
         else bind_r (canonical_network_origin pl destination) (\<lambda>origin.
           reject_if (origin \<noteq> destination)
             (GSafety (''network destination must be * or a canonical HTTP(S) origin: '' @ destination))))
       (po_network_destinations o')) (\<lambda>_.
     bind_r (check_all (\<lambda>grant. reject_if (\<not> absolute_policy_root (fg_root grant)
           \<or> fg_mode grant \<notin> {''read'', ''write'', ''metadata'', ''execute''})
         (GSafety ''filesystem obligations require absolute roots and known modes''))
       (po_filesystem o')) (\<lambda>_.
     check_protected pl o' [] (po_protected_filesystem o'))))"

definition http_effect :: "EffectRequest \<Rightarrow> bool" where
  "http_effect request =
     (er_action request \<in> {''network.http'', ''web.search'', ''audit.export.worm.write'',
        ''provider.openai.responses'', ''provider.openai.codex'', ''provider.openai.chat'',
        ''provider.anthropic.messages'', ''provider.models'', ''plugin.pull'', ''plugin.push''}
      \<or> is_streamable_http_mcp request)"

definition observed_effect :: "string \<Rightarrow> bool" where
  "observed_effect action =
     (action = ''web.search'' \<or> starts_with ''browser.'' action \<or> starts_with ''computer.'' action)"

text \<open>The checks of an allowing decision against the request's own resource.\<close>

definition check_resource ::
    "Platform \<Rightarrow> EffectRequest \<Rightarrow> PolicyDecision \<Rightarrow> (GatewayError, unit) result" where
  "check_resource pl request d =
    (let o' = pd_obligations d; allow = (pd_outcome d = Allow) in
     bind_r (if allow \<and> is_filesystem_action (er_action request)
       then validate_filesystem_containment pl request o' else Inr ()) (\<lambda>_.
     bind_r (reject_if (allow \<and> er_phase request = PreEffect
         \<and> observed_effect (er_action request) \<and> \<not> po_require_post_effect o')
       (GSafety ''browser, computer, and search effects require mandatory post-effect authorization'')) (\<lambda>_.
     bind_r (if allow \<and> er_phase request = PreEffect \<and> is_process_effect request
       then validate_process_obligations pl request o' else Inr ()) (\<lambda>_.
     if allow \<and> http_effect request then
       bind_r (canonical_network_origin pl (er_resource request)) (\<lambda>origin.
       bind_r (http_transport_authority_match pl o' origin) (\<lambda>m.
       reject_if (m = None) (GSafety (''network destination '' @ origin @ '' is not allowed''))))
     else Inr ()))))"

definition validate_decision ::
    "Platform \<Rightarrow> SafetyKernel \<Rightarrow> EffectRequest \<Rightarrow> PolicyDecision \<Rightarrow> (GatewayError, unit) result" where
  "validate_decision pl k request d =
     bind_r (reject_if (decision_field_absent d)
       (GPolicy (InvalidDecision ''required decision field or obligation is absent/zero''))) (\<lambda>_.
     bind_r (check_backend request (pd_obligations d)) (\<lambda>_.
     bind_r (check_boundary k request d) (\<lambda>_.
     bind_r (check_process_limits request (pd_obligations d)) (\<lambda>_.
     bind_r (check_grants pl (pd_obligations d)) (\<lambda>_.
     check_resource pl request d)))))"

section \<open>Disclosure\<close>

definition json_opt :: "('a \<Rightarrow> json) \<Rightarrow> 'a option \<Rightarrow> json" where
  "json_opt f o' = (case o' of None \<Rightarrow> JNull | Some x \<Rightarrow> f x)"

definition credential_json :: "CredentialReference \<Rightarrow> json" where
  "credential_json c = JObj [(''reference'', JStr (cr_reference c)),
     (''value_hash'', json_opt JStr (cr_value_hash c))]"

text \<open>\<open>build_disclosure_summary\<close>: names, sizes and hashes, never content.\<close>

definition build_disclosure_summary :: "Platform \<Rightarrow> EffectRequest \<Rightarrow> json" where
  "build_disclosure_summary pl request =
    (let fields = (case as_object (er_content request) of Some kvs \<Rightarrow> map fst kvs | None \<Rightarrow> []);
       encoded = (case pl_json_bytes pl (er_content request) of Inr b \<Rightarrow> b | Inl _ \<Rightarrow> [])
     in JObj [(''request_id'', JStr (er_request_id request)),
       (''phase'', JStr (effect_phase_display (er_phase request))),
       (''action'', JStr (er_action request)),
       (''resource'', JStr (er_resource request)),
       (''content_fields'', JArr (map JStr fields)),
       (''content_size'', JNum (Unsigned (length encoded))),
       (''content_hash'', JStr (pl_sha256_hex pl encoded)),
       (''credential_references'', JArr (map credential_json (er_credential_references request))),
       (''capabilities'', JArr (map JStr (er_capabilities request)))])"

section \<open>What a validated decision guarantees\<close>

lemma from_backend_as_backend [simp]: "from_backend (as_backend m) = Some m"
  by simp

lemma validate_decision_ok:
  "validate_decision pl k request d = Inr () \<longleftrightarrow>
     \<not> decision_field_absent d \<and> check_backend request (pd_obligations d) = Inr ()
     \<and> check_boundary k request d = Inr () \<and> check_process_limits request (pd_obligations d) = Inr ()
     \<and> check_grants pl (pd_obligations d) = Inr () \<and> check_resource pl request d = Inr ()"
  by (simp add: validate_decision_def bind_r_Inr_iff)

lemma check_backend_ok:
  "check_backend request o' = Inr () \<longleftrightarrow>
     po_sandbox_backend o' \<in> known_backends
     \<and> (po_resource_authority o' = Ambient \<longrightarrow> po_sandbox_backend o' = as_backend DangerFullAccess)
     \<and> (is_process_effect request \<and> po_sandbox_backend o' = as_backend DangerFullAccess
          \<longrightarrow> po_resource_authority o' = Ambient)
     \<and> (is_process_effect request \<and> po_sandbox_backend o' = ''broker'' \<longrightarrow> po_allow_sandbox_downgrade o')"
  by (auto simp: check_backend_def bind_r_Inr_iff)

lemma check_resource_filesystem:
  "check_resource pl request d = Inr () \<Longrightarrow> pd_outcome d = Allow \<Longrightarrow>
     is_filesystem_action (er_action request) \<Longrightarrow>
     validate_filesystem_containment pl request (pd_obligations d) = Inr ()"
  by (simp add: check_resource_def bind_r_Inr_iff Let_def)

lemma check_resource_process:
  "check_resource pl request d = Inr () \<Longrightarrow> pd_outcome d = Allow \<Longrightarrow> er_phase request = PreEffect \<Longrightarrow>
     is_process_effect request \<Longrightarrow> validate_process_obligations pl request (pd_obligations d) = Inr ()"
  by (simp add: check_resource_def bind_r_Inr_iff Let_def)

lemma check_resource_network:
  assumes "check_resource pl request d = Inr ()" "pd_outcome d = Allow" "http_effect request"
  obtains origin m where "canonical_network_origin pl (er_resource request) = Inr origin"
    "http_transport_authority_match pl (pd_obligations d) origin = Inr (Some m)"
  using assms by (auto simp: check_resource_def bind_r_Inr_iff Let_def)

lemma containment_ok:
  assumes "validate_filesystem_containment pl request o' = Inr ()" "po_resource_authority o' \<noteq> Ambient"
  obtains target grant root where
    "canonical_effect_path pl (er_resource request) (requested_mode (er_action request) = ''write'') = Inr target"
    "grant \<in> set (po_filesystem o')" "pl_canonicalize pl (fg_root grant) = Inr root" "prefix root target"
    "fg_mode grant = ''write'' \<or> fg_mode grant = requested_mode (er_action request)
       \<or> requested_mode (er_action request) = ''metadata'' \<and> fg_mode grant = ''read''"
proof -
  from assms obtain target grant where
    "canonical_effect_path pl (er_resource request) (requested_mode (er_action request) = ''write'') = Inr target"
    "grant \<in> set (po_filesystem o')" and r: "root_contains pl target grant"
    and "fg_mode grant = ''write'' \<or> fg_mode grant = requested_mode (er_action request)
       \<or> requested_mode (er_action request) = ''metadata'' \<and> fg_mode grant = ''read''"
    unfolding validate_filesystem_containment_def Let_def
    by (auto simp: bind_r_Inr_iff list_ex_iff simp del: split: if_splits)
  moreover obtain root where "pl_canonicalize pl (fg_root grant) = Inr root" "prefix root target"
    using r by (auto simp: root_contains_def split: sum.splits)
  ultimately show thesis using that by blast
qed

lemma process_ok:
  assumes "validate_process_obligations pl request o' = Inr ()"
  obtains cwd dir env where
    "executable_allowed pl request o' = Inr True"
    "get_str (er_content request) ''cwd'' = Some cwd" "canonical_effect_path pl cwd False = Inr dir"
    "from_backend (po_sandbox_backend o') = None \<longrightarrow> (\<exists>grant \<in> set (po_filesystem o').
       fg_mode grant \<in> {''read'', ''write''} \<and> root_contains pl dir grant)"
    "Option.bind (json_get (er_content request) ''environment'') as_object = Some env"
    "po_sandbox_backend o' \<noteq> as_backend DangerFullAccess \<longrightarrow> fst ` set env \<subseteq> set (po_allowed_environment o')"
proof -
  from assms obtain cwd dir env where *:
    "executable_allowed pl request o' = Inr True"
    "get_str (er_content request) ''cwd'' = Some cwd" "canonical_effect_path pl cwd False = Inr dir"
    "from_backend (po_sandbox_backend o') = None \<longrightarrow> list_ex (\<lambda>grant.
       fg_mode grant \<in> {''read'', ''write''} \<and> root_contains pl dir grant) (po_filesystem o')"
    "Option.bind (json_get (er_content request) ''environment'') as_object = Some env"
    "check_all (\<lambda>(name, _).
       if po_sandbox_backend o' \<noteq> as_backend DangerFullAccess \<and> name \<notin> set (po_allowed_environment o')
       then Inl (GSafety (''environment variable '' @ name @ '' is not allowed''))
       else Inr ()) env = Inr ()"
    unfolding validate_process_obligations_def Let_def
    by (auto simp: bind_r_Inr_iff ok_or_Inr_iff simp del: as_backend.simps split: if_splits)
  have "po_sandbox_backend o' \<noteq> as_backend DangerFullAccess \<longrightarrow> fst ` set env \<subseteq> set (po_allowed_environment o')"
    using *(6) by (force simp: check_all_Inr_iff split: if_splits)
  with * show thesis by (intro that [of cwd dir env]) (auto simp: list_ex_iff)
qed

lemma network_destination_match_ok:
  assumes "network_destination_match pl dests resource = Inr (Some m)"
  obtains origin where "canonical_network_origin pl resource = Inr origin"
    "m = MatchExact \<and> origin \<in> set dests \<or>
     m = MatchPublicWildcard \<and> ''*'' \<in> set dests \<and> (\<exists>url host. pl_url_parse pl origin = Inr url
       \<and> url_host url = Some host \<and> \<not> metadata_host (to_ascii_lowercase (trim_end_char CHR ''.'' host))
       \<and> (\<forall>ip. parse_host_ip host = Some ip \<longrightarrow> \<not> non_public_network_address ip))"
  using assms unfolding network_destination_match_def
  by (auto simp: bind_r_Inr_iff ok_or_Inr_iff map_err_Inr_iff split: if_splits option.splits)

lemma check_protected_ok:
  "check_protected pl o' seen paths = Inr () \<Longrightarrow> path \<in> set paths \<Longrightarrow>
     \<exists>canonical. pl_canonicalize pl path = Inr canonical \<and> covered_by_write pl o' canonical"
  by (induction paths arbitrary: seen) (auto simp: bind_r_Inr_iff map_err_Inr_iff split: if_splits)

lemma covered_strictly:
  assumes "covered_by_write pl o' canonical"
  shows "\<exists>grant \<in> set (po_filesystem o'). fg_mode grant = ''write'' \<and>
    (\<exists>root. pl_canonicalize pl (fg_root grant) = Inr root \<and> strict_prefix root canonical)"
proof -
  from assms obtain grant where g: "grant \<in> set (po_filesystem o')" "fg_mode grant = ''write''"
    "root_contains pl canonical grant" "pl_canonicalize pl (fg_root grant) \<noteq> Inr canonical"
    by (auto simp: covered_by_write_def list_ex_iff)
  then obtain root where "pl_canonicalize pl (fg_root grant) = Inr root" "prefix root canonical"
    by (auto simp: root_contains_def split: sum.splits)
  with g show ?thesis by (metis strict_prefix_def)
qed

lemma kernel_prepare_ok:
  assumes "kernel_prepare pl k request = Inr prepared"
  shows "er_schema_version request = 1" "er_request_id request \<noteq> []" "er_action request \<noteq> []"
    "set (er_capabilities request) \<subseteq> set (kr_known_capabilities k)"
    "redact_request_content pl request = Inr prepared"
    "validate_policy_input_size pl k prepared = Inr ()"
  using assms by (auto simp: kernel_prepare_def bind_r_Inr_iff check_all_Inr_iff)

lemma input_size_ok:
  "validate_policy_input_size pl k request = Inr () \<longleftrightarrow>
     (\<exists>bytes. pl_request_bytes pl request = Inr bytes \<and> length bytes \<le> policy_input_limit k request)"
  by (auto simp: validate_policy_input_size_def canonical_bytes_def bind_r_Inr_iff map_err_Inr_iff Let_def
      not_less)

text \<open>Example decisions for the properties below.\<close>

definition example_obligations :: PolicyObligations where
  "example_obligations = \<lparr>po_sandbox_backend = ''native'', po_sandbox_profile = ''default'',
     po_resource_authority = Declared,
     po_filesystem = [\<lparr>fg_root = ''/work'', fg_mode = ''write''\<rparr>,
       \<lparr>fg_root = ''/bin/tool'', fg_mode = ''execute''\<rparr>],
     po_protected_filesystem = [''/work/.git''], po_network_destinations = [''https://example.org''],
     po_allowed_environment = [''PATH''], po_allow_sandbox_downgrade = False, po_timeout_ms = 60000,
     po_max_output_bytes = 1000, po_max_processes = 1, po_max_memory_bytes = 1000000,
     po_max_concurrency = 1, po_required_redactions = [], po_require_post_effect = True,
     po_audit_labels = [], po_retention = ''standard''\<rparr>"

definition example_decision :: PolicyDecision where
  "example_decision = \<lparr>pd_decision_id = ''d1'', pd_policy_revision = ''v1'', pd_outcome = Allow,
     pd_reason = ''ok'', pd_obligations = example_obligations\<rparr>"

definition example_write :: EffectRequest where
  "example_write = example_request\<lparr>er_action := ''filesystem.write'', er_resource := ''/work/a''\<rparr>"

definition example_process :: EffectRequest where
  "example_process = example_request\<lparr>er_action := ''shell.run'', er_resource := ''/bin/tool'',
     er_content := JObj [(''cwd'', JStr ''/work/x''), (''environment'', JObj [(''PATH'', JStr ''/bin'')])]\<rparr>"

definition example_http :: EffectRequest where
  "example_http = example_request\<lparr>er_action := ''network.http'', er_resource := ''https://example.org''\<rparr>"

lemmas example_kernel_defs = example_obligations_def example_decision_def example_write_def
  example_process_def example_http_def example_request_def example_platform_def

lemma example_grants: "check_grants example_platform example_obligations = Inr ()"
  by code_simp

lemma example_valid:
  "validate_decision example_platform (kernel_new []) example_write example_decision = Inr ()"
  "validate_decision example_platform (kernel_new []) example_process example_decision = Inr ()"
  "validate_decision example_platform (kernel_new []) example_http example_decision = Inr ()"
  by code_simp+

section \<open>Properties\<close>

text \<open>C11. File effects stay inside granted roots: whatever policy answered, a decision that passes
  the kernel and allows a file action with declared authority has a grant of a sufficient mode
  whose canonical root contains the canonical target, so neither a symbolic link nor a
  \<open>..\<close> component leads outside; and every protected path lies strictly below a writable
  root.\<close>

theorem filesystem_effect_contained:
  assumes ok: "validate_decision pl k request d = Inr ()"
    and allow: "pd_outcome d = Allow" and fs: "is_filesystem_action (er_action request)"
    and declared: "po_resource_authority (pd_obligations d) = Declared"
  shows "(\<exists>target. canonical_effect_path pl (er_resource request)
        (requested_mode (er_action request) = ''write'') = Inr target \<and>
      (\<exists>grant \<in> set (po_filesystem (pd_obligations d)).
        (fg_mode grant = ''write'' \<or> fg_mode grant = requested_mode (er_action request)
          \<or> requested_mode (er_action request) = ''metadata'' \<and> fg_mode grant = ''read'') \<and>
        (\<exists>root. pl_canonicalize pl (fg_root grant) = Inr root \<and> prefix root target))) \<and>
    (\<forall>path \<in> set (po_protected_filesystem (pd_obligations d)).
      \<exists>canonical. pl_canonicalize pl path = Inr canonical \<and>
        (\<exists>grant \<in> set (po_filesystem (pd_obligations d)). fg_mode grant = ''write'' \<and>
          (\<exists>root. pl_canonicalize pl (fg_root grant) = Inr root \<and> strict_prefix root canonical)))"
proof (intro conjI ballI)
  have "validate_filesystem_containment pl request (pd_obligations d) = Inr ()"
    using ok allow fs by (simp add: validate_decision_ok check_resource_filesystem)
  moreover have "po_resource_authority (pd_obligations d) \<noteq> Ambient" using declared by simp
  ultimately show "\<exists>target. canonical_effect_path pl (er_resource request)
        (requested_mode (er_action request) = ''write'') = Inr target \<and>
      (\<exists>grant \<in> set (po_filesystem (pd_obligations d)).
        (fg_mode grant = ''write'' \<or> fg_mode grant = requested_mode (er_action request)
          \<or> requested_mode (er_action request) = ''metadata'' \<and> fg_mode grant = ''read'') \<and>
        (\<exists>root. pl_canonicalize pl (fg_root grant) = Inr root \<and> prefix root target))"
    by (rule containment_ok) blast
next
  fix path assume "path \<in> set (po_protected_filesystem (pd_obligations d))"
  moreover have "check_protected pl (pd_obligations d) [] (po_protected_filesystem (pd_obligations d)) = Inr ()"
    using ok by (simp add: validate_decision_ok check_grants_def bind_r_Inr_iff)
  ultimately obtain canonical where "pl_canonicalize pl path = Inr canonical"
    "covered_by_write pl (pd_obligations d) canonical" using check_protected_ok by blast
  with covered_strictly show "\<exists>canonical. pl_canonicalize pl path = Inr canonical \<and>
        (\<exists>grant \<in> set (po_filesystem (pd_obligations d)). fg_mode grant = ''write'' \<and>
          (\<exists>root. pl_canonicalize pl (fg_root grant) = Inr root \<and> strict_prefix root canonical))"
    by blast
qed

theorem filesystem_effect_contained_witness:
  "validate_decision example_platform (kernel_new []) example_write example_decision = Inr () \<and>
   (\<exists>target. canonical_effect_path example_platform (er_resource example_write)
      (requested_mode (er_action example_write) = ''write'') = Inr target)"
proof -
  have "pd_outcome example_decision = Allow" "is_filesystem_action (er_action example_write)"
    "po_resource_authority (pd_obligations example_decision) = Declared" by code_simp+
  from filesystem_effect_contained [OF example_valid(1) this] example_valid(1) show ?thesis by blast
qed

text \<open>C12. Sandboxed processes run what was granted: a decision that passes the kernel and allows a
  process in a sandboxing backend has an execute grant for exactly that executable, a readable
  or writable grant that contains the working directory, only allow-listed environment
  variables, and never runs in the broker unless a downgrade was explicitly allowed.\<close>

theorem sandboxed_process_contained:
  assumes ok: "validate_decision pl k request d = Inr ()"
    and allow: "pd_outcome d = Allow" "er_phase request = PreEffect" and proc: "is_process_effect request"
    and sandboxed: "from_backend (po_sandbox_backend (pd_obligations d)) = None"
  shows "(\<exists>grant \<in> set (po_filesystem (pd_obligations d)). fg_mode grant = ''execute'' \<and>
      (if po_sandbox_backend (pd_obligations d) = ''oci'' then fg_root grant = er_resource request
       else \<exists>exe. canonical_effect_path pl (er_resource request) False = Inr exe
          \<and> pl_canonicalize pl (fg_root grant) = Inr exe)) \<and>
    (\<exists>cwd dir. get_str (er_content request) ''cwd'' = Some cwd \<and> canonical_effect_path pl cwd False = Inr dir \<and>
      (\<exists>grant \<in> set (po_filesystem (pd_obligations d)).
        fg_mode grant \<in> {''read'', ''write''} \<and> root_contains pl dir grant)) \<and>
    (\<exists>env. json_get (er_content request) ''environment'' = Some (JObj env) \<and>
      fst ` set env \<subseteq> set (po_allowed_environment (pd_obligations d))) \<and>
    (po_sandbox_backend (pd_obligations d) = ''broker'' \<longrightarrow> po_allow_sandbox_downgrade (pd_obligations d))"
proof -
  let ?o = "pd_obligations d"
  have not_danger: "po_sandbox_backend ?o \<noteq> as_backend DangerFullAccess"
    using sandboxed from_backend_as_backend by (metis option.distinct(1))
  have "validate_process_obligations pl request ?o = Inr ()"
    using ok allow proc by (simp add: validate_decision_ok check_resource_process)
  then obtain cwd dir env where exe: "executable_allowed pl request ?o = Inr True"
    and cwd: "get_str (er_content request) ''cwd'' = Some cwd" "canonical_effect_path pl cwd False = Inr dir"
    and dir: "from_backend (po_sandbox_backend ?o) = None \<longrightarrow> (\<exists>grant \<in> set (po_filesystem ?o).
       fg_mode grant \<in> {''read'', ''write''} \<and> root_contains pl dir grant)"
    and env: "Option.bind (json_get (er_content request) ''environment'') as_object = Some env"
    and names: "po_sandbox_backend ?o \<noteq> as_backend DangerFullAccess \<longrightarrow> fst ` set env \<subseteq> set (po_allowed_environment ?o)"
    by (rule process_ok)
  have "json_get (er_content request) ''environment'' = Some (JObj env)"
    using env by (auto simp: bind_eq_Some_conv elim!: as_object.elims)
  moreover have "\<exists>grant \<in> set (po_filesystem ?o). fg_mode grant = ''execute'' \<and>
      (if po_sandbox_backend ?o = ''oci'' then fg_root grant = er_resource request
       else \<exists>exe. canonical_effect_path pl (er_resource request) False = Inr exe
          \<and> pl_canonicalize pl (fg_root grant) = Inr exe)"
    using exe not_danger unfolding executable_allowed_def
    by (auto simp: bind_r_Inr_iff list_ex_iff simp del: as_backend.simps split: if_splits)
  moreover have "po_sandbox_backend ?o = ''broker'' \<longrightarrow> po_allow_sandbox_downgrade ?o"
    using ok proc by (simp add: validate_decision_ok check_backend_ok)
  ultimately show ?thesis using cwd dir sandboxed names not_danger by blast
qed

theorem sandboxed_process_contained_witness:
  "validate_decision example_platform (kernel_new []) example_process example_decision = Inr () \<and>
   (\<exists>grant \<in> set (po_filesystem example_obligations). fg_mode grant = ''execute'')"
proof -
  have "pd_outcome example_decision = Allow" "er_phase example_process = PreEffect"
    "is_process_effect example_process"
    "from_backend (po_sandbox_backend (pd_obligations example_decision)) = None" by code_simp+
  from sandboxed_process_contained [OF example_valid(2) this] example_valid(2) show ?thesis
    by (auto simp: example_decision_def)
qed



text \<open>C14. Unisolated execution needs an acknowledged boundary: when a decision that does not deny a
  request before its effect gives ambient authority, or runs a process in the external or
  danger-full-access backend, and it passes the kernel, then the runtime has a gate configured
  for exactly that mode and the gate accepted the session; ambient authority is accepted only
  together with the danger-full-access backend, and that backend runs processes only with
  ambient authority.\<close>

theorem unisolated_effect_acknowledged:
  assumes ok: "validate_decision pl k request d = Inr ()"
    and phase: "er_phase request = PreEffect" "pd_outcome d \<noteq> Deny"
  shows "(po_resource_authority (pd_obligations d) = Ambient \<longrightarrow>
      po_sandbox_backend (pd_obligations d) = as_backend DangerFullAccess) \<and>
    (is_process_effect request \<and> po_sandbox_backend (pd_obligations d) = as_backend DangerFullAccess
      \<longrightarrow> po_resource_authority (pd_obligations d) = Ambient) \<and>
    (\<forall>mode. po_sandbox_backend (pd_obligations d) = as_backend mode \<longrightarrow>
      po_resource_authority (pd_obligations d) = Ambient \<or> is_process_effect request \<longrightarrow>
      (\<exists>gate. kr_sandbox_boundary_gate k = Some gate \<and> gate_mode gate = Some mode \<and>
        acknowledged gate (kr_active k) (cx_session_id (er_context request)) mode))"
proof -
  have backend: "check_backend request (pd_obligations d) = Inr ()"
    and boundary: "check_boundary k request d = Inr ()"
    using ok by (simp_all add: validate_decision_ok)
  have inj: "as_backend m = as_backend n \<longleftrightarrow> m = n" for m n by (cases m; cases n) auto
  have "\<exists>gate. kr_sandbox_boundary_gate k = Some gate \<and> gate_mode gate = Some mode \<and>
        acknowledged gate (kr_active k) (cx_session_id (er_context request)) mode"
    if "po_sandbox_backend (pd_obligations d) = as_backend mode"
      "po_resource_authority (pd_obligations d) = Ambient \<or> is_process_effect request" for mode
  proof -
    have "boundary_mode request (pd_obligations d) = Some mode"
      using that backend inj unfolding check_backend_ok boundary_mode_def
      by (auto simp del: as_backend.simps)
    then show ?thesis
      using boundary phase unfolding check_boundary_def
      by (auto simp: bind_r_Inr_iff ok_or_Inr_iff gate_validate_def split: if_splits)
  qed
  with backend show ?thesis unfolding check_backend_ok by blast
qed

definition example_direct :: PolicyDecision where
  "example_direct = example_decision\<lparr>pd_obligations := example_obligations\<lparr>po_sandbox_backend := ''external''\<rparr>\<rparr>"

definition example_gated_kernel :: SafetyKernel where
  "example_gated_kernel = with_sandbox_boundary_gate (kernel_new []) (gate_new (Some External) True)"

theorem unisolated_effect_acknowledged_witness:
  "validate_decision example_platform example_gated_kernel example_process example_direct = Inr () \<and>
   (\<exists>gate. kr_sandbox_boundary_gate example_gated_kernel = Some gate \<and> gate_mode gate = Some External)"
proof -
  have ok: "validate_decision example_platform example_gated_kernel example_process example_direct = Inr ()"
    by code_simp
  have "er_phase example_process = PreEffect" "pd_outcome example_direct \<noteq> Deny"
    "po_sandbox_backend (pd_obligations example_direct) = as_backend External"
    "is_process_effect example_process" by code_simp+
  with unisolated_effect_acknowledged [OF ok] ok show ?thesis by blast
qed

text \<open>What policy sees is bounded and redacted: a prepared request differs from the caller's in
  its content only, claims only known capabilities, encodes to at most the limit of its phase
  and action, and its content is the redacted one; the projection handed to the decision point
  shows a command's justification only as its digest.\<close>

theorem policy_input_bounded:
  assumes "kernel_prepare pl k request = Inr prepared"
  shows "set (er_capabilities prepared) \<subseteq> set (kr_known_capabilities k) \<and>
    redact_request_content pl request = Inr prepared \<and>
    prepared = request\<lparr>er_content := er_content prepared\<rparr> \<and>
    (\<exists>bytes. pl_request_bytes pl prepared = Inr bytes \<and> length bytes \<le> policy_input_limit k prepared) \<and>
    (\<forall>projected. policy_projection pl k prepared = Inr projected \<longrightarrow>
      projected = prepared\<lparr>er_command_intent := er_command_intent projected\<rparr> \<and>
      er_command_intent projected = map_option (\<lambda>j. ''sha256:'' @ pl_sha256_hex pl (as_bytes j))
        (er_command_intent prepared) \<and>
      (\<exists>bytes. pl_request_bytes pl projected = Inr bytes \<and> length bytes \<le> policy_input_limit k projected))"
proof -
  note ok = kernel_prepare_ok [OF assms]
  from ok(5) have same: "prepared = request\<lparr>er_content := er_content prepared\<rparr>"
    by (cases rule: redact_request_cases [of pl request]) auto
  then have "er_capabilities prepared = er_capabilities request"
    by (metis EffectRequest.select_convs(6) EffectRequest.surjective EffectRequest.update_convs(8))
  with ok same show ?thesis
    by (auto simp: input_size_ok policy_projection_def bind_r_Inr_iff Let_def)
qed

theorem policy_input_bounded_witness:
  "\<exists>prepared. kernel_prepare example_platform (kernel_new []) example_write = Inr prepared
     \<and> set (er_capabilities prepared) \<subseteq> {}"
proof -
  have "is_ok (kernel_prepare example_platform (kernel_new []) example_write)" by code_simp
  then obtain prepared where ok: "kernel_prepare example_platform (kernel_new []) example_write = Inr prepared"
    by (cases "kernel_prepare example_platform (kernel_new []) example_write") auto
  with policy_input_bounded [OF ok] show ?thesis by (auto simp: kernel_new_def)
qed

end
