(* ===== verification/BuiltinPolicy.thy ===== *)
theory BuiltinPolicy
  imports Kernel "HOL-Library.Product_Lexorder"
begin

text \<open>
  The offline policy (crate \<open>colossus-policy\<close>, \<open>builtin.rs\<close>): an explicit map from actions
  to outcomes, deny by default, with the obligations every decision carries; the constructors
  of requests and the two unconditional approval providers (\<open>request.rs\<close>,
  \<open>approval.rs\<close>). Fresh identifiers and the clock are arguments.
\<close>

section \<open>Requests and approvals\<close>

definition effect_request :: "string \<Rightarrow> string \<Rightarrow> Actor \<Rightarrow> string \<Rightarrow> string \<Rightarrow> json \<Rightarrow> EffectRequest" where
  "effect_request request_id correlation_id actor action resource content =
     \<lparr>er_schema_version = 1, er_request_id = request_id, er_actor = actor, er_action = action,
      er_resource = resource, er_capabilities = [],
      er_risk = \<lparr>ri_status = Unavailable, ri_level = None, ri_reason = None\<rparr>,
      er_content = content, er_command_intent = None, er_credential_references = [],
      er_context = default_context\<lparr>cx_correlation_id := correlation_id\<rparr>,
      er_idempotency_id = None, er_phase = PreEffect, er_approval = None\<rparr>"

definition system_actor :: "string \<Rightarrow> Actor" where
  "system_actor i = \<lparr>actor_type = System, actor_id = i\<rparr>"

text \<open>\<open>approval_proof\<close>: the time formatted by the clock, or the formatting error.\<close>

definition approval_proof :: "(string, string) result \<Rightarrow> string \<Rightarrow> string \<Rightarrow> string \<Rightarrow> (PolicyError, ApprovalProof) result" where
  "approval_proof now approval_id request_hash approved_by =
     bind_r (map_err PolicyUnavailable now) (\<lambda>approved_at.
     Inr \<lparr>ap_approval_id = approval_id, ap_request_hash = request_hash, ap_approved_by = approved_by,
       ap_approved_at = approved_at\<rparr>)"

definition deny_approval :: "string \<Rightarrow> (PolicyError, ApprovalProof option) result" where
  "deny_approval request_hash = Inr None"

definition allow_approval ::
    "(string, string) result \<Rightarrow> string \<Rightarrow> string \<Rightarrow> string \<Rightarrow> (PolicyError, ApprovalProof option) result" where
  "allow_approval now approval_id approved_by request_hash =
     bind_r (approval_proof now approval_id request_hash approved_by) (\<lambda>p. Inr (Some p))"

section \<open>The policy and its builders\<close>

definition DEFAULT_MAX_OUTPUT_BYTES :: nat where
  "DEFAULT_MAX_OUTPUT_BYTES = 4 * 1024 * 1024"

definition DEFAULT_MAX_MEMORY_BYTES :: nat where
  "DEFAULT_MAX_MEMORY_BYTES = 1024 * 1024 * 1024"

definition default_obligations :: PolicyObligations where
  "default_obligations = \<lparr>po_sandbox_backend = ''broker'', po_sandbox_profile = ''offline-default'',
     po_resource_authority = Declared, po_filesystem = [], po_protected_filesystem = [],
     po_network_destinations = [], po_allowed_environment = [], po_allow_sandbox_downgrade = False,
     po_timeout_ms = DEFAULT_SANDBOX_TIMEOUT_MS, po_max_output_bytes = DEFAULT_MAX_OUTPUT_BYTES,
     po_max_processes = 1, po_max_memory_bytes = DEFAULT_MAX_MEMORY_BYTES, po_max_concurrency = 1,
     po_required_redactions = [], po_require_post_effect = False, po_audit_labels = [],
     po_retention = ''standard''\<rparr>"

record WorkspaceDevelopmentObligations =
  wd_filesystem :: "FilesystemGrant list"
  wd_protected_filesystem :: "string list"
  wd_allowed_environment :: "string list"

record BuiltInPolicy =
  bp_revision :: string
  bp_actions :: "string \<rightharpoonup> DecisionOutcome"
  bp_obligations :: PolicyObligations
  bp_action_obligations :: "string \<rightharpoonup> PolicyObligations"
  bp_workspace_development :: "WorkspaceDevelopmentObligations option"

definition offline_default :: BuiltInPolicy where
  "offline_default = \<lparr>bp_revision = ''builtin/offline-v1'',
     bp_actions = [''provider.echo'' \<mapsto> Allow], bp_obligations = default_obligations,
     bp_action_obligations = Map.empty, bp_workspace_development = None\<rparr>"

definition label_remove :: "string \<Rightarrow> (string \<times> string) list \<Rightarrow> (string \<times> string) list" where
  "label_remove k labels = filter (\<lambda>(k', _). k' \<noteq> k) labels"

definition label_insert :: "string \<Rightarrow> string \<Rightarrow> (string \<times> string) list \<Rightarrow> (string \<times> string) list" where
  "label_insert k v labels = (k, v) # label_remove k labels"

definition with_action :: "BuiltInPolicy \<Rightarrow> string \<Rightarrow> DecisionOutcome \<Rightarrow> BuiltInPolicy" where
  "with_action p action outcome = p\<lparr>bp_actions := (bp_actions p)(action \<mapsto> outcome)\<rparr>"

definition with_obligations :: "BuiltInPolicy \<Rightarrow> (PolicyObligations \<Rightarrow> PolicyObligations) \<Rightarrow> BuiltInPolicy" where
  "with_obligations p f = p\<lparr>bp_obligations := f (bp_obligations p)\<rparr>"

definition with_post_effect :: "BuiltInPolicy \<Rightarrow> bool \<Rightarrow> BuiltInPolicy" where
  "with_post_effect p required = with_obligations p (\<lambda>o'. o'\<lparr>po_require_post_effect := required\<rparr>)"

definition with_filesystem_root :: "BuiltInPolicy \<Rightarrow> string \<Rightarrow> string \<Rightarrow> BuiltInPolicy" where
  "with_filesystem_root p root mode = with_obligations p
     (\<lambda>o'. o'\<lparr>po_filesystem := po_filesystem o' @ [\<lparr>fg_root = root, fg_mode = mode\<rparr>]\<rparr>)"

definition with_filesystem_read_root :: "BuiltInPolicy \<Rightarrow> string \<Rightarrow> BuiltInPolicy" where
  "with_filesystem_read_root p root = with_filesystem_root p root ''read''"

definition with_sandbox :: "BuiltInPolicy \<Rightarrow> string \<Rightarrow> string \<Rightarrow> bool \<Rightarrow> BuiltInPolicy" where
  "with_sandbox p backend profile allow_downgrade = with_obligations p
     (\<lambda>o'. o'\<lparr>po_sandbox_backend := backend, po_sandbox_profile := profile,
        po_allow_sandbox_downgrade := allow_downgrade\<rparr>)"

definition with_resource_authority :: "BuiltInPolicy \<Rightarrow> ResourceAuthority \<Rightarrow> BuiltInPolicy" where
  "with_resource_authority p authority = with_obligations p
     (\<lambda>o'. o'\<lparr>po_resource_authority := authority,
        po_audit_labels := (case authority of
            Declared \<Rightarrow> label_remove ''resource_authority'' (po_audit_labels o')
          | Ambient \<Rightarrow> label_insert ''resource_authority'' ''ambient'' (po_audit_labels o'))\<rparr>)"

definition with_environment :: "BuiltInPolicy \<Rightarrow> string \<Rightarrow> BuiltInPolicy" where
  "with_environment p name = with_obligations p
     (\<lambda>o'. o'\<lparr>po_allowed_environment := po_allowed_environment o' @ [name]\<rparr>)"

definition with_workspace_development ::
    "BuiltInPolicy \<Rightarrow> FilesystemGrant list \<Rightarrow> string list \<Rightarrow> string list \<Rightarrow> BuiltInPolicy" where
  "with_workspace_development p filesystem protected_filesystem allowed_environment =
     p\<lparr>bp_workspace_development := Some \<lparr>wd_filesystem = filesystem,
       wd_protected_filesystem = protected_filesystem, wd_allowed_environment = allowed_environment\<rparr>\<rparr>"

definition with_network_destination :: "BuiltInPolicy \<Rightarrow> string \<Rightarrow> BuiltInPolicy" where
  "with_network_destination p origin = with_obligations p
     (\<lambda>o'. o'\<lparr>po_network_destinations := po_network_destinations o' @ [origin]\<rparr>)"

definition with_limits :: "BuiltInPolicy \<Rightarrow> nat \<Rightarrow> nat \<Rightarrow> nat \<Rightarrow> nat \<Rightarrow> nat \<Rightarrow> BuiltInPolicy" where
  "with_limits p timeout_ms max_output_bytes max_processes max_memory_bytes max_concurrency =
     with_obligations p (\<lambda>o'. o'\<lparr>po_timeout_ms := timeout_ms, po_max_output_bytes := max_output_bytes,
       po_max_processes := max_processes, po_max_memory_bytes := max_memory_bytes,
       po_max_concurrency := max_concurrency\<rparr>)"

definition with_action_restrictions ::
    "BuiltInPolicy \<Rightarrow> string \<Rightarrow> FilesystemGrant list \<Rightarrow> string list \<Rightarrow> string list \<Rightarrow> BuiltInPolicy" where
  "with_action_restrictions p action filesystem allowed_environment network_destinations =
     (let o' = bp_obligations p;
        restricted = o'\<lparr>po_resource_authority := Declared,
          po_audit_labels := label_remove ''resource_authority'' (po_audit_labels o'),
          po_filesystem := filesystem, po_allowed_environment := allowed_environment,
          po_network_destinations := network_destinations\<rparr>
      in p\<lparr>bp_action_obligations := (bp_action_obligations p)(action \<mapsto> restricted)\<rparr>)"

text \<open>\<open>entry(action).or_insert_with(...)\<close> followed by an update of one ceiling.\<close>

definition update_action_obligations ::
    "BuiltInPolicy \<Rightarrow> string \<Rightarrow> (PolicyObligations \<Rightarrow> PolicyObligations) \<Rightarrow> BuiltInPolicy" where
  "update_action_obligations p action f =
     (let o' = (case bp_action_obligations p action of Some o' \<Rightarrow> o' | None \<Rightarrow> bp_obligations p)
      in p\<lparr>bp_action_obligations := (bp_action_obligations p)(action \<mapsto> f o')\<rparr>)"

definition with_action_timeout :: "BuiltInPolicy \<Rightarrow> string \<Rightarrow> nat \<Rightarrow> BuiltInPolicy" where
  "with_action_timeout p action timeout_ms =
     update_action_obligations p action (\<lambda>o'. o'\<lparr>po_timeout_ms := timeout_ms\<rparr>)"

definition with_action_max_output_bytes :: "BuiltInPolicy \<Rightarrow> string \<Rightarrow> nat \<Rightarrow> BuiltInPolicy" where
  "with_action_max_output_bytes p action max_output_bytes =
     update_action_obligations p action (\<lambda>o'. o'\<lparr>po_max_output_bytes := max_output_bytes\<rparr>)"

section \<open>Decisions\<close>

definition inherits_workspace_development :: "EffectRequest \<Rightarrow> bool" where
  "inherits_workspace_development request =
     (actor_type (er_actor request) \<in> {User, Model, Subagent}
      \<and> cx_workflow_id (er_context request) = None \<and> cx_workflow_hash (er_context request) = None)"

definition fallback_outcome :: "string \<Rightarrow> DecisionOutcome" where
  "fallback_outcome action =
     (if starts_with ''openapi.'' action \<or> starts_with ''github.'' action
         \<or> starts_with ''searxng.'' action \<or> action = ''web.search'' \<or> action = ''mcp.call''
      then RequireApproval else Deny)"

definition builtin_outcome :: "BuiltInPolicy \<Rightarrow> EffectRequest \<Rightarrow> DecisionOutcome" where
  "builtin_outcome p request =
     (let outcome = (case bp_actions p (er_action request) of
          Some o' \<Rightarrow> o' | None \<Rightarrow> fallback_outcome (er_action request)) in
      if outcome = RequireApproval \<and> (er_approval request \<noteq> None \<or> er_phase request = PostEffect)
      then Allow else outcome)"

definition development_obligations ::
    "WorkspaceDevelopmentObligations \<Rightarrow> PolicyObligations \<Rightarrow> PolicyObligations" where
  "development_obligations dev o' =
     o'\<lparr>po_filesystem := dedup (sort_key (\<lambda>g. (fg_root g, fg_mode g)) (po_filesystem o' @ wd_filesystem dev)),
       po_protected_filesystem := dedup (sort (po_protected_filesystem o' @ wd_protected_filesystem dev)),
       po_allowed_environment := po_allowed_environment o' @ wd_allowed_environment dev\<rparr>"

definition post_effect_prefixes :: "string list" where
  "post_effect_prefixes = [''task.'', ''decision.'', ''plan.'', ''goal.'', ''subagent.'',
     ''agent.message.'', ''memory.'', ''plugin.'', ''research.'', ''integration.'', ''openapi.'',
     ''github.'', ''searxng.'', ''mcp.'', ''bundle.'', ''browser.'', ''computer.'']"

definition requires_post_effect :: "string \<Rightarrow> bool" where
  "requires_post_effect action =
     (starts_with ''filesystem.'' action \<or> is_process_action action
      \<or> action \<in> {''provider.openai.responses'', ''provider.openai.codex'', ''provider.openai.chat'',
          ''provider.anthropic.messages'', ''provider.models''}
      \<or> list_ex (\<lambda>p. starts_with p action) post_effect_prefixes
      \<or> action \<in> {''network.http'', ''web.search'', ''audit.export.worm.write''})"

definition builtin_obligations :: "BuiltInPolicy \<Rightarrow> EffectRequest \<Rightarrow> PolicyObligations" where
  "builtin_obligations p request =
     (let o1 = (case bp_action_obligations p (er_action request) of
          Some o' \<Rightarrow> o' | None \<Rightarrow> bp_obligations p);
        o2 = (if er_action request = ''shell.run'' then o1\<lparr>po_allowed_environment :=
            po_allowed_environment o1 @ [''HOME'', ''PATH'', ''TEMP'', ''TMP'', ''TMPDIR'']\<rparr> else o1);
        o3 = (case bp_workspace_development p of
            Some dev \<Rightarrow> if inherits_workspace_development request then development_obligations dev o2 else o2
          | None \<Rightarrow> o2);
        o4 = o3\<lparr>po_allowed_environment := dedup (sort (po_allowed_environment o3))\<rparr>
      in if requires_post_effect (er_action request) then o4\<lparr>po_require_post_effect := True\<rparr> else o4)"

fun builtin_reason :: "DecisionOutcome \<Rightarrow> string" where
  "builtin_reason Allow = ''allowed by explicit built-in rule''"
| "builtin_reason Deny = ''denied by built-in default''"
| "builtin_reason RequireApproval = ''explicit operator approval required''"

definition builtin_decide :: "BuiltInPolicy \<Rightarrow> string \<Rightarrow> EffectRequest \<Rightarrow> PolicyDecision" where
  "builtin_decide p decision_id request =
     \<lparr>pd_decision_id = decision_id, pd_policy_revision = bp_revision p,
      pd_outcome = builtin_outcome p request, pd_reason = builtin_reason (builtin_outcome p request),
      pd_obligations = builtin_obligations p request\<rparr>"

section \<open>Lemmas\<close>

text \<open>The builders, as data, for statements about every way to configure the policy.\<close>

datatype builder =
    SetAction string DecisionOutcome
  | SetPostEffect bool
  | AddRoot string string
  | SetSandbox string string bool
  | SetAuthority ResourceAuthority
  | AddEnvironment string
  | SetDevelopment "FilesystemGrant list" "string list" "string list"
  | AddDestination string
  | SetLimits nat nat nat nat nat
  | RestrictAction string "FilesystemGrant list" "string list" "string list"
  | SetActionTimeout string nat
  | SetActionOutput string nat

fun build :: "BuiltInPolicy \<Rightarrow> builder \<Rightarrow> BuiltInPolicy" where
  "build p (SetAction a o') = with_action p a o'"
| "build p (SetPostEffect b) = with_post_effect p b"
| "build p (AddRoot r m) = with_filesystem_root p r m"
| "build p (SetSandbox b pr d) = with_sandbox p b pr d"
| "build p (SetAuthority a) = with_resource_authority p a"
| "build p (AddEnvironment n) = with_environment p n"
| "build p (SetDevelopment f pf e) = with_workspace_development p f pf e"
| "build p (AddDestination d) = with_network_destination p d"
| "build p (SetLimits t m n k c) = with_limits p t m n k c"
| "build p (RestrictAction a f e n) = with_action_restrictions p a f e n"
| "build p (SetActionTimeout a t) = with_action_timeout p a t"
| "build p (SetActionOutput a m) = with_action_max_output_bytes p a m"

definition confined :: "BuiltInPolicy \<Rightarrow> string \<Rightarrow> bool" where
  "confined p a = (\<exists>o'. bp_action_obligations p a = Some o' \<and> po_resource_authority o' = Declared)"

lemmas builder_defs = with_action_def with_obligations_def with_post_effect_def
  with_filesystem_root_def with_sandbox_def with_resource_authority_def with_environment_def
  with_workspace_development_def with_network_destination_def with_limits_def
  with_action_restrictions_def with_action_timeout_def with_action_max_output_bytes_def
  update_action_obligations_def

lemma build_confined: "confined p a \<Longrightarrow> confined (build p b) a"
  by (cases b) (auto simp: confined_def builder_defs Let_def)

lemma builds_confined: "confined p a \<Longrightarrow> confined (foldl build p bs) a"
  by (induction bs arbitrary: p) (simp_all add: build_confined)

lemma restriction_confines: "confined (with_action_restrictions p a f e n) a"
  by (simp add: confined_def with_action_restrictions_def Let_def)

lemma builtin_obligations_authority:
  "po_resource_authority (builtin_obligations p request) =
     (case bp_action_obligations p (er_action request) of
        Some o' \<Rightarrow> po_resource_authority o' | None \<Rightarrow> po_resource_authority (bp_obligations p))"
  by (auto simp: builtin_obligations_def Let_def development_obligations_def split: option.splits)

lemma builtin_environment: "distinct (po_allowed_environment (builtin_obligations p request))"
  by (auto simp: builtin_obligations_def Let_def)

lemma builtin_filesystem:
  "set (po_filesystem (builtin_obligations p request)) =
     set (po_filesystem (case bp_action_obligations p (er_action request) of
        Some o' \<Rightarrow> o' | None \<Rightarrow> bp_obligations p))
     \<union> (case bp_workspace_development p of
          Some dev \<Rightarrow> if inherits_workspace_development request then set (wd_filesystem dev) else {}
        | None \<Rightarrow> {})"
  by (auto simp: builtin_obligations_def Let_def development_obligations_def split: option.splits)

section \<open>Properties\<close>




end
