(* ===== verification/Gateway.thy ===== *)
theory Gateway
  imports BuiltinPolicy
begin

text \<open>
  The effect gateway (crate \<open>colossus-policy\<close>, \<open>gateway.rs\<close> and \<open>gateway/fence.rs\<close>): the
  single place where effects are authorised, executed and released. The services it is
  composed of (journal, policy, approvals, risk evaluator, execution lease, clock and
  identifiers) act on a world of any type \<open>'w\<close>, which also carries the kernel and the
  platform. Next to the world the model keeps the sequence of the gateway's own interactions,
  which the properties speak about.

  An adapter that runs under the gateway's timeout is a finite tree of what the gateway can
  see of it: it acts on the world, a timer of the ownership lease fires while it is pending,
  the timeout elapses, or it returns. A streaming adapter also submits chunks. Timers fire
  between the submissions of a streaming adapter, never inside one.
\<close>

section \<open>Services and state\<close>

datatype observation =
    Appended NewEvent
  | Authorized EffectRequest PolicyDecision
  | Proved EffectRequest string ApprovalProof
  | Executed EffectRequest ExecutionPermit
  | Observed ReleasedEffectResult

record 'w gateway_state =
  gw_world :: 'w
  gw_trace :: "observation list"

record 'w Services =
  sv_platform :: "'w \<Rightarrow> Platform"
  sv_kernel :: "'w \<Rightarrow> SafetyKernel"
  sv_permit_key :: "u8 list"
  sv_is_recovery_mode :: "'w \<Rightarrow> bool"
  sv_read_stream_backwards ::
    "string \<Rightarrow> nat option \<Rightarrow> nat \<Rightarrow> 'w \<Rightarrow> (StoreError, EventEnvelope list) result"
  sv_append :: "NewEvent \<Rightarrow> 'w \<Rightarrow> 'w \<times> (StoreError, EventEnvelope) result"
  sv_policy_decide :: "EffectRequest \<Rightarrow> 'w \<Rightarrow> 'w \<times> (PolicyError, PolicyDecision) result"
  sv_risk_auto_enabled :: "'w \<Rightarrow> bool"
  sv_evaluator_bound :: "'w \<Rightarrow> bool"
  sv_evaluate :: "EffectRequest \<Rightarrow> PolicyDecision \<Rightarrow> 'w \<Rightarrow> 'w \<times> (RiskEvaluationError, RiskAssessment) result"
  sv_risk_review_fallback :: "RiskReviewFallbackNotice \<Rightarrow> 'w \<Rightarrow> 'w"
  sv_automatic_approval_granted :: "AutomaticApprovalNotice \<Rightarrow> 'w \<Rightarrow> 'w"
  sv_request_approval ::
    "EffectRequest \<Rightarrow> string \<Rightarrow> PolicyDecision \<Rightarrow> CommandApprovalContext option \<Rightarrow> 'w
      \<Rightarrow> 'w \<times> (PolicyError, ApprovalProof option) result"
  sv_execution_fence :: "('w \<Rightarrow> 'w \<times> (StoreError, unit) result) option"
  sv_now_unix_ms :: "'w \<Rightarrow> 'w \<times> int"
  sv_now_rfc3339 :: "'w \<Rightarrow> 'w \<times> (string, string) result"
  sv_uuid :: "'w \<Rightarrow> 'w \<times> string"
  sv_summary_worker :: "'w \<Rightarrow> bool"

text \<open>Computations of the gateway: a state in, a state and a result out.\<close>

type_synonym ('w, 'e, 'a) step = "'w gateway_state \<Rightarrow> 'w gateway_state \<times> ('e, 'a) result"

definition g_return :: "'a \<Rightarrow> ('w, 'e, 'a) step" where
  "g_return x = (\<lambda>s. (s, Inr x))"

definition g_fail :: "'e \<Rightarrow> ('w, 'e, 'a) step" where
  "g_fail e = (\<lambda>s. (s, Inl e))"

definition g_bind :: "('w, 'e, 'a) step \<Rightarrow> ('a \<Rightarrow> ('w, 'e, 'b) step) \<Rightarrow> ('w, 'e, 'b) step" where
  "g_bind m f = (\<lambda>s. case m s of (s', Inl e) \<Rightarrow> (s', Inl e) | (s', Inr x) \<Rightarrow> f x s')"

definition g_catch :: "('w, 'e, 'a) step \<Rightarrow> ('w, 'f, ('e, 'a) result) step" where
  "g_catch m = (\<lambda>s. case m s of (s', r) \<Rightarrow> (s', Inr r))"

definition g_lift :: "('e, 'a) result \<Rightarrow> ('w, 'e, 'a) step" where
  "g_lift r = (\<lambda>s. (s, r))"

definition g_get :: "('w \<Rightarrow> 'a) \<Rightarrow> ('w, 'e, 'a) step" where
  "g_get f = (\<lambda>s. (s, Inr (f (gw_world s))))"

definition g_call :: "('w \<Rightarrow> 'w \<times> 'a) \<Rightarrow> ('w, 'e, 'a) step" where
  "g_call f = (\<lambda>s. case f (gw_world s) of (w, x) \<Rightarrow> (s\<lparr>gw_world := w\<rparr>, Inr x))"

definition g_note :: "observation \<Rightarrow> ('w, 'e, unit) step" where
  "g_note ob = (\<lambda>s. (s\<lparr>gw_trace := gw_trace s @ [ob]\<rparr>, Inr ()))"

section \<open>JSON payloads\<close>

fun authority_json :: "ResourceAuthority \<Rightarrow> json" where
  "authority_json Declared = JStr ''declared''"
| "authority_json Ambient = JStr ''ambient''"

fun risk_level_text :: "RiskLevel \<Rightarrow> string" where
  "risk_level_text Low = ''low''"
| "risk_level_text Medium = ''medium''"
| "risk_level_text High = ''high''"

fun recommendation_text :: "RiskRecommendation \<Rightarrow> string" where
  "recommendation_text RecommendAllow = ''allow''"
| "recommendation_text RecommendDeny = ''deny''"
| "recommendation_text RecommendApproval = ''require_approval''"

fun review_failure_text :: "RiskReviewFailure \<Rightarrow> string" where
  "review_failure_text EvaluatorUnavailable = ''evaluator_unavailable''"
| "review_failure_text InvalidAssessment = ''invalid_assessment''"

definition j_nat :: "nat \<Rightarrow> json" where
  "j_nat n = JNum (Unsigned n)"

definition j_int :: "int \<Rightarrow> json" where
  "j_int i = (if 0 \<le> i then JNum (Unsigned (nat i)) else JNum (Negative i))"

definition command_context_json :: "CommandApprovalContext \<Rightarrow> json" where
  "command_context_json c = JObj [(''justification'', JStr (cc_justification c)),
     (''executable'', JStr (cc_executable c)), (''arguments'', JArr (map JStr (cc_arguments c))),
     (''working_directory'', JStr (cc_working_directory c)), (''redacted'', JBool (cc_redacted c))]"

section \<open>Eligibility for automatic review\<close>

definition supported_mcp_annotations :: "json \<Rightarrow> bool" where
  "supported_mcp_annotations v =
     (is_null v \<or> (case as_object v of
        None \<Rightarrow> False
      | Some annotations \<Rightarrow> list_all (\<lambda>(key, a).
          if key = ''title'' then is_null a \<or> (case as_str a of Some t \<Rightarrow> length t \<le> 8 * 1024 | None \<Rightarrow> False)
          else if key \<in> {''readOnlyHint'', ''destructiveHint'', ''idempotentHint'', ''openWorldHint''}
          then is_null a \<or> is_boolean a
          else False) annotations))"

definition supported_name :: "json option \<Rightarrow> bool" where
  "supported_name v = (case Option.bind v as_str of
      Some s \<Rightarrow> s \<noteq> [] \<and> length s \<le> 256 | None \<Rightarrow> False)"

definition supported_mcp_review_metadata :: "Platform \<Rightarrow> EffectRequest \<Rightarrow> bool" where
  "supported_mcp_review_metadata pl request =
     (case as_object (er_content request) of
        None \<Rightarrow> False
      | Some _ \<Rightarrow>
     (case json_get (er_content request) ''operation'' of
        Some (JObj operation) \<Rightarrow>
          let content = er_content request; op = JObj operation;
            supported_transport = (case get_str content ''transport'' of
                Some t \<Rightarrow>
                  if t = ''stdio'' then
                    (case json_get content ''url'' of None \<Rightarrow> True | Some u \<Rightarrow> is_null u)
                  else if t = ''streamable_http'' then get_str content ''url'' = Some (er_resource request)
                  else False
              | None \<Rightarrow> False);
            supported_identity = (get_str op ''kind'' = Some ''call_tool''
              \<and> supported_name (json_get op ''server'') \<and> supported_name (json_get op ''tool''));
            supported_description = (case json_get op ''description'' of
                None \<Rightarrow> True
              | Some v \<Rightarrow> is_null v
                  \<or> (case as_str v of Some t \<Rightarrow> length t \<le> 32 * 1024 | None \<Rightarrow> False));
            annotations_ok = (case json_get op ''annotations'' of
                None \<Rightarrow> True | Some v \<Rightarrow> supported_mcp_annotations v)
          in (case json_get op ''input_schema'' of
              Some input_schema \<Rightarrow>
                if \<not> is_object input_schema then False
                else
                  supported_transport \<and> supported_identity \<and> supported_description \<and> annotations_ok
                  \<and> (case json_get op ''arguments'' of Some a \<Rightarrow> is_object a | None \<Rightarrow> False)
                  \<and> (case json_get op ''output_schema'' of
                       None \<Rightarrow> True
                     | Some v \<Rightarrow> is_null v \<or> (is_object v
                         \<and> (case pl_json_bytes pl v of Inr b \<Rightarrow> length b \<le> 256 * 1024 | Inl _ \<Rightarrow> False)))
                  \<and> (case pl_json_bytes pl input_schema of
                       Inr b \<Rightarrow> length b \<le> 256 * 1024
                         \<and> get_str op ''schema_sha256'' = Some (pl_sha256_hex pl b)
                     | Inl _ \<Rightarrow> False)
            | None \<Rightarrow> False)
      | _ \<Rightarrow> False))"

definition risk_auto_ineligibility :: "Platform \<Rightarrow> EffectRequest \<Rightarrow> string option" where
  "risk_auto_ineligibility pl request =
    (let action = er_action request in
     if actor_type (er_actor request) \<notin> {Model, Subagent} then
       Some ''Risk-auto review is limited to model and child-agent effects.''
     else if cx_workflow_id (er_context request) \<noteq> None \<or> cx_workflow_hash (er_context request) \<noteq> None then
       Some ''Risk-auto review is disabled for effects with workflow lineage.''
     else if action \<in> {''shell.run'', ''web.search''} then None
     else if action = ''network.http'' then
       (if (case get_str (er_content request) ''method'' of
              Some m \<Rightarrow> eq_ignore_ascii_case m ''GET'' | None \<Rightarrow> False)
          \<and> json_get (er_content request) ''body_base64'' = None
        then None
        else Some ''Risk-auto review requires network.http to be a bodyless GET request.'')
     else if action = ''mcp.call'' then
       (if supported_mcp_review_metadata pl request then None
        else Some ''Risk-auto review requires a configured top-level MCP call with supported, request-bound discovery metadata.'')
     else Some ''This effect action is not eligible for risk-auto review.'')"

section \<open>Fences, events and decisions\<close>

definition OWNER_LOST :: string where
  "OWNER_LOST = ''runtime ownership was lost after execution began''"

definition verify_execution_fence :: "'w Services \<Rightarrow> ('w, GatewayError, unit) step" where
  "verify_execution_fence sv =
     (case sv_execution_fence sv of
        None \<Rightarrow> g_return ()
      | Some verify \<Rightarrow> g_bind (g_call verify) (\<lambda>r. g_lift (map_err GJournal r)))"

definition verify_started_owner :: "'w Services \<Rightarrow> ('w, GatewayError, unit) step" where
  "verify_started_owner sv =
     g_bind (g_catch (verify_execution_fence sv)) (\<lambda>r.
     g_lift (map_err (\<lambda>_. GOutcomeUnknown OWNER_LOST) r))"

definition new_event ::
    "EffectRequest \<Rightarrow> nat \<Rightarrow> string \<Rightarrow> EventClassification \<Rightarrow> json \<Rightarrow> NewEvent" where
  "new_event request version event_type classification payload =
     \<lparr>ne_event_version = 1, ne_stream_id = ''effect:'' @ er_request_id request,
      ne_expected_stream_version = version, ne_classification = classification,
      ne_event_type = event_type, ne_actor = er_actor request, ne_context = er_context request,
      ne_payload = payload\<rparr>"

definition g_event ::
    "'w Services \<Rightarrow> EffectRequest \<Rightarrow> string \<Rightarrow> EventClassification \<Rightarrow> json \<Rightarrow> ('w, GatewayError, unit) step" where
  "g_event sv request event_type classification payload =
     g_bind (g_get (sv_read_stream_backwards sv (''effect:'' @ er_request_id request) None 1)) (\<lambda>r.
     g_bind (g_lift (map_err GJournal r)) (\<lambda>events.
     let version = (case events of [] \<Rightarrow> 0 | e # _ \<Rightarrow> ev_stream_version e);
       event = new_event request version event_type classification payload in
     g_bind (g_call (sv_append sv event)) (\<lambda>appended.
     g_bind (g_lift (map_err GJournal appended)) (\<lambda>_.
     g_note (Appended event)))))"

definition disclosure_summary :: "'w Services \<Rightarrow> EffectRequest \<Rightarrow> ('w, GatewayError, json) step" where
  "disclosure_summary sv request =
     g_bind (g_get (sv_summary_worker sv)) (\<lambda>worker.
     if worker then g_get (\<lambda>w. build_disclosure_summary (sv_platform sv w) request)
     else g_fail (GContract ''disclosure summary worker failed''))"

definition decided_payload :: "EffectRequest \<Rightarrow> PolicyDecision \<Rightarrow> json" where
  "decided_payload request decision =
     JObj [(''decision_id'', JStr (pd_decision_id decision)),
       (''policy_revision'', JStr (pd_policy_revision decision)),
       (''outcome'', JStr (decision_outcome_display (pd_outcome decision))),
       (''reason'', JStr (pd_reason decision)),
       (''audit_labels'', JObj (map (\<lambda>(k, v). (k, JStr v)) (po_audit_labels (pd_obligations decision)))),
       (''action'', JStr (er_action request)),
       (''phase'', JStr (effect_phase_display (er_phase request))),
       (''sandbox_backend'', JStr (po_sandbox_backend (pd_obligations decision))),
       (''require_post_effect'', JBool (po_require_post_effect (pd_obligations decision))),
       (''resource_authority'', authority_json (po_resource_authority (pd_obligations decision)))]"

text \<open>The two events with which a failing policy or an invalid decision is closed.\<close>

definition policy_failure ::
    "'w Services \<Rightarrow> EffectRequest \<Rightarrow> string \<Rightarrow> string \<Rightarrow> GatewayError \<Rightarrow> ('w, GatewayError, 'a) step" where
  "policy_failure sv request kind reason error =
     g_bind (g_event sv request ''policy.error.v1'' PolicyClass
       (JObj [(''error_kind'', JStr kind), (''message'', JStr (gateway_error_text error))])) (\<lambda>_.
     g_bind (g_event sv request ''effect.denied.v1'' EffectClass (JObj [(''reason'', JStr reason)])) (\<lambda>_.
     g_fail error))"

definition g_decide :: "'w Services \<Rightarrow> EffectRequest \<Rightarrow> ('w, GatewayError, PolicyDecision) step" where
  "g_decide sv request =
     g_bind (g_catch (
       g_bind (g_get (\<lambda>w. policy_projection (sv_platform sv w) (sv_kernel sv w) request)) (\<lambda>p.
       g_bind (g_lift p) (\<lambda>policy_request.
       g_bind (g_call (sv_policy_decide sv policy_request)) (\<lambda>r.
       g_lift (map_err GPolicy r)))))) (\<lambda>answer.
     case answer of
       Inl error \<Rightarrow>
         policy_failure sv request ''unavailable_or_invalid'' ''policy failure; fail closed'' error
     | Inr decision \<Rightarrow>
         g_bind (g_get (\<lambda>w. validate_decision (sv_platform sv w) (sv_kernel sv w) request decision)) (\<lambda>valid.
         case valid of
           Inl error \<Rightarrow>
             policy_failure sv request ''invalid_decision'' ''invalid policy decision; fail closed'' error
         | Inr _ \<Rightarrow>
             g_bind (g_event sv request ''policy.decided.v1'' PolicyClass (decided_payload request decision)) (\<lambda>_.
             g_bind (g_note (Authorized request decision)) (\<lambda>_.
             g_return decision))))"

section \<open>Permits\<close>

definition PERMIT_LIFETIME_MS :: int where
  "PERMIT_LIFETIME_MS = 30000"

definition request_digest :: "Platform \<Rightarrow> EffectRequest \<Rightarrow> (GatewayError, string) result" where
  "request_digest pl request =
     bind_r (canonical_bytes (pl_request_bytes pl) request) (\<lambda>b. Inr (pl_sha256_hex pl b))"

definition obligations_digest :: "Platform \<Rightarrow> PolicyObligations \<Rightarrow> (GatewayError, string) result" where
  "obligations_digest pl o' =
     bind_r (canonical_bytes (pl_obligations_bytes pl) o') (\<lambda>b. Inr (pl_sha256_hex pl b))"

definition permit_claims :: "ExecutionPermit \<Rightarrow> PermitClaims" where
  "permit_claims permit = \<lparr>pc_request_hash = ep_request_hash permit,
     pc_decision_id = ep_decision_id permit, pc_obligations_hash = ep_obligations_hash permit,
     pc_actor_id = ep_actor_id permit, pc_nonce = ep_permit_nonce permit,
     pc_expires_at_unix_ms = ep_expires_at_unix_ms permit\<rparr>"

text \<open>\<open>mint_permit\<close>. An HMAC accepts a key of any length, so creating it does not fail.\<close>

definition mint_permit ::
    "'w Services \<Rightarrow> EffectRequest \<Rightarrow> string \<Rightarrow> PolicyDecision \<Rightarrow> ('w, GatewayError, ExecutionPermit) step" where
  "mint_permit sv request request_hash decision =
     g_bind (g_get (sv_platform sv)) (\<lambda>pl.
     g_bind (g_lift (obligations_digest pl (pd_obligations decision))) (\<lambda>obligations_hash.
     g_bind (g_call (sv_uuid sv)) (\<lambda>nonce.
     g_bind (g_call (sv_now_unix_ms sv)) (\<lambda>now.
     let permit = \<lparr>ep_request_hash = request_hash, ep_decision_id = pd_decision_id decision,
         ep_obligations_hash = obligations_hash, ep_actor_id = actor_id (er_actor request),
         ep_permit_nonce = nonce, ep_expires_at_unix_ms = now + PERMIT_LIFETIME_MS,
         ep_authentication_tag = [], ep_obligations = pd_obligations decision, ep_consumed = False\<rparr> in
     g_bind (g_lift (canonical_bytes (pl_claims_bytes pl) (permit_claims permit))) (\<lambda>bytes.
     g_return (permit\<lparr>ep_authentication_tag := pl_hmac pl (sv_permit_key sv) bytes\<rparr>))))))"

text \<open>\<open>authenticate_and_consume\<close>, which returns the permit with its flag set.\<close>

definition authenticate_and_consume ::
    "'w Services \<Rightarrow> ExecutionPermit \<Rightarrow> EffectRequest \<Rightarrow> PolicyDecision
      \<Rightarrow> ('w, GatewayError, ExecutionPermit) step" where
  "authenticate_and_consume sv permit request decision =
     g_bind (g_get (sv_platform sv)) (\<lambda>pl.
     g_bind (g_lift (request_digest pl request)) (\<lambda>request_hash.
     g_bind (g_lift (obligations_digest pl (pd_obligations decision))) (\<lambda>obligations_hash.
     g_bind (g_call (sv_now_unix_ms sv)) (\<lambda>now.
     g_bind (g_lift (reject_if (ep_request_hash permit \<noteq> request_hash
         \<or> ep_decision_id permit \<noteq> pd_decision_id decision
         \<or> ep_obligations_hash permit \<noteq> obligations_hash
         \<or> ep_actor_id permit \<noteq> actor_id (er_actor request)
         \<or> ep_expires_at_unix_ms permit < now)
       (GSafety ''permit does not match request, decision, actor, obligations, or expiry''))) (\<lambda>_.
     g_bind (g_lift (canonical_bytes (pl_claims_bytes pl) (permit_claims permit))) (\<lambda>bytes.
     g_bind (g_lift (reject_if (ep_authentication_tag permit \<noteq> pl_hmac pl (sv_permit_key sv) bytes)
       (GSafety ''permit authentication failed''))) (\<lambda>_.
     g_bind (g_lift (reject_if (ep_consumed permit) (GSafety ''permit has already been consumed''))) (\<lambda>_.
     g_return (permit\<lparr>ep_consumed := True\<rparr>)))))))))"

section \<open>Risk review and approval\<close>

definition with_risk :: "EffectRequest \<Rightarrow> RiskStatus \<Rightarrow> string option \<Rightarrow> string \<Rightarrow> EffectRequest" where
  "with_risk request status level reason =
     request\<lparr>er_risk := \<lparr>ri_status = status, ri_level = level, ri_reason = Some reason\<rparr>\<rparr>"

definition review_unavailable ::
    "'w Services \<Rightarrow> EffectRequest \<Rightarrow> RiskReviewFailure \<Rightarrow> string \<Rightarrow> ('w, GatewayError, EffectRequest \<times> bool) step" where
  "review_unavailable sv request failure reason =
    (let request = with_risk request Unavailable None reason in
     g_bind (g_event sv request ''risk.review.unavailable.v1'' PolicyClass
       (JObj [(''failure'', JStr (review_failure_text failure))])) (\<lambda>_.
     g_bind (g_call (\<lambda>w. (sv_risk_review_fallback sv \<lparr>fn_action = er_action request,
         fn_resource = er_resource request, fn_failure = failure, fn_reason = reason\<rparr> w, ()))) (\<lambda>_.
     g_return (request, False))))"

definition evaluator_unavailable_text :: string where
  "evaluator_unavailable_text = ''The configured risk evaluator was unavailable, so manual approval is required.''"

definition assessment_invalid_text :: string where
  "assessment_invalid_text = ''The risk evaluator response failed strict validation, so manual approval is required.''"

text \<open>
  \<open>review_risk\<close>: the request with its risk input updated, and whether the review approved it.
  A bound evaluator is one whose weak reference can still be upgraded.
\<close>

definition review_risk ::
    "'w Services \<Rightarrow> EffectRequest \<Rightarrow> PolicyDecision \<Rightarrow> ('w, GatewayError, EffectRequest \<times> bool) step" where
  "review_risk sv request decision =
     g_bind (g_get (sv_risk_auto_enabled sv)) (\<lambda>enabled.
     if \<not> enabled then g_return (request, False) else
     g_bind (g_get (sv_platform sv)) (\<lambda>pl.
     case risk_auto_ineligibility pl request of
       Some reason \<Rightarrow>
         (let request = with_risk request Unavailable None reason in
          g_bind (g_event sv request ''risk.review.ineligible.v1'' PolicyClass
            (JObj [(''decision_id'', JStr (pd_decision_id decision)), (''reason'', JStr reason)])) (\<lambda>_.
          g_return (request, False)))
     | None \<Rightarrow>
         g_bind (g_event sv request ''risk.review.requested.v1'' PolicyClass
           (JObj [(''decision_id'', JStr (pd_decision_id decision)),
             (''policy_revision'', JStr (pd_policy_revision decision))])) (\<lambda>_.
         g_bind (g_get (sv_evaluator_bound sv)) (\<lambda>bound.
         if \<not> bound then review_unavailable sv request EvaluatorUnavailable evaluator_unavailable_text
         else
         g_bind (g_call (sv_evaluate sv request decision)) (\<lambda>answer.
         case answer of
           Inr assessment \<Rightarrow>
             (let reason = trim (as_reason assessment) in
              if reason = [] \<or> char_count reason > 1000
              then review_unavailable sv request InvalidAssessment assessment_invalid_text
              else
                let request = with_risk request Available
                  (Some (risk_level_text (as_risk_level assessment))) reason in
                g_bind (g_event sv request ''risk.review.completed.v1'' PolicyClass
                  (JObj [(''decision_id'', JStr (pd_decision_id decision)),
                    (''risk_level'', JStr (risk_level_text (as_risk_level assessment))),
                    (''recommended_decision'', JStr (recommendation_text (as_recommended_decision assessment))),
                    (''reason'', JStr reason)])) (\<lambda>_.
                g_return (request, as_risk_level assessment = Low
                  \<and> as_recommended_decision assessment = RecommendAllow)))
         | Inl (RiskUnavailable _) \<Rightarrow>
             review_unavailable sv request EvaluatorUnavailable evaluator_unavailable_text
         | Inl (RiskInvalidAssessment _) \<Rightarrow>
             review_unavailable sv request InvalidAssessment assessment_invalid_text)))))"

definition approval_denied ::
    "'w Services \<Rightarrow> EffectRequest \<Rightarrow> string \<Rightarrow> json \<Rightarrow> json \<Rightarrow> GatewayError \<Rightarrow> ('w, GatewayError, 'a) step" where
  "approval_denied sv request event_type approval_payload denied_payload error =
     g_bind (g_event sv request event_type ApprovalClass approval_payload) (\<lambda>_.
     g_bind (g_event sv request ''effect.denied.v1'' EffectClass denied_payload) (\<lambda>_.
     g_fail error))"

text \<open>The proof of an approval: minted by an approving risk review, or asked for.\<close>

definition obtain_proof ::
    "'w Services \<Rightarrow> EffectRequest \<Rightarrow> string \<Rightarrow> PolicyDecision \<Rightarrow> CommandApprovalContext option \<Rightarrow> bool
      \<Rightarrow> ('w, GatewayError, ApprovalProof) step" where
  "obtain_proof sv request request_hash decision command_context risk_auto_approved =
     g_bind (if risk_auto_approved then
         g_bind (g_call (sv_now_rfc3339 sv)) (\<lambda>now.
         g_bind (if is_ok now then g_call (sv_uuid sv) else g_return []) (\<lambda>approval_id.
         g_bind (g_lift (map_err GPolicy
           (approval_proof now approval_id request_hash ''risk-evaluator:auto-low-risk''))) (\<lambda>proof.
         g_return (Inr (Some proof)))))
       else g_call (sv_request_approval sv request request_hash decision command_context)) (\<lambda>approval.
     case approval of
       Inr (Some proof) \<Rightarrow> g_return proof
     | Inr None \<Rightarrow>
         (let payload = JObj [(''decision_id'', JStr (pd_decision_id decision)),
             (''reason'', JStr ''operator declined'')] in
          approval_denied sv request ''approval.denied.v1'' payload payload (GApproval ''operator declined''))
     | Inl error \<Rightarrow>
         approval_denied sv request ''approval.error.v1''
           (JObj [(''decision_id'', JStr (pd_decision_id decision)),
             (''message'', JStr (policy_error_text error))])
           (JObj [(''decision_id'', JStr (pd_decision_id decision)),
             (''reason'', JStr ''approval provider failed'')])
           (GPolicy error))"

text \<open>A granted approval is recorded and attached, and policy decides again.\<close>

definition grant_approval ::
    "'w Services \<Rightarrow> EffectRequest \<Rightarrow> string \<Rightarrow> ApprovalProof \<Rightarrow> bool
      \<Rightarrow> ('w, GatewayError, EffectRequest \<times> PolicyDecision) step" where
  "grant_approval sv request request_hash proof risk_auto_approved =
     g_bind (g_note (Proved request request_hash proof)) (\<lambda>_.
     g_bind (g_event sv request ''approval.granted.v1'' ApprovalClass
       (JObj [(''approval_id'', JStr (ap_approval_id proof)), (''approved_by'', JStr (ap_approved_by proof)),
         (''request_hash'', JStr (ap_request_hash proof))])) (\<lambda>_.
     g_bind (if risk_auto_approved
       then g_call (\<lambda>w. (sv_automatic_approval_granted sv \<lparr>an_action = er_action request,
         an_resource = er_resource request, an_risk_level = Low,
         an_reason = (case ri_reason (er_risk request) of Some r \<Rightarrow> r
           | None \<Rightarrow> ''automatic low-risk review approved the effect'')\<rparr> w, ()))
       else g_return ()) (\<lambda>_.
     g_bind (g_decide sv (request\<lparr>er_approval := Some proof\<rparr>)) (\<lambda>decision.
     g_return (request\<lparr>er_approval := Some proof\<rparr>, decision)))))"

text \<open>The branch of \<open>execute_internal\<close> for a decision that requires approval.\<close>

definition approve_and_redecide ::
    "'w Services \<Rightarrow> EffectRequest \<Rightarrow> PolicyDecision \<Rightarrow> CommandApprovalContext option
      \<Rightarrow> ('w, GatewayError, EffectRequest \<times> PolicyDecision) step" where
  "approve_and_redecide sv request decision command_context =
     g_bind (case command_context of
         Some context \<Rightarrow> g_event sv request ''approval.requested.v1'' ApprovalClass
           (JObj [(''command_context'', command_context_json context)])
       | None \<Rightarrow> g_return ()) (\<lambda>_.
     g_bind (review_risk sv request decision) (\<lambda>(request, risk_auto_approved).
     g_bind (g_get (sv_platform sv)) (\<lambda>pl.
     g_bind (g_lift (request_digest pl request)) (\<lambda>request_hash.
     g_bind (obtain_proof sv request request_hash decision command_context risk_auto_approved) (\<lambda>proof.
     g_bind (g_lift (reject_if (ap_request_hash proof \<noteq> request_hash)
       (GApproval ''approval proof is bound to a different request''))) (\<lambda>_.
     grant_approval sv request request_hash proof risk_auto_approved))))))"

section \<open>Executors\<close>

text \<open>What the gateway sees of an adapter that is running, over a state \<open>'s\<close>.\<close>

datatype 's run =
    Returned "(ExecutionError, QuarantinedEffectResult) result"
  | Elapsed
  | OwnershipTick "'s run"
  | Act "'s \<Rightarrow> 's \<times> 's run"

text \<open>An adapter of the application acts on the world only.\<close>

primrec lift_run :: "'w run \<Rightarrow> 'w gateway_state run" where
  "lift_run (Returned r) = Returned r"
| "lift_run Elapsed = Elapsed"
| "lift_run (OwnershipTick k) = OwnershipTick (lift_run k)"
| "lift_run (Act f) = Act (\<lambda>s. case map_prod id lift_run (f (gw_world s)) of
     (w, k) \<Rightarrow> (s\<lparr>gw_world := w\<rparr>, k))"

text \<open>
  The polling loop of \<open>execute_owned\<close>: \<open>Inr None\<close> is the timeout, \<open>Inl\<close> the loss of the
  lease. Without a lease no timer is armed.
\<close>

primrec drive ::
    "'w Services \<Rightarrow> 'w gateway_state run
      \<Rightarrow> ('w, ExecutionError, (ExecutionError, QuarantinedEffectResult) result option) step" where
  "drive sv (Returned r) = g_return (Some r)"
| "drive sv Elapsed = g_return None"
| "drive sv (OwnershipTick k) =
     (if sv_execution_fence sv = None then drive sv k
      else g_bind (g_catch (verify_execution_fence sv)) (\<lambda>owned.
        case owned of
          Inl (e :: GatewayError) \<Rightarrow> g_fail (XOutcomeUnknown OWNER_LOST)
        | Inr _ \<Rightarrow> drive sv k))"
| "drive sv (Act f) = (\<lambda>s. case map_prod id (drive sv) (f s) of (s', k) \<Rightarrow> k s')"

definition execute_owned ::
    "'w Services \<Rightarrow> EffectRequest \<Rightarrow> (EffectRequest \<Rightarrow> ExecutionPermit \<Rightarrow> 'w gateway_state run)
      \<Rightarrow> ExecutionPermit \<Rightarrow> ('w, ExecutionError, QuarantinedEffectResult) step" where
  "execute_owned sv request executor permit =
     g_bind (g_catch (verify_started_owner sv)) (\<lambda>r.
     g_bind (g_lift (map_err (\<lambda>_. XOutcomeUnknown OWNER_LOST) r)) (\<lambda>_.
     g_bind (g_note (Executed request permit)) (\<lambda>_.
     g_bind (drive sv (executor request permit)) (\<lambda>outcome.
     g_bind (g_catch (verify_started_owner sv)) (\<lambda>r.
     g_bind (g_lift (map_err (\<lambda>_. XOutcomeUnknown OWNER_LOST) r)) (\<lambda>_.
     g_lift (case outcome of
         Some r \<Rightarrow> r
       | None \<Rightarrow> Inl (XOutcomeUnknown ''adapter timed out after execution began''))))))))"

section \<open>Releasing streamed chunks\<close>

text \<open>The request that asks for the release of a result; a chunk carries its sequence number.\<close>

definition post_request ::
    "Platform \<Rightarrow> EffectRequest \<Rightarrow> nat option \<Rightarrow> QuarantinedEffectResult \<Rightarrow> EffectRequest" where
  "post_request pl request sequence result = request\<lparr>
     er_request_id := er_request_id request @ (case sequence of None \<Rightarrow> '':post''
       | Some n \<Rightarrow> '':post:chunk:'' @ nat_text n),
     er_phase := PostEffect, er_approval := None,
     er_content := JObj ([(''media_type'', JStr (qr_media_type result)),
         (''size'', j_nat (length (qr_bytes result)))]
       @ (case sequence of None \<Rightarrow> [] | Some n \<Rightarrow> [(''sequence'', j_nat n)])
       @ [(''content_base64'', JStr (pl_base64 pl (qr_bytes result)))])\<rparr>"

text \<open>The post-effect authorisation shared by whole results and chunks.\<close>

definition authorize_release ::
    "'w Services \<Rightarrow> EffectRequest \<Rightarrow> nat option \<Rightarrow> QuarantinedEffectResult \<Rightarrow> string \<Rightarrow> ('w, GatewayError, unit) step" where
  "authorize_release sv request sequence result denied =
     g_bind (g_get (sv_platform sv)) (\<lambda>pl.
     g_bind (g_get (\<lambda>w. kernel_prepare (sv_platform sv w) (sv_kernel sv w)
       (post_request pl request sequence result))) (\<lambda>prepared.
     g_bind (g_lift prepared) (\<lambda>post.
     g_bind (disclosure_summary sv post) (\<lambda>summary.
     g_bind (g_event sv post ''effect.release_requested.v1'' EffectClass summary) (\<lambda>_.
     g_bind (g_decide sv post) (\<lambda>post_decision.
     if pd_outcome post_decision \<noteq> Allow then
       g_bind (g_event sv post ''effect.release_denied.v1'' EffectClass
         (JObj ([(''decision_id'', JStr (pd_decision_id post_decision)),
             (''reason'', JStr (pd_reason post_decision)),
             (''content_hash'', JStr (pl_sha256_hex pl (qr_bytes result))),
             (''size'', j_nat (length (qr_bytes result)))]
           @ (case sequence of None \<Rightarrow> [] | Some n \<Rightarrow> [(''sequence'', j_nat n)])))) (\<lambda>_.
       g_fail (GDenied (denied @ pd_reason post_decision)))
     else g_return ()))))))"

definition release_stream_chunk ::
    "'w Services \<Rightarrow> EffectRequest \<Rightarrow> PolicyObligations \<Rightarrow> nat \<Rightarrow> QuarantinedEffectResult
      \<Rightarrow> ('w, GatewayError, ReleasedEffectResult) step" where
  "release_stream_chunk sv request obligations sequence result =
     g_bind (verify_started_owner sv) (\<lambda>_.
     g_bind (if po_require_post_effect obligations
       then authorize_release sv request (Some sequence) result ''stream chunk post-effect release denied: ''
       else g_return ()) (\<lambda>_.
     g_bind (g_get (sv_platform sv)) (\<lambda>pl.
     g_bind (g_event sv request ''effect.chunk_released.v1'' EffectClass
       (JObj [(''content_hash'', JStr (pl_sha256_hex pl (qr_bytes result))),
         (''size'', j_nat (length (qr_bytes result))), (''sequence'', j_nat sequence),
         (''media_type'', JStr (qr_media_type result))])) (\<lambda>_.
     g_return \<lparr>rr_media_type = qr_media_type result, rr_bytes = qr_bytes result\<rparr>))))"

datatype StreamSinkFailure = SinkFailed string | SinkUnknown string | SinkDenied string

fun sink_error :: "StreamSinkFailure \<Rightarrow> ExecutionError" where
  "sink_error (SinkFailed m) = XFailed m"
| "sink_error (SinkUnknown m) = XOutcomeUnknown m"
| "sink_error (SinkDenied m) = XReleaseDenied m"

record GatewayStreamSink =
  sink_obligations :: PolicyObligations
  sink_sequence :: nat
  sink_total_bytes :: nat
  sink_last :: "QuarantinedEffectResult option"
  sink_failure :: "StreamSinkFailure option"

definition sink_new :: "ExecutionPermit \<Rightarrow> GatewayStreamSink" where
  "sink_new permit = \<lparr>sink_obligations = ep_obligations permit, sink_sequence = 0,
     sink_total_bytes = 0, sink_last = None, sink_failure = None\<rparr>"

definition sink_fail ::
    "GatewayStreamSink \<Rightarrow> StreamSinkFailure \<Rightarrow> GatewayStreamSink \<times> (ExecutionError, unit) result" where
  "sink_fail sink failure = (sink\<lparr>sink_failure := Some failure\<rparr>, Inl (sink_error failure))"

fun observer_failure :: "ExecutionError \<Rightarrow> StreamSinkFailure" where
  "observer_failure (XProviderRejected f) =
     SinkUnknown (''released stream observation failed: '' @ failure_message (pf_reason f))"
| "observer_failure (XReleaseDenied m) = SinkDenied m"
| "observer_failure (XFailed m) = SinkUnknown (''released stream observation failed: '' @ m)"
| "observer_failure (XOutcomeUnknown m) = SinkUnknown (''released stream observation failed: '' @ m)"
| "observer_failure (XRecoverable _ m _ _) = SinkUnknown (''released stream observation failed: '' @ m)"
| "observer_failure (XHttpStatus _ m) = SinkUnknown (''released stream observation failed: '' @ m)"

text \<open>
  \<open>GatewayStreamSink::observe\<close>: the state, the sink and the answer to the adapter. On a 64-bit
  target the conversion of the limit to \<open>usize\<close> is exact.
\<close>

definition sink_observe ::
    "'w Services \<Rightarrow> (ReleasedEffectResult \<Rightarrow> 'w \<Rightarrow> 'w \<times> (ExecutionError, unit) result) \<Rightarrow> EffectRequest
      \<Rightarrow> GatewayStreamSink \<Rightarrow> QuarantinedEffectResult \<Rightarrow> 'w gateway_state
      \<Rightarrow> 'w gateway_state \<times> GatewayStreamSink \<times> (ExecutionError, unit) result" where
  "sink_observe sv observer request sink result s =
     (case sink_failure sink of
        Some failure \<Rightarrow> (s, sink, Inl (sink_error failure))
      | None \<Rightarrow>
     if \<not> qr_effect_succeeded result
     then (s, sink_fail sink (SinkFailed ''streaming adapter reported chunk failure''))
     else
       let total = saturating_add64 (sink_total_bytes sink) (length (qr_bytes result));
         sink = sink\<lparr>sink_total_bytes := total\<rparr> in
       if total > po_max_output_bytes (sink_obligations sink)
       then (s, sink_fail sink
         (SinkUnknown ''streamed effect output exceeds the cumulative permitted bound''))
       else
         let sequence = saturating_add64 (sink_sequence sink) 1;
           sink = sink\<lparr>sink_sequence := sequence\<rparr> in
         (case release_stream_chunk sv request (sink_obligations sink) sequence result s of
            (s, Inl (GDenied message)) \<Rightarrow> (s, sink_fail sink (SinkDenied message))
          | (s, Inl error) \<Rightarrow> (s, sink_fail sink (SinkUnknown
              (''stream release failed after execution began: '' @ gateway_error_text error)))
          | (s, Inr released) \<Rightarrow>
              (case g_bind (g_note (Observed released)) (\<lambda>_. g_call (observer released)) s of
                 (s, Inr (Inl error)) \<Rightarrow> (s, sink_fail sink (observer_failure error))
               | (s, Inr (Inr _)) \<Rightarrow> (s, sink\<lparr>sink_last := Some result\<rparr>, Inr ())
               | (s, Inl error) \<Rightarrow> (s, sink_fail sink (observer_failure error)))))"

text \<open>A streaming adapter, over the world.\<close>

datatype 'w stream_run =
    SReturned "(ExecutionError, QuarantinedEffectResult) result"
  | SElapsed
  | STick "'w stream_run"
  | SAct "'w \<Rightarrow> 'w \<times> 'w stream_run"
  | Submit QuarantinedEffectResult "(ExecutionError, unit) result \<Rightarrow> 'w stream_run"

definition bridge_finish ::
    "GatewayStreamSink \<Rightarrow> (ExecutionError, QuarantinedEffectResult) result
      \<Rightarrow> (ExecutionError, QuarantinedEffectResult) result" where
  "bridge_finish sink r =
     bind_r r (\<lambda>terminal.
     case sink_failure sink of
       Some failure \<Rightarrow> Inl (sink_error failure)
     | None \<Rightarrow>
         if sink_sequence sink = 0 \<or> sink_last sink \<noteq> Some terminal
         then Inl (XFailed ''streaming adapter terminal result did not match its last released chunk'')
         else Inr terminal)"

text \<open>\<open>StreamBridge::execute\<close>: the streaming adapter as an executor of the gateway.\<close>

primrec bridge ::
    "'w Services \<Rightarrow> (ReleasedEffectResult \<Rightarrow> 'w \<Rightarrow> 'w \<times> (ExecutionError, unit) result) \<Rightarrow> EffectRequest
      \<Rightarrow> 'w stream_run \<Rightarrow> GatewayStreamSink \<Rightarrow> 'w gateway_state run" where
  "bridge sv observer request (SReturned r) = (\<lambda>sink. Returned (bridge_finish sink r))"
| "bridge sv observer request SElapsed = (\<lambda>sink. Elapsed)"
| "bridge sv observer request (STick k) = (\<lambda>sink. OwnershipTick (bridge sv observer request k sink))"
| "bridge sv observer request (SAct f) = (\<lambda>sink. Act (\<lambda>s.
     case map_prod id (bridge sv observer request) (f (gw_world s)) of
       (w, k) \<Rightarrow> (s\<lparr>gw_world := w\<rparr>, k sink)))"
| "bridge sv observer request (Submit chunk k) = (\<lambda>sink. Act (\<lambda>s.
     case sink_observe sv observer request sink chunk s of
       (s', sink', r) \<Rightarrow> (s', bridge sv observer request (k r) sink')))"

section \<open>The whole effect\<close>

text \<open>Admission, preparation and decision: the request that may execute and its decision.\<close>

definition authorize_effect ::
    "'w Services \<Rightarrow> EffectRequest \<Rightarrow> ('w, GatewayError, EffectRequest \<times> PolicyDecision) step" where
  "authorize_effect sv request =
     g_bind (verify_execution_fence sv) (\<lambda>_.
     g_bind (g_get (sv_is_recovery_mode sv)) (\<lambda>recovery.
     g_bind (g_lift (reject_if recovery (GJournal RecoveryMode))) (\<lambda>_.
     g_bind (g_lift (reject_if (er_schema_version request \<noteq> 1 \<or> er_request_id request = []
         \<or> er_phase request \<noteq> PreEffect)
       (GSafety ''unsupported schema version, empty request id, or caller-supplied post-effect phase''))) (\<lambda>_.
     g_bind (disclosure_summary sv request) (\<lambda>summary.
     g_bind (g_event sv request ''effect.requested.v1'' EffectClass summary) (\<lambda>_.
     g_bind (g_get (\<lambda>w. bind_r (pl_command_context (sv_platform sv w) request) (\<lambda>context.
         bind_r (kernel_prepare (sv_platform sv w) (sv_kernel sv w) request) (\<lambda>prepared.
         Inr (context, prepared))))) (\<lambda>prepared.
     case prepared of
       Inl error \<Rightarrow>
         g_bind (g_event sv request ''effect.denied.v1'' EffectClass
           (JObj [(''reason'', JStr (gateway_error_text error)), (''source'', JStr ''safety_kernel'')])) (\<lambda>_.
         g_fail error)
     | Inr (command_context, request) \<Rightarrow>
         g_bind (g_decide sv request) (\<lambda>decision.
         g_bind (if pd_outcome decision = RequireApproval
           then approve_and_redecide sv request decision command_context
           else g_return (request, decision)) (\<lambda>(request, decision).
         if pd_outcome decision \<noteq> Allow then
           g_bind (g_event sv request ''effect.denied.v1'' EffectClass
             (JObj [(''decision_id'', JStr (pd_decision_id decision)),
               (''reason'', JStr (pd_reason decision))])) (\<lambda>_.
           g_fail (GDenied (pd_reason decision)))
         else g_return (request, decision))))))))))"

text \<open>The permit and the durable start.\<close>

definition start_effect ::
    "'w Services \<Rightarrow> EffectRequest \<Rightarrow> PolicyDecision \<Rightarrow> ('w, GatewayError, ExecutionPermit) step" where
  "start_effect sv request decision =
     g_bind (g_get (sv_platform sv)) (\<lambda>pl.
     g_bind (g_lift (request_digest pl request)) (\<lambda>request_hash.
     g_bind (mint_permit sv request request_hash decision) (\<lambda>permit.
     g_bind (authenticate_and_consume sv permit request decision) (\<lambda>permit.
     g_bind (g_event sv request ''effect.started.v1'' EffectClass
       (JObj [(''decision_id'', JStr (pd_decision_id decision)),
         (''permit_nonce'', JStr (ep_permit_nonce permit)),
         (''permit_expires_at_unix_ms'', j_int (ep_expires_at_unix_ms permit)),
         (''resource_authority'', authority_json (po_resource_authority (pd_obligations decision)))])) (\<lambda>_.
     g_bind (verify_started_owner sv) (\<lambda>_.
     g_return permit))))))"

definition effect_failed ::
    "'w Services \<Rightarrow> EffectRequest \<Rightarrow> json \<Rightarrow> GatewayError \<Rightarrow> ('w, GatewayError, 'a) step" where
  "effect_failed sv request payload error =
     g_bind (g_event sv request ''effect.failed.v1'' EffectClass payload) (\<lambda>_. g_fail error)"

text \<open>How a failed execution is recorded and reported.\<close>

fun execution_failed ::
    "'w Services \<Rightarrow> EffectRequest \<Rightarrow> ExecutionError \<Rightarrow> ('w, GatewayError, 'a) step" where
  "execution_failed sv request (XProviderRejected failure) =
     effect_failed sv request (JObj [(''code'', JStr (failure_code (pf_reason failure))),
       (''message'', JStr (failure_message (pf_reason failure))), (''recoverable'', JBool False),
       (''http_status'', json_opt j_nat (pf_http_status failure))]) (GProviderRejected failure)"
| "execution_failed sv request (XFailed message) =
     effect_failed sv request (JObj [(''message'', JStr message)]) (GExecution message)"
| "execution_failed sv request (XRecoverable c message http_status retry_after_ms) =
     effect_failed sv request (JObj [(''code'', JStr c), (''message'', JStr message),
       (''recoverable'', JBool True), (''http_status'', json_opt j_nat http_status),
       (''retry_after_ms'', json_opt j_nat retry_after_ms)])
       (GRecoverable c message http_status retry_after_ms)"
| "execution_failed sv request (XHttpStatus status message) =
     effect_failed sv request (JObj [(''message'', JStr message), (''recoverable'', JBool False),
       (''http_status'', j_nat status)]) (GHttpStatus status message)"
| "execution_failed sv request (XOutcomeUnknown message) =
     g_bind (g_catch (verify_execution_fence sv)) (\<lambda>owned.
     case owned of
       Inl (e :: GatewayError) \<Rightarrow> g_fail (GOutcomeUnknown message)
     | Inr _ \<Rightarrow>
         g_bind (g_event sv request ''effect.outcome_unknown.v1'' EffectClass
           (JObj [(''message'', JStr message)])) (\<lambda>_.
         g_fail (GOutcomeUnknown message)))"
| "execution_failed sv request (XReleaseDenied message) = g_fail (GDenied message)"

text \<open>The checks of a result that came back, its post-effect authorisation and its release.\<close>

definition release_effect ::
    "'w Services \<Rightarrow> EffectRequest \<Rightarrow> PolicyDecision \<Rightarrow> bool \<Rightarrow> QuarantinedEffectResult
      \<Rightarrow> ('w, GatewayError, ReleasedEffectResult) step" where
  "release_effect sv request decision chunks_already_released result =
     g_bind (verify_started_owner sv) (\<lambda>_.
     if length (qr_bytes result) > po_max_output_bytes (pd_obligations decision) then
       effect_failed sv request (JObj [(''message'', JStr ''quarantined output exceeded policy limit'')])
         (GExecution ''quarantined output exceeded policy limit'')
     else if \<not> qr_effect_succeeded result then
       effect_failed sv request (JObj [(''message'', JStr ''adapter reported effect failure'')])
         (GExecution ''adapter reported effect failure'')
     else
     g_bind (if po_require_post_effect (pd_obligations decision) \<and> \<not> chunks_already_released
       then authorize_release sv request None result ''post-effect release denied: ''
       else g_return ()) (\<lambda>_.
     g_bind (g_get (sv_platform sv)) (\<lambda>pl.
     g_bind (g_event sv request ''effect.completed.v1'' EffectClass
       (JObj [(''decision_id'', JStr (pd_decision_id decision)),
         (''content_hash'', JStr (pl_sha256_hex pl (qr_bytes result))),
         (''size'', j_nat (length (qr_bytes result))),
         (''resource_authority'', authority_json (po_resource_authority (pd_obligations decision)))])) (\<lambda>_.
     g_return \<lparr>rr_media_type = qr_media_type result, rr_bytes = qr_bytes result\<rparr>))))"

definition execute_internal ::
    "'w Services \<Rightarrow> EffectRequest \<Rightarrow> (EffectRequest \<Rightarrow> ExecutionPermit \<Rightarrow> 'w gateway_state run) \<Rightarrow> bool
      \<Rightarrow> ('w, GatewayError, ReleasedEffectResult) step" where
  "execute_internal sv request executor chunks_already_released =
     g_bind (authorize_effect sv request) (\<lambda>(request, decision).
     g_bind (start_effect sv request decision) (\<lambda>permit.
     g_bind (g_catch (execute_owned sv request executor permit)) (\<lambda>outcome.
     case outcome of
       Inl error \<Rightarrow> execution_failed sv request error
     | Inr result \<Rightarrow> release_effect sv request decision chunks_already_released result)))"

definition gateway_execute ::
    "'w Services \<Rightarrow> EffectRequest \<Rightarrow> (EffectRequest \<Rightarrow> ExecutionPermit \<Rightarrow> 'w run)
      \<Rightarrow> ('w, GatewayError, ReleasedEffectResult) step" where
  "gateway_execute sv request adapter =
     execute_internal sv request (\<lambda>r p. lift_run (adapter r p)) False"

definition gateway_execute_stream ::
    "'w Services \<Rightarrow> EffectRequest \<Rightarrow> (EffectRequest \<Rightarrow> ExecutionPermit \<Rightarrow> 'w stream_run)
      \<Rightarrow> (ReleasedEffectResult \<Rightarrow> 'w \<Rightarrow> 'w \<times> (ExecutionError, unit) result)
      \<Rightarrow> ('w, GatewayError, ReleasedEffectResult) step" where
  "gateway_execute_stream sv request adapter observer =
     execute_internal sv request (\<lambda>r p. bridge sv observer r (adapter r p) (sink_new p)) True"

end
