(* ===== verification/GatewaySafety.thy ===== *)
theory GatewaySafety
  imports Gateway
begin

text \<open>
  What the effect gateway guarantees, whatever its services answer: proofs over the sequence of
  interactions of one invocation. The rules for \<open>yields\<close> compose the guarantees of the parts
  in the order in which the code composes the parts.
\<close>

named_theorems yields_rules \<open>guarantees of the gateway's steps\<close>

section \<open>Guarantees of steps\<close>

definition yields :: "('w, 'e, 'a) step \<Rightarrow> (observation list \<Rightarrow> ('e, 'a) result \<Rightarrow> bool) \<Rightarrow> bool" where
  "yields m Q = (\<forall>s. \<exists>t. gw_trace (fst (m s)) = gw_trace s @ t \<and> Q t (snd (m s)))"

lemma yields_mono: "yields m Q \<Longrightarrow> (\<And>t r. Q t r \<Longrightarrow> R t r) \<Longrightarrow> yields m R"
  unfolding yields_def by metis

lemma yields_return [yields_rules]: "yields (g_return x) (\<lambda>t r. t = [] \<and> r = Inr x)"
  by (simp add: yields_def g_return_def)

lemma yields_fail [yields_rules]: "yields (g_fail e) (\<lambda>t r. t = [] \<and> r = Inl e)"
  by (simp add: yields_def g_fail_def)

lemma yields_lift [yields_rules]: "yields (g_lift x) (\<lambda>t r. t = [] \<and> r = x)"
  by (simp add: yields_def g_lift_def)

lemma yields_get [yields_rules]: "yields (g_get f) (\<lambda>t r. t = [] \<and> (\<exists>w. r = Inr (f w)))"
  by (auto simp: yields_def g_get_def)

lemma yields_call [yields_rules]:
  "yields (g_call f) (\<lambda>t r. t = [] \<and> (\<exists>w. r = Inr (snd (f w))))"
  unfolding yields_def g_call_def
proof
  fix s :: "'a gateway_state"
  show "\<exists>t. gw_trace (fst (case f (gw_world s) of (w, x) \<Rightarrow> (s\<lparr>gw_world := w\<rparr>, Inr x))) = gw_trace s @ t
    \<and> t = [] \<and> (\<exists>w. snd (case f (gw_world s) of (w, x) \<Rightarrow> (s\<lparr>gw_world := w\<rparr>, Inr x)) = Inr (snd (f w)))"
    by (cases "f (gw_world s)") (auto intro: exI [of _ "gw_world s"])
qed

lemma yields_note [yields_rules]: "yields (g_note ob) (\<lambda>t r. t = [ob] \<and> r = Inr ())"
  by (simp add: yields_def g_note_def)

lemma yields_catch: "yields m Q \<Longrightarrow> yields (g_catch m) (\<lambda>t r. \<exists>x. r = Inr x \<and> Q t x)"
  unfolding yields_def g_catch_def by (auto simp: case_prod_unfold)

lemma yields_bind:
  assumes m: "yields m Q" and f: "\<And>t x. Q t (Inr x) \<Longrightarrow> yields (f x) (R x)"
    and err: "\<And>t e. Q t (Inl e) \<Longrightarrow> S t (Inl e)"
    and ok: "\<And>t1 t2 x r. Q t1 (Inr x) \<Longrightarrow> R x t2 r \<Longrightarrow> S (t1 @ t2) r"
  shows "yields (g_bind m f) S"
  unfolding yields_def
proof
  fix s
  obtain s1 r1 where m1: "m s = (s1, r1)" by (cases "m s")
  obtain t1 where t1: "gw_trace s1 = gw_trace s @ t1" "Q t1 r1"
    using m m1 unfolding yields_def by (metis fst_conv snd_conv)
  show "\<exists>t. gw_trace (fst (g_bind m f s)) = gw_trace s @ t \<and> S t (snd (g_bind m f s))"
  proof (cases r1)
    case (Inl e)
    with m1 t1 err show ?thesis by (auto simp: g_bind_def)
  next
    case (Inr x)
    obtain t2 where "gw_trace (fst (f x s1)) = gw_trace s1 @ t2" "R x t2 (snd (f x s1))"
      using f [of t1 x] t1 Inr unfolding yields_def by blast
    with m1 t1 Inr ok show ?thesis by (auto simp: g_bind_def intro!: exI [of _ "t1 @ t2"])
  qed
qed

text \<open>The strongest guarantee of a sequence, to be weakened once at the end.\<close>

definition seq_post ::
    "(observation list \<Rightarrow> ('e, 'a) result \<Rightarrow> bool) \<Rightarrow> ('a \<Rightarrow> observation list \<Rightarrow> ('e, 'b) result \<Rightarrow> bool)
      \<Rightarrow> observation list \<Rightarrow> ('e, 'b) result \<Rightarrow> bool" where
  "seq_post Q R t r = ((\<exists>e. r = Inl e \<and> Q t (Inl e))
     \<or> (\<exists>t1 t2 x. t = t1 @ t2 \<and> Q t1 (Inr x) \<and> R x t2 r))"

lemma yields_seq:
  assumes "yields m Q" "\<And>x. yields (f x) (R x)"
  shows "yields (g_bind m f) (seq_post Q R)"
  using assms by (rule yields_bind) (auto simp: seq_post_def)

lemma yields_get_bind: "(\<And>w. yields (f (h w)) S) \<Longrightarrow> yields (g_bind (g_get h) f) S"
  by (simp add: yields_def g_bind_def g_get_def)

lemma g_bind_lift [simp]: "g_bind (g_lift (Inr x)) f = f x" "g_bind (g_lift (Inl e)) f = g_fail e"
  by (simp_all add: g_bind_def g_lift_def g_fail_def)

text \<open>A step that emits only observations of one kind, whatever it returns.\<close>

definition emits :: "(observation \<Rightarrow> bool) \<Rightarrow> ('w, 'e, 'a) step \<Rightarrow> bool" where
  "emits P m = yields m (\<lambda>t r. list_all P t)"

lemma emitsI: "yields m Q \<Longrightarrow> (\<And>t r. Q t r \<Longrightarrow> list_all P t) \<Longrightarrow> emits P m"
  unfolding emits_def by (rule yields_mono)

lemma emits_bind: "emits P m \<Longrightarrow> (\<And>x. emits P (f x)) \<Longrightarrow> emits P (g_bind m f)"
  unfolding emits_def by (rule yields_bind [where R = "\<lambda>x t r. list_all P t"]) auto

lemma emits_catch: "emits P m \<Longrightarrow> emits P (g_catch m)"
  unfolding emits_def by (drule yields_catch) (auto elim: yields_mono)

lemma emits_prims:
  "emits P (g_return x)" "emits P (g_fail e)" "emits P (g_lift r)" "emits P (g_get h)" "emits P (g_call c)"
  by (auto intro: emitsI yields_rules)

lemma emits_note: "P ob \<Longrightarrow> emits P (g_note ob)"
  by (rule emitsI [OF yields_note]) simp

lemma emits_mono: "emits P m \<Longrightarrow> (\<And>ob. P ob \<Longrightarrow> Q ob) \<Longrightarrow> emits Q m"
  unfolding emits_def by (erule yields_mono) (auto simp: list_all_iff)

text \<open>A step that emits nothing.\<close>

abbreviation silent :: "('w, 'e, 'a) step \<Rightarrow> bool" where
  "silent m \<equiv> yields m (\<lambda>t r. t = [])"

lemma silent_bind: "silent m \<Longrightarrow> (\<And>x. silent (f x)) \<Longrightarrow> silent (g_bind m f)"
  by (rule yields_bind [where R = "\<lambda>x t r. t = []"]) auto

lemma silent_catch: "silent m \<Longrightarrow> silent (g_catch m)"
  by (drule yields_catch) (auto elim: yields_mono)

lemma silent_prims:
  "silent (g_return x)" "silent (g_fail e)" "silent (g_lift r)" "silent (g_get h)" "silent (g_call c)"
  by (auto intro: yields_mono [OF yields_return] yields_mono [OF yields_fail] yields_mono [OF yields_lift]
      yields_mono [OF yields_get] yields_mono [OF yields_call])

lemma silent_emits: "silent m \<Longrightarrow> emits P m"
  by (erule emitsI) simp

section \<open>The parts of the gateway\<close>

lemma fence_silent: "silent (verify_execution_fence sv)"
  unfolding verify_execution_fence_def by (auto split: option.splits intro: silent_bind silent_prims)

lemma owner_silent: "silent (verify_started_owner sv)"
  unfolding verify_started_owner_def by (intro silent_bind silent_catch fence_silent silent_prims)

lemma summary_silent: "silent (disclosure_summary sv request)"
  unfolding disclosure_summary_def by (auto intro!: silent_bind silent_prims split: if_splits)

lemma notice_silent: "silent (if b then g_call c else g_return x)"
  by (simp add: silent_prims)

lemma yields_lift_err:
  "yields (g_lift (map_err f r))
     (\<lambda>t r'. t = [] \<and> ((\<exists>e. r' = Inl (f e)) \<or> (\<exists>x. r' = Inr x \<and> r = Inr x)))"
  by (rule yields_mono [OF yields_lift]) (cases r; auto)

lemma event_yields [yields_rules]:
  "yields (g_event sv request ty cl payload)
     (\<lambda>t r. (\<exists>v. t = [Appended (new_event request v ty cl payload)] \<and> r = Inr ())
        \<or> (\<exists>e. t = [] \<and> r = Inl (GJournal e)))"
  unfolding g_event_def Let_def
  by (rule yields_mono [OF yields_seq [OF yields_get yields_seq [OF yields_lift_err
      yields_seq [OF yields_call yields_seq [OF yields_lift_err yields_note]]]]])
    (auto simp: seq_post_def)

definition is_appended :: "observation \<Rightarrow> bool" where
  "is_appended ob = (case ob of Appended _ \<Rightarrow> True | _ \<Rightarrow> False)"

lemma is_appended_simps [simp]: "is_appended (Appended e)" "\<not> is_appended (Authorized q d)"
  "\<not> is_appended (Proved q h p)" "\<not> is_appended (Executed q pm)" "\<not> is_appended (Observed x)"
  by (simp_all add: is_appended_def)

lemma event_emits: "emits is_appended (g_event sv request ty cl payload)"
  by (rule emitsI [OF event_yields]) auto

lemma policy_failure_yields:
  "yields (policy_failure sv request kind reason error) (\<lambda>t r. list_all is_appended t \<and> (\<exists>e. r = Inl e))"
  unfolding policy_failure_def
  by (rule yields_mono [OF yields_seq [OF event_yields yields_seq [OF event_yields yields_fail]]])
    (auto simp: seq_post_def)

text \<open>
  A decision that the policy gave for what the kernel discloses of the request, and that the
  kernel validated for the request.
\<close>

definition valid_decision :: "'w Services \<Rightarrow> EffectRequest \<Rightarrow> PolicyDecision \<Rightarrow> bool" where
  "valid_decision sv q d = ((\<exists>w. validate_decision (sv_platform sv w) (sv_kernel sv w) q d = Inr ())
     \<and> (\<exists>w w' disclosed. policy_projection (sv_platform sv w) (sv_kernel sv w) q = Inr disclosed
          \<and> snd (sv_policy_decide sv disclosed w') = Inr d))"

definition decide_post :: "'w Services \<Rightarrow> EffectRequest \<Rightarrow> observation list \<Rightarrow> (GatewayError, PolicyDecision) result \<Rightarrow> bool" where
  "decide_post sv request t r = (case r of
      Inl e \<Rightarrow> list_all is_appended t
    | Inr d \<Rightarrow> (\<exists>t0. t = t0 @ [Authorized request d] \<and> list_all is_appended t0)
        \<and> valid_decision sv request d)"

lemma policy_failure_decide: "yields (policy_failure sv request kind reason error) (decide_post sv' request')"
  by (rule yields_mono [OF policy_failure_yields]) (auto simp: decide_post_def)

lemma decided_yields:
  "yields (g_bind (g_event sv request ''policy.decided.v1'' PolicyClass (decided_payload request d))
        (\<lambda>_. g_bind (g_note (Authorized request d)) (\<lambda>_. g_return d)))
      (\<lambda>t r. (\<exists>e. r = Inl e \<and> list_all is_appended t)
         \<or> (r = Inr d \<and> (\<exists>t0. t = t0 @ [Authorized request d] \<and> list_all is_appended t0)))"
  by (rule yields_mono [OF yields_seq [OF event_yields yields_seq [OF yields_note yields_return]]])
    (auto simp: seq_post_def)

lemma validated_yields:
  assumes "\<exists>w w' disclosed. policy_projection (sv_platform sv w) (sv_kernel sv w) request = Inr disclosed
      \<and> snd (sv_policy_decide sv disclosed w') = Inr d"
  shows "yields (g_bind (g_get (\<lambda>w. validate_decision (sv_platform sv w) (sv_kernel sv w) request d)) (\<lambda>valid.
         case valid of
           Inl error \<Rightarrow>
             policy_failure sv request ''invalid_decision'' ''invalid policy decision; fail closed'' error
         | Inr _ \<Rightarrow>
             g_bind (g_event sv request ''policy.decided.v1'' PolicyClass (decided_payload request d)) (\<lambda>_.
             g_bind (g_note (Authorized request d)) (\<lambda>_. g_return d))))
    (decide_post sv request)"
proof (rule yields_get_bind)
  fix w
  show "yields (case validate_decision (sv_platform sv w) (sv_kernel sv w) request d of
           Inl error \<Rightarrow>
             policy_failure sv request ''invalid_decision'' ''invalid policy decision; fail closed'' error
         | Inr _ \<Rightarrow>
             g_bind (g_event sv request ''policy.decided.v1'' PolicyClass (decided_payload request d)) (\<lambda>_.
             g_bind (g_note (Authorized request d)) (\<lambda>_. g_return d)))
    (decide_post sv request)"
  proof (cases "validate_decision (sv_platform sv w) (sv_kernel sv w) request d")
    case (Inl e)
    then show ?thesis by (simp add: policy_failure_decide)
  next
    case (Inr u)
    with assms have "valid_decision sv request d" by (auto simp: valid_decision_def)
    with Inr show ?thesis by (auto intro!: yields_mono [OF decided_yields] simp: decide_post_def)
  qed
qed

lemma ask_yields:
  "yields (g_catch (
       g_bind (g_get (\<lambda>w. policy_projection (sv_platform sv w) (sv_kernel sv w) request)) (\<lambda>p.
       g_bind (g_lift p) (\<lambda>disclosed.
       g_bind (g_call (sv_policy_decide sv disclosed)) (\<lambda>r.
       g_lift (map_err GPolicy r))))))
    (\<lambda>t r. t = [] \<and> (\<exists>answer. r = Inr answer \<and> (\<forall>d. answer = Inr d \<longrightarrow>
       (\<exists>w w' disclosed. policy_projection (sv_platform sv w) (sv_kernel sv w) request = Inr disclosed
         \<and> snd (sv_policy_decide sv disclosed w') = Inr d))))"
  by (rule yields_mono [OF yields_catch [OF yields_seq [OF yields_get yields_seq [OF yields_lift
        yields_seq [OF yields_call yields_lift_err]]]]])
    (force simp: seq_post_def)

lemma decide_yields: "yields (g_decide sv request) (decide_post sv request)"
  unfolding g_decide_def
proof (rule yields_bind [OF ask_yields, where R = "\<lambda>_. decide_post sv request"], goal_cases)
  case (1 t answer)
  then show ?case by (cases answer) (auto intro: policy_failure_decide validated_yields)
qed auto

section \<open>Review and approval\<close>

text \<open>
  An automatic review that approved the request: it is enabled, the request is eligible, and the
  evaluator assessed exactly this request as low risk and recommended to allow it.
\<close>

definition auto_reviewed :: "'w Services \<Rightarrow> EffectRequest \<Rightarrow> bool" where
  "auto_reviewed sv q = ((\<exists>w. sv_risk_auto_enabled sv w) \<and> (\<exists>w. risk_auto_ineligibility (sv_platform sv w) q = None)
     \<and> (\<exists>d w a. snd (sv_evaluate sv q d w) = Inr a \<and> as_risk_level a = Low
          \<and> as_recommended_decision a = RecommendAllow))"

definition review_post ::
    "'w Services \<Rightarrow> EffectRequest \<Rightarrow> observation list \<Rightarrow> (GatewayError, EffectRequest \<times> bool) result \<Rightarrow> bool" where
  "review_post sv request t r = (list_all is_appended t \<and>
     (\<forall>q b. r = Inr (q, b) \<longrightarrow> (\<exists>k. q = request\<lparr>er_risk := k\<rparr>) \<and> (b \<longrightarrow> auto_reviewed sv request)))"

lemma review_post_same: "yields (g_return (request, False)) (review_post sv request)"
  by (rule yields_mono [OF yields_return]) (auto simp: review_post_def intro: exI [of _ "er_risk request"])

lemma review_post_risk:
  "(b \<Longrightarrow> auto_reviewed sv request) \<Longrightarrow> yields (g_return (with_risk request st lv re, b)) (review_post sv request)"
  by (rule yields_mono [OF yields_return]) (auto simp: review_post_def with_risk_def)

lemma review_post_bind:
  assumes "emits is_appended m" "\<And>x. yields (f x) (review_post sv request)"
  shows "yields (g_bind m f) (review_post sv request)"
  using assms(1) [unfolded emits_def] assms(2) by (rule yields_bind) (auto simp: review_post_def)

lemma review_unavailable_yields: "yields (review_unavailable sv request failure reason) (review_post sv request)"
  unfolding review_unavailable_def Let_def
  by (intro review_post_bind event_emits emits_prims review_post_risk) simp

lemma review_assessed_yields:
  assumes "b \<Longrightarrow> auto_reviewed sv request"
  shows "yields (let reason = trim (as_reason assessment) in
      if reason = [] \<or> char_count reason > 1000
      then review_unavailable sv request InvalidAssessment assessment_invalid_text
      else let request = with_risk request Available lv reason in
        g_bind (g_event sv request ty cl (payload reason)) (\<lambda>_. g_return (request, b))) (review_post sv request)"
  using assms unfolding Let_def
  by (auto intro!: review_post_bind [OF event_emits] review_post_risk review_unavailable_yields)

lemma evaluated_yields:
  assumes "sv_risk_auto_enabled sv w" "risk_auto_ineligibility (sv_platform sv w') request = None"
    and "\<exists>w. answer = snd (sv_evaluate sv request decision w)"
  shows "yields (case answer of
      Inr assessment \<Rightarrow> (let reason = trim (as_reason assessment) in
        if reason = [] \<or> char_count reason > 1000
        then review_unavailable sv request InvalidAssessment assessment_invalid_text
        else let request = with_risk request Available (lv assessment) reason in
          g_bind (g_event sv request ty cl (payload assessment reason)) (\<lambda>_.
          g_return (request, as_risk_level assessment = Low \<and> as_recommended_decision assessment = RecommendAllow)))
    | Inl (RiskUnavailable _) \<Rightarrow> review_unavailable sv request EvaluatorUnavailable evaluator_unavailable_text
    | Inl (RiskInvalidAssessment _) \<Rightarrow> review_unavailable sv request InvalidAssessment assessment_invalid_text)
    (review_post sv request)"
proof (cases answer)
  case (Inl e)
  then show ?thesis by (cases e) (simp_all add: review_unavailable_yields)
next
  case (Inr a)
  have "auto_reviewed sv request" if "as_risk_level a = Low \<and> as_recommended_decision a = RecommendAllow"
    using assms that Inr unfolding auto_reviewed_def by metis
  then have "yields (let reason = trim (as_reason a) in
        if reason = [] \<or> char_count reason > 1000
        then review_unavailable sv request InvalidAssessment assessment_invalid_text
        else let request = with_risk request Available (lv a) reason in
          g_bind (g_event sv request ty cl (payload a reason)) (\<lambda>_.
          g_return (request, as_risk_level a = Low \<and> as_recommended_decision a = RecommendAllow)))
    (review_post sv request)"
    by (rule review_assessed_yields)
  with Inr show ?thesis by simp
qed

lemma review_post_call:
  assumes "\<And>w. yields (f (snd (c w))) (review_post sv request)"
  shows "yields (g_bind (g_call c) f) (review_post sv request)"
  by (rule yields_bind [OF yields_call, where R = "\<lambda>_. review_post sv request"])
    (use assms in \<open>auto simp: review_post_def\<close>)

lemma review_risk_yields: "yields (review_risk sv request decision) (review_post sv request)"
  unfolding review_risk_def
proof (rule yields_get_bind, split if_split, intro conjI impI review_post_same yields_get_bind)
  fix w w'
  assume "\<not> \<not> sv_risk_auto_enabled sv w"
  then have enabled: "sv_risk_auto_enabled sv w" by simp
  have ineligible: "yields (let request = with_risk request Unavailable None reason in
          g_bind (g_event sv request ty cl payload) (\<lambda>_. g_return (request, False))) (review_post sv request)"
    for reason ty cl payload
    unfolding Let_def by (intro review_post_bind event_emits review_post_risk) simp
  note evaluated = evaluated_yields [OF enabled]
  show "yields (case risk_auto_ineligibility (sv_platform sv w') request of
       Some reason \<Rightarrow> (let request = with_risk request Unavailable None reason in
          g_bind (g_event sv request ''risk.review.ineligible.v1'' PolicyClass
            (JObj [(''decision_id'', JStr (pd_decision_id decision)), (''reason'', JStr reason)])) (\<lambda>_.
          g_return (request, False)))
     | None \<Rightarrow>
         g_bind (g_event sv request ''risk.review.requested.v1'' PolicyClass
           (JObj [(''decision_id'', JStr (pd_decision_id decision)),
             (''policy_revision'', JStr (pd_policy_revision decision))])) (\<lambda>_.
         g_bind (g_get (sv_evaluator_bound sv)) (\<lambda>bound.
         if \<not> bound then review_unavailable sv request EvaluatorUnavailable evaluator_unavailable_text
         else
         g_bind (g_call (sv_evaluate sv request decision)) (\<lambda>answer.
         case answer of
           Inr assessment \<Rightarrow>
             (let reason = trim (as_reason assessment) in
              if reason = [] \<or> char_count reason > 1000
              then review_unavailable sv request InvalidAssessment assessment_invalid_text
              else
                let request = with_risk request Available
                  (Some (risk_level_text (as_risk_level assessment))) reason in
                g_bind (g_event sv request ''risk.review.completed.v1'' PolicyClass
                  (JObj [(''decision_id'', JStr (pd_decision_id decision)),
                    (''risk_level'', JStr (risk_level_text (as_risk_level assessment))),
                    (''recommended_decision'', JStr (recommendation_text (as_recommended_decision assessment))),
                    (''reason'', JStr reason)])) (\<lambda>_.
                g_return (request, as_risk_level assessment = Low
                  \<and> as_recommended_decision assessment = RecommendAllow)))
         | Inl (RiskUnavailable _) \<Rightarrow>
             review_unavailable sv request EvaluatorUnavailable evaluator_unavailable_text
         | Inl (RiskInvalidAssessment _) \<Rightarrow>
             review_unavailable sv request InvalidAssessment assessment_invalid_text)))) (review_post sv request)"
    apply (cases "risk_auto_ineligibility (sv_platform sv w') request")
     apply (simp only: option.case)
     apply (intro review_post_bind [OF event_emits] yields_get_bind)
     apply (split if_split, intro conjI impI review_unavailable_yields)
     apply (rule review_post_call)
     apply (rule evaluated; blast)
    apply (simp only: option.case ineligible)
    done
qed

lemma approval_denied_yields:
  "yields (approval_denied sv request ty p1 p2 e) (\<lambda>t r. list_all is_appended t \<and> (\<exists>e. r = Inl e))"
  unfolding approval_denied_def
  by (rule yields_mono [OF yields_seq [OF event_yields yields_seq [OF event_yields yields_fail]]])
    (auto simp: seq_post_def)

text \<open>Where the proof of an approval comes from: the provider, or the automatic review.\<close>

definition proof_source ::
    "'w Services \<Rightarrow> EffectRequest \<Rightarrow> string \<Rightarrow> bool \<Rightarrow> ApprovalProof \<Rightarrow> bool" where
  "proof_source sv q h auto_approved p = (
     if auto_approved then ap_approved_by p = ''risk-evaluator:auto-low-risk''
     else (\<exists>d ctx w. snd (sv_request_approval sv q h d ctx w) = Inr (Some p)))"

lemma approval_proof_by: "approval_proof now i h who = Inr p \<Longrightarrow> ap_approved_by p = who"
  by (auto simp: approval_proof_def bind_r_Inr_iff)

lemma obtain_proof_yields:
  "yields (obtain_proof sv q h d ctx b) (\<lambda>t r. list_all is_appended t \<and> (\<forall>p. r = Inr p \<longrightarrow> proof_source sv q h b p))"
proof -
  have minted: "yields (g_bind (g_call (sv_now_rfc3339 sv)) (\<lambda>now.
         g_bind (if is_ok now then g_call (sv_uuid sv) else g_return []) (\<lambda>approval_id.
         g_bind (g_lift (map_err GPolicy (approval_proof now approval_id h ''risk-evaluator:auto-low-risk''))) (\<lambda>proof.
         g_return (Inr (Some proof)))))) (\<lambda>t r. t = [] \<and> (\<forall>a. r = Inr a \<longrightarrow> (\<exists>p. a = Inr (Some p) \<and> proof_source sv q h True p)))"
    by (rule yields_mono [OF yields_seq [OF yields_call yields_seq [OF notice_silent
        yields_seq [OF yields_lift_err yields_return]]]])
      (auto simp: seq_post_def proof_source_def dest: approval_proof_by)
  have asked: "yields (g_call (sv_request_approval sv q h d ctx))
      (\<lambda>t r. t = [] \<and> (\<forall>p. r = Inr (Inr (Some p)) \<longrightarrow> proof_source sv q h False p))"
    by (rule yields_mono [OF yields_call]) (auto simp: proof_source_def)
  have "yields (if b then g_bind (g_call (sv_now_rfc3339 sv)) (\<lambda>now.
         g_bind (if is_ok now then g_call (sv_uuid sv) else g_return []) (\<lambda>approval_id.
         g_bind (g_lift (map_err GPolicy (approval_proof now approval_id h ''risk-evaluator:auto-low-risk''))) (\<lambda>proof.
         g_return (Inr (Some proof))))) else g_call (sv_request_approval sv q h d ctx))
      (\<lambda>t r. t = [] \<and> (\<forall>p. r = Inr (Inr (Some p)) \<longrightarrow> proof_source sv q h b p))"
    by (auto intro: yields_mono [OF minted] yields_mono [OF asked])
  then show ?thesis
    unfolding obtain_proof_def Let_def
    by (rule yields_bind [where R = "\<lambda>a t r. list_all is_appended t \<and> (\<forall>p. r = Inr p \<longrightarrow> a = Inr (Some p))"])
      (auto split: sum.splits option.splits
        intro: yields_mono [OF approval_denied_yields] yields_mono [OF yields_return])
qed

text \<open>Observations that precede the execution of an effect.\<close>

definition before_execution :: "observation \<Rightarrow> bool" where
  "before_execution ob = (case ob of Executed _ _ \<Rightarrow> False | Observed _ \<Rightarrow> False | _ \<Rightarrow> True)"

lemma before_execution_simps [simp]: "before_execution (Appended e)" "before_execution (Authorized q d)"
  "before_execution (Proved q h p)" "\<not> before_execution (Executed q pm)" "\<not> before_execution (Observed x)"
  by (simp_all add: before_execution_def)

lemma appended_before [simp]: "list_all is_appended t \<Longrightarrow> list_all before_execution t"
  by (auto simp: list_all_iff is_appended_def before_execution_def split: observation.splits)

text \<open>A request whose risk review and approval may differ from those of another, and nothing else.\<close>

definition reviewed_from :: "EffectRequest \<Rightarrow> EffectRequest \<Rightarrow> bool" where
  "reviewed_from q0 q = (q = q0\<lparr>er_risk := er_risk q, er_approval := er_approval q\<rparr>)"

lemma reviewed_from_simps [simp]:
  "reviewed_from q q" "reviewed_from q (q\<lparr>er_approval := a\<rparr>)" "reviewed_from q (q\<lparr>er_risk := k\<rparr>)"
  by (simp_all add: reviewed_from_def)

lemma reviewed_from_trans: "reviewed_from q0 q1 \<Longrightarrow> reviewed_from q1 q2 \<Longrightarrow> reviewed_from q0 q2"
  unfolding reviewed_from_def by (cases q0; cases q1; cases q2) simp

lemma reviewed_from_phase: "reviewed_from q0 q \<Longrightarrow> er_phase q = er_phase q0"
  by (cases q0; cases q) (simp add: reviewed_from_def)

text \<open>
  A request that carries a proof bound to the digest of the request it approves. The proof comes
  from the approval provider, who was asked about that request, or from an automatic review.
\<close>

definition proof_origin :: "'w Services \<Rightarrow> EffectRequest \<Rightarrow> string \<Rightarrow> ApprovalProof \<Rightarrow> bool" where
  "proof_origin sv q h p = ((\<exists>d ctx w. snd (sv_request_approval sv q h d ctx w) = Inr (Some p))
     \<or> ap_approved_by p = ''risk-evaluator:auto-low-risk'' \<and> (\<exists>q0. reviewed_from q0 q \<and> auto_reviewed sv q0))"

definition approved_as :: "'w Services \<Rightarrow> observation list \<Rightarrow> EffectRequest \<Rightarrow> bool" where
  "approved_as sv t q = (\<exists>q1 h proof w. Proved q1 h proof \<in> set t \<and> q = q1\<lparr>er_approval := Some proof\<rparr>
     \<and> ap_request_hash proof = h \<and> request_digest (sv_platform sv w) q1 = Inr h \<and> proof_origin sv q1 h proof)"

definition approve_post ::
    "'w Services \<Rightarrow> EffectRequest \<Rightarrow> observation list \<Rightarrow> (GatewayError, EffectRequest \<times> PolicyDecision) result \<Rightarrow> bool" where
  "approve_post sv request t r = (list_all before_execution t \<and>
     (\<forall>q d. r = Inr (q, d) \<longrightarrow> approved_as sv t q \<and> Authorized q d \<in> set t
        \<and> reviewed_from request q
        \<and> valid_decision sv q d))"

lemma approved_as_append: "approved_as sv t q \<Longrightarrow> set t \<subseteq> set t' \<Longrightarrow> approved_as sv t' q"
  unfolding approved_as_def by blast

lemma approve_post_bind:
  assumes "emits is_appended m" "\<And>x. yields (f x) (approve_post sv request)"
  shows "yields (g_bind m f) (approve_post sv request)"
  using assms(1) [unfolded emits_def] assms(2)
  by (rule yields_bind) (auto simp: approve_post_def intro: approved_as_append)

definition redecided ::
    "'w Services \<Rightarrow> EffectRequest \<Rightarrow> observation list \<Rightarrow> (GatewayError, EffectRequest \<times> PolicyDecision) result \<Rightarrow> bool" where
  "redecided sv q t r = (list_all before_execution t \<and> (\<forall>q' d. r = Inr (q', d) \<longrightarrow> q' = q \<and> Authorized q d \<in> set t
     \<and> valid_decision sv q d))"

lemma redecide_yields: "yields (g_bind (g_decide sv q) (\<lambda>d. g_return (q, d))) (redecided sv q)"
  by (rule yields_mono [OF yields_seq [OF decide_yields yields_return]])
    (auto simp: seq_post_def decide_post_def redecided_def)

lemma redecided_bind:
  assumes "emits is_appended m" "\<And>x. yields (f x) (redecided sv q)"
  shows "yields (g_bind m f) (redecided sv q)"
  using assms(1) [unfolded emits_def] assms(2) by (rule yields_bind) (auto simp: redecided_def)

lemma redecided_approve_post:
  assumes "redecided sv (q\<lparr>er_approval := Some proof\<rparr>) t r"
    and "request_digest (sv_platform sv w) q = Inr h" "ap_request_hash proof = h" "proof_origin sv q h proof"
  shows "approve_post sv q (Proved q h proof # t) r"
proof -
  have "approved_as sv (Proved q h proof # t) (q\<lparr>er_approval := Some proof\<rparr>)"
    using assms(2-4) unfolding approved_as_def by (intro exI conjI) auto
  with assms(1) show ?thesis
    by (auto simp: approve_post_def redecided_def)
qed

lemma grant_approval_yields:
  assumes digest: "request_digest (sv_platform sv w) q = Inr h" and hash: "ap_request_hash proof = h"
    and origin: "proof_origin sv q h proof"
  shows "yields (grant_approval sv q h proof b) (approve_post sv q)"
  unfolding grant_approval_def
proof (rule yields_bind [OF yields_note])
  fix t1 t2 :: "observation list" and u and r :: "(GatewayError, EffectRequest \<times> PolicyDecision) result"
  assume "t1 = [Proved q h proof] \<and> Inr u = Inr ()"
    and "redecided sv (q\<lparr>er_approval := Some proof\<rparr>) t2 r"
  then show "approve_post sv q (t1 @ t2) r"
    using redecided_approve_post [OF _ digest hash origin] by simp
qed (auto intro!: redecided_bind event_emits redecide_yields emits_prims)

lemma approve_failed: "yields (g_fail e) (approve_post sv q)"
  by (rule yields_mono [OF yields_fail]) (simp add: approve_post_def)

lemma checked_proof_yields:
  assumes "request_digest (sv_platform sv w) q = Inr h" "proof_origin sv q h p"
  shows "yields (g_bind (g_lift (reject_if (ap_request_hash p \<noteq> h) e)) (\<lambda>_. grant_approval sv q h p b))
    (approve_post sv q)"
  by (cases "ap_request_hash p = h")
    (simp_all add: reject_if_def approve_failed grant_approval_yields [OF assms(1) _ assms(2)])

lemma proof_yields:
  assumes auto: "b \<Longrightarrow> \<exists>q0. reviewed_from q0 q \<and> auto_reviewed sv q0"
  shows "yields (g_bind (g_get (sv_platform sv)) (\<lambda>pl.
     g_bind (g_lift (request_digest pl q)) (\<lambda>h.
     g_bind (obtain_proof sv q h decision ctx b) (\<lambda>proof.
     g_bind (g_lift (reject_if (ap_request_hash proof \<noteq> h) e)) (\<lambda>_. grant_approval sv q h proof b)))))
    (approve_post sv q)"
proof (rule yields_get_bind)
  fix w
  have obtained: "yields (g_bind (obtain_proof sv q h decision ctx b) (\<lambda>proof.
     g_bind (g_lift (reject_if (ap_request_hash proof \<noteq> h) e)) (\<lambda>_. grant_approval sv q h proof b))) (approve_post sv q)"
    if "request_digest (sv_platform sv w) q = Inr h" for h
  proof (rule yields_bind [OF obtain_proof_yields, where R = "\<lambda>_. approve_post sv q"], goal_cases)
    case (1 t p)
    with auto have "proof_origin sv q h p" by (auto simp: proof_source_def proof_origin_def split: if_splits)
    then show ?case by (rule checked_proof_yields [OF that])
  qed (auto simp: approve_post_def intro: approved_as_append)
  show "yields (g_bind (g_lift (request_digest (sv_platform sv w) q)) (\<lambda>h.
     g_bind (obtain_proof sv q h decision ctx b) (\<lambda>proof.
     g_bind (g_lift (reject_if (ap_request_hash proof \<noteq> h) e)) (\<lambda>_. grant_approval sv q h proof b))))
    (approve_post sv q)"
    by (cases "request_digest (sv_platform sv w) q") (simp_all add: approve_failed obtained)
qed

lemma approve_and_redecide_yields:
  "yields (approve_and_redecide sv request decision ctx) (approve_post sv request)"
  unfolding approve_and_redecide_def
proof (rule approve_post_bind)
  show "emits is_appended (case ctx of Some context \<Rightarrow> g_event sv request ''approval.requested.v1'' ApprovalClass
           (JObj [(''command_context'', command_context_json context)]) | None \<Rightarrow> g_return ())"
    by (auto intro: event_emits emits_prims split: option.splits)
next
  fix x :: unit
  show "yields (g_bind (review_risk sv request decision) (\<lambda>(q, b).
     g_bind (g_get (sv_platform sv)) (\<lambda>pl.
     g_bind (g_lift (request_digest pl q)) (\<lambda>h.
     g_bind (obtain_proof sv q h decision ctx b) (\<lambda>proof.
     g_bind (g_lift (reject_if (ap_request_hash proof \<noteq> h)
       (GApproval ''approval proof is bound to a different request''))) (\<lambda>_.
     grant_approval sv q h proof b)))))) (approve_post sv request)"
  proof (rule yields_bind [OF review_risk_yields, where R = "\<lambda>(q, b). approve_post sv q"])
    fix t x
    assume 1: "review_post sv request t (Inr x)"
    obtain q b where x: "x = (q, b)" by (cases x)
    from 1 x have "b \<Longrightarrow> \<exists>q0. reviewed_from q0 q \<and> auto_reviewed sv q0"
      by (auto simp: review_post_def intro!: exI [of _ request])
    from proof_yields [OF this] show "yields (case x of (q, b) \<Rightarrow>
     g_bind (g_get (sv_platform sv)) (\<lambda>pl.
     g_bind (g_lift (request_digest pl q)) (\<lambda>h.
     g_bind (obtain_proof sv q h decision ctx b) (\<lambda>proof.
     g_bind (g_lift (reject_if (ap_request_hash proof \<noteq> h)
       (GApproval ''approval proof is bound to a different request''))) (\<lambda>_.
     grant_approval sv q h proof b))))) ((\<lambda>(q, b). approve_post sv q) x)"
      by (simp add: x)
  next
    fix t1 t2 x r
    assume 1: "review_post sv request t1 (Inr x)" and 2: "(\<lambda>(q, b). approve_post sv q) x t2 r"
    obtain q b where x: "x = (q, b)" by (cases x)
    from 1 x obtain k where k: "q = request\<lparr>er_risk := k\<rparr>" "list_all is_appended t1"
      by (auto simp: review_post_def)
    from 2 x have p: "approve_post sv q t2 r" by simp
    show "approve_post sv request (t1 @ t2) r"
      using p k unfolding approve_post_def
      by (auto intro: approved_as_append reviewed_from_trans [OF reviewed_from_simps(3)])
  qed (auto simp: review_post_def approve_post_def split: prod.splits)
qed

section \<open>Authorisation\<close>

text \<open>
  What must have happened before an effect executes: the request was allowed by a decision
  that the kernel validated for it, and if any decision required approval then the request
  carries a proof bound to its digest.
\<close>

definition sanctioned :: "'w Services \<Rightarrow> observation list \<Rightarrow> EffectRequest \<Rightarrow> PolicyDecision \<Rightarrow> bool" where
  "sanctioned sv t q d = (Authorized q d \<in> set t \<and> pd_outcome d = Allow \<and> er_phase q = PreEffect
     \<and> valid_decision sv q d
     \<and> ((\<exists>q0 d0. Authorized q0 d0 \<in> set t \<and> pd_outcome d0 = RequireApproval) \<longrightarrow> approved_as sv t q))"

definition authorize_post ::
    "'w Services \<Rightarrow> EffectRequest \<Rightarrow> observation list \<Rightarrow> (GatewayError, EffectRequest \<times> PolicyDecision) result \<Rightarrow> bool" where
  "authorize_post sv prepared t r = (list_all before_execution t \<and> (\<forall>q d. r = Inr (q, d) \<longrightarrow> sanctioned sv t q d
     \<and> reviewed_from prepared q))"

lemma approve_then_sanctioned:
  assumes pre: "er_phase q = PreEffect" and m: "approve_post sv q t (Inr (q', d))" and ok: "pd_outcome d = Allow"
    and sub: "set t \<subseteq> set t'"
  shows "sanctioned sv t' q' d"
proof -
  from m have "approved_as sv t q'" "Authorized q' d \<in> set t" "er_phase q' = PreEffect"
    "valid_decision sv q' d"
    using pre by (auto simp: approve_post_def dest: reviewed_from_phase)
  with sub ok show ?thesis by (auto simp: sanctioned_def intro: approved_as_append)
qed

lemma allowed_sanctioned:
  assumes "er_phase q = PreEffect" "decide_post sv q t (Inr d)" "pd_outcome d = Allow" "list_all is_appended t'"
  shows "sanctioned sv (t @ t') q d"
  using assms by (force simp: sanctioned_def decide_post_def list_all_iff)

lemma authorize_postI:
  assumes "seq_post (decide_post sv q) (\<lambda>d. seq_post
        (\<lambda>t r. if pd_outcome d = RequireApproval then approve_post sv q t r else t = [] \<and> r = Inr (q, d))
        (\<lambda>x t r. list_all is_appended t \<and> (\<forall>y. r = Inr y \<longrightarrow> y = x \<and> pd_outcome (snd x) = Allow))) t r"
    and pre: "er_phase q = PreEffect"
  shows "authorize_post sv q t r"
proof -
  have before: "list_all before_execution t" if "decide_post sv q t x" for t x
    using that by (cases x) (auto simp: decide_post_def)
  let ?mid = "\<lambda>d t r. if pd_outcome d = RequireApproval then approve_post sv q t r else t = [] \<and> r = Inr (q, d)"
  consider (failed) e where "r = Inl e" "decide_post sv q t (Inl e)"
    | (unapproved) t1 t2 e d where "t = t1 @ t2" "decide_post sv q t1 (Inr d)" "r = Inl e" "?mid d t2 (Inl e)"
    | (last) t1 t2 t3 d x where "t = t1 @ t2 @ t3" "decide_post sv q t1 (Inr d)" "?mid d t2 (Inr x)"
        "list_all is_appended t3" "\<forall>y. r = Inr y \<longrightarrow> y = x \<and> pd_outcome (snd x) = Allow"
    using assms(1) unfolding seq_post_def by blast
  then show ?thesis
  proof cases
    case failed
    then show ?thesis by (auto simp: authorize_post_def before)
  next
    case unapproved
    then have "approve_post sv q t2 (Inl e)" by (simp split: if_splits)
    with unapproved show ?thesis by (simp add: authorize_post_def before approve_post_def)
  next
    case last
    obtain q' d' where x: "x = (q', d')" by (cases x)
    have "list_all before_execution t2" "pd_outcome (snd x) = Allow \<Longrightarrow> sanctioned sv t (fst x) (snd x)"
      "reviewed_from q (fst x)"
      using x last before [OF last(2)] approve_then_sanctioned [OF pre, of sv t2 "fst x" "snd x" t]
        allowed_sanctioned [OF pre last(2) _ last(4)]
      by (auto simp: approve_post_def split: if_splits)
    with last before [OF last(2)] show ?thesis by (auto simp: authorize_post_def)
  qed
qed

text \<open>The second half of \<open>authorize_effect\<close>, after the request was prepared.\<close>

lemma decide_and_approve_yields:
  assumes pre: "er_phase q = PreEffect"
  shows "yields (g_bind (g_decide sv q) (\<lambda>d.
     g_bind (if pd_outcome d = RequireApproval then approve_and_redecide sv q d ctx else g_return (q, d)) (\<lambda>(q, d).
     if pd_outcome d \<noteq> Allow then g_bind (g_event sv q (ty d) cl (payload d)) (\<lambda>_. g_fail (err d))
     else g_return (q, d)))) (authorize_post sv q)"
proof -
  have last: "yields (case x of (q, d) \<Rightarrow>
        if pd_outcome d \<noteq> Allow then g_bind (g_event sv q (ty d) cl (payload d)) (\<lambda>_. g_fail (err d))
        else g_return (q, d))
      (\<lambda>t r. list_all is_appended t \<and> (\<forall>y. r = Inr y \<longrightarrow> y = x \<and> pd_outcome (snd x) = Allow))" for x
    by (cases x) (auto intro!: yields_mono [OF yields_seq [OF event_yields yields_fail]] yields_mono [OF yields_return]
        simp: seq_post_def)
  have mid: "yields (if pd_outcome d = RequireApproval then approve_and_redecide sv q d ctx else g_return (q, d))
      (\<lambda>t r. if pd_outcome d = RequireApproval then approve_post sv q t r else t = [] \<and> r = Inr (q, d))" for d
    by (simp add: approve_and_redecide_yields yields_return)
  show ?thesis
  proof (rule yields_mono [OF yields_seq [OF decide_yields yields_seq [OF mid last]]])
    fix t r
    assume "seq_post (decide_post sv q) (\<lambda>d. seq_post
        (\<lambda>t r. if pd_outcome d = RequireApproval then approve_post sv q t r else t = [] \<and> r = Inr (q, d))
        (\<lambda>x t r. list_all is_appended t \<and> (\<forall>y. r = Inr y \<longrightarrow> y = x \<and> pd_outcome (snd x) = Allow))) t r"
    then show "authorize_post sv q t r" using pre by (rule authorize_postI)
  qed
qed

text \<open>The request that reaches the executor is the caller's, prepared by the kernel.\<close>

definition admitted :: "'w Services \<Rightarrow> EffectRequest \<Rightarrow> EffectRequest \<Rightarrow> bool" where
  "admitted sv request q = (er_schema_version request = 1 \<and> er_request_id request \<noteq> [] \<and> er_phase request = PreEffect
     \<and> (\<exists>w prepared. kernel_prepare (sv_platform sv w) (sv_kernel sv w) request = Inr prepared
          \<and> reviewed_from prepared q))"

definition authorized_post ::
    "'w Services \<Rightarrow> EffectRequest \<Rightarrow> observation list \<Rightarrow> (GatewayError, EffectRequest \<times> PolicyDecision) result \<Rightarrow> bool" where
  "authorized_post sv request t r = (list_all before_execution t
     \<and> (\<forall>q d. r = Inr (q, d) \<longrightarrow> sanctioned sv t q d \<and> admitted sv request q))"

lemma kernel_prepare_phase: "kernel_prepare pl k request = Inr prepared \<Longrightarrow> er_phase prepared = er_phase request"
  by (drule kernel_prepare_ok(5)) (cases rule: redact_request_cases [of pl request]; auto)

lemma sanctioned_append:
  assumes "sanctioned sv t q d" "list_all is_appended t0"
  shows "sanctioned sv (t0 @ t) q d"
  using assms unfolding sanctioned_def by (auto simp: list_all_iff intro: approved_as_append)

lemma authorized_post_bind:
  assumes "emits is_appended m" "\<And>x. yields (f x) (authorized_post sv request)"
  shows "yields (g_bind m f) (authorized_post sv request)"
  using assms(1) [unfolded emits_def] assms(2)
  by (rule yields_bind) (auto simp: authorized_post_def sanctioned_append)

lemma authorized_failed: "yields (g_fail e) (authorized_post sv request)"
  by (rule yields_mono [OF yields_fail]) (simp add: authorized_post_def)

lemma authorized_reject_bind:
  assumes "\<not> b \<Longrightarrow> yields (f ()) (authorized_post sv request)"
  shows "yields (g_bind (g_lift (reject_if b e)) f) (authorized_post sv request)"
  using assms by (cases b) (simp_all add: reject_if_def authorized_failed)

lemma authorize_effect_yields: "yields (authorize_effect sv request) (authorized_post sv request)"
  unfolding authorize_effect_def
proof (intro authorized_post_bind [OF silent_emits [OF fence_silent]]
    authorized_reject_bind authorized_post_bind [OF silent_emits [OF summary_silent]]
    authorized_post_bind [OF event_emits] yields_get_bind, goal_cases)
  case (1 _ _ _ _ w)
  let ?pl = "sv_platform sv w" and ?k = "sv_kernel sv w"
  have denied: "yields (g_bind (g_event sv request ty cl p) (\<lambda>_. g_fail e)) (authorized_post sv request)" for ty cl p e
    by (intro authorized_post_bind event_emits authorized_failed)
  have decided: "yields (g_bind (g_decide sv q) (\<lambda>d.
     g_bind (if pd_outcome d = RequireApproval then approve_and_redecide sv q d ctx else g_return (q, d)) (\<lambda>(q, d).
     if pd_outcome d \<noteq> Allow then g_bind (g_event sv q (ty d) cl (payload d)) (\<lambda>_. g_fail (err d))
     else g_return (q, d)))) (authorized_post sv request)"
    if "kernel_prepare ?pl ?k request = Inr q" for q ctx ty cl payload err
  proof (rule yields_mono [OF decide_and_approve_yields])
    show "er_phase q = PreEffect" using 1 kernel_prepare_phase [OF that] by simp
  next
    fix t r assume "authorize_post sv q t r"
    with that 1 show "authorized_post sv request t r"
      by (auto simp: authorize_post_def authorized_post_def admitted_def)
  qed
  from denied decided show ?case
    by (auto simp: bind_r_def split: sum.splits)
qed

section \<open>Permits\<close>

text \<open>A permit that was issued for a request and a decision and has been used.\<close>

definition permit_for :: "'w Services \<Rightarrow> EffectRequest \<Rightarrow> PolicyDecision \<Rightarrow> ExecutionPermit \<Rightarrow> bool" where
  "permit_for sv q d p = (ep_consumed p \<and> ep_obligations p = pd_obligations d \<and> ep_decision_id p = pd_decision_id d
     \<and> ep_actor_id p = actor_id (er_actor q)
     \<and> (\<exists>w. request_digest (sv_platform sv w) q = Inr (ep_request_hash p)
          \<and> obligations_digest (sv_platform sv w) (pd_obligations d) = Inr (ep_obligations_hash p)
          \<and> (\<exists>bytes. canonical_bytes (pl_claims_bytes (sv_platform sv w)) (permit_claims p) = Inr bytes
               \<and> ep_authentication_tag p = pl_hmac (sv_platform sv w) (sv_permit_key sv) bytes)))"

lemma mint_permit_yields:
  "yields (mint_permit sv q h d) (\<lambda>t r. t = [] \<and> (\<forall>p. r = Inr p \<longrightarrow> ep_obligations p = pd_obligations d \<and> \<not> ep_consumed p))"
  unfolding mint_permit_def Let_def
  by (rule yields_mono [OF yields_seq [OF yields_get yields_seq [OF yields_lift yields_seq [OF yields_call
      yields_seq [OF yields_call yields_seq [OF yields_lift yields_return]]]]]])
    (auto simp: seq_post_def)

lemma permit_claims_consumed [simp]: "permit_claims (p\<lparr>ep_consumed := b\<rparr>) = permit_claims p"
  by (simp add: permit_claims_def)

lemma yields_reject_bind:
  assumes "\<And>e. Q [] (Inl e)" "\<not> b \<Longrightarrow> yields (f ()) Q"
  shows "yields (g_bind (g_lift (reject_if b e)) f) Q"
  using assms by (cases b) (auto simp: reject_if_def intro: yields_mono [OF yields_fail])

lemma yields_lift_bind:
  assumes "\<And>e. Q [] (Inl e)" "\<And>x. v = Inr x \<Longrightarrow> yields (f x) Q"
  shows "yields (g_bind (g_lift v) f) Q"
  using assms by (cases v) (auto intro: yields_mono [OF yields_fail])

lemma yields_call_bind: "(\<And>x. yields (f x) Q) \<Longrightarrow> yields (g_bind (g_call c) f) Q"
  by (rule yields_bind [OF yields_call, where R = "\<lambda>_. Q"]) auto

definition consume_post ::
    "'w Services \<Rightarrow> EffectRequest \<Rightarrow> PolicyDecision \<Rightarrow> ExecutionPermit \<Rightarrow> observation list
      \<Rightarrow> (GatewayError, ExecutionPermit) result \<Rightarrow> bool" where
  "consume_post sv q d p t r = (t = [] \<and> (\<forall>p'. r = Inr p' \<longrightarrow> \<not> ep_consumed p \<and> p' = p\<lparr>ep_consumed := True\<rparr>
     \<and> (ep_obligations p = pd_obligations d \<longrightarrow> permit_for sv q d p')))"

lemma authenticate_yields: "yields (authenticate_and_consume sv p q d) (consume_post sv q d p)"
  unfolding authenticate_and_consume_def
proof (intro yields_get_bind yields_reject_bind yields_lift_bind yields_call_bind, goal_cases)
  case (7 w h oh now bytes)
  then show ?case
    by (intro yields_mono [OF yields_return]) (auto simp: consume_post_def permit_for_def)
qed (simp_all add: consume_post_def)

definition started_event :: "EffectRequest \<Rightarrow> nat \<Rightarrow> PolicyDecision \<Rightarrow> ExecutionPermit \<Rightarrow> NewEvent" where
  "started_event q v d p = new_event q v ''effect.started.v1'' EffectClass
     (JObj [(''decision_id'', JStr (pd_decision_id d)),
         (''permit_nonce'', JStr (ep_permit_nonce p)),
         (''permit_expires_at_unix_ms'', j_int (ep_expires_at_unix_ms p)),
         (''resource_authority'', authority_json (po_resource_authority (pd_obligations d)))])"

definition start_post ::
    "'w Services \<Rightarrow> EffectRequest \<Rightarrow> PolicyDecision \<Rightarrow> observation list \<Rightarrow> (GatewayError, ExecutionPermit) result \<Rightarrow> bool" where
  "start_post sv q d t r = (list_all is_appended t
     \<and> (\<forall>p. r = Inr p \<longrightarrow> permit_for sv q d p \<and> (\<exists>v. t = [Appended (started_event q v d p)])))"

lemma start_effect_yields: "yields (start_effect sv q d) (start_post sv q d)"
proof -
  have last: "yields (g_bind (verify_started_owner sv) (\<lambda>_. g_return p)) (\<lambda>t r. t = [] \<and> (\<forall>x. r = Inr x \<longrightarrow> x = p))" for p
    by (rule yields_mono [OF yields_seq [OF owner_silent yields_return]]) (auto simp: seq_post_def)
  show ?thesis
    unfolding start_effect_def
    by (intro yields_get_bind yields_lift_bind, simp add: start_post_def)
      (rule yields_mono [OF yields_seq [OF mint_permit_yields yields_seq [OF authenticate_yields
        yields_seq [OF event_yields last]]]],
       auto simp: seq_post_def start_post_def consume_post_def started_event_def)
qed

section \<open>Release\<close>

text \<open>
  A validated decision allowed the release of exactly this result of the effect, as a request of
  the post-effect phase that carries the result's bytes.
\<close>

definition release_allowed ::
    "'w Services \<Rightarrow> EffectRequest \<Rightarrow> nat option \<Rightarrow> QuarantinedEffectResult \<Rightarrow> observation list \<Rightarrow> bool" where
  "release_allowed sv q n result t = (\<exists>post d w w'. Authorized post d \<in> set t \<and> pd_outcome d = Allow
     \<and> er_phase post = PostEffect
     \<and> valid_decision sv post d
     \<and> kernel_prepare (sv_platform sv w) (sv_kernel sv w) (post_request (sv_platform sv w') q n result) = Inr post)"

definition release_post ::
    "'w Services \<Rightarrow> EffectRequest \<Rightarrow> nat option \<Rightarrow> QuarantinedEffectResult \<Rightarrow> observation list \<Rightarrow> (GatewayError, unit) result \<Rightarrow> bool" where
  "release_post sv q n result t r = (list_all before_execution t \<and> (r = Inr () \<longrightarrow> release_allowed sv q n result t))"

lemma release_post_bind:
  assumes "emits is_appended m" "\<And>x. yields (f x) (release_post sv q n result)"
  shows "yields (g_bind m f) (release_post sv q n result)"
  using assms(1) [unfolded emits_def] assms(2)
  by (rule yields_bind) (auto simp: release_post_def release_allowed_def)

lemma authorize_release_yields: "yields (authorize_release sv q n result txt) (release_post sv q n result)"
  unfolding authorize_release_def
proof (intro yields_get_bind yields_lift_bind release_post_bind [OF silent_emits [OF summary_silent]]
    release_post_bind [OF event_emits], goal_cases)
  case (2 w w' post summary u)
  have phase: "er_phase post = PostEffect"
    using kernel_prepare_phase [OF 2] by (simp add: post_request_def)
  have last: "yields (if pd_outcome d \<noteq> Allow then g_bind (g_event sv post ty cl (p d)) (\<lambda>_. g_fail (err d)) else g_return ())
      (\<lambda>t r. list_all is_appended t \<and> (r = Inr () \<longrightarrow> pd_outcome d = Allow))" for d ty cl p err
    by (auto intro!: yields_mono [OF yields_seq [OF event_yields yields_fail]] yields_mono [OF yields_return]
        simp: seq_post_def)
  show ?case
  proof (rule yields_mono [OF yields_seq [OF decide_yields last]])
    fix t r
    assume "seq_post (decide_post sv post) (\<lambda>d t r. list_all is_appended t \<and> (r = Inr () \<longrightarrow> pd_outcome d = Allow)) t r"
    then show "release_post sv q n result t r"
      using 2 phase by (fastforce simp: seq_post_def decide_post_def release_post_def release_allowed_def)
  qed
qed (simp add: release_post_def)

text \<open>What the trace of a release owes to the obligation of a post-effect decision.\<close>

definition completed_event ::
    "Platform \<Rightarrow> EffectRequest \<Rightarrow> nat \<Rightarrow> PolicyDecision \<Rightarrow> ReleasedEffectResult \<Rightarrow> NewEvent" where
  "completed_event pl q v d released = new_event q v ''effect.completed.v1'' EffectClass
     (JObj [(''decision_id'', JStr (pd_decision_id d)),
         (''content_hash'', JStr (pl_sha256_hex pl (rr_bytes released))),
         (''size'', j_nat (length (rr_bytes released))),
         (''resource_authority'', authority_json (po_resource_authority (pd_obligations d)))])"

definition completion_post ::
    "'w Services \<Rightarrow> EffectRequest \<Rightarrow> PolicyDecision \<Rightarrow> bool \<Rightarrow> QuarantinedEffectResult \<Rightarrow> observation list
      \<Rightarrow> (GatewayError, ReleasedEffectResult) result \<Rightarrow> bool" where
  "completion_post sv q d streamed result t r = (list_all before_execution t
     \<and> (\<forall>x. r = Inr x \<longrightarrow> qr_effect_succeeded result
          \<and> x = \<lparr>rr_media_type = qr_media_type result, rr_bytes = qr_bytes result\<rparr>
          \<and> length (rr_bytes x) \<le> po_max_output_bytes (pd_obligations d)
          \<and> (\<exists>t0 w v. t = t0 @ [Appended (completed_event (sv_platform sv w) q v d x)]
               \<and> (po_require_post_effect (pd_obligations d) \<and> \<not> streamed \<longrightarrow> release_allowed sv q None result t0))))"

lemma effect_failed_yields:
  "yields (effect_failed sv q payload error) (\<lambda>t r. list_all is_appended t \<and> (\<exists>e. r = Inl e))"
  unfolding effect_failed_def
  by (rule yields_mono [OF yields_seq [OF event_yields yields_fail]]) (auto simp: seq_post_def)

lemma effect_failed_completion: "yields (effect_failed sv q payload error) (completion_post sv q d streamed result)"
  by (rule yields_mono [OF effect_failed_yields]) (auto simp: completion_post_def)

lemma maybe_release_yields:
  "yields (if b then authorize_release sv q n result txt else g_return ())
     (\<lambda>t r. list_all before_execution t \<and> (r = Inr () \<and> b \<longrightarrow> release_allowed sv q n result t))"
  by (auto intro!: yields_mono [OF authorize_release_yields] yields_mono [OF yields_return] simp: release_post_def)

lemma complete_yields:
  assumes "qr_effect_succeeded result" "length (qr_bytes result) \<le> po_max_output_bytes (pd_obligations d)"
  shows "yields (g_bind (if po_require_post_effect (pd_obligations d) \<and> \<not> streamed
       then authorize_release sv q None result txt else g_return ()) (\<lambda>_.
     g_bind (g_get (sv_platform sv)) (\<lambda>pl.
     g_bind (g_event sv q ''effect.completed.v1'' EffectClass
       (JObj [(''decision_id'', JStr (pd_decision_id d)),
         (''content_hash'', JStr (pl_sha256_hex pl (qr_bytes result))),
         (''size'', j_nat (length (qr_bytes result))),
         (''resource_authority'', authority_json (po_resource_authority (pd_obligations d)))])) (\<lambda>_.
     g_return \<lparr>rr_media_type = qr_media_type result, rr_bytes = qr_bytes result\<rparr>))))
    (completion_post sv q d streamed result)"
  by (rule yields_mono [OF yields_seq [OF maybe_release_yields yields_seq [OF yields_get
        yields_seq [OF event_yields yields_return]]]])
    (use assms in \<open>fastforce simp: seq_post_def completion_post_def completed_event_def\<close>)

lemma completion_bind_silent:
  assumes "silent m" "\<And>x. yields (f x) (completion_post sv q d streamed result)"
  shows "yields (g_bind m f) (completion_post sv q d streamed result)"
  using assms by (rule yields_bind) (auto simp: completion_post_def)

lemma release_effect_yields:
  "yields (release_effect sv q d streamed result) (completion_post sv q d streamed result)"
  unfolding release_effect_def
proof (rule completion_bind_silent [OF owner_silent], goal_cases)
  case 1
  show ?case
    by (split if_split, intro conjI impI effect_failed_completion)
      (split if_split, intro conjI impI effect_failed_completion complete_yields; simp)
qed

lemma execution_failed_yields:
  "yields (execution_failed sv q error) (\<lambda>t r. list_all is_appended t \<and> (\<exists>e. r = Inl e))"
proof (cases error)
  case (XOutcomeUnknown m)
  have next_step: "yields (case owned of Inl (e :: GatewayError) \<Rightarrow> g_fail (GOutcomeUnknown m)
     | Inr _ \<Rightarrow> g_bind (g_event sv q ''effect.outcome_unknown.v1'' EffectClass p) (\<lambda>_. g_fail (GOutcomeUnknown m)))
     (\<lambda>t r. list_all is_appended t \<and> (\<exists>e. r = Inl e))" for owned :: "GatewayError + unit" and p
    by (cases owned) (auto intro!: yields_mono [OF yields_seq [OF event_yields yields_fail]]
        yields_mono [OF yields_fail] simp: seq_post_def)
  show ?thesis
    unfolding XOutcomeUnknown execution_failed.simps
    by (rule yields_mono [OF yields_seq [OF yields_catch [OF fence_silent] next_step]]) (auto simp: seq_post_def)
qed (auto intro: effect_failed_yields yields_mono [OF yields_fail])

section \<open>Executors\<close>

lemma tick_yields:
  assumes "yields (drive sv k) Q" "\<And>e. Q [] (Inl e)"
  shows "yields (drive sv (OwnershipTick k)) Q"
proof -
  have next_step: "yields (case owned of Inl (e :: GatewayError) \<Rightarrow> g_fail (XOutcomeUnknown OWNER_LOST)
      | Inr _ \<Rightarrow> drive sv k) Q" for owned :: "GatewayError + unit"
    using assms by (cases owned) (auto intro: yields_mono [OF yields_fail])
  have "yields (g_bind (g_catch (verify_execution_fence sv)) (\<lambda>owned. case owned of
      Inl (e :: GatewayError) \<Rightarrow> g_fail (XOutcomeUnknown OWNER_LOST) | Inr _ \<Rightarrow> drive sv k)) Q"
    by (rule yields_mono [OF yields_seq [OF yields_catch [OF fence_silent] next_step]]) (auto simp: seq_post_def)
  with assms show ?thesis by simp
qed

lemma act_yields:
  assumes "\<And>s s' k. f s = (s', k) \<Longrightarrow>
    \<exists>t0 Q0. gw_trace s' = gw_trace s @ t0 \<and> yields (drive sv k) Q0 \<and> (\<forall>t r. Q0 t r \<longrightarrow> Q (t0 @ t) r)"
  shows "yields (drive sv (Act f)) Q"
  unfolding yields_def
proof
  fix s
  obtain s' k where fs: "f s = (s', k)" by (cases "f s")
  obtain t0 Q0 where 1: "gw_trace s' = gw_trace s @ t0" "yields (drive sv k) Q0" "\<forall>t r. Q0 t r \<longrightarrow> Q (t0 @ t) r"
    using assms [OF fs] by blast
  obtain t where "gw_trace (fst (drive sv k s')) = gw_trace s' @ t" "Q0 t (snd (drive sv k s'))"
    using 1(2) unfolding yields_def by blast
  with fs 1 show "\<exists>t. gw_trace (fst (drive sv (Act f) s)) = gw_trace s @ t \<and> Q t (snd (drive sv (Act f) s))"
    by (auto intro!: exI [of _ "t0 @ t"])
qed

lemma lift_run_silent: "silent (drive sv (lift_run run))"
proof (induction run)
  case (Act f)
  show ?case
    unfolding lift_run.simps
  proof (rule act_yields)
    fix s s' k
    assume eq: "(case map_prod id lift_run (f (gw_world s)) of (w, k) \<Rightarrow> (s\<lparr>gw_world := w\<rparr>, k)) = (s', k)"
    obtain w k0 where f: "f (gw_world s) = (w, k0)" by (cases "f (gw_world s)")
    have "silent (drive sv (lift_run k0))"
      by (rule Act.IH [OF rangeI [of f "gw_world s"]]) (simp add: f)
    with eq f show "\<exists>t0 Q0. gw_trace s' = gw_trace s @ t0 \<and> yields (drive sv k) Q0 \<and> (\<forall>t r. Q0 t r \<longrightarrow> t0 @ t = [])"
      by (intro exI [of _ "[]"] exI [of _ "\<lambda>t r. t = []"]) auto
  qed
next
  case (OwnershipTick k)
  then show ?case unfolding lift_run.simps by (rule tick_yields) simp
qed (auto intro: yields_mono [OF yields_return])

section \<open>Streams\<close>

definition released_of :: "QuarantinedEffectResult \<Rightarrow> ReleasedEffectResult" where
  "released_of result = \<lparr>rr_media_type = qr_media_type result, rr_bytes = qr_bytes result\<rparr>"

definition chunk_event :: "Platform \<Rightarrow> EffectRequest \<Rightarrow> nat \<Rightarrow> nat \<Rightarrow> QuarantinedEffectResult \<Rightarrow> NewEvent" where
  "chunk_event pl q v n result = new_event q v ''effect.chunk_released.v1'' EffectClass
     (JObj [(''content_hash'', JStr (pl_sha256_hex pl (qr_bytes result))),
         (''size'', j_nat (length (qr_bytes result))), (''sequence'', j_nat n),
         (''media_type'', JStr (qr_media_type result))])"

text \<open>The interactions that precede the delivery of one chunk to the observer.\<close>

definition chunk_cleared ::
    "'w Services \<Rightarrow> EffectRequest \<Rightarrow> PolicyObligations \<Rightarrow> QuarantinedEffectResult \<Rightarrow> observation list \<Rightarrow> bool" where
  "chunk_cleared sv q ob chunk t = (\<exists>pre w v n. t = pre @ [Appended (chunk_event (sv_platform sv w) q v n chunk)]
     \<and> list_all before_execution pre
     \<and> (po_require_post_effect ob \<longrightarrow> release_allowed sv q (Some n) chunk pre))"

text \<open>
  The interactions of a stream whose sink has counted \<open>used\<close> bytes: chunks that were cleared and
  fit the limit, each followed by its delivery, and then nothing that is delivered.
\<close>

inductive stream_trace ::
    "'w Services \<Rightarrow> EffectRequest \<Rightarrow> PolicyObligations \<Rightarrow> nat \<Rightarrow> observation list \<Rightarrow> bool"
  for sv :: "'w Services" and q :: EffectRequest and ob :: PolicyObligations where
  quiet: "list_all before_execution t \<Longrightarrow> stream_trace sv q ob used t"
| chunk: "chunk_cleared sv q ob c t1 \<Longrightarrow> qr_effect_succeeded c
    \<Longrightarrow> tot = saturating_add64 used (length (qr_bytes c)) \<Longrightarrow> tot \<le> po_max_output_bytes ob
    \<Longrightarrow> stream_trace sv q ob tot t2 \<Longrightarrow> stream_trace sv q ob used (t1 @ Observed (released_of c) # t2)"

definition chunk_post ::
    "'w Services \<Rightarrow> EffectRequest \<Rightarrow> PolicyObligations \<Rightarrow> QuarantinedEffectResult \<Rightarrow> observation list
      \<Rightarrow> (GatewayError, ReleasedEffectResult) result \<Rightarrow> bool" where
  "chunk_post sv q ob c t r = (case r of
      Inl _ \<Rightarrow> list_all before_execution t
    | Inr x \<Rightarrow> x = released_of c \<and> chunk_cleared sv q ob c t)"

lemma release_stream_chunk_yields: "yields (release_stream_chunk sv q ob n c) (chunk_post sv q ob c)"
  unfolding release_stream_chunk_def
proof (rule yields_mono [OF yields_seq [OF owner_silent yields_seq [OF maybe_release_yields
      yields_seq [OF yields_get yields_seq [OF event_yields yields_return]]]]], goal_cases)
  case (1 t r)
  then show ?case
    by (auto simp: seq_post_def chunk_post_def chunk_cleared_def chunk_event_def released_of_def) blast+
qed

text \<open>One submission to a sink that has not failed: refused, or cleared, counted and delivered.\<close>

definition delivered ::
    "'w Services \<Rightarrow> EffectRequest \<Rightarrow> GatewayStreamSink \<Rightarrow> QuarantinedEffectResult \<Rightarrow> observation list
      \<Rightarrow> GatewayStreamSink \<Rightarrow> bool" where
  "delivered sv q sink c t sink' = (\<exists>t1. t = t1 @ [Observed (released_of c)]
     \<and> chunk_cleared sv q (sink_obligations sink) c t1 \<and> qr_effect_succeeded c
     \<and> sink_total_bytes sink' = saturating_add64 (sink_total_bytes sink) (length (qr_bytes c))
     \<and> sink_total_bytes sink' \<le> po_max_output_bytes (sink_obligations sink)
     \<and> (sink_failure sink' = None \<longrightarrow> sink_last sink' = Some c))"

lemma deliver_observe:
  "\<exists>r. g_bind (g_note (Observed x)) (\<lambda>_. g_call (observer x)) s
     = (\<lparr>gw_world = fst (observer x (gw_world s)), gw_trace = gw_trace s @ [Observed x]\<rparr>, Inr r)"
  by (cases s; cases "observer x (gw_world s)") (auto simp: g_bind_def g_note_def g_call_def)

lemma sink_release_cases:
  assumes rel: "release_stream_chunk sv q ob n c s = (s1, r1)"
  obtains t where "gw_trace s1 = gw_trace s @ t" "chunk_post sv q ob c t r1"
  using release_stream_chunk_yields [of sv q ob n c] rel unfolding yields_def by (metis fst_conv snd_conv)

lemma sink_observe_cases:
  assumes ok: "sink_failure sink = None"
    and obs: "sink_observe sv observer q sink c s = (s', sink', r)"
  obtains t where "gw_trace s' = gw_trace s @ t" "sink_obligations sink' = sink_obligations sink"
    "sink_failure sink' \<noteq> None \<and> list_all before_execution t \<or> delivered sv q sink c t sink'"
proof -
  let ?total = "saturating_add64 (sink_total_bytes sink) (length (qr_bytes c))"
  let ?ob = "sink_obligations sink" and ?n = "saturating_add64 (sink_sequence sink) 1"
  obtain s1 r1 where rel: "release_stream_chunk sv q ?ob ?n c s = (s1, r1)"
    by (cases "release_stream_chunk sv q ?ob ?n c s")
  obtain t where t: "gw_trace s1 = gw_trace s @ t" "chunk_post sv q ?ob c t r1"
    by (rule sink_release_cases [OF rel])
  consider (bad) "\<not> qr_effect_succeeded c" | (over) "qr_effect_succeeded c" "?total > po_max_output_bytes ?ob"
    | (refused) e where "qr_effect_succeeded c" "?total \<le> po_max_output_bytes ?ob" "r1 = Inl e"
    | (cleared) x where "qr_effect_succeeded c" "?total \<le> po_max_output_bytes ?ob" "r1 = Inr x"
    by (cases r1) fastforce+
  then show thesis
  proof cases
    case bad
    with ok obs that [of "[]"] show thesis by (auto simp: sink_observe_def sink_fail_def)
  next
    case over
    with ok obs that [of "[]"] show thesis by (auto simp: sink_observe_def sink_fail_def Let_def)
  next
    case refused
    with ok obs rel t that [of t] show thesis
      by (auto simp: sink_observe_def sink_fail_def Let_def not_less chunk_post_def split: GatewayError.splits)
  next
    case cleared
    obtain a where a: "g_bind (g_note (Observed x)) (\<lambda>_. g_call (observer x)) s1
        = (\<lparr>gw_world = fst (observer x (gw_world s1)), gw_trace = gw_trace s1 @ [Observed x]\<rparr>,
           (Inr a :: (ExecutionError, (ExecutionError, unit) result) result))"
      using deliver_observe [where x = x and observer = observer and s = s1] by metis
    from cleared ok obs rel a t that [of "t @ [Observed x]"] show thesis
      by (auto simp: sink_observe_def sink_fail_def Let_def not_less chunk_post_def delivered_def split: sum.splits)
  qed
qed

lemma sink_observe_failed:
  "sink_failure sink = Some e \<Longrightarrow> sink_observe sv observer q sink c s = (s, sink, Inl (sink_error e))"
  by (simp add: sink_observe_def)

definition streamed_post ::
    "'w Services \<Rightarrow> EffectRequest \<Rightarrow> GatewayStreamSink \<Rightarrow> observation list
      \<Rightarrow> (ExecutionError, (ExecutionError, QuarantinedEffectResult) result option) result \<Rightarrow> bool" where
  "streamed_post sv q sink t r = (
     if sink_failure sink \<noteq> None then t = [] \<and> (\<forall>x. r \<noteq> Inr (Some (Inr x)))
     else stream_trace sv q (sink_obligations sink) (sink_total_bytes sink) t
       \<and> (\<forall>x. r = Inr (Some (Inr x)) \<longrightarrow> sink_last sink = Some x \<and> list_all before_execution t
            \<or> (\<exists>a b. t = a @ Observed (released_of x) # b \<and> list_all before_execution b)))"

lemma submitted_post:
  assumes ok: "sink_failure sink = None" and ob: "sink_obligations sink' = sink_obligations sink"
    and step: "sink_failure sink' \<noteq> None \<and> list_all before_execution t0 \<or> delivered sv q sink c t0 sink'"
    and rest: "streamed_post sv q sink' t r"
  shows "streamed_post sv q sink (t0 @ t) r"
  using step
proof
  assume "sink_failure sink' \<noteq> None \<and> list_all before_execution t0"
  with ok rest show ?thesis by (auto simp: streamed_post_def intro: stream_trace.quiet)
next
  assume "delivered sv q sink c t0 sink'"
  then obtain t1 where t1: "t0 = t1 @ [Observed (released_of c)]" "chunk_cleared sv q (sink_obligations sink) c t1"
    "qr_effect_succeeded c"
    "sink_total_bytes sink' = saturating_add64 (sink_total_bytes sink) (length (qr_bytes c))"
    "sink_total_bytes sink' \<le> po_max_output_bytes (sink_obligations sink)"
    "sink_failure sink' = None \<longrightarrow> sink_last sink' = Some c"
    by (auto simp: delivered_def)
  have "stream_trace sv q (sink_obligations sink) (sink_total_bytes sink') t"
    using rest ob by (auto simp: streamed_post_def intro: stream_trace.quiet split: if_splits)
  with t1 have "stream_trace sv q (sink_obligations sink) (sink_total_bytes sink) (t0 @ t)"
    using stream_trace.chunk by fastforce
  moreover have "\<exists>a b. t0 @ t = a @ Observed (released_of x) # b \<and> list_all before_execution b"
    if "r = Inr (Some (Inr x))" for x
    using rest that t1 unfolding streamed_post_def by (auto split: if_splits) (metis append.assoc append_Cons)
  ultimately show ?thesis using ok by (auto simp: streamed_post_def)
qed

lemma submit_yields:
  assumes k: "\<And>r sink. yields (drive sv (bridge sv observer q (k r) sink)) (streamed_post sv q sink)"
  shows "yields (drive sv (bridge sv observer q (Submit c k) sink)) (streamed_post sv q sink)"
  unfolding bridge.simps
proof (rule act_yields)
  fix s s' rest
  assume eq: "(case sink_observe sv observer q sink c s of (s', sink', r) \<Rightarrow> (s', bridge sv observer q (k r) sink'))
      = (s', rest)"
  obtain sink' r where obs: "sink_observe sv observer q sink c s = (s', sink', r)"
    and rest: "rest = bridge sv observer q (k r) sink'"
    using eq by (auto split: prod.splits)
  show "\<exists>t0 Q0. gw_trace s' = gw_trace s @ t0 \<and> yields (drive sv rest) Q0
      \<and> (\<forall>t r. Q0 t r \<longrightarrow> streamed_post sv q sink (t0 @ t) r)"
  proof (cases "sink_failure sink")
    case None
    from sink_observe_cases [OF None obs] obtain t0 where "gw_trace s' = gw_trace s @ t0"
      "\<And>t r. streamed_post sv q sink' t r \<Longrightarrow> streamed_post sv q sink (t0 @ t) r"
      using submitted_post [OF None] by metis
    with k rest show ?thesis by blast
  next
    case (Some e)
    with obs have "s' = s" "sink' = sink" by (auto simp: sink_observe_failed)
    with k rest show ?thesis by (intro exI [of _ "[]"] exI [of _ "streamed_post sv q sink"]) simp
  qed
qed

lemma stream_act_yields:
  assumes k: "\<And>w sink. yields (drive sv (bridge sv observer q (snd (f w)) sink)) (streamed_post sv q sink)"
  shows "yields (drive sv (bridge sv observer q (SAct f) sink)) (streamed_post sv q sink)"
  unfolding bridge.simps
proof (rule act_yields)
  fix s s' rest
  assume "(case map_prod id (bridge sv observer q) (f (gw_world s)) of (w, k) \<Rightarrow> (s\<lparr>gw_world := w\<rparr>, k sink)) = (s', rest)"
  then have "gw_trace s' = gw_trace s" "rest = bridge sv observer q (snd (f (gw_world s))) sink"
    by (auto simp: map_prod_def split: prod.splits)
  with k [of "gw_world s" sink] show "\<exists>t0 Q0. gw_trace s' = gw_trace s @ t0 \<and> yields (drive sv rest) Q0
      \<and> (\<forall>t r. Q0 t r \<longrightarrow> streamed_post sv q sink (t0 @ t) r)"
    by (intro exI [of _ "[]"] exI [of _ "streamed_post sv q sink"]) simp
qed

lemma bridge_yields: "yields (drive sv (bridge sv observer q run sink)) (streamed_post sv q sink)"
proof (induction run arbitrary: sink)
  case (SReturned r)
  show ?case
    by (simp, rule yields_mono [OF yields_return])
      (auto simp: streamed_post_def bridge_finish_def bind_r_def intro: stream_trace.quiet split: sum.splits if_splits)
next
  case SElapsed
  show ?case
    by (simp, rule yields_mono [OF yields_return]) (auto simp: streamed_post_def intro: stream_trace.quiet)
next
  case (STick k)
  show ?case
    unfolding bridge.simps
    by (rule tick_yields [OF STick.IH]) (auto simp: streamed_post_def intro: stream_trace.quiet)
next
  case (SAct f)
  show ?case
    by (rule stream_act_yields, rule SAct.IH [OF rangeI]) (simp add: snds.simps)
next
  case (Submit c k)
  show ?case by (rule submit_yields, rule Submit.IH) simp
qed

section \<open>The whole effect\<close>

text \<open>What a run of the executor owes, given the interactions and the outcome of driving it.\<close>

type_synonym run_contract = "EffectRequest \<Rightarrow> ExecutionPermit \<Rightarrow> observation list
  \<Rightarrow> (ExecutionError, (ExecutionError, QuarantinedEffectResult) result option) result \<Rightarrow> bool"

lemma execute_owned_yields:
  assumes run: "yields (drive sv (executor q p)) (D q p)"
  shows "yields (execute_owned sv q executor p) (\<lambda>t r. t = [] \<and> (\<exists>e. r = Inl e)
     \<or> (\<exists>t' r'. t = Executed q p # t' \<and> D q p t' r' \<and> (\<forall>x. r = Inr x \<longrightarrow> r' = Inr (Some (Inr x)))))"
proof -
  have owner: "yields (g_bind (g_catch (verify_started_owner sv)) (\<lambda>r.
      g_bind (g_lift (map_err (\<lambda>_. XOutcomeUnknown OWNER_LOST) r)) f)) (seq_post (\<lambda>t r. t = []) (\<lambda>_. Q))"
    if "\<And>u. yields (f u) Q" for f :: "unit \<Rightarrow> ('a, ExecutionError, 'x) step" and Q
    by (rule yields_mono [OF yields_seq [OF yields_catch [OF owner_silent] yields_seq [OF yields_lift that]]])
      (auto simp: seq_post_def)
  show ?thesis
    unfolding execute_owned_def
    by (rule yields_mono [OF owner [OF yields_seq [OF yields_note yields_seq [OF run owner [OF yields_lift]]]]])
      (auto simp: seq_post_def split: option.splits; blast)
qed

definition ran_post ::
    "'w Services \<Rightarrow> run_contract \<Rightarrow> bool \<Rightarrow> EffectRequest \<Rightarrow> PolicyDecision \<Rightarrow> ExecutionPermit \<Rightarrow> observation list
      \<Rightarrow> (GatewayError, ReleasedEffectResult) result \<Rightarrow> bool" where
  "ran_post sv D streamed q d p t r = (\<exists>t1 t2 r'. t = t1 @ t2 \<and> D q p t1 r' \<and> list_all before_execution t2
     \<and> (\<forall>x. r = Inr x \<longrightarrow> (\<exists>result. r' = Inr (Some (Inr result)) \<and> completion_post sv q d streamed result t2 r)))"

lemma finish_yields:
  "yields (case outcome of Inl error \<Rightarrow> execution_failed sv q error | Inr result \<Rightarrow> release_effect sv q d streamed result)
    (\<lambda>t r. list_all before_execution t
       \<and> (\<forall>x. r = Inr x \<longrightarrow> (\<exists>result. outcome = Inr result \<and> completion_post sv q d streamed result t r)))"
  by (cases outcome) (auto intro!: yields_mono [OF execution_failed_yields] yields_mono [OF release_effect_yields]
      simp: completion_post_def)

lemma run_and_finish_yields:
  assumes run: "yields (drive sv (executor q p)) (D q p)"
  shows "yields (g_bind (g_catch (execute_owned sv q executor p)) (\<lambda>outcome. case outcome of
       Inl error \<Rightarrow> execution_failed sv q error | Inr result \<Rightarrow> release_effect sv q d streamed result))
    (\<lambda>t r. list_all before_execution t \<and> (\<exists>e. r = Inl e)
     \<or> (\<exists>t'. t = Executed q p # t' \<and> ran_post sv D streamed q d p t' r))"
    (is "yields _ ?Q")
proof (rule yields_bind [OF yields_catch [OF execute_owned_yields [of sv executor q p D, OF run]] finish_yields])
  fix t1 t2 x r
  assume 1: "\<exists>y. Inr x = Inr y \<and> (t1 = [] \<and> (\<exists>e. y = Inl e)
       \<or> (\<exists>t' r'. t1 = Executed q p # t' \<and> D q p t' r' \<and> (\<forall>z. y = Inr z \<longrightarrow> r' = Inr (Some (Inr z)))))"
    and 2: "list_all before_execution t2
       \<and> (\<forall>y. r = Inr y \<longrightarrow> (\<exists>result. x = Inr result \<and> completion_post sv q d streamed result t2 r))"
  from 1 consider (lost) e where "t1 = []" "x = Inl e"
    | (ran) t' r' where "t1 = Executed q p # t'" "D q p t' r'" "\<forall>y. x = Inr y \<longrightarrow> r' = Inr (Some (Inr y))"
    by blast
  then show "?Q (t1 @ t2) r"
  proof cases
    case lost
    with 2 show ?thesis by (cases r) auto
  next
    case ran
    have "\<exists>result. r' = Inr (Some (Inr result)) \<and> completion_post sv q d streamed result t2 r" if "r = Inr y" for y
      using 2 that ran(3) by auto
    with 2 ran(2) have "ran_post sv D streamed q d p (t' @ t2) r"
      unfolding ran_post_def by (intro exI [of _ t'] exI [of _ t2] exI [of _ r']) simp
    with ran show ?thesis by simp
  qed
qed auto

definition started_post ::
    "'w Services \<Rightarrow> run_contract \<Rightarrow> bool \<Rightarrow> EffectRequest \<Rightarrow> PolicyDecision \<Rightarrow> observation list
      \<Rightarrow> (GatewayError, ReleasedEffectResult) result \<Rightarrow> bool" where
  "started_post sv D streamed q d t r = (list_all before_execution t \<and> (\<exists>e. r = Inl e)
     \<or> (\<exists>v p t'. t = [Appended (started_event q v d p), Executed q p] @ t'
         \<and> permit_for sv q d p \<and> ran_post sv D streamed q d p t' r))"

lemma start_and_run_yields:
  assumes run: "\<And>q p. yields (drive sv (executor q p)) (D q p)"
  shows "yields (g_bind (start_effect sv q d) (\<lambda>permit.
     g_bind (g_catch (execute_owned sv q executor permit)) (\<lambda>outcome. case outcome of
       Inl error \<Rightarrow> execution_failed sv q error | Inr result \<Rightarrow> release_effect sv q d streamed result)))
    (started_post sv D streamed q d)"
proof (rule yields_bind [OF start_effect_yields run_and_finish_yields [where D = D, OF run]])
  fix t e
  assume "start_post sv q d t (Inl e)"
  then show "started_post sv D streamed q d t (Inl e)" by (simp add: start_post_def started_post_def)
next
  fix t1 t2 p r
  assume 1: "start_post sv q d t1 (Inr p)"
    and 2: "list_all before_execution t2 \<and> (\<exists>e. r = Inl e)
     \<or> (\<exists>t'. t2 = Executed q p # t' \<and> ran_post sv D streamed q d p t' r)"
  from 1 obtain v where "permit_for sv q d p" "t1 = [Appended (started_event q v d p)]"
    by (auto simp: start_post_def)
  with 2 show "started_post sv D streamed q d (t1 @ t2) r"
    unfolding started_post_def by fastforce
qed

text \<open>
  The whole invocation. Either nothing executed and an error is returned, or the effect
  executed once: after a sanctioned decision, under a permit for it, and with its start in the
  journal.
\<close>

definition executed_post ::
    "'w Services \<Rightarrow> EffectRequest \<Rightarrow> run_contract \<Rightarrow> bool \<Rightarrow> observation list
      \<Rightarrow> (GatewayError, ReleasedEffectResult) result \<Rightarrow> bool" where
  "executed_post sv request D streamed t r = (list_all before_execution t \<and> (\<exists>e. r = Inl e)
     \<or> (\<exists>pre v q d p t'. t = pre @ [Appended (started_event q v d p), Executed q p] @ t'
         \<and> list_all before_execution pre \<and> sanctioned sv pre q d \<and> admitted sv request q \<and> permit_for sv q d p
         \<and> ran_post sv D streamed q d p t' r))"

lemma execute_internal_yields:
  assumes run: "\<And>q p. yields (drive sv (executor q p)) (D q p)"
  shows "yields (execute_internal sv request executor streamed) (executed_post sv request D streamed)"
  unfolding execute_internal_def
proof (rule yields_bind [OF authorize_effect_yields, where R = "\<lambda>(q, d). started_post sv D streamed q d"])
  fix x :: "EffectRequest \<times> PolicyDecision"
  show "yields (case x of (q, d) \<Rightarrow> g_bind (start_effect sv q d) (\<lambda>permit.
     g_bind (g_catch (execute_owned sv q executor permit)) (\<lambda>outcome. case outcome of
       Inl error \<Rightarrow> execution_failed sv q error | Inr result \<Rightarrow> release_effect sv q d streamed result)))
    ((\<lambda>(q, d). started_post sv D streamed q d) x)"
    by (cases x) (simp add: start_and_run_yields [where D = D, OF run])
next
  fix t1 t2 x r
  assume 1: "authorized_post sv request t1 (Inr x)" and 2: "(\<lambda>(q, d). started_post sv D streamed q d) x t2 r"
  obtain q d where x: "x = (q, d)" by (cases x)
  from 1 x have pre: "list_all before_execution t1" "sanctioned sv t1 q d" "admitted sv request q"
    by (auto simp: authorized_post_def)
  from 2 x have "started_post sv D streamed q d t2 r" by simp
  then consider "list_all before_execution t2 \<and> (\<exists>e. r = Inl e)"
    | v p t' where "t2 = [Appended (started_event q v d p), Executed q p] @ t'" "permit_for sv q d p"
        "ran_post sv D streamed q d p t' r"
    unfolding started_post_def by blast
  then show "executed_post sv request D streamed (t1 @ t2) r"
    unfolding executed_post_def using pre by cases (simp, blast)
qed (auto simp: authorized_post_def executed_post_def)

section \<open>Reading the trace of an invocation\<close>

definition executed_free :: "observation list \<Rightarrow> bool" where
  "executed_free t = (\<forall>q p. Executed q p \<notin> set t)"

lemma executed_free_simps [simp]:
  "executed_free []" "executed_free (a @ b) \<longleftrightarrow> executed_free a \<and> executed_free b"
  "executed_free (Observed x # t) \<longleftrightarrow> executed_free t" "executed_free (Appended e # t) \<longleftrightarrow> executed_free t"
  "\<not> executed_free (Executed q p # t)"
  by (auto simp: executed_free_def)

lemma before_executed_free [simp]: "list_all before_execution t \<Longrightarrow> executed_free t"
  by (force simp: list_all_iff executed_free_def)

lemma executed_unique:
  assumes "a @ Executed q p # b = pre @ Executed q' p' # post" "executed_free a" "executed_free b"
  shows "a = pre \<and> q = q' \<and> p = p' \<and> b = post"
  using assms
proof (induction a arbitrary: pre)
  case Nil
  then show ?case by (cases pre) auto
next
  case (Cons ob a)
  then show ?case by (cases pre) (auto simp: executed_free_def)
qed

definition ran_at ::
    "'w Services \<Rightarrow> EffectRequest \<Rightarrow> run_contract \<Rightarrow> bool \<Rightarrow> observation list \<Rightarrow> EffectRequest \<Rightarrow> PolicyDecision
      \<Rightarrow> ExecutionPermit \<Rightarrow> observation list \<Rightarrow> (GatewayError, ReleasedEffectResult) result \<Rightarrow> bool" where
  "ran_at sv request D streamed pre q d p post r = (\<exists>before v. pre = before @ [Appended (started_event q v d p)]
     \<and> list_all before_execution before \<and> sanctioned sv before q d \<and> admitted sv request q \<and> permit_for sv q d p
     \<and> ran_post sv D streamed q d p post r)"

lemma ran_post_executed_free:
  assumes "ran_post sv D streamed q d p t r" "\<And>t r. D q p t r \<Longrightarrow> executed_free t"
  shows "executed_free t"
  using assms unfolding ran_post_def by auto

lemma executed_post_split:
  assumes post: "executed_post sv request D streamed (pre @ Executed q p # post) r"
    and free: "\<And>q p t r. D q p t r \<Longrightarrow> executed_free t"
  obtains d where "ran_at sv request D streamed pre q d p post r" "executed_free post"
proof -
  from post obtain before v q' d p' t' where
    eq: "pre @ Executed q p # post = (before @ [Appended (started_event q' v d p')]) @ Executed q' p' # t'"
    and before: "list_all before_execution before" "sanctioned sv before q' d" "admitted sv request q'"
      "permit_for sv q' d p'" and ran: "ran_post sv D streamed q' d p' t' r"
    unfolding executed_post_def by auto
  have t': "executed_free t'" by (rule ran_post_executed_free [OF ran free])
  from executed_unique [OF eq [symmetric]] before t'
  have "pre = before @ [Appended (started_event q' v d p')]" "q = q'" "p = p'" "post = t'" by auto
  with before ran t' that show thesis unfolding ran_at_def by blast
qed

lemma executed_post_released:
  assumes post: "executed_post sv request D streamed t (Inr x)"
  obtains pre q d p post where "t = pre @ Executed q p # post" "ran_at sv request D streamed pre q d p post (Inr x)"
proof -
  from post obtain before v q d p t' where
    "t = (before @ [Appended (started_event q v d p)]) @ Executed q p # t'" "list_all before_execution before"
    "sanctioned sv before q d" "admitted sv request q" "permit_for sv q d p"
    "ran_post sv D streamed q d p t' (Inr x)"
    unfolding executed_post_def by auto
  with that show thesis unfolding ran_at_def by blast
qed

text \<open>What an adapter may return, whatever the world answers it.\<close>

inductive may_return :: "'w run \<Rightarrow> QuarantinedEffectResult \<Rightarrow> bool" where
  "may_return (Returned (Inr x)) x"
| "may_return k x \<Longrightarrow> may_return (OwnershipTick k) x"
| "may_return (snd (f w)) x \<Longrightarrow> may_return (Act f) x"

lemma lift_run_yields:
  "yields (drive sv (lift_run run)) (\<lambda>t r. t = [] \<and> (\<forall>x. r = Inr (Some (Inr x)) \<longrightarrow> may_return run x))"
proof (induction run)
  case (Act f)
  show ?case
    unfolding lift_run.simps
  proof (rule act_yields)
    fix s s' k
    assume eq: "(case map_prod id lift_run (f (gw_world s)) of (w, k) \<Rightarrow> (s\<lparr>gw_world := w\<rparr>, k)) = (s', k)"
    let ?Q = "\<lambda>t r. t = [] \<and> (\<forall>x. r = Inr (Some (Inr x)) \<longrightarrow> may_return (snd (f (gw_world s))) x)"
    have "yields (drive sv (lift_run (snd (f (gw_world s))))) ?Q"
      by (rule Act.IH [OF rangeI [of f "gw_world s"]]) (simp add: snds.simps)
    moreover have "gw_trace s' = gw_trace s" "k = lift_run (snd (f (gw_world s)))"
      using eq by (auto simp: map_prod_def split: prod.splits)
    ultimately show "\<exists>t0 Q0. gw_trace s' = gw_trace s @ t0 \<and> yields (drive sv k) Q0 \<and> (\<forall>t r. Q0 t r \<longrightarrow>
        t0 @ t = [] \<and> (\<forall>x. r = Inr (Some (Inr x)) \<longrightarrow> may_return (Act f) x))"
      by (intro exI [of _ "[]"] exI [of _ ?Q]) (auto intro: may_return.intros)
  qed
next
  case (OwnershipTick k)
  show ?case
    unfolding lift_run.simps
    by (rule tick_yields [OF yields_mono [OF OwnershipTick.IH]]) (auto intro: may_return.intros)
qed (auto intro!: yields_mono [OF yields_return] may_return.intros)

definition plain_run :: "(EffectRequest \<Rightarrow> ExecutionPermit \<Rightarrow> 'w run) \<Rightarrow> run_contract" where
  "plain_run adapter q p t r = (t = [] \<and> (\<forall>x. r = Inr (Some (Inr x)) \<longrightarrow> may_return (adapter q p) x))"

definition streamed_run :: "'w Services \<Rightarrow> run_contract" where
  "streamed_run sv q p t r = (stream_trace sv q (ep_obligations p) 0 t
     \<and> (\<forall>x. r = Inr (Some (Inr x)) \<longrightarrow> (\<exists>a b. t = a @ Observed (released_of x) # b \<and> list_all before_execution b)))"

lemma gateway_execute_yields:
  "yields (gateway_execute sv request adapter) (executed_post sv request (plain_run adapter) False)"
  unfolding gateway_execute_def
  by (rule execute_internal_yields) (rule yields_mono [OF lift_run_yields], simp add: plain_run_def)

lemma gateway_execute_stream_yields:
  "yields (gateway_execute_stream sv request adapter observer) (executed_post sv request (streamed_run sv) True)"
  unfolding gateway_execute_stream_def
  by (rule execute_internal_yields)
    (rule yields_mono [OF bridge_yields], auto simp: streamed_run_def streamed_post_def sink_new_def)

lemma stream_trace_executed_free: "stream_trace sv q ob used t \<Longrightarrow> executed_free t"
  by (induction rule: stream_trace.induct) (auto simp: chunk_cleared_def)

lemma run_contracts_executed_free:
  "plain_run adapter q p t r \<Longrightarrow> executed_free t" "streamed_run sv q p t r \<Longrightarrow> executed_free t"
  by (auto simp: plain_run_def streamed_run_def intro: stream_trace_executed_free)

lemma yields_run:
  assumes "yields m Q" "m s = (s', r)" "gw_trace s' = gw_trace s @ t"
  shows "Q t r"
  using assms unfolding yields_def by (metis fst_conv same_append_eq snd_conv)

end
