(* ===== verification/GatewayCompletion.thy ===== *)
theory GatewayCompletion
  imports GatewaySafety
begin

text \<open>
  The converse of the safety of the effect gateway: when its services answer, policy allows and
  the adapter returns, the effect is executed and its result, or every chunk of its stream, is
  released.
\<close>

section \<open>Steps that end\<close>

text \<open>
  Steps that end with a result, for services that answer. These are the rules for the converse
  of safety: an effect that everyone allows is executed and its result is released.
\<close>

definition ends :: "('w, 'e, 'a) step \<Rightarrow> ('a \<Rightarrow> bool) \<Rightarrow> bool" where
  "ends m Q = (\<forall>s. \<exists>x. snd (m s) = Inr x \<and> Q x)"

lemma ends_bind:
  assumes m: "ends m P" and f: "\<And>x. P x \<Longrightarrow> ends (f x) Q"
  shows "ends (g_bind m f) Q"
  unfolding ends_def
proof
  fix s
  obtain s' r where s': "m s = (s', r)" by (cases "m s")
  with m obtain x where "r = Inr x" "P x" unfolding ends_def by (metis snd_conv)
  with s' f [of x] show "\<exists>y. snd (g_bind m f s) = Inr y \<and> Q y" by (simp add: g_bind_def ends_def)
qed

lemma ends_return: "Q x \<Longrightarrow> ends (g_return x) Q"
  by (simp add: ends_def g_return_def)

lemma ends_lift: "r = Inr x \<Longrightarrow> Q x \<Longrightarrow> ends (g_lift r) Q"
  by (simp add: ends_def g_lift_def)

lemma ends_get: "(\<And>w. Q (h w)) \<Longrightarrow> ends (g_get h) Q"
  by (simp add: ends_def g_get_def)

lemma ends_call: "(\<And>w. Q (snd (c w))) \<Longrightarrow> ends (g_call c) Q"
  by (simp add: ends_def g_call_def case_prod_unfold)

lemma ends_note: "Q () \<Longrightarrow> ends (g_note ob) Q"
  by (simp add: ends_def g_note_def)

lemma ends_catch: "ends m Q \<Longrightarrow> ends (g_catch m) (\<lambda>r. \<exists>x. r = Inr x \<and> Q x)"
  by (simp add: ends_def g_catch_def case_prod_unfold)

lemma ends_mono: "ends m P \<Longrightarrow> (\<And>x. P x \<Longrightarrow> Q x) \<Longrightarrow> ends m Q"
  unfolding ends_def by blast

text \<open>Sequences whose first step is a query of the state, a call or a value.\<close>

lemma ends_get_bind: "(\<And>w. ends (f (h w)) Q) \<Longrightarrow> ends (g_bind (g_get h) f) Q"
  by (simp add: ends_def g_bind_def g_get_def)

lemma ends_call_bind: "(\<And>w. ends (f (snd (c w))) Q) \<Longrightarrow> ends (g_bind (g_call c) f) Q"
  by (simp add: ends_def g_bind_def g_call_def case_prod_unfold)

lemma ends_lift_bind: "r = Inr x \<Longrightarrow> ends (f x) Q \<Longrightarrow> ends (g_bind (g_lift r) f) Q"
  by simp

lemma ends_note_bind: "ends (f ()) Q \<Longrightarrow> ends (g_bind (g_note ob) f) Q"
  by (simp add: ends_def g_bind_def g_note_def)

lemma ends_True_bind: "ends m (\<lambda>_. True) \<Longrightarrow> (\<And>x. ends (f x) Q) \<Longrightarrow> ends (g_bind m f) Q"
  by (erule ends_bind) simp

text \<open>
  Services that answer: the lease is not used or held, the journal accepts events, the platform
  and the kernel do not change during the invocation, and the clock stays within the life of a
  permit.
\<close>

definition responsive :: "'w Services \<Rightarrow> Platform \<Rightarrow> SafetyKernel \<Rightarrow> bool" where
  "responsive sv pl k = (
     (\<forall>verify. sv_execution_fence sv = Some verify \<longrightarrow> (\<forall>w. snd (verify w) = Inr ()))
     \<and> (\<forall>w. \<not> sv_is_recovery_mode sv w) \<and> (\<forall>w. sv_summary_worker sv w)
     \<and> (\<forall>stream before n w. is_ok (sv_read_stream_backwards sv stream before n w))
     \<and> (\<forall>e w. is_ok (snd (sv_append sv e w)))
     \<and> (\<forall>w. sv_platform sv w = pl) \<and> (\<forall>w. sv_kernel sv w = k)
     \<and> (\<forall>w w'. snd (sv_now_unix_ms sv w') \<le> snd (sv_now_unix_ms sv w) + PERMIT_LIFETIME_MS)
     \<and> (\<forall>o'. is_ok (pl_obligations_bytes pl o')) \<and> (\<forall>q. is_ok (pl_request_bytes pl q))
     \<and> (\<forall>c. is_ok (pl_claims_bytes pl c)))"

text \<open>The policy allows a request and the kernel accepts its decision.\<close>

definition allows :: "'w Services \<Rightarrow> Platform \<Rightarrow> SafetyKernel \<Rightarrow> EffectRequest \<Rightarrow> PolicyDecision \<Rightarrow> bool" where
  "allows sv pl k q d = (\<exists>disclosed. policy_projection pl k q = Inr disclosed
     \<and> (\<forall>w. snd (sv_policy_decide sv disclosed w) = Inr d)
     \<and> validate_decision pl k q d = Inr () \<and> pd_outcome d = Allow)"

lemma is_ok_map_err: "is_ok r \<Longrightarrow> \<exists>x. map_err f r = Inr x"
  by (cases r) auto

lemma lift_err_ends: "is_ok r \<Longrightarrow> ends (g_lift (map_err f r)) (\<lambda>_. True)"
  by (drule is_ok_map_err [where f = f]) (auto intro: ends_lift)

lemma event_ends: "responsive sv pl k \<Longrightarrow> ends (g_event sv q ty cl p) (\<lambda>_. True)"
  unfolding g_event_def Let_def
  by (intro ends_get_bind ends_True_bind [OF _ ends_call_bind] ends_True_bind [OF _ ends_note] lift_err_ends)
    (simp_all add: responsive_def)

lemma fence_ends: "responsive sv pl k \<Longrightarrow> ends (verify_execution_fence sv) (\<lambda>_. True)"
  unfolding verify_execution_fence_def responsive_def
  by (auto intro!: ends_return ends_call_bind lift_err_ends split: option.splits)

lemma owner_ends: "responsive sv pl k \<Longrightarrow> ends (verify_started_owner sv) (\<lambda>_. True)"
  unfolding verify_started_owner_def
  by (rule ends_bind [OF ends_catch [OF fence_ends]]) (auto intro!: ends_lift)

lemma summary_ends: "responsive sv pl k \<Longrightarrow> ends (disclosure_summary sv q) (\<lambda>_. True)"
  unfolding disclosure_summary_def by (rule ends_get_bind) (simp add: responsive_def ends_get)

lemma decide_ends:
  assumes r: "responsive sv pl k" and a: "allows sv pl k q d"
  shows "ends (g_decide sv q) (\<lambda>x. x = d)"
proof -
  from a obtain disclosed where disclosed: "policy_projection pl k q = Inr disclosed"
    "\<And>w. snd (sv_policy_decide sv disclosed w) = Inr d" "validate_decision pl k q d = Inr ()"
    by (auto simp: allows_def)
  have const: "sv_platform sv w = pl" "sv_kernel sv w = k" for w using r by (simp_all add: responsive_def)
  have ask: "ends (g_bind (g_get (\<lambda>w. policy_projection (sv_platform sv w) (sv_kernel sv w) q)) (\<lambda>p.
       g_bind (g_lift p) (\<lambda>policy_request.
       g_bind (g_call (sv_policy_decide sv policy_request)) (\<lambda>r.
       g_lift (map_err GPolicy r))))) (\<lambda>x. x = d)"
    by (rule ends_get_bind) (simp add: const disclosed ends_call_bind ends_lift)
  show ?thesis
    unfolding g_decide_def
    by (rule ends_bind [OF ends_catch [OF ask]], clarsimp, rule ends_get_bind)
      (simp add: const disclosed ends_True_bind [OF event_ends [OF r]] ends_note_bind ends_return)
qed

lemma authorize_ends:
  assumes r: "responsive sv pl k" and a: "allows sv pl k q d"
    and req: "er_schema_version request = 1" "er_request_id request \<noteq> []" "er_phase request = PreEffect"
    and prep: "kernel_prepare pl k request = Inr q" "is_ok (pl_command_context pl request)"
  shows "ends (authorize_effect sv request) (\<lambda>x. x = (q, d))"
proof -
  obtain ctx where ctx: "pl_command_context pl request = Inr ctx" using prep(2) by (auto simp: is_ok_iff)
  have const: "sv_platform sv w = pl" "sv_kernel sv w = k" "\<not> sv_is_recovery_mode sv w" for w
    using r by (simp_all add: responsive_def)
  have allow: "pd_outcome d = Allow" using a by (auto simp: allows_def)
  have decided: "ends (g_bind (g_decide sv q) (\<lambda>decision.
         g_bind (if pd_outcome decision = RequireApproval then approve_and_redecide sv q decision ctx
           else g_return (q, decision)) (\<lambda>(request, decision).
         if pd_outcome decision \<noteq> Allow then
           g_bind (g_event sv request ty cl (payload decision)) (\<lambda>_. g_fail (err decision))
         else g_return (request, decision)))) (\<lambda>x. x = (q, d))" for ty cl payload err
    by (rule ends_bind [OF decide_ends [OF r a]])
      (simp add: allow ends_bind [OF ends_return [where Q = "\<lambda>x. x = (q, d)"]] ends_return)
  show ?thesis
    unfolding authorize_effect_def
    by (intro ends_True_bind [OF fence_ends [OF r]] ends_get_bind ends_lift_bind
        ends_True_bind [OF summary_ends [OF r]] ends_True_bind [OF event_ends [OF r]])
      (simp_all add: const req reject_if_def ctx prep decided)
qed

lemma signed_ends:
  assumes "\<exists>b. canonical_bytes enc (permit_claims p) = Inr b"
    and "\<And>b. canonical_bytes enc (permit_claims p) = Inr b \<Longrightarrow> Q (p\<lparr>ep_authentication_tag := f b\<rparr>)"
  shows "ends (g_bind (g_lift (canonical_bytes enc (permit_claims p))) (\<lambda>b.
    g_return (p\<lparr>ep_authentication_tag := f b\<rparr>))) Q"
  using assms by (auto intro: ends_return)

lemma start_ends:
  assumes r: "responsive sv pl k"
  shows "ends (start_effect sv q d) (\<lambda>_. True)"
proof -
  have const: "sv_platform sv w = pl" "snd (sv_now_unix_ms sv w') \<le> snd (sv_now_unix_ms sv w) + PERMIT_LIFETIME_MS"
    "is_ok (pl_obligations_bytes pl o')" "is_ok (pl_request_bytes pl x)" "is_ok (pl_claims_bytes pl c)" for w w' o' x c
    using r by (simp_all add: responsive_def)
  obtain rb ob where "pl_request_bytes pl q = Inr rb" "pl_obligations_bytes pl (pd_obligations d) = Inr ob"
    using const(3) [of "pd_obligations d"] const(4) [of q] by (auto simp: is_ok_iff)
  then obtain h oh where digests: "request_digest pl q = Inr h" "obligations_digest pl (pd_obligations d) = Inr oh"
    by (simp add: request_digest_def obligations_digest_def canonical_bytes_def)
  let ?P = "\<lambda>p. \<not> ep_consumed p \<and> ep_request_hash p = h \<and> ep_obligations_hash p = oh
      \<and> ep_decision_id p = pd_decision_id d \<and> ep_actor_id p = actor_id (er_actor q)
      \<and> (\<forall>w. snd (sv_now_unix_ms sv w) \<le> ep_expires_at_unix_ms p)
      \<and> (\<exists>b. canonical_bytes (pl_claims_bytes pl) (permit_claims p) = Inr b
           \<and> ep_authentication_tag p = pl_hmac pl (sv_permit_key sv) b)"
  have claims: "\<exists>b. canonical_bytes (pl_claims_bytes pl) c = Inr b" for c
    unfolding canonical_bytes_def by (rule is_ok_map_err [OF const(5)])
  have mint: "ends (mint_permit sv q h d) ?P"
    unfolding mint_permit_def Let_def
  proof (rule ends_get_bind, rule ends_lift_bind)
    fix w
    show "obligations_digest (sv_platform sv w) (pd_obligations d) = Inr oh" by (simp add: const digests)
  qed (intro ends_call_bind, unfold const(1), rule signed_ends [OF claims],
      use const(2) in \<open>auto simp: permit_claims_def\<close>)
  have auth: "ends (authenticate_and_consume sv p q d) (\<lambda>_. True)" if p: "?P p" for p
  proof -
    obtain b where "canonical_bytes (pl_claims_bytes pl) (permit_claims p) = Inr b"
      "ep_authentication_tag p = pl_hmac pl (sv_permit_key sv) b" using p by blast
    moreover have "\<not> ep_expires_at_unix_ms p < snd (sv_now_unix_ms sv w)" for w using p by (simp add: not_less)
    ultimately show ?thesis
      using p unfolding authenticate_and_consume_def
      by (intro ends_get_bind) (simp add: const(1) digests, intro ends_call_bind, auto simp: reject_if_def intro!: ends_return)
  qed
  show ?thesis
    unfolding start_effect_def
    by (intro ends_get_bind, simp add: const digests)
      (rule ends_bind [OF mint], rule ends_True_bind [OF auth], assumption,
       intro ends_True_bind [OF event_ends [OF r]] ends_True_bind [OF owner_ends [OF r]] ends_return, simp)
qed

text \<open>An adapter that returns a result in every world, with the lease held.\<close>

primrec returns :: "QuarantinedEffectResult \<Rightarrow> 'w run \<Rightarrow> bool" where
  "returns x (Returned r) = (r = Inr x)"
| "returns x Elapsed = False"
| "returns x (OwnershipTick k) = returns x k"
| "returns x (Act f) = (\<forall>w. snd (map_prod id (returns x) (f w)))"

lemma drive_ends:
  assumes r: "responsive sv pl k"
  shows "returns x run \<Longrightarrow> ends (drive sv (lift_run run)) (\<lambda>y. y = Some (Inr x))"
proof (induction run)
  case (OwnershipTick run)
  have "ends (g_bind (g_catch (verify_execution_fence sv)) (\<lambda>owned. case owned of
      Inl (e :: GatewayError) \<Rightarrow> g_fail (XOutcomeUnknown OWNER_LOST) | Inr _ \<Rightarrow> drive sv (lift_run run)))
      (\<lambda>y. y = Some (Inr x))"
    using OwnershipTick by (intro ends_bind [OF ends_catch [OF fence_ends [OF r]]]) auto
  with OwnershipTick show ?case by simp
next
  case (Act f)
  have "ends (drive sv (lift_run (snd (f w)))) (\<lambda>y. y = Some (Inr x))" for w
    using Act.prems by (intro Act.IH [OF rangeI [of f w]]) (auto simp: snds.simps)
  then show ?case
    by (simp add: ends_def map_prod_def case_prod_unfold)
qed (simp_all add: ends_return)

lemma execute_owned_ends:
  assumes r: "responsive sv pl k" and run: "ends (drive sv (executor q p)) (\<lambda>y. y = Some (Inr x))"
  shows "ends (execute_owned sv q executor p) (\<lambda>y. y = x)"
proof -
  have owner: "ends (g_bind (g_catch (verify_started_owner sv)) (\<lambda>r.
      g_bind (g_lift (map_err (\<lambda>_. XOutcomeUnknown OWNER_LOST) r)) f)) Q"
    if "\<And>u. ends (f u) Q" for f :: "unit \<Rightarrow> ('a, ExecutionError, 'x) step" and Q
    using that by (intro ends_bind [OF ends_catch [OF owner_ends [OF r]]]) auto
  show ?thesis
    unfolding execute_owned_def
    by (intro owner ends_note_bind ends_bind [OF run]) (auto intro!: ends_lift)
qed

lemma release_ends:
  assumes r: "responsive sv pl k" and a: "kernel_prepare pl k (post_request pl q n x) = Inr post" "allows sv pl k post d'"
  shows "ends (authorize_release sv q n x txt) (\<lambda>_. True)"
proof -
  have const: "sv_platform sv w = pl" "sv_kernel sv w = k" for w using r by (simp_all add: responsive_def)
  have allow: "pd_outcome d' = Allow" using a(2) by (auto simp: allows_def)
  show ?thesis
    unfolding authorize_release_def
    by (intro ends_get_bind, simp add: const a(1))
      (intro ends_True_bind [OF summary_ends [OF r]] ends_True_bind [OF event_ends [OF r]]
        ends_bind [OF decide_ends [OF r a(2)]], simp add: allow ends_return)
qed

lemma completed_ends:
  assumes r: "responsive sv pl k"
  shows "ends (g_bind (g_get (sv_platform sv)) (\<lambda>pl. g_bind (g_event sv q ty cl (p pl)) (\<lambda>_.
      g_return \<lparr>rr_media_type = qr_media_type x, rr_bytes = qr_bytes x\<rparr>))) (\<lambda>y. y = released_of x)"
  by (intro ends_get_bind ends_True_bind [OF event_ends [OF r]] ends_return) (simp add: released_of_def)

lemma release_effect_ends:
  assumes r: "responsive sv pl k"
    and x: "qr_effect_succeeded x" "length (qr_bytes x) \<le> po_max_output_bytes (pd_obligations d)"
    and a: "kernel_prepare pl k (post_request pl q None x) = Inr post" "allows sv pl k post d'"
  shows "ends (release_effect sv q d False x) (\<lambda>y. y = released_of x)"
  unfolding release_effect_def
  by (rule ends_True_bind [OF owner_ends [OF r]])
    (use x in \<open>simp add: completed_ends [OF r] ends_True_bind [OF release_ends [OF r a]] ends_True_bind [OF ends_return]\<close>)

lemma release_stream_ends:
  assumes r: "responsive sv pl k"
    and x: "qr_effect_succeeded x" "length (qr_bytes x) \<le> po_max_output_bytes (pd_obligations d)"
  shows "ends (release_effect sv q d True x) (\<lambda>y. y = released_of x)"
  unfolding release_effect_def
  by (rule ends_True_bind [OF owner_ends [OF r]])
    (use x in \<open>simp add: completed_ends [OF r] ends_True_bind [OF ends_return]\<close>)

lemma completion:
  assumes r: "responsive sv pl k" and a: "allows sv pl k q d"
    and req: "er_schema_version request = 1" "er_request_id request \<noteq> []" "er_phase request = PreEffect"
    and prep: "kernel_prepare pl k request = Inr q" "is_ok (pl_command_context pl request)"
    and run: "\<And>p. returns x (adapter q p)"
    and x: "qr_effect_succeeded x" "length (qr_bytes x) \<le> po_max_output_bytes (pd_obligations d)"
    and post: "kernel_prepare pl k (post_request pl q None x) = Inr post" "allows sv pl k post d'"
  shows "snd (gateway_execute sv request adapter s) = Inr (released_of x)"
proof -
  have run: "ends (g_bind (start_effect sv q d) (\<lambda>permit.
     g_bind (g_catch (execute_owned sv q (\<lambda>r p. lift_run (adapter r p)) permit)) (\<lambda>outcome.
     case outcome of
       Inl error \<Rightarrow> execution_failed sv q error
     | Inr result \<Rightarrow> release_effect sv q d False result))) (\<lambda>y. y = released_of x)"
    by (rule ends_True_bind [OF start_ends [OF r]],
        rule ends_bind [OF ends_catch [OF execute_owned_ends [where executor = "\<lambda>r p. lift_run (adapter r p)", OF r drive_ends [OF r run]]]])
      (auto intro: release_effect_ends [OF r x post])
  have "ends (gateway_execute sv request adapter) (\<lambda>y. y = released_of x)"
    unfolding gateway_execute_def execute_internal_def
    by (rule ends_bind [OF authorize_ends [OF r a req prep]]) (simp add: run)
  then show ?thesis by (auto simp: ends_def)
qed

text \<open>A streaming adapter that submits chunks in order, stops at a refusal, and returns the last one.\<close>

primrec stream_of :: "QuarantinedEffectResult \<Rightarrow> QuarantinedEffectResult list \<Rightarrow> 'w stream_run" where
  "stream_of x [] = SReturned (Inr x)"
| "stream_of x (c # cs) = Submit c (\<lambda>r. case r of Inl e \<Rightarrow> SReturned (Inl e) | Inr _ \<Rightarrow> stream_of c cs)"

text \<open>A chunk that succeeded and whose release is allowed under every number up to a bound.\<close>

definition releasable :: "'w Services \<Rightarrow> Platform \<Rightarrow> SafetyKernel \<Rightarrow> EffectRequest \<Rightarrow> nat \<Rightarrow> QuarantinedEffectResult \<Rightarrow> bool" where
  "releasable sv pl k q N c = (qr_effect_succeeded c
     \<and> (\<forall>n. 0 < n \<and> n \<le> N \<longrightarrow> (\<exists>post d. kernel_prepare pl k (post_request pl q (Some n) c) = Inr post \<and> allows sv pl k post d)))"

lemma chunk_ends:
  assumes r: "responsive sv pl k" and c: "releasable sv pl k q N c" and n: "0 < n" "n \<le> N"
  shows "ends (release_stream_chunk sv q ob n c) (\<lambda>y. y = released_of c)"
proof -
  from c obtain post d where post: "kernel_prepare pl k (post_request pl q (Some n) c) = Inr post" "allows sv pl k post d"
    using n unfolding releasable_def by blast
  have mid: "ends (if b then authorize_release sv q (Some n) c m else g_return ()) (\<lambda>_. True)" for b m
    using release_ends [OF r post] by (simp add: ends_return)
  show ?thesis
    unfolding release_stream_chunk_def
    by (intro ends_True_bind [OF owner_ends [OF r]] ends_True_bind [OF mid] ends_get_bind
        ends_True_bind [OF event_ends [OF r]] ends_return) (simp add: released_of_def)
qed

lemma observe_accepts:
  assumes r: "responsive sv pl k" and c: "releasable sv pl k q N c" and ok: "sink_failure sink = None"
    and n: "Suc (sink_sequence sink) \<le> N"
    and fits: "sink_total_bytes sink + length (qr_bytes c) \<le> po_max_output_bytes (sink_obligations sink)"
    and obs: "\<And>x w. snd (observer x w) = Inr ()"
  obtains s' where "sink_observe sv observer q sink c s = (s', sink\<lparr>
      sink_total_bytes := saturating_add64 (sink_total_bytes sink) (length (qr_bytes c)),
      sink_sequence := saturating_add64 (sink_sequence sink) 1, sink_last := Some c\<rparr>, Inr ())"
proof -
  let ?n = "saturating_add64 (sink_sequence sink) 1"
  have "0 < ?n" "?n \<le> N" using n by (simp_all add: saturating_add64_def u64_max_def)
  then obtain s1 where rel: "release_stream_chunk sv q (sink_obligations sink) ?n c s = (s1, Inr (released_of c))"
    using chunk_ends [OF r c, of ?n "sink_obligations sink"] unfolding ends_def by (metis prod.collapse)
  obtain w' where w': "observer (released_of c) (gw_world s1) = (w', Inr ())"
    using obs by (metis prod.collapse)
  have "\<not> saturating_add64 (sink_total_bytes sink) (length (qr_bytes c)) > po_max_output_bytes (sink_obligations sink)"
    using fits by (simp add: saturating_add64_def)
  with ok c rel w' that show thesis
    by (simp add: sink_observe_def Let_def releasable_def g_bind_def g_note_def g_call_def)
qed

lemma stream_ends:
  assumes r: "responsive sv pl k" and obs: "\<And>x w. snd (observer x w) = Inr ()"
  shows "\<forall>c \<in> set cs. releasable sv pl k q N c \<Longrightarrow> sink_failure sink = None
    \<Longrightarrow> sink_sequence sink + length cs \<le> N
    \<Longrightarrow> sink_total_bytes sink + sum_list (map (length \<circ> qr_bytes) cs) \<le> po_max_output_bytes (sink_obligations sink)
    \<Longrightarrow> (cs = [] \<Longrightarrow> sink_sequence sink \<noteq> 0 \<and> sink_last sink = Some x)
    \<Longrightarrow> ends (drive sv (bridge sv observer q (stream_of x cs) sink)) (\<lambda>y. y = Some (Inr (last (x # cs))))"
proof (induction cs arbitrary: x sink)
  case Nil
  then show ?case by (simp add: bridge_finish_def ends_return)
next
  case (Cons c cs)
  let ?sink = "sink\<lparr>sink_total_bytes := saturating_add64 (sink_total_bytes sink) (length (qr_bytes c)),
      sink_sequence := saturating_add64 (sink_sequence sink) 1, sink_last := Some c\<rparr>"
  have rest: "ends (drive sv (bridge sv observer q (stream_of c cs) ?sink)) (\<lambda>y. y = Some (Inr (last (c # cs))))"
    using Cons.prems by (intro Cons.IH) (auto simp: saturating_add64_def u64_max_def)
  have step: "\<exists>s'. sink_observe sv observer q sink c s = (s', ?sink, Inr ())" for s
    by (rule observe_accepts [where s = s and q = q and c = c and sink = sink, OF r _ _ _ _ obs]) (use Cons.prems in auto)
  show ?case
    unfolding ends_def
  proof
    fix s
    from step obtain s' where s': "sink_observe sv observer q sink c s = (s', ?sink, Inr ())" by blast
    with rest show "\<exists>y. snd (drive sv (bridge sv observer q (stream_of x (c # cs)) sink) s) = Inr y
        \<and> y = Some (Inr (last (x # c # cs)))"
      by (simp add: ends_def)
  qed
qed

lemma stream_completion:
  assumes r: "responsive sv pl k" and a: "allows sv pl k q d"
    and req: "er_schema_version request = 1" "er_request_id request \<noteq> []" "er_phase request = PreEffect"
    and prep: "kernel_prepare pl k request = Inr q" "is_ok (pl_command_context pl request)"
    and run: "\<And>p. adapter q p = stream_of x cs" and cs: "cs \<noteq> []" "\<forall>c \<in> set cs. releasable sv pl k q (length cs) c"
    and fits: "sum_list (map (length \<circ> qr_bytes) cs) \<le> po_max_output_bytes (pd_obligations d)"
    and obs: "\<And>x w. snd (observer x w) = Inr ()"
  shows "snd (gateway_execute_stream sv request adapter observer s) = Inr (released_of (last cs))"
proof -
  have start: "ends (start_effect sv q d) (\<lambda>p. ep_obligations p = pd_obligations d)"
    unfolding ends_def
  proof
    fix s
    obtain p where p: "snd (start_effect sv q d s) = Inr p"
      using start_ends [OF r, of q d] unfolding ends_def by blast
    moreover have "ep_obligations p = pd_obligations d"
      using start_effect_yields [of sv q d] p unfolding yields_def start_post_def permit_for_def by fastforce
    ultimately show "\<exists>p. snd (start_effect sv q d s) = Inr p \<and> ep_obligations p = pd_obligations d" by blast
  qed
  have driven: "ends (drive sv (bridge sv observer q (adapter q p) (sink_new p))) (\<lambda>y. y = Some (Inr (last cs)))"
    if "ep_obligations p = pd_obligations d" for p
    using stream_ends [where cs = cs and sink = "sink_new p" and x = x, OF r obs cs(2)] that cs fits
    by (simp add: run sink_new_def)
  have last: "qr_effect_succeeded (last cs)" "length (qr_bytes (last cs)) \<le> po_max_output_bytes (pd_obligations d)"
    using cs fits member_le_sum_list [of "length (qr_bytes (last cs))" "map (length \<circ> qr_bytes) cs"]
    by (auto simp: releasable_def)
  have "ends (gateway_execute_stream sv request adapter observer) (\<lambda>y. y = released_of (last cs))"
    unfolding gateway_execute_stream_def execute_internal_def
    by (rule ends_bind [OF authorize_ends [OF r a req prep]], simp, rule ends_bind [OF start],
        rule ends_bind [OF ends_catch [OF execute_owned_ends [where executor =
          "\<lambda>r p. bridge sv observer r (adapter r p) (sink_new p)" and q = q, OF r driven]]])
      (auto intro: release_stream_ends [OF r last])
  then show ?thesis by (auto simp: ends_def)
qed

end
