(* ===== verification/GatewayProperties.thy ===== *)
theory GatewayProperties
  imports GatewayCompletion
begin

text \<open>
  The properties of the effect gateway, for whole results and for streams, on every path
  through its services, and a concrete composition of services on which they are exercised.
\<close>

section \<open>An example composition\<close>

text \<open>The world of the example: the events that were appended, in order.\<close>

type_synonym example_world = "NewEvent list"

definition example_envelope :: "NewEvent \<Rightarrow> EventEnvelope" where
  "example_envelope e = \<lparr>ev_schema_version = 1, ev_event_version = ne_event_version e, ev_event_id = [],
     ev_global_sequence = 0, ev_stream_id = ne_stream_id e,
     ev_stream_version = ne_expected_stream_version e + 1, ev_classification = ne_classification e,
     ev_event_type = ne_event_type e, ev_actor = ne_actor e, ev_context = ne_context e, ev_occurred_at = [],
     ev_payload = \<lparr>ep_key_id = [], ep_algorithm = [], ep_nonce = [], ep_ciphertext = [], ep_plaintext_hash = []\<rparr>,
     ev_previous_hash = [], ev_record_hash = []\<rparr>"

definition example_policy :: BuiltInPolicy where
  "example_policy = with_action offline_default ''task.create'' Allow"

definition example_services :: "example_world Services" where
  "example_services = \<lparr>
     sv_platform = (\<lambda>_. example_platform), sv_kernel = (\<lambda>_. kernel_new []), sv_permit_key = [],
     sv_is_recovery_mode = (\<lambda>_. False),
     sv_read_stream_backwards = (\<lambda>stream before limit w.
       Inr (map example_envelope (take limit (rev (filter (\<lambda>e. ne_stream_id e = stream) w))))),
     sv_append = (\<lambda>e w. (w @ [e], Inr (example_envelope e))),
     sv_policy_decide = (\<lambda>q w. (w, Inr (builtin_decide example_policy ''d1'' q))),
     sv_risk_auto_enabled = (\<lambda>_. True), sv_evaluator_bound = (\<lambda>_. True),
     sv_evaluate = (\<lambda>q d w. (w, Inr \<lparr>as_risk_level = Low, as_recommended_decision = RecommendAllow,
       as_reason = ''bounded''\<rparr>)),
     sv_risk_review_fallback = (\<lambda>_ w. w), sv_automatic_approval_granted = (\<lambda>_ w. w),
     sv_request_approval = (\<lambda>q h d ctx w. (w, allow_approval (Inr ''now'') ''a1'' ''user'' h)),
     sv_execution_fence = Some (\<lambda>w. (w, Inr ())), sv_now_unix_ms = (\<lambda>w. (w, 1000)),
     sv_now_rfc3339 = (\<lambda>w. (w, Inr ''now'')), sv_uuid = (\<lambda>w. (w, ''u1'')), sv_summary_worker = (\<lambda>_. True)\<rparr>"

definition example_result :: QuarantinedEffectResult where
  "example_result = \<lparr>qr_media_type = ''text/plain'', qr_bytes = as_bytes ''done'', qr_effect_succeeded = True\<rparr>"

definition example_adapter :: "EffectRequest \<Rightarrow> ExecutionPermit \<Rightarrow> example_world run" where
  "example_adapter q p = OwnershipTick (Act (\<lambda>w. (w, Returned (Inr example_result))))"

definition example_stream_adapter :: "EffectRequest \<Rightarrow> ExecutionPermit \<Rightarrow> example_world stream_run" where
  "example_stream_adapter q p = stream_of example_result [example_result, example_result]"

definition example_observer :: "ReleasedEffectResult \<Rightarrow> example_world \<Rightarrow> example_world \<times> (ExecutionError, unit) result" where
  "example_observer x w = (w, Inr ())"

definition example_start :: "example_world gateway_state" where
  "example_start = \<lparr>gw_world = [], gw_trace = []\<rparr>"

lemma example_responsive: "responsive example_services example_platform (kernel_new [])"
  by (simp add: responsive_def example_services_def example_platform_def PERMIT_LIFETIME_MS_def)

lemma example_prepared: "kernel_prepare example_platform (kernel_new []) example_request = Inr example_request"
  by code_simp

lemma example_allows:
  "allows example_services example_platform (kernel_new []) example_request
     (builtin_decide example_policy ''d1'' example_request)"
proof -
  have "policy_projection example_platform (kernel_new []) example_request = Inr example_request"
    "validate_decision example_platform (kernel_new []) example_request
       (builtin_decide example_policy ''d1'' example_request) = Inr ()"
    "pd_outcome (builtin_decide example_policy ''d1'' example_request) = Allow" by code_simp+
  then show ?thesis by (auto simp: allows_def example_services_def)
qed

lemma example_post:
  "kernel_prepare example_platform (kernel_new []) (post_request example_platform example_request n example_result)
     = Inr (post_request example_platform example_request n example_result)"
  "allows example_services example_platform (kernel_new []) (post_request example_platform example_request n example_result)
     (builtin_decide example_policy ''d1'' (post_request example_platform example_request n example_result))"
  if "n = None \<or> n = Some 1 \<or> n = Some 2" for n
proof -
  let ?post = "\<lambda>n. post_request example_platform example_request n example_result"
  have kernel: "kernel_prepare example_platform (kernel_new []) (?post None) = Inr (?post None)"
    "kernel_prepare example_platform (kernel_new []) (?post (Some 1)) = Inr (?post (Some 1))"
    "kernel_prepare example_platform (kernel_new []) (?post (Some 2)) = Inr (?post (Some 2))"
    by code_simp+
  have policy: "policy_projection example_platform (kernel_new []) (?post None) = Inr (?post None)"
    "policy_projection example_platform (kernel_new []) (?post (Some 1)) = Inr (?post (Some 1))"
    "policy_projection example_platform (kernel_new []) (?post (Some 2)) = Inr (?post (Some 2))"
    by code_simp+
  have valid: "validate_decision example_platform (kernel_new []) (?post None) (builtin_decide example_policy ''d1'' (?post None)) = Inr ()"
    "validate_decision example_platform (kernel_new []) (?post (Some 1)) (builtin_decide example_policy ''d1'' (?post (Some 1))) = Inr ()"
    "validate_decision example_platform (kernel_new []) (?post (Some 2)) (builtin_decide example_policy ''d1'' (?post (Some 2))) = Inr ()"
    by code_simp+
  have outcome: "pd_outcome (builtin_decide example_policy ''d1'' (?post None)) = Allow"
    "pd_outcome (builtin_decide example_policy ''d1'' (?post (Some 1))) = Allow"
    "pd_outcome (builtin_decide example_policy ''d1'' (?post (Some 2))) = Allow"
    by code_simp+
  from that show "kernel_prepare example_platform (kernel_new []) (?post n) = Inr (?post n)"
    using kernel by auto
  from that show "allows example_services example_platform (kernel_new []) (?post n)
     (builtin_decide example_policy ''d1'' (?post n))"
    using policy valid outcome by (auto simp: allows_def example_services_def)
qed

lemma example_fits:
  "sum_list (map (length \<circ> qr_bytes) [example_result, example_result])
     \<le> po_max_output_bytes (pd_obligations (builtin_decide example_policy ''d1'' example_request))"
  by code_simp

lemma example_request_facts: "er_schema_version example_request = 1" "er_request_id example_request \<noteq> []"
  "er_phase example_request = PreEffect" "is_ok (pl_command_context example_platform example_request)"
  "qr_effect_succeeded example_result"
  by (simp_all add: example_request_def example_platform_def example_result_def)

lemma example_completes:
  "snd (gateway_execute example_services example_request example_adapter example_start) = Inr (released_of example_result)"
  using example_fits
  by (intro completion [OF example_responsive example_allows example_request_facts(1-3) example_prepared
        example_request_facts(4) _ example_request_facts(5) _ example_post, of example_adapter])
    (simp_all add: example_adapter_def)

lemma example_releasable:
  "releasable example_services example_platform (kernel_new []) example_request 2 example_result"
  unfolding releasable_def
proof (intro conjI allI impI example_request_facts(5))
  fix n :: nat
  assume "0 < n \<and> n \<le> 2"
  then have "n = 1 \<or> n = 2" by auto
  then show "\<exists>post d. kernel_prepare example_platform (kernel_new [])
      (post_request example_platform example_request (Some n) example_result) = Inr post
      \<and> allows example_services example_platform (kernel_new []) post d"
    using example_post [of "Some n"] by blast
qed

lemma example_stream_completes:
  "snd (gateway_execute_stream example_services example_request example_stream_adapter example_observer example_start)
     = Inr (released_of example_result)"
  using stream_completion [OF example_responsive example_allows example_request_facts(1-3) example_prepared
      example_request_facts(4), of example_stream_adapter example_result "[example_result, example_result]"
      example_observer example_start] example_fits example_releasable
  by (simp add: example_stream_adapter_def example_observer_def numeral_2_eq_2)

text \<open>What the trace of a run contains, for the instances below.\<close>

lemma run_extends:
  assumes "yields m Q"
  obtains t where "gw_trace (fst (m s)) = gw_trace s @ t" "Q t (snd (m s))"
  using assms unfolding yields_def by blast

lemma example_runs:
  obtains t where "gw_trace (fst (gateway_execute example_services example_request example_adapter example_start)) = t"
    "executed_post example_services example_request (plain_run example_adapter) False t (Inr (released_of example_result))"
  using run_extends [OF gateway_execute_yields, of example_services example_request example_adapter example_start]
  by (metis append_Nil example_completes example_start_def gateway_state.select_convs(2))

lemma example_streams:
  obtains t where "gw_trace (fst (gateway_execute_stream example_services example_request example_stream_adapter
      example_observer example_start)) = t"
    "executed_post example_services example_request (streamed_run example_services) True t (Inr (released_of example_result))"
  using run_extends [OF gateway_execute_stream_yields, of example_services example_request example_stream_adapter
      example_observer example_start]
  by (metis append_Nil example_stream_completes example_start_def gateway_state.select_convs(2))

lemma completion_released:
  assumes "completion_post sv q d streamed result t (Inr x)"
  obtains t0 w v where "t = t0 @ [Appended (completed_event (sv_platform sv w) q v d x)]"
    "qr_effect_succeeded result" "x = released_of result" "length (rr_bytes x) \<le> po_max_output_bytes (pd_obligations d)"
    "po_require_post_effect (pd_obligations d) \<and> \<not> streamed \<longrightarrow> release_allowed sv q None result t0"
proof -
  from assms have "qr_effect_succeeded result" "x = released_of result"
    "length (rr_bytes x) \<le> po_max_output_bytes (pd_obligations d)"
    "\<exists>t0 w v. t = t0 @ [Appended (completed_event (sv_platform sv w) q v d x)]
       \<and> (po_require_post_effect (pd_obligations d) \<and> \<not> streamed \<longrightarrow> release_allowed sv q None result t0)"
    unfolding completion_post_def released_of_def by blast+
  with that show thesis by blast
qed

text \<open>Locating a delivery in the trace of a stream.\<close>

lemma observed_after_start:
  assumes "a @ Observed x # b = pre @ [Appended e, Executed q p] @ t" "list_all before_execution pre"
  shows "\<exists>a'. a = pre @ [Appended e, Executed q p] @ a' \<and> t = a' @ Observed x # b"
proof -
  have "Observed x \<notin> set pre" using assms(2) by (auto simp: list_all_iff)
  with assms(1) show ?thesis
    by (auto simp: append_eq_append_conv2 Cons_eq_append_conv append_eq_Cons_conv)
qed

lemma observed_in_stream:
  assumes "t1 @ t2 = a @ Observed x # b" "list_all before_execution t2"
  shows "\<exists>b'. t1 = a @ Observed x # b'"
proof -
  have "Observed x \<notin> set t2" using assms(2) by (auto simp: list_all_iff)
  with assms(1) show ?thesis by (auto simp: append_eq_append_conv2 append_eq_Cons_conv)
qed

lemma chunk_cleared_before: "chunk_cleared sv q ob c t \<Longrightarrow> list_all before_execution t"
  by (auto simp: chunk_cleared_def)

lemma stream_trace_split:
  assumes "stream_trace sv q ob used t" "t = a @ Observed x # b"
  shows "\<exists>a1 a2 c. a = a1 @ a2 \<and> x = released_of c \<and> qr_effect_succeeded c \<and> chunk_cleared sv q ob c a2"
  using assms
proof (induction arbitrary: a rule: stream_trace.induct)
  case (quiet t used)
  then show ?case by (auto simp: list_all_iff)
next
  case (chunk c t1 tot used t2)
  have "Observed x \<notin> set t1" using chunk_cleared_before [OF chunk.hyps(1)] by (auto simp: list_all_iff)
  with chunk.prems consider "a = t1" "x = released_of c" "b = t2"
    | a' where "a = t1 @ Observed (released_of c) # a'" "t2 = a' @ Observed x # b"
    by (auto simp: append_eq_append_conv2 Cons_eq_append_conv append_eq_Cons_conv)
  then show ?case
  proof cases
    case 1
    with chunk.hyps show ?thesis by blast
  next
    case 2
    from chunk.IH [OF 2(2)] 2(1) show ?thesis by (metis append.assoc append_Cons)
  qed
qed

definition delivered_bytes :: "observation list \<Rightarrow> nat" where
  "delivered_bytes t = sum_list (map (\<lambda>ob. case ob of Observed x \<Rightarrow> length (rr_bytes x) | _ \<Rightarrow> 0) t)"

lemma delivered_bytes_simps [simp]:
  "delivered_bytes [] = 0" "delivered_bytes (a @ b) = delivered_bytes a + delivered_bytes b"
  "delivered_bytes (Observed x # t) = length (rr_bytes x) + delivered_bytes t"
  by (simp_all add: delivered_bytes_def)

lemma delivered_bytes_before: "list_all before_execution t \<Longrightarrow> delivered_bytes t = 0"
  by (induction t) (auto simp: delivered_bytes_def before_execution_def split: observation.splits)

lemma stream_trace_bounded:
  "stream_trace sv q ob used t \<Longrightarrow> used \<le> po_max_output_bytes ob
    \<Longrightarrow> saturating_add64 used (delivered_bytes t) \<le> po_max_output_bytes ob"
proof (induction rule: stream_trace.induct)
  case (quiet t used)
  then show ?case by (simp add: delivered_bytes_before saturating_add64_def)
next
  case (chunk c t1 tot used t2)
  then show ?case
    by (auto simp: delivered_bytes_before [OF chunk_cleared_before] saturating_add64_def released_of_def
        min_def split: if_splits)
qed

lemma ran_post_released:
  assumes "ran_post sv D streamed q d p t (Inr x)"
  obtains t1 t2 result where "t = t1 @ t2" "D q p t1 (Inr (Some (Inr result)))" "list_all before_execution t2"
    "completion_post sv q d streamed result t2 (Inr x)"
proof -
  from assms obtain t1 t2 r' where 1: "t = t1 @ t2" "D q p t1 r'" "list_all before_execution t2"
    and 2: "\<forall>y. Inr x = (Inr y :: (GatewayError, ReleasedEffectResult) result)
      \<longrightarrow> (\<exists>result. r' = Inr (Some (Inr result)) \<and> completion_post sv q d streamed result t2 (Inr x))"
    unfolding ran_post_def by (elim exE conjE)
  from 2 obtain result where "r' = Inr (Some (Inr result))" "completion_post sv q d streamed result t2 (Inr x)" by auto
  with 1 that show thesis by simp
qed

lemma streamed_released:
  assumes "executed_post sv request (streamed_run sv) True t (Inr x)"
  obtains pre q d p a b w v where
    "t = pre @ Executed q p # a @ Observed x # b @ [Appended (completed_event (sv_platform sv w) q v d x)]"
    "list_all before_execution b" "ran_at sv request (streamed_run sv) True pre q d p
       (a @ Observed x # b @ [Appended (completed_event (sv_platform sv w) q v d x)]) (Inr x)"
proof -
  from assms obtain pre q d p post where at: "t = pre @ Executed q p # post"
    "ran_at sv request (streamed_run sv) True pre q d p post (Inr x)" by (rule executed_post_released)
  then have "ran_post sv (streamed_run sv) True q d p post (Inr x)" by (auto simp: ran_at_def)
  then obtain t1 t2 result where post: "post = t1 @ t2" "streamed_run sv q p t1 (Inr (Some (Inr result)))"
    "list_all before_execution t2" "completion_post sv q d True result t2 (Inr x)"
    by (rule ran_post_released)
  from post(2) obtain a b where t1: "t1 = a @ Observed (released_of result) # b" "list_all before_execution b"
    unfolding streamed_run_def by blast
  from post(4) obtain t0 w v where t2: "t2 = t0 @ [Appended (completed_event (sv_platform sv w) q v d x)]"
    "x = released_of result" by (rule completion_released)
  have "post = a @ Observed x # (b @ t0) @ [Appended (completed_event (sv_platform sv w) q v d x)]"
    "list_all before_execution (b @ t0)"
    using t1 t2 post by simp_all
  with at that show thesis by blast
qed

section \<open>Properties\<close>

text \<open>C1. No effect without authority: whatever the journal, policy, approvals, risk evaluator,
  lease, clock and adapter answer, if a run of the gateway executes an effect then the executed
  request is the caller's pre-effect request as the kernel prepared it (apart from its risk
  review and approval); the execution comes directly after the \<open>effect.started\<close> record was
  appended; before that, policy allowed exactly this request, by a decision that the kernel
  validated, and if any decision on the way required approval, the request carries a proof that
  is bound to its digest and was given by the approval provider or an approving automatic
  review; the permit was issued for this request, decision and actor and is used up; and
  nothing else is executed in this run.\<close>

theorem effect_executes_only_when_sanctioned:
  assumes run: "gateway_execute sv request adapter s = (s', r)"
    and trace: "gw_trace s' = gw_trace s @ pre @ Executed q p # post"
  shows "admitted sv request q
    \<and> (\<exists>before v d. pre = before @ [Appended (started_event q v d p)] \<and> sanctioned sv before q d \<and> permit_for sv q d p)
    \<and> executed_free pre \<and> executed_free post"
proof -
  have "executed_post sv request (plain_run adapter) False (pre @ Executed q p # post) r"
    by (rule yields_run [OF gateway_execute_yields run]) (simp add: trace)
  then obtain d where "ran_at sv request (plain_run adapter) False pre q d p post r" "executed_free post"
    by (rule executed_post_split) (rule run_contracts_executed_free)
  then show ?thesis unfolding ran_at_def by auto
qed

theorem effect_executes_only_when_sanctioned_witness:
  "\<exists>q p pre post. gw_trace (fst (gateway_execute example_services example_request example_adapter example_start))
       = pre @ Executed q p # post \<and> admitted example_services example_request q \<and> executed_free pre"
proof -
  obtain t where t: "gw_trace (fst (gateway_execute example_services example_request example_adapter example_start)) = t"
    "executed_post example_services example_request (plain_run example_adapter) False t (Inr (released_of example_result))"
    by (rule example_runs)
  from t(2) obtain pre q d p post where "t = pre @ Executed q p # post" by (rule executed_post_released)
  with t(1) effect_executes_only_when_sanctioned [of example_services example_request example_adapter example_start
      "fst (gateway_execute example_services example_request example_adapter example_start)"
      "snd (gateway_execute example_services example_request example_adapter example_start)" pre q p post]
  show ?thesis by (auto simp: example_start_def)
qed

text \<open>C2. Nothing leaves quarantine unchecked: if a run of the gateway returns a result, the effect
  was executed under a sanctioned decision, the adapter returned exactly these bytes with this
  media type and reported success, they fit the decision's output limit, a validated
  post-effect decision allowed the release of exactly these bytes where the decision's
  obligations require one, and the last act of the run was to append the
  \<open>effect.completed\<close> record with the size and hash of what is returned.\<close>

theorem release_is_checked:
  assumes run: "gateway_execute sv request adapter s = (s', Inr x)"
  shows "\<exists>before v q d p result mid w v'. gw_trace s' = gw_trace s @ before @
        [Appended (started_event q v d p), Executed q p] @ mid @ [Appended (completed_event (sv_platform sv w) q v' d x)]
      \<and> sanctioned sv before q d \<and> admitted sv request q
      \<and> may_return (adapter q p) result \<and> qr_effect_succeeded result \<and> x = released_of result
      \<and> length (rr_bytes x) \<le> po_max_output_bytes (pd_obligations d)
      \<and> (po_require_post_effect (pd_obligations d) \<longrightarrow> release_allowed sv q None result mid)"
proof -
  obtain t where t: "gw_trace s' = gw_trace s @ t" "executed_post sv request (plain_run adapter) False t (Inr x)"
    using run_extends [OF gateway_execute_yields, of sv request adapter s] run by auto
  from t(2) obtain pre q d p post where at: "t = pre @ Executed q p # post"
    "ran_at sv request (plain_run adapter) False pre q d p post (Inr x)" by (rule executed_post_released)
  from at(2) obtain before v where before: "pre = before @ [Appended (started_event q v d p)]"
    "sanctioned sv before q d" "admitted sv request q" and ran: "ran_post sv (plain_run adapter) False q d p post (Inr x)"
    unfolding ran_at_def by blast
  from ran obtain result where result: "may_return (adapter q p) result" "completion_post sv q d False result post (Inr x)"
    by (rule ran_post_released) (simp add: plain_run_def)
  from result(2) obtain mid w v' where mid: "post = mid @ [Appended (completed_event (sv_platform sv w) q v' d x)]"
    "qr_effect_succeeded result" "x = released_of result" "length (rr_bytes x) \<le> po_max_output_bytes (pd_obligations d)"
    "po_require_post_effect (pd_obligations d) \<longrightarrow> release_allowed sv q None result mid"
    by (rule completion_released) simp
  have "gw_trace s' = gw_trace s @ before @ [Appended (started_event q v d p), Executed q p] @ mid
      @ [Appended (completed_event (sv_platform sv w) q v' d x)]"
    using t(1) at(1) before(1) mid(1) by simp
  with before(2,3) result(1) mid(2-5) show ?thesis by blast
qed

theorem release_is_checked_witness:
  "\<exists>s' q p. gateway_execute example_services example_request example_adapter example_start
      = (s', Inr (released_of example_result))
     \<and> Executed q p \<in> set (gw_trace s') \<and> admitted example_services example_request q"
proof -
  obtain s' where run: "gateway_execute example_services example_request example_adapter example_start
      = (s', Inr (released_of example_result))"
    using example_completes by (metis prod.collapse)
  from release_is_checked [OF run] obtain before v q d p mid w v' where
    "gw_trace s' = gw_trace example_start @ before @ [Appended (started_event q v d p), Executed q p] @ mid
      @ [Appended (completed_event (sv_platform example_services w) q v' d (released_of example_result))]"
    "admitted example_services example_request q"
    by blast
  then have "Executed q p \<in> set (gw_trace s')" "admitted example_services example_request q"
    by simp_all
  with run show ?thesis by blast
qed

text \<open>C3. Every streamed chunk is cleared: if a streaming run delivers a chunk to the observer,
  the effect was executed before under a sanctioned decision, and directly before the delivery
  the \<open>effect.chunk_released\<close> record with the chunk's hash, size and number was
  appended, after a validated post-effect decision allowed the release of exactly this chunk
  where the permit's obligations require one; and the adapter had reported the chunk as
  successful.\<close>

theorem streamed_chunk_is_cleared:
  assumes run: "gateway_execute_stream sv request adapter observer s = (s', r)"
    and trace: "gw_trace s' = gw_trace s @ a @ Observed x # b"
  shows "\<exists>before v q d p earlier clearance chunk.
      a = before @ [Appended (started_event q v d p), Executed q p] @ earlier @ clearance
      \<and> sanctioned sv before q d \<and> admitted sv request q \<and> permit_for sv q d p
      \<and> x = released_of chunk \<and> qr_effect_succeeded chunk
      \<and> chunk_cleared sv q (pd_obligations d) chunk clearance"
proof -
  have "executed_post sv request (streamed_run sv) True (a @ Observed x # b) r"
    by (rule yields_run [OF gateway_execute_stream_yields run]) (simp add: trace)
  then obtain before v q d p t' where
    eq: "a @ Observed x # b = before @ [Appended (started_event q v d p), Executed q p] @ t'"
    and before: "list_all before_execution before" "sanctioned sv before q d" "admitted sv request q" "permit_for sv q d p"
    and ran: "ran_post sv (streamed_run sv) True q d p t' r"
    unfolding executed_post_def by (auto simp: list_all_iff before_execution_def)
  from ran obtain t1 t2 where t': "t' = t1 @ t2" "stream_trace sv q (pd_obligations d) 0 t1" "list_all before_execution t2"
    using before(4) unfolding ran_post_def streamed_run_def permit_for_def by auto
  from observed_after_start [OF eq before(1)] obtain a' where
    a': "a = before @ [Appended (started_event q v d p), Executed q p] @ a'" "t' = a' @ Observed x # b" by blast
  from observed_in_stream [OF _ t'(3)] a'(2) t'(1) obtain b' where "t1 = a' @ Observed x # b'" by metis
  with stream_trace_split [OF t'(2)] obtain earlier clearance chunk where
    "a' = earlier @ clearance" "x = released_of chunk" "qr_effect_succeeded chunk"
    "chunk_cleared sv q (pd_obligations d) chunk clearance" by metis
  with a'(1) before(2-4) show ?thesis by blast
qed

theorem streamed_chunk_is_cleared_witness:
  "\<exists>a b q chunk clearance. gw_trace (fst (gateway_execute_stream example_services example_request example_stream_adapter
        example_observer example_start)) = a @ Observed (released_of example_result) # b
     \<and> (\<exists>ob. chunk_cleared example_services q ob chunk clearance) \<and> released_of chunk = released_of example_result"
proof -
  let ?run = "gateway_execute_stream example_services example_request example_stream_adapter example_observer example_start"
  obtain t where t: "gw_trace (fst ?run) = t"
    "executed_post example_services example_request (streamed_run example_services) True t (Inr (released_of example_result))"
    by (rule example_streams)
  from t(2) obtain a b where ab: "t = a @ Observed (released_of example_result) # b"
    by (rule streamed_released) (metis append.assoc append_Cons)
  have "gw_trace (fst ?run) = gw_trace example_start @ a @ Observed (released_of example_result) # b"
    using t(1) ab by (simp add: example_start_def)
  from streamed_chunk_is_cleared [OF surjective_pairing this] t(1) ab show ?thesis by metis
qed

text \<open>C4. Streams respect the output limit: the bytes that a streaming run delivers to the observer
  together never exceed the output limit of the permit under which the effect was executed
  (the sink counts in 64 bits and saturates, so the sum is compared as it would be counted), and
  nothing is delivered before the execution.\<close>

theorem streamed_bytes_bounded:
  assumes run: "gateway_execute_stream sv request adapter observer s = (s', r)"
    and trace: "gw_trace s' = gw_trace s @ pre @ Executed q p # post"
  shows "min (delivered_bytes post) u64_max \<le> po_max_output_bytes (ep_obligations p) \<and> delivered_bytes pre = 0"
proof -
  have "executed_post sv request (streamed_run sv) True (pre @ Executed q p # post) r"
    by (rule yields_run [OF gateway_execute_stream_yields run]) (simp add: trace)
  then obtain d where "ran_at sv request (streamed_run sv) True pre q d p post r"
    by (rule executed_post_split) (rule run_contracts_executed_free)
  then have pre: "list_all before_execution pre" and "ran_post sv (streamed_run sv) True q d p post r"
    by (auto simp: ran_at_def)
  then obtain t1 t2 where "post = t1 @ t2" "stream_trace sv q (ep_obligations p) 0 t1" "list_all before_execution t2"
    unfolding ran_post_def streamed_run_def by blast
  with stream_trace_bounded [of sv q "ep_obligations p" 0 t1] delivered_bytes_before [OF pre] show ?thesis
    by (simp add: delivered_bytes_before saturating_add64_def)
qed

theorem streamed_bytes_bounded_witness:
  "\<exists>pre q p post. gw_trace (fst (gateway_execute_stream example_services example_request example_stream_adapter
        example_observer example_start)) = pre @ Executed q p # post
     \<and> min (delivered_bytes post) u64_max \<le> po_max_output_bytes (ep_obligations p)"
proof -
  let ?run = "gateway_execute_stream example_services example_request example_stream_adapter example_observer example_start"
  obtain t where t: "gw_trace (fst ?run) = t"
    "executed_post example_services example_request (streamed_run example_services) True t (Inr (released_of example_result))"
    by (rule example_streams)
  from t(2) obtain pre q p post where ab: "t = pre @ Executed q p # post"
    by (rule executed_post_released)
  have "gw_trace (fst ?run) = gw_trace example_start @ pre @ Executed q p # post"
    using t(1) ab by (simp add: example_start_def)
  from streamed_bytes_bounded [OF surjective_pairing this] t(1) ab show ?thesis by blast
qed

text \<open>C8. The result of a stream is its last chunk: a streaming run that returns a result has
  delivered exactly this result to the observer as the last chunk, and closed the effect with
  its \<open>effect.completed\<close> record.\<close>

theorem stream_returns_last_chunk:
  assumes run: "gateway_execute_stream sv request adapter observer s = (s', Inr x)"
  shows "\<exists>a b w q v d. gw_trace s' = gw_trace s @ a @ Observed x # b
        @ [Appended (completed_event (sv_platform sv w) q v d x)] \<and> list_all before_execution b
      \<and> length (rr_bytes x) \<le> po_max_output_bytes (pd_obligations d)"
proof -
  obtain t where t: "gw_trace s' = gw_trace s @ t" "executed_post sv request (streamed_run sv) True t (Inr x)"
    using run_extends [OF gateway_execute_stream_yields, of sv request adapter observer s] run by auto
  from t(2) obtain pre q d p a b w v where
    eq: "t = pre @ Executed q p # a @ Observed x # b @ [Appended (completed_event (sv_platform sv w) q v d x)]"
    and b: "list_all before_execution b" and at: "ran_at sv request (streamed_run sv) True pre q d p
       (a @ Observed x # b @ [Appended (completed_event (sv_platform sv w) q v d x)]) (Inr x)"
    by (rule streamed_released)
  from at have "ran_post sv (streamed_run sv) True q d p
       (a @ Observed x # b @ [Appended (completed_event (sv_platform sv w) q v d x)]) (Inr x)"
    unfolding ran_at_def by blast
  then obtain result t2 where "completion_post sv q d True result t2 (Inr x)" by (rule ran_post_released)
  then have "length (rr_bytes x) \<le> po_max_output_bytes (pd_obligations d)" by (rule completion_released)
  moreover have "gw_trace s' = gw_trace s @ (pre @ Executed q p # a) @ Observed x # b
      @ [Appended (completed_event (sv_platform sv w) q v d x)]"
    using t(1) eq by simp
  ultimately show ?thesis using b by blast
qed

theorem stream_returns_last_chunk_witness:
  "\<exists>s' a b. gateway_execute_stream example_services example_request example_stream_adapter example_observer example_start
      = (s', Inr (released_of example_result))
     \<and> gw_trace s' = a @ Observed (released_of example_result) # b"
proof -
  obtain s' where run: "gateway_execute_stream example_services example_request example_stream_adapter
      example_observer example_start = (s', Inr (released_of example_result))"
    using example_stream_completes by (metis prod.collapse)
  from stream_returns_last_chunk [OF run] obtain a b where
    "gw_trace s' = gw_trace example_start @ a @ Observed (released_of example_result) # b" by blast
  with run show ?thesis by (metis append_Nil example_start_def gateway_state.select_convs(2))
qed

text \<open>C9. Permits are good for one use: a permit that passed authentication carries the claims of
  the request, decision, obligations and actor it was checked against, and is refused by every
  later authentication, whatever the request, decision and state.\<close>

theorem permit_single_use:
  assumes first: "snd (authenticate_and_consume sv p q d s) = Inr p'" and own: "ep_obligations p = pd_obligations d"
  shows "permit_for sv q d p' \<and> (\<exists>e. snd (authenticate_and_consume sv p' q' d' s') = Inl e)"
proof -
  have consumed: "consume_post sv q d p [] (Inr p')"
    using authenticate_yields [of sv p q d] first unfolding yields_def consume_post_def by metis
  then have "permit_for sv q d p'" "ep_consumed p'" using own by (auto simp: consume_post_def)
  moreover have "\<not> ep_consumed p'" if "snd (authenticate_and_consume sv p' q' d' s') = Inr p''" for p''
    using authenticate_yields [of sv p' q' d'] that unfolding yields_def consume_post_def by metis
  ultimately show ?thesis by (cases "snd (authenticate_and_consume sv p' q' d' s')") auto
qed

definition example_permit :: ExecutionPermit where
  "example_permit = \<lparr>ep_request_hash = ''r1task.createtask'', ep_decision_id = ''d1'',
     ep_obligations_hash = ''broker'', ep_actor_id = ''agent'', ep_permit_nonce = ''u1'', ep_expires_at_unix_ms = 31000,
     ep_authentication_tag = as_bytes ''r1task.createtasku1'',
     ep_obligations = pd_obligations (builtin_decide example_policy ''d1'' example_request), ep_consumed = False\<rparr>"

lemma example_authenticates:
  "snd (authenticate_and_consume example_services example_permit example_request
      (builtin_decide example_policy ''d1'' example_request) example_start)
    = Inr (example_permit\<lparr>ep_consumed := True\<rparr>)"
proof -
  have "request_digest example_platform example_request = Inr ''r1task.createtask''"
    "obligations_digest example_platform (pd_obligations (builtin_decide example_policy ''d1'' example_request)) = Inr ''broker''"
    "canonical_bytes (pl_claims_bytes example_platform) (permit_claims example_permit) = Inr (as_bytes ''r1task.createtasku1'')"
    "pl_hmac example_platform [] (as_bytes ''r1task.createtasku1'') = as_bytes ''r1task.createtasku1''"
    "pd_decision_id (builtin_decide example_policy ''d1'' example_request) = ''d1''"
    "actor_id (er_actor example_request) = ''agent''" by code_simp+
  then show ?thesis
    by (simp add: authenticate_and_consume_def g_bind_def g_get_def g_lift_def g_call_def g_return_def
        example_services_def reject_if_def example_permit_def)
qed

theorem permit_single_use_witness:
  "\<exists>e. snd (authenticate_and_consume example_services (example_permit\<lparr>ep_consumed := True\<rparr>) example_request
      (builtin_decide example_policy ''d1'' example_request) example_start) = Inl e"
  using permit_single_use [OF example_authenticates, of example_request
      "builtin_decide example_policy ''d1'' example_request" example_start]
  by (simp add: example_permit_def)

text \<open>C5. Without an allowing policy nothing happens: if policy never answers \<open>Allow\<close>, because it
  denies, keeps asking for approval or fails, then a run of the gateway returns an error,
  executes nothing and delivers nothing, for plain and for streaming adapters.\<close>

theorem denied_effects_fail_closed:
  assumes never: "\<And>disclosed w d. snd (sv_policy_decide sv disclosed w) = Inr d \<Longrightarrow> pd_outcome d \<noteq> Allow"
    and m: "m = gateway_execute sv request adapter \<or> m = gateway_execute_stream sv request stream_adapter observer"
  shows "\<exists>t e. gw_trace (fst (m s)) = gw_trace s @ t \<and> list_all before_execution t \<and> snd (m s) = Inl e"
proof -
  obtain D streamed where "yields m (executed_post sv request D streamed)"
    using m gateway_execute_yields gateway_execute_stream_yields by metis
  then obtain t where t: "gw_trace (fst (m s)) = gw_trace s @ t" "executed_post sv request D streamed t (snd (m s))"
    by (rule run_extends)
  have "\<not> sanctioned sv pre q d" for pre q d
    using never by (auto simp: sanctioned_def valid_decision_def)
  with t show ?thesis unfolding executed_post_def by blast
qed

definition example_denying :: "example_world Services" where
  "example_denying = example_services\<lparr>sv_policy_decide :=
     (\<lambda>q w. (w, Inr (builtin_decide offline_default ''d1'' (q\<lparr>er_action := ''unknown''\<rparr>))))\<rparr>"

theorem denied_effects_fail_closed_witness:
  "\<exists>t e. gw_trace (fst (gateway_execute example_denying example_request example_adapter example_start))
       = gw_trace example_start @ t
     \<and> list_all before_execution t
     \<and> snd (gateway_execute example_denying example_request example_adapter example_start) = Inl e"
proof (rule denied_effects_fail_closed [OF _ disjI1 [OF refl]])
  fix disclosed :: EffectRequest and w :: example_world and d :: PolicyDecision
  have "builtin_outcome offline_default (disclosed\<lparr>er_action := ''unknown''\<rparr>) = Deny"
    by (simp add: builtin_outcome_def offline_default_def fallback_outcome_def Let_def)
  moreover assume "snd (sv_policy_decide example_denying disclosed w) = Inr d"
  ultimately show "pd_outcome d \<noteq> Allow" by (auto simp: example_denying_def builtin_decide_def)
qed


definition example_search :: EffectRequest where
  "example_search = example_request\<lparr>er_action := ''web.search''\<rparr>"

lemma example_review:
  "\<exists>q. snd (review_risk example_services example_search (builtin_decide example_policy ''d1'' example_search) example_start)
     = Inr (q, True)"
proof -
  have "risk_auto_ineligibility example_platform example_search = None"
    "trim ''bounded'' = ''bounded''" "\<not> char_count ''bounded'' > 1000" by code_simp+
  then show ?thesis
    by (simp add: review_risk_def g_bind_def g_get_def g_call_def g_event_def g_lift_def g_note_def g_return_def
        example_services_def example_start_def Let_def)
qed


text \<open>C6. Allowed effects complete: when the services answer (the lease is held or not used, the
  journal accepts events, encoding succeeds and the clock stays within a permit's life), the
  kernel prepares the request, policy allows it with a decision that the kernel accepts, the
  adapter returns a successful result within the output limit, and policy allows its release,
  then the gateway returns exactly that result.\<close>

theorem allowed_effect_completes:
  assumes "responsive sv pl k" "allows sv pl k q d"
    and "er_schema_version request = 1" "er_request_id request \<noteq> []" "er_phase request = PreEffect"
    and "kernel_prepare pl k request = Inr q" "is_ok (pl_command_context pl request)"
    and "\<And>p. returns x (adapter q p)"
    and "qr_effect_succeeded x" "length (qr_bytes x) \<le> po_max_output_bytes (pd_obligations d)"
    and "kernel_prepare pl k (post_request pl q None x) = Inr post" "allows sv pl k post d'"
  shows "snd (gateway_execute sv request adapter s) = Inr (released_of x)"
  using assms by (rule completion)

theorem allowed_effect_completes_witness:
  "snd (gateway_execute example_services example_request example_adapter example_start) = Inr (released_of example_result)"
  using example_fits
  by (intro allowed_effect_completes [OF example_responsive example_allows example_request_facts(1-3) example_prepared
        example_request_facts(4) _ example_request_facts(5) _ example_post, of example_adapter])
    (simp_all add: example_adapter_def)

text \<open>C7. Allowed streams complete: under the same conditions, a streaming adapter that submits one
  or more successful chunks, which fit the output limit together and whose release policy allows
  one by one, to an observer that accepts them, and then returns its last chunk, is not cut
  short: the gateway returns that last chunk.\<close>

theorem allowed_stream_completes:
  assumes "responsive sv pl k" "allows sv pl k q d"
    and "er_schema_version request = 1" "er_request_id request \<noteq> []" "er_phase request = PreEffect"
    and "kernel_prepare pl k request = Inr q" "is_ok (pl_command_context pl request)"
    and "\<And>p. adapter q p = stream_of x cs" "cs \<noteq> []" "\<forall>c \<in> set cs. releasable sv pl k q (length cs) c"
    and "sum_list (map (length \<circ> qr_bytes) cs) \<le> po_max_output_bytes (pd_obligations d)"
    and "\<And>x w. snd (observer x w) = Inr ()"
  shows "snd (gateway_execute_stream sv request adapter observer s) = Inr (released_of (last cs))"
  using assms by (rule stream_completion)

theorem allowed_stream_completes_witness:
  "snd (gateway_execute_stream example_services example_request example_stream_adapter example_observer example_start)
     = Inr (released_of example_result)"
  using allowed_stream_completes [OF example_responsive example_allows example_request_facts(1-3) example_prepared
        example_request_facts(4), of example_stream_adapter example_result "[example_result, example_result]"
        example_observer example_start] example_fits example_releasable
  by (simp add: example_stream_adapter_def example_observer_def numeral_2_eq_2)

end
