(* ===== verification/Tables.thy ===== *)
theory Tables
  imports Prelude "HOL-Library.Product_Lexorder"
begin

text \<open>
  What the persistent components share: ordered tables, as the embedded database \<open>redb\<close> and
  Rust's \<open>BTreeMap\<close> present them (unique keys, iteration in key order), and computations that
  act on a state and may fail.
\<close>

named_theorems action_simps \<open>what a computation satisfies, by its parts\<close>

section \<open>Ordered tables\<close>

text \<open>A table is the list of its entries in the order of their keys.\<close>

type_synonym ('k, 'v) table = "('k \<times> 'v) list"

definition table_ok :: "('k :: linorder, 'v) table \<Rightarrow> bool" where
  "table_ok t = sorted_wrt (<) (map fst t)"

abbreviation table_get :: "('k, 'v) table \<Rightarrow> 'k \<Rightarrow> 'v option" where
  "table_get \<equiv> map_of"

fun table_insert :: "'k :: linorder \<Rightarrow> 'v \<Rightarrow> ('k, 'v) table \<Rightarrow> ('k, 'v) table" where
  "table_insert k v [] = [(k, v)]"
| "table_insert k v (e # t) =
     (if fst e < k then e # table_insert k v t
      else if fst e = k then (k, v) # t
      else (k, v) # e # t)"

definition table_remove :: "'k \<Rightarrow> ('k, 'v) table \<Rightarrow> ('k, 'v) table" where
  "table_remove k = filter (\<lambda>e. fst e \<noteq> k)"

text \<open>The entries of \<open>range(low..)\<close> and of \<open>range(low..=high)\<close>.\<close>

definition table_from :: "'k :: linorder \<Rightarrow> ('k, 'v) table \<Rightarrow> ('k, 'v) table" where
  "table_from low = filter (\<lambda>e. low \<le> fst e)"

definition table_between :: "'k :: linorder \<Rightarrow> 'k \<Rightarrow> ('k, 'v) table \<Rightarrow> ('k, 'v) table" where
  "table_between low high = filter (\<lambda>e. low \<le> fst e \<and> fst e \<le> high)"

lemma table_ok_simps [simp]:
  "table_ok []"
  "table_ok (e # t) \<longleftrightarrow> (\<forall>x \<in> set t. fst e < fst x) \<and> table_ok t"
  by (simp_all add: table_ok_def)

lemma table_ok_append:
  "table_ok (t @ u) \<longleftrightarrow> table_ok t \<and> table_ok u \<and> (\<forall>x \<in> set t. \<forall>y \<in> set u. fst x < fst y)"
  by (auto simp: table_ok_def sorted_wrt_append)

lemma table_ok_filter [simp]: "table_ok t \<Longrightarrow> table_ok (filter P t)"
  by (induction t) auto

lemma table_ok_restrict [simp]:
  assumes "table_ok t"
  shows "table_ok (table_remove k t)" "table_ok (table_from low t)" "table_ok (table_between low high t)"
  using assms by (simp_all add: table_remove_def table_from_def table_between_def)

lemma table_ok_distinct: "table_ok t \<Longrightarrow> distinct (map fst t)"
  by (induction t) auto

lemma set_table_insert_keys: "fst ` set (table_insert k v t) = insert k (fst ` set t)"
  by (induction t) auto

lemma table_ok_insert [simp]: "table_ok t \<Longrightarrow> table_ok (table_insert k v t)"
proof (induction t)
  case (Cons e t)
  have "fst e < fst x" if "fst e < k" "x \<in> set (table_insert k v t)" for x
  proof -
    have "fst x \<in> insert k (fst ` set t)"
      using that(2) set_table_insert_keys by (metis imageI)
    then show ?thesis using that(1) Cons.prems by auto
  qed
  with Cons show ?case by force
qed simp

lemma table_get_insert [simp]:
  "table_ok t \<Longrightarrow> table_get (table_insert k v t) = (table_get t)(k \<mapsto> v)"
proof (induction t)
  case (Cons e t)
  then show ?case by (cases e) (auto simp: fun_eq_iff map_of_eq_None_iff)
qed simp

lemma table_get_remove [simp]: "table_get (table_remove k t) = (table_get t)(k := None)"
  by (induction t) (auto simp: table_remove_def fun_eq_iff)

lemma table_get_from [simp]:
  "table_get (table_from low t) = (table_get t) |` {low..}"
  by (induction t) (auto simp: table_from_def restrict_map_def fun_eq_iff)

lemma table_get_between [simp]:
  "table_get (table_between low high t) = (table_get t) |` {low..high}"
  by (induction t) (auto simp: table_between_def restrict_map_def fun_eq_iff)

lemma table_insert_last:
  "(\<And>x. x \<in> set t \<Longrightarrow> fst x < k) \<Longrightarrow> table_insert k v t = t @ [(k, v)]"
  by (induction t) auto

lemma table_get_tail: "table_ok (e # t) \<Longrightarrow> table_get t = (table_get (e # t))(fst e := None)"
proof -
  assume "table_ok (e # t)"
  then have "table_get t (fst e) = None" by (auto simp: map_of_eq_None_iff)
  then show ?thesis by (cases e) (auto simp: fun_eq_iff)
qed

text \<open>An ordered table is determined by what it maps each key to.\<close>

lemma table_eqI:
  assumes "table_ok t" "table_ok u" "table_get t = table_get u"
  shows "t = u"
  using assms
proof (induction t arbitrary: u)
  case Nil
  then show ?case using dom_map_of_conv_image_fst [of u] by simp
next
  case (Cons e t)
  have "u \<noteq> []"
    using fun_cong [OF Cons.prems(3), of "fst e"] by (cases e) auto
  then obtain f u' where u: "u = f # u'" by (cases u) auto
  have keys: "insert (fst e) (fst ` set t) = insert (fst f) (fst ` set u')"
    using arg_cong [OF Cons.prems(3), of dom] u by (simp only: dom_map_of_conv_image_fst list.set image_insert)
  have "fst e = fst f"
  proof (rule antisym)
    show "fst e \<le> fst f" using keys Cons.prems(1) by (metis insertI1 insertE imageE less_imp_le order_refl table_ok_simps(2))
    show "fst f \<le> fst e" using keys Cons.prems(2) u by (metis insertI1 insertE imageE less_imp_le order_refl table_ok_simps(2))
  qed
  moreover have "snd e = snd f"
    using Cons.prems(3) u calculation by (metis map_of_Cons_code(2) option.inject surjective_pairing)
  ultimately have ef: "e = f" by (simp add: prod_eq_iff)
  have "table_get t = (table_get (e # t))(fst e := None)"
    using Cons.prems(1) by (rule table_get_tail)
  also have "\<dots> = (table_get (f # u'))(fst f := None)"
    using Cons.prems(3) u ef by (simp only:)
  also have "\<dots> = table_get u'"
    using Cons.prems(2) u by (simp only: table_get_tail [symmetric])
  finally show ?case using Cons u ef by auto
qed

lemma table_get_Some_iff: "table_ok t \<Longrightarrow> table_get t k = Some v \<longleftrightarrow> (k, v) \<in> set t"
  using table_ok_distinct by (auto dest: map_of_SomeD)

section \<open>Loops that may fail\<close>

fun fold_r :: "('x \<Rightarrow> 'a \<Rightarrow> ('e, 'a) result) \<Rightarrow> 'x list \<Rightarrow> 'a \<Rightarrow> ('e, 'a) result" where
  "fold_r f [] acc = Inr acc"
| "fold_r f (x # xs) acc = bind_r (f x acc) (fold_r f xs)"

lemma fold_r_append: "fold_r f (xs @ ys) acc = bind_r (fold_r f xs acc) (fold_r f ys)"
proof (induction xs arbitrary: acc)
  case (Cons x xs)
  then show ?case by (cases "f x acc") simp_all
qed simp

text \<open>An invariant of the loop body holds at the end of a loop that does not fail.\<close>

lemma fold_r_invariant:
  assumes "fold_r f xs acc = Inr acc'" "I [] acc"
    and "\<And>ys x a a'. \<lbrakk>I ys a; f x a = Inr a'; prefix (ys @ [x]) xs\<rbrakk> \<Longrightarrow> I (ys @ [x]) a'"
  shows "I xs acc'"
  using assms
proof (induction xs arbitrary: acc' rule: rev_induct)
  case (snoc x xs)
  then obtain a where a: "fold_r f xs acc = Inr a" "f x a = Inr acc'"
    by (auto simp: fold_r_append result_simps)
  have "I xs a"
    using snoc.IH [OF a(1) snoc.prems(2)] snoc.prems(3) by (meson prefix_snoc)
  then show ?case using snoc.prems(3) [OF _ a(2)] by simp
qed simp

section \<open>Computations on a state\<close>

text \<open>A method of the code takes the state and returns it with a \<open>Result\<close>.\<close>

type_synonym ('s, 'e, 'a) action = "'s \<Rightarrow> 's \<times> ('e, 'a) result"

definition a_return :: "'a \<Rightarrow> ('s, 'e, 'a) action" where
  "a_return x = (\<lambda>s. (s, Inr x))"

definition a_fail :: "'e \<Rightarrow> ('s, 'e, 'a) action" where
  "a_fail e = (\<lambda>s. (s, Inl e))"

definition a_lift :: "('e, 'a) result \<Rightarrow> ('s, 'e, 'a) action" where
  "a_lift r = (\<lambda>s. (s, r))"

definition a_bind :: "('s, 'e, 'a) action \<Rightarrow> ('a \<Rightarrow> ('s, 'e, 'b) action) \<Rightarrow> ('s, 'e, 'b) action" where
  "a_bind m f = (\<lambda>s. case m s of (s', Inl e) \<Rightarrow> (s', Inl e) | (s', Inr x) \<Rightarrow> f x s')"

definition a_catch :: "('s, 'e, 'a) action \<Rightarrow> ('s, 'f, ('e, 'a) result) action" where
  "a_catch m = (\<lambda>s. case m s of (s', r) \<Rightarrow> (s', Inr r))"

definition a_get :: "('s \<Rightarrow> 'a) \<Rightarrow> ('s, 'e, 'a) action" where
  "a_get f = (\<lambda>s. (s, Inr (f s)))"

definition a_modify :: "('s \<Rightarrow> 's) \<Rightarrow> ('s, 'e, unit) action" where
  "a_modify f = (\<lambda>s. (f s, Inr ()))"

definition a_reject :: "bool \<Rightarrow> 'e \<Rightarrow> ('s, 'e, unit) action" where
  "a_reject b e = (if b then a_fail e else a_return ())"

fun a_fold :: "('x \<Rightarrow> 'a \<Rightarrow> ('s, 'e, 'a) action) \<Rightarrow> 'x list \<Rightarrow> 'a \<Rightarrow> ('s, 'e, 'a) action" where
  "a_fold f [] acc = a_return acc"
| "a_fold f (x # xs) acc = a_bind (f x acc) (a_fold f xs)"

lemma a_bind_simps [simp]:
  "a_bind (a_return x) f = f x"
  "a_bind (a_lift (Inr x)) f = f x"
  "a_bind (a_fail e) f = a_fail e"
  "a_bind (a_lift (Inl e)) f = a_fail e"
  by (simp_all add: a_bind_def a_return_def a_lift_def a_fail_def)

lemma a_reject_simps [simp]: "a_reject False e = a_return ()" "a_reject True e = a_fail e"
  by (simp_all add: a_reject_def)

text \<open>What holds of the state and the result after a computation.\<close>

definition after :: "('s, 'e, 'a) action \<Rightarrow> 's \<Rightarrow> ('s \<Rightarrow> ('e, 'a) result \<Rightarrow> bool) \<Rightarrow> bool" where
  "after m s Q = (case m s of (s', r) \<Rightarrow> Q s' r)"

lemma after_primitive [action_simps]:
  "after (a_return x) s Q \<longleftrightarrow> Q s (Inr x)"
  "after (a_fail e) s Q \<longleftrightarrow> Q s (Inl e)"
  "after (a_lift r) s Q \<longleftrightarrow> Q s r"
  "after (a_get f) s Q \<longleftrightarrow> Q s (Inr (f s))"
  "after (a_modify g) s R \<longleftrightarrow> R (g s) (Inr ())"
  by (simp_all add: after_def a_return_def a_fail_def a_lift_def a_get_def a_modify_def)

lemma after_reject [action_simps]:
  "after (a_reject b e) s Q \<longleftrightarrow> (if b then Q s (Inl e) else Q s (Inr ()))"
  by (simp add: a_reject_def action_simps)

lemma after_catch [action_simps]: "after (a_catch m) s Q \<longleftrightarrow> after m s (\<lambda>s' r. Q s' (Inr r))"
  by (simp add: after_def a_catch_def split: prod.split)

lemma after_bind [action_simps]:
  "after (a_bind m f) s Q \<longleftrightarrow>
     after m s (\<lambda>s' r. case r of Inl e \<Rightarrow> Q s' (Inl e) | Inr x \<Rightarrow> after (f x) s' Q)"
  by (auto simp: after_def a_bind_def split: prod.split sum.split)

lemma after_mono: "after m s P \<Longrightarrow> (\<And>s' r. P s' r \<Longrightarrow> Q s' r) \<Longrightarrow> after m s Q"
  by (auto simp: after_def split: prod.splits)

lemma after_run: "after m s Q \<longleftrightarrow> Q (fst (m s)) (snd (m s))"
  by (simp add: after_def case_prod_beta)

lemma after_conj: "after m s (\<lambda>s' r. P s' r \<and> Q s' r) \<longleftrightarrow> after m s P \<and> after m s Q"
  by (simp add: after_run)

lemma after_value:
  assumes "\<And>x t. after (f x) t (\<lambda>s' r. \<forall>y. r = Inr y \<longrightarrow> P y)"
  shows "after (a_bind m f) s (\<lambda>s' r. \<forall>y. r = Inr y \<longrightarrow> P y)"
  using assms by (auto simp: after_run a_bind_def split: prod.split sum.split)

lemma after_both: "after m s P \<Longrightarrow> after m s Q \<Longrightarrow> after m s (\<lambda>s' r. P s' r \<and> Q s' r)"
  by (simp add: after_run)

text \<open>An invariant of the loop body is an invariant of the loop.\<close>

lemma after_fold:
  assumes "I xs acc s"
    and "\<And>x ys a s. I (x # ys) a s \<Longrightarrow>
      after (f x a) s (\<lambda>s' r. case r of Inl e \<Rightarrow> Q s' (Inl e) | Inr a' \<Rightarrow> I ys a' s')"
    and "\<And>a s. I [] a s \<Longrightarrow> Q s (Inr a)"
  shows "after (a_fold f xs acc) s Q"
  using assms(1)
proof (induction xs arbitrary: acc s)
  case Nil
  then show ?case by (simp add: after_primitive assms(3))
next
  case (Cons x xs)
  have "after (f x acc) s (\<lambda>s' r. case r of Inl e \<Rightarrow> Q s' (Inl e) | Inr a' \<Rightarrow> after (a_fold f xs a') s' Q)"
    using assms(2) [OF Cons.prems] by (rule after_mono) (auto split: sum.splits intro: Cons.IH)
  then show ?case by (simp add: action_simps)
qed

end
