(* ===== verification/Journal.thy ===== *)
theory Journal
  imports Tables Effects
begin

text \<open>
  The local event journal (crate \<open>colossus-journal-redb\<close>): a hash chain of event envelopes in
  an embedded database, with an index by stream, an outbox for projections, signed checkpoints
  and an anchor kept outside of the database.

  The database holds encoded values. Encoding and decoding are done by \<open>serde_json\<close>, hashing,
  encryption and signatures by cryptographic packages, so the type \<open>'b\<close> of encoded bytes and
  these functions are parameters, fields of \<open>JournalEnv\<close>. The key provider acts on a state of
  type \<open>'k\<close> (it keeps the anchor); clock, identifiers, randomness and the failures of the
  database act on a world of type \<open>'w\<close>. A transaction of the database fails when it begins
  or when it commits, without effect; that an operation inside of it may fail as well adds no
  behaviour, since an error drops the transaction.
\<close>

section \<open>Contracts\<close>

datatype JournalPayloadProtection = Encrypted | Plaintext

fun protection_str :: "JournalPayloadProtection \<Rightarrow> string" where
  "protection_str Encrypted = ''encrypted''"
| "protection_str Plaintext = ''plaintext''"

datatype SecureAnchorStatus = AnchorVerified | AnchorQuarantined

record SecureAnchor =
  sa_format_version :: nat
  sa_sequence :: nat
  sa_hash :: string
  sa_verification_profile :: "string option"
  sa_status :: SecureAnchorStatus

record SignedCheckpoint =
  sc_global_sequence :: nat
  sc_record_hash :: string
  sc_key_id :: string
  sc_algorithm :: string
  sc_signature :: string
  sc_created_at :: string

datatype StartupVerificationMode = Incremental | Full

record StartupVerificationReport =
  sr_configured_mode :: StartupVerificationMode
  sr_path :: string
  sr_verified_from_sequence :: "nat option"
  sr_verified_through_sequence :: nat
  sr_verified_event_count :: nat
  sr_anchor_format_version :: "nat option"

record VerificationReport =
  vr_event_count :: nat
  vr_last_sequence :: nat
  vr_last_hash :: string
  vr_checkpoint :: "SignedCheckpoint option"

record ProjectionWorkItem =
  wi_global_sequence :: nat
  wi_event_id :: string

definition ENCRYPTED_PAYLOAD_ALGORITHM :: string where
  "ENCRYPTED_PAYLOAD_ALGORITHM = ''XChaCha20-Poly1305''"

definition PLAINTEXT_PAYLOAD_ALGORITHM :: string where
  "PLAINTEXT_PAYLOAD_ALGORITHM = ''plaintext-json-v1''"

definition MAX_STREAM_READ_BATCH :: nat where
  "MAX_STREAM_READ_BATCH = 1024"

definition MAX_STREAM_LIST_BATCH :: nat where
  "MAX_STREAM_LIST_BATCH = 1024"

definition ZERO_HASH :: string where
  "ZERO_HASH = replicate 64 CHR ''0''"

definition CHECKPOINT_INTERVAL :: nat where
  "CHECKPOINT_INTERVAL = 100"

text \<open>Instants and durations are in milliseconds.\<close>

definition CHECKPOINT_MAX_AGE :: nat where
  "CHECKPOINT_MAX_AGE = 60000"

definition STREAM_EVENTS_INDEX_KEY :: string where
  "STREAM_EVENTS_INDEX_KEY = ''stream_events_index_version''"

definition STREAM_EVENTS_INDEX_VERSION :: nat where
  "STREAM_EVENTS_INDEX_VERSION = 1"

definition PAYLOAD_PROTECTION_KEY :: string where
  "PAYLOAD_PROTECTION_KEY = ''payload_protection_v1''"

definition SECURE_ANCHOR_FORMAT_VERSION :: nat where
  "SECURE_ANCHOR_FORMAT_VERSION = 2"

definition INCREMENTAL_VERIFICATION_PROFILE :: string where
  "INCREMENTAL_VERIFICATION_PROFILE = ''full-journal-v1''"

section \<open>Records that are encoded\<close>

record AssociatedData =
  ad_schema_version :: nat
  ad_event_version :: nat
  ad_event_id :: string
  ad_global_sequence :: nat
  ad_stream_id :: string
  ad_stream_version :: nat
  ad_classification :: EventClassification
  ad_event_type :: string
  ad_actor :: Actor
  ad_context :: ExecutionContext
  ad_occurred_at :: string

record RecordHashInput =
  rh_associated_data :: AssociatedData
  rh_payload :: EncryptedPayload
  rh_previous_hash :: string

text \<open>The envelope as it was stored: actor, context and payload keep their exact encoding.\<close>

record 'b PersistedEventEnvelope =
  pe_schema_version :: nat
  pe_event_version :: nat
  pe_event_id :: string
  pe_global_sequence :: nat
  pe_stream_id :: string
  pe_stream_version :: nat
  pe_classification :: EventClassification
  pe_event_type :: string
  pe_actor :: 'b
  pe_context :: 'b
  pe_occurred_at :: string
  pe_payload :: 'b
  pe_previous_hash :: string
  pe_record_hash :: string

record 'b PersistedAssociatedData =
  pa_schema_version :: nat
  pa_event_version :: nat
  pa_event_id :: string
  pa_global_sequence :: nat
  pa_stream_id :: string
  pa_stream_version :: nat
  pa_classification :: EventClassification
  pa_event_type :: string
  pa_actor :: 'b
  pa_context :: 'b
  pa_occurred_at :: string

record 'b PersistedRecordHashInput =
  ph_associated_data :: "'b PersistedAssociatedData"
  ph_payload :: 'b
  ph_previous_hash :: string

definition associated_data :: "EventEnvelope \<Rightarrow> AssociatedData" where
  "associated_data e = \<lparr>ad_schema_version = ev_schema_version e, ad_event_version = ev_event_version e,
     ad_event_id = ev_event_id e, ad_global_sequence = ev_global_sequence e,
     ad_stream_id = ev_stream_id e, ad_stream_version = ev_stream_version e,
     ad_classification = ev_classification e, ad_event_type = ev_event_type e,
     ad_actor = ev_actor e, ad_context = ev_context e, ad_occurred_at = ev_occurred_at e\<rparr>"

definition persisted_associated_data :: "'b PersistedEventEnvelope \<Rightarrow> 'b PersistedAssociatedData" where
  "persisted_associated_data p = \<lparr>pa_schema_version = pe_schema_version p,
     pa_event_version = pe_event_version p, pa_event_id = pe_event_id p,
     pa_global_sequence = pe_global_sequence p, pa_stream_id = pe_stream_id p,
     pa_stream_version = pe_stream_version p, pa_classification = pe_classification p,
     pa_event_type = pe_event_type p, pa_actor = pe_actor p, pa_context = pe_context p,
     pa_occurred_at = pe_occurred_at p\<rparr>"

section \<open>Environment and state\<close>

record JsonError =
  je_display :: string
  je_located :: string

record ('b, 'k, 'w) JournalEnv =
  cd_to_envelope :: "EventEnvelope \<Rightarrow> (JsonError, 'b) result"
  cd_of_envelope :: "'b \<Rightarrow> (JsonError, EventEnvelope) result"
  cd_of_persisted :: "'b \<Rightarrow> (JsonError, 'b PersistedEventEnvelope) result"
  cd_to_u64 :: "nat \<Rightarrow> (JsonError, 'b) result"
  cd_of_u64 :: "'b \<Rightarrow> (JsonError, nat) result"
  cd_to_str :: "string \<Rightarrow> (JsonError, 'b) result"
  cd_of_str :: "'b \<Rightarrow> (JsonError, string) result"
  cd_to_checkpoint :: "SignedCheckpoint \<Rightarrow> (JsonError, 'b) result"
  cd_of_checkpoint :: "'b \<Rightarrow> (JsonError, SignedCheckpoint) result"
  cd_to_value :: "json \<Rightarrow> (JsonError, 'b) result"
  cd_of_value :: "'b \<Rightarrow> (JsonError, json) result"
  cd_to_associated :: "AssociatedData \<Rightarrow> (JsonError, 'b) result"
  cd_to_persisted_associated :: "'b PersistedAssociatedData \<Rightarrow> (JsonError, 'b) result"
  cd_to_hash_input :: "RecordHashInput \<Rightarrow> (JsonError, 'b) result"
  cd_to_persisted_hash_input :: "'b PersistedRecordHashInput \<Rightarrow> (JsonError, 'b) result"
  cd_of_text :: "string \<Rightarrow> 'b"
  cd_len :: "'b \<Rightarrow> nat"
  cr_sha256_hex :: "'b \<Rightarrow> string"
  cr_hex_encode :: "'b \<Rightarrow> string"
  cr_hex_decode :: "string \<Rightarrow> 'b option"
  cr_encrypt :: "u8 list \<Rightarrow> 'b \<Rightarrow> 'b \<Rightarrow> 'b \<Rightarrow> (string, 'b) result"
  cr_decrypt :: "u8 list \<Rightarrow> 'b \<Rightarrow> 'b \<Rightarrow> 'b \<Rightarrow> 'b option"
  kp_payload_protection :: JournalPayloadProtection
  kp_active_key :: "'k \<Rightarrow> (StoreError, string \<times> u8 list) result"
  kp_key_by_id :: "'k \<Rightarrow> string \<Rightarrow> (StoreError, u8 list) result"
  kp_store_anchor :: "SecureAnchor \<Rightarrow> 'k \<Rightarrow> 'k \<times> (StoreError, unit) result"
  kp_load_anchor :: "'k \<Rightarrow> (StoreError, SecureAnchor option) result"
  cs_key_id :: string
  cs_sign :: "'b \<Rightarrow> (StoreError, 'b) result"
  cs_verify :: "'b \<Rightarrow> 'b \<Rightarrow> (StoreError, unit) result"
  en_begin :: "'w \<Rightarrow> 'w \<times> string option"
  en_commit :: "'w \<Rightarrow> 'w \<times> string option"
  en_utc_now :: "'w \<Rightarrow> 'w \<times> (string, string) result"
  en_uuid :: "'w \<Rightarrow> 'w \<times> string"
  en_nonce :: "'w \<Rightarrow> 'w \<times> (string, 'b) result"
  en_instant :: "'w \<Rightarrow> 'w \<times> nat"

record 'b Database =
  db_events :: "(nat, 'b) table"
  db_stream_events :: "(string \<times> nat, nat) table"
  db_stream_versions :: "(string, nat) table"
  db_metadata :: "(string, 'b) table"
  db_outbox :: "(nat, 'b) table"
  db_projection_positions :: "(string, nat) table"
  db_projection_records :: "(string, 'b) table"

record ('b, 'k, 'w) RedbEventJournal =
  jr_database :: "'b Database"
  jr_payload_protection :: JournalPayloadProtection
  jr_keys :: 'k
  jr_last_checkpoint :: nat
  jr_recovery_mode :: bool
  jr_recovery_reason :: "string option"
  jr_startup_report :: StartupVerificationReport
  jr_world :: 'w

type_synonym ('b, 'k, 'w, 'a) journal_op =
  "(('b, 'k, 'w) RedbEventJournal, StoreError, 'a) action"

text \<open>Error conversion.\<close>

definition adapter_json :: "(JsonError, 'a) result \<Rightarrow> (StoreError, 'a) result" where
  "adapter_json = map_err (\<lambda>e. StoreAdapter (je_display e))"

definition adapter_text :: "(string, 'a) result \<Rightarrow> (StoreError, 'a) result" where
  "adapter_text = map_err StoreAdapter"

text \<open>Malformed durable data is an integrity failure.\<close>

definition decode_journal_json :: "(JsonError, 'a) result \<Rightarrow> (StoreError, 'a) result" where
  "decode_journal_json = map_err (\<lambda>e. Verification (''invalid stored journal JSON at '' @ je_located e))"

text \<open>Steps of the environment.\<close>

definition on_world :: "('w \<Rightarrow> 'w \<times> 'a) \<Rightarrow> ('b, 'k, 'w, 'a) journal_op" where
  "on_world f = (\<lambda>s. case f (jr_world s) of (w, x) \<Rightarrow> (s\<lparr>jr_world := w\<rparr>, Inr x))"

definition begin_transaction :: "('b, 'k, 'w) JournalEnv \<Rightarrow> ('b, 'k, 'w, 'b Database) journal_op" where
  "begin_transaction en =
     a_bind (on_world (en_begin en)) (\<lambda>fault.
     case fault of Some m \<Rightarrow> a_fail (StoreAdapter m) | None \<Rightarrow> a_get jr_database)"

definition commit_transaction :: "('b, 'k, 'w) JournalEnv \<Rightarrow> 'b Database \<Rightarrow> ('b, 'k, 'w, unit) journal_op" where
  "commit_transaction en db =
     a_bind (on_world (en_commit en)) (\<lambda>fault.
     case fault of Some m \<Rightarrow> a_fail (StoreAdapter m) | None \<Rightarrow> a_modify (\<lambda>s. s\<lparr>jr_database := db\<rparr>))"

definition utc_now :: "('b, 'k, 'w) JournalEnv \<Rightarrow> ('b, 'k, 'w, string) journal_op" where
  "utc_now en = a_bind (on_world (en_utc_now en)) (\<lambda>r. a_lift (adapter_text r))"

text \<open>Metadata of the database.\<close>

definition meta_entry :: "('b \<Rightarrow> (JsonError, 'a) result) \<Rightarrow> string \<Rightarrow> 'b Database \<Rightarrow> (StoreError, 'a option) result" where
  "meta_entry decode key db =
     (case table_get (db_metadata db) key of
        None \<Rightarrow> Inr None
      | Some b \<Rightarrow> bind_r (decode_journal_json (decode b)) (\<lambda>x. Inr (Some x)))"

definition last_sequence :: "('b, 'k, 'w) JournalEnv \<Rightarrow> 'b Database \<Rightarrow> (StoreError, nat) result" where
  "last_sequence en db =
     bind_r (meta_entry (cd_of_u64 en) ''last_sequence'' db) (\<lambda>x.
     Inr (case x of None \<Rightarrow> 0 | Some n \<Rightarrow> n))"

definition last_hash :: "('b, 'k, 'w) JournalEnv \<Rightarrow> 'b Database \<Rightarrow> (StoreError, string) result" where
  "last_hash en db =
     bind_r (meta_entry (cd_of_str en) ''last_hash'' db) (\<lambda>x.
     Inr (case x of None \<Rightarrow> ZERO_HASH | Some h \<Rightarrow> h))"

definition latest_checkpoint ::
    "('b, 'k, 'w) JournalEnv \<Rightarrow> 'b Database \<Rightarrow> (StoreError, SignedCheckpoint option) result" where
  "latest_checkpoint en db = meta_entry (cd_of_checkpoint en) ''latest_checkpoint'' db"

definition index_version :: "('b, 'k, 'w) JournalEnv \<Rightarrow> 'b Database \<Rightarrow> (StoreError, nat option) result" where
  "index_version en db = meta_entry (cd_of_u64 en) STREAM_EVENTS_INDEX_KEY db"

section \<open>Hashes and payloads\<close>

definition record_hash :: "('b, 'k, 'w) JournalEnv \<Rightarrow> EventEnvelope \<Rightarrow> (StoreError, string) result" where
  "record_hash en e =
     bind_r (adapter_json (cd_to_hash_input en \<lparr>rh_associated_data = associated_data e,
       rh_payload = ev_payload e, rh_previous_hash = ev_previous_hash e\<rparr>)) (\<lambda>b.
     Inr (cr_sha256_hex en b))"

definition persisted_hash_input :: "'b PersistedEventEnvelope \<Rightarrow> 'b PersistedRecordHashInput" where
  "persisted_hash_input p = \<lparr>ph_associated_data = persisted_associated_data p,
     ph_payload = pe_payload p, ph_previous_hash = pe_previous_hash p\<rparr>"

definition persisted_record_hash ::
    "('b, 'k, 'w) JournalEnv \<Rightarrow> 'b PersistedEventEnvelope \<Rightarrow> (StoreError, string) result" where
  "persisted_record_hash en p =
     bind_r (adapter_json (cd_to_persisted_hash_input en (persisted_hash_input p))) (\<lambda>b.
     Inr (cr_sha256_hex en b))"

definition checkpoint_message :: "nat \<Rightarrow> string \<Rightarrow> string" where
  "checkpoint_message sequence hash =
     ''colossus-checkpoint-v1'' @ [CHR 0x0A] @ nat_text sequence @ [CHR 0x0A] @ hash @ [CHR 0x0A]"

definition encrypt_payload ::
    "('b, 'k, 'w) JournalEnv \<Rightarrow> EventEnvelope \<Rightarrow> 'b \<Rightarrow> ('b, 'k, 'w, EncryptedPayload) journal_op" where
  "encrypt_payload en envelope plaintext =
     a_bind (a_get jr_payload_protection) (\<lambda>protection.
     if protection = Plaintext then
       a_return \<lparr>ep_key_id = ''none'', ep_algorithm = PLAINTEXT_PAYLOAD_ALGORITHM, ep_nonce = [],
         ep_ciphertext = cr_hex_encode en plaintext, ep_plaintext_hash = cr_sha256_hex en plaintext\<rparr>
     else
       a_bind (a_get jr_keys) (\<lambda>keys.
       a_bind (a_lift (kp_active_key en keys)) (\<lambda>(key_id, key).
       a_bind (on_world (en_nonce en)) (\<lambda>drawn.
       a_bind (a_lift (adapter_text drawn)) (\<lambda>nonce.
       a_bind (a_lift (adapter_json (cd_to_associated en (associated_data envelope)))) (\<lambda>aad.
       a_bind (a_lift (adapter_text (cr_encrypt en key nonce plaintext aad))) (\<lambda>ciphertext.
       a_return \<lparr>ep_key_id = key_id, ep_algorithm = ENCRYPTED_PAYLOAD_ALGORITHM,
         ep_nonce = cr_hex_encode en nonce, ep_ciphertext = cr_hex_encode en ciphertext,
         ep_plaintext_hash = cr_sha256_hex en plaintext\<rparr>)))))))"

definition decrypt_persisted ::
    "('b, 'k, 'w) JournalEnv \<Rightarrow> JournalPayloadProtection \<Rightarrow> 'k \<Rightarrow> EventEnvelope
      \<Rightarrow> 'b PersistedEventEnvelope \<Rightarrow> (StoreError, 'b) result" where
  "decrypt_persisted en protection keys event p =
     (let payload = ev_payload event
      in if protection = Plaintext then
        (if ep_algorithm payload \<noteq> PLAINTEXT_PAYLOAD_ALGORITHM \<or> ep_key_id payload \<noteq> ''none''
            \<or> ep_nonce payload \<noteq> [] then
           Inl (Verification (''event '' @ ev_event_id event
             @ '' payload does not match plaintext journal protection''))
         else ok_or (Verification (''event '' @ ev_event_id event
             @ '' plaintext payload encoding is invalid'')) (cr_hex_decode en (ep_ciphertext payload)))
      else
        bind_r (reject_if (ep_algorithm payload \<noteq> ENCRYPTED_PAYLOAD_ALGORITHM)
          (Verification (''unsupported payload algorithm '' @ ep_algorithm payload))) (\<lambda>_.
        bind_r (kp_key_by_id en keys (ep_key_id payload)) (\<lambda>key.
        bind_r (ok_or (Verification ''invalid XChaCha20 nonce encoding'')
          (cr_hex_decode en (ep_nonce payload))) (\<lambda>nonce.
        bind_r (reject_if (cd_len en nonce \<noteq> 24)
          (Verification ''invalid XChaCha20 nonce length'')) (\<lambda>_.
        bind_r (ok_or (Verification ''invalid encrypted payload encoding'')
          (cr_hex_decode en (ep_ciphertext payload))) (\<lambda>ciphertext.
        bind_r (adapter_json (cd_to_persisted_associated en (persisted_associated_data p))) (\<lambda>aad.
        ok_or (Verification (''event '' @ ev_event_id event @ '' payload authentication failed''))
          (cr_decrypt en key nonce ciphertext aad))))))))"

definition verify_persisted_event ::
    "('b, 'k, 'w) JournalEnv \<Rightarrow> JournalPayloadProtection \<Rightarrow> 'k \<Rightarrow> EventEnvelope
      \<Rightarrow> 'b PersistedEventEnvelope \<Rightarrow> (StoreError, json) result" where
  "verify_persisted_event en protection keys envelope p =
     bind_r (persisted_record_hash en p) (\<lambda>computed.
     bind_r (reject_if (computed \<noteq> pe_record_hash p \<or> ev_record_hash envelope \<noteq> pe_record_hash p)
       (Verification (''event '' @ ev_event_id envelope @ '' record hash mismatch''))) (\<lambda>_.
     bind_r (decrypt_persisted en protection keys envelope p) (\<lambda>plaintext.
     bind_r (reject_if (cr_sha256_hex en plaintext \<noteq> ep_plaintext_hash (ev_payload envelope))
       (Verification (''event '' @ ev_event_id envelope @ '' plaintext hash mismatch''))) (\<lambda>_.
     decode_journal_json (cd_of_value en plaintext)))))"

definition load_persisted ::
    "('b, 'k, 'w) JournalEnv \<Rightarrow> 'b Database \<Rightarrow> EventEnvelope \<Rightarrow> (StoreError, 'b PersistedEventEnvelope) result" where
  "load_persisted en db event =
     bind_r (ok_or (Verification (''event '' @ ev_event_id event @ '' is absent from the journal''))
       (table_get (db_events db) (ev_global_sequence event))) (\<lambda>bytes.
     bind_r (decode_journal_json (cd_of_envelope en bytes)) (\<lambda>stored.
     bind_r (reject_if (stored \<noteq> event)
       (Verification (''event '' @ ev_event_id event @ '' does not match its persisted envelope''))) (\<lambda>_.
     decode_journal_json (cd_of_persisted en bytes))))"

section \<open>Quarantine\<close>

text \<open>An integrity failure makes the journal read-only and withdraws the trust in its anchor.\<close>

definition quarantine :: "('b, 'k, 'w) JournalEnv \<Rightarrow> string \<Rightarrow> ('b, 'k, 'w) RedbEventJournal
    \<Rightarrow> ('b, 'k, 'w) RedbEventJournal" where
  "quarantine en reason s =
     s\<lparr>jr_recovery_mode := True, jr_recovery_reason := Some reason,
       jr_keys := (case kp_load_anchor en (jr_keys s) of
           Inr (Some anchor) \<Rightarrow> fst (kp_store_anchor en (anchor\<lparr>sa_status := AnchorQuarantined\<rparr>) (jr_keys s))
         | _ \<Rightarrow> jr_keys s)\<rparr>"

definition quarantine_result ::
    "('b, 'k, 'w) JournalEnv \<Rightarrow> ('b, 'k, 'w, 'a) journal_op \<Rightarrow> ('b, 'k, 'w, 'a) journal_op" where
  "quarantine_result en m = (\<lambda>s. case m s of
       (s', Inl (Verification reason)) \<Rightarrow> (quarantine en reason s', Inl (Verification reason))
     | (s', r) \<Rightarrow> (s', r))"

section \<open>Appending\<close>

record 'b append_txn =
  ax_db :: "'b Database"
  ax_sequence :: nat
  ax_previous_hash :: string
  ax_batch_versions :: "(string, nat) table"
  ax_persisted :: "EventEnvelope list"

definition ax_durable_version :: "'b append_txn \<Rightarrow> string \<Rightarrow> nat" where
  "ax_durable_version ax stream =
     (case table_get (ax_batch_versions ax) stream of
        Some version \<Rightarrow> version
      | None \<Rightarrow> (case table_get (db_stream_versions (ax_db ax)) stream of None \<Rightarrow> 0 | Some version \<Rightarrow> version))"

definition empty_payload :: EncryptedPayload where
  "empty_payload = \<lparr>ep_key_id = [], ep_algorithm = [], ep_nonce = [], ep_ciphertext = [],
     ep_plaintext_hash = []\<rparr>"

definition new_envelope :: "NewEvent \<Rightarrow> string \<Rightarrow> nat \<Rightarrow> nat \<Rightarrow> string \<Rightarrow> string \<Rightarrow> EventEnvelope" where
  "new_envelope event event_id sequence stream_version occurred_at previous_hash =
     \<lparr>ev_schema_version = 1, ev_event_version = ne_event_version event, ev_event_id = event_id,
      ev_global_sequence = sequence, ev_stream_id = ne_stream_id event,
      ev_stream_version = stream_version, ev_classification = ne_classification event,
      ev_event_type = ne_event_type event, ev_actor = ne_actor event,
      ev_context = ne_context event, ev_occurred_at = occurred_at, ev_payload = empty_payload,
      ev_previous_hash = previous_hash, ev_record_hash = []\<rparr>"

definition outbox_record :: "EventEnvelope \<Rightarrow> json" where
  "outbox_record e = JObj [(''event_id'', JStr (ev_event_id e)),
     (''global_sequence'', JNum (Unsigned (ev_global_sequence e))), (''status'', JStr ''pending'')]"

definition store_event :: "EventEnvelope \<Rightarrow> 'b \<Rightarrow> 'b \<Rightarrow> 'b append_txn \<Rightarrow> 'b append_txn" where
  "store_event envelope encoded queued ax =
     (let db = ax_db ax; stream = ev_stream_id envelope; version = ev_stream_version envelope;
          sequence = ev_global_sequence envelope
      in \<lparr>ax_db = db\<lparr>db_events := table_insert sequence encoded (db_events db),
            db_stream_events := table_insert (stream, version) sequence (db_stream_events db),
            db_stream_versions := table_insert stream version (db_stream_versions db),
            db_outbox := table_insert sequence queued (db_outbox db)\<rparr>,
          ax_sequence = sequence, ax_previous_hash = ev_record_hash envelope,
          ax_batch_versions = table_insert stream version (ax_batch_versions ax),
          ax_persisted = ax_persisted ax @ [envelope]\<rparr>)"

text \<open>The envelope of one event: identifier, time, payload and hash.\<close>

definition seal_event ::
    "('b, 'k, 'w) JournalEnv \<Rightarrow> NewEvent \<Rightarrow> nat \<Rightarrow> nat \<Rightarrow> string \<Rightarrow> ('b, 'k, 'w, EventEnvelope) journal_op" where
  "seal_event en event sequence stream_version previous_hash =
     a_bind (on_world (en_uuid en)) (\<lambda>event_id.
     a_bind (utc_now en) (\<lambda>occurred_at.
     a_bind (a_return (new_envelope event event_id sequence stream_version occurred_at previous_hash)) (\<lambda>draft.
     a_bind (a_lift (adapter_json (cd_to_value en (ne_payload event)))) (\<lambda>plaintext.
     a_bind (encrypt_payload en draft plaintext) (\<lambda>payload.
     a_bind (a_return (draft\<lparr>ev_payload := payload\<rparr>)) (\<lambda>envelope.
     a_bind (a_lift (record_hash en envelope)) (\<lambda>hash.
     a_return (envelope\<lparr>ev_record_hash := hash\<rparr>))))))))"

definition append_event ::
    "('b, 'k, 'w) JournalEnv \<Rightarrow> NewEvent \<Rightarrow> 'b append_txn \<Rightarrow> ('b, 'k, 'w, 'b append_txn) journal_op" where
  "append_event en event ax =
     (let stream = ne_stream_id event; actual = ax_durable_version ax stream
      in a_bind (a_reject (ne_expected_stream_version event \<noteq> actual)
           (Conflict stream (ne_expected_stream_version event) actual)) (\<lambda>_.
         a_bind (a_lift (ok_or (Verification ''journal sequence is exhausted'')
           (checked_add64 (ax_sequence ax) 1))) (\<lambda>sequence.
         a_bind (a_lift (ok_or (Verification ''stream version is exhausted'')
           (checked_add64 actual 1))) (\<lambda>stream_version.
         a_bind (seal_event en event sequence stream_version (ax_previous_hash ax)) (\<lambda>envelope.
         a_bind (a_lift (adapter_json (cd_to_envelope en envelope))) (\<lambda>encoded.
         a_bind (a_reject (table_get (db_stream_events (ax_db ax)) (stream, stream_version) \<noteq> None)
           (Verification (''stream '' @ stream @ '' version '' @ nat_text stream_version
             @ '' is already indexed''))) (\<lambda>_.
         a_bind (a_lift (adapter_json (cd_to_value en (outbox_record envelope)))) (\<lambda>queued.
         a_return (store_event envelope encoded queued ax)))))))))"

text \<open>The head of the chain is written last, then the transaction commits.\<close>

definition commit_batch :: "('b, 'k, 'w) JournalEnv \<Rightarrow> 'b append_txn \<Rightarrow> ('b, 'k, 'w, EventEnvelope list) journal_op" where
  "commit_batch en ax =
     a_bind (a_lift (adapter_json (cd_to_u64 en (ax_sequence ax)))) (\<lambda>sequence_bytes.
     a_bind (a_lift (adapter_json (cd_to_str en (ax_previous_hash ax)))) (\<lambda>hash_bytes.
     a_bind (commit_transaction en ((ax_db ax)\<lparr>db_metadata :=
       table_insert ''last_hash'' hash_bytes
         (table_insert ''last_sequence'' sequence_bytes (db_metadata (ax_db ax)))\<rparr>)) (\<lambda>_.
     a_return (ax_persisted ax))))"

definition append_locked ::
    "('b, 'k, 'w) JournalEnv \<Rightarrow> NewEvent list \<Rightarrow> ('b, 'k, 'w, EventEnvelope list) journal_op" where
  "append_locked en events =
     a_bind (a_get jr_recovery_mode) (\<lambda>recovery.
     a_bind (a_reject recovery RecoveryMode) (\<lambda>_.
     if events = [] then a_return []
     else
       a_bind (begin_transaction en) (\<lambda>db.
       a_bind (a_lift (last_sequence en db)) (\<lambda>sequence.
       a_bind (a_lift (last_hash en db)) (\<lambda>previous_hash.
       a_bind (a_fold (append_event en) events \<lparr>ax_db = db, ax_sequence = sequence,
         ax_previous_hash = previous_hash, ax_batch_versions = [], ax_persisted = []\<rparr>) (commit_batch en))))))"

section \<open>Checkpoints\<close>

definition checkpoint_sequence :: "('b, 'k, 'w) JournalEnv \<Rightarrow> ('b, 'k, 'w, nat) journal_op" where
  "checkpoint_sequence en =
     a_bind (begin_transaction en) (\<lambda>db.
     a_bind (a_lift (latest_checkpoint en db)) (\<lambda>checkpoint.
     a_return (case checkpoint of None \<Rightarrow> 0 | Some c \<Rightarrow> sc_global_sequence c)))"

definition verify_checkpoint_signature ::
    "('b, 'k, 'w) JournalEnv \<Rightarrow> SignedCheckpoint \<Rightarrow> (StoreError, unit) result" where
  "verify_checkpoint_signature en checkpoint =
     bind_r (reject_if (sc_algorithm checkpoint \<noteq> ''Ed25519'' \<or> sc_key_id checkpoint \<noteq> cs_key_id en)
       (Verification ''checkpoint signer identity or algorithm mismatch'')) (\<lambda>_.
     bind_r (ok_or (Verification ''invalid checkpoint signature encoding'')
       (cr_hex_decode en (sc_signature checkpoint))) (\<lambda>signature.
     cs_verify en (cd_of_text en (checkpoint_message (sc_global_sequence checkpoint)
       (sc_record_hash checkpoint))) signature))"

definition verify_checkpoint ::
    "('b, 'k, 'w) JournalEnv \<Rightarrow> SignedCheckpoint \<Rightarrow> string option \<Rightarrow> (StoreError, unit) result" where
  "verify_checkpoint en checkpoint event_hash =
     bind_r (reject_if (event_hash \<noteq> Some (sc_record_hash checkpoint))
       (Verification ''checkpoint does not match journal record'')) (\<lambda>_.
     verify_checkpoint_signature en checkpoint)"

definition store_anchor :: "('b, 'k, 'w) JournalEnv \<Rightarrow> SecureAnchor \<Rightarrow> ('b, 'k, 'w, unit) journal_op" where
  "store_anchor en anchor = (\<lambda>s. case kp_store_anchor en anchor (jr_keys s) of
     (keys, r) \<Rightarrow> (s\<lparr>jr_keys := keys\<rparr>, r))"

definition write_checkpoint ::
    "('b, 'k, 'w) JournalEnv \<Rightarrow> SignedCheckpoint \<Rightarrow> ('b, 'k, 'w, SignedCheckpoint option) journal_op" where
  "write_checkpoint en checkpoint =
     a_bind (a_lift (adapter_json (cd_to_checkpoint en checkpoint))) (\<lambda>bytes.
     a_bind (begin_transaction en) (\<lambda>write.
     a_bind (commit_transaction en (write\<lparr>db_metadata :=
       table_insert ''latest_checkpoint'' bytes (db_metadata write)\<rparr>)) (\<lambda>_.
     a_bind (on_world (en_instant en)) (\<lambda>now.
     a_bind (a_modify (\<lambda>s. s\<lparr>jr_last_checkpoint := now\<rparr>)) (\<lambda>_.
     a_return (Some checkpoint))))))"

text \<open>The anchor is stored before the checkpoint it attests is committed.\<close>

definition sign_checkpoint ::
    "('b, 'k, 'w) JournalEnv \<Rightarrow> nat \<Rightarrow> string \<Rightarrow> ('b, 'k, 'w, SignedCheckpoint option) journal_op" where
  "sign_checkpoint en sequence hash =
     a_bind (a_lift (cs_sign en (cd_of_text en (checkpoint_message sequence hash)))) (\<lambda>signature.
     a_bind (utc_now en) (\<lambda>created_at.
     a_bind (store_anchor en \<lparr>sa_format_version = SECURE_ANCHOR_FORMAT_VERSION,
       sa_sequence = sequence, sa_hash = hash,
       sa_verification_profile = Some INCREMENTAL_VERIFICATION_PROFILE,
       sa_status = AnchorVerified\<rparr>) (\<lambda>_.
     write_checkpoint en \<lparr>sc_global_sequence = sequence, sc_record_hash = hash,
       sc_key_id = cs_key_id en, sc_algorithm = ''Ed25519'',
       sc_signature = cr_hex_encode en signature, sc_created_at = created_at\<rparr>)))"

definition checkpoint_inner ::
    "('b, 'k, 'w) JournalEnv \<Rightarrow> ('b, 'k, 'w, SignedCheckpoint option) journal_op" where
  "checkpoint_inner en =
     a_bind (a_get jr_payload_protection) (\<lambda>protection.
     if protection = Plaintext then a_return None
     else
       a_bind (a_get jr_recovery_mode) (\<lambda>recovery.
       a_bind (a_reject recovery RecoveryMode) (\<lambda>_.
       a_bind (begin_transaction en) (\<lambda>db.
       a_bind (a_lift (last_sequence en db)) (\<lambda>sequence.
       if sequence = 0 then a_return None
       else
         a_bind (a_lift (meta_entry (cd_of_str en) ''last_hash'' db)) (\<lambda>stored.
         a_bind (a_lift (ok_or (Verification ''journal head hash is absent'') stored)) (\<lambda>hash.
         sign_checkpoint en sequence hash)))))))"

definition journal_checkpoint ::
    "('b, 'k, 'w) JournalEnv \<Rightarrow> ('b, 'k, 'w, SignedCheckpoint option) journal_op" where
  "journal_checkpoint en = quarantine_result en (checkpoint_inner en)"

text \<open>A checkpoint is due after a number of events or a period of time.\<close>

definition checkpoint_if_due ::
    "('b, 'k, 'w) JournalEnv \<Rightarrow> EventEnvelope list \<Rightarrow> ('b, 'k, 'w, EventEnvelope list) journal_op" where
  "checkpoint_if_due en persisted =
     a_bind (if persisted = [] then a_return 0 else quarantine_result en (checkpoint_sequence en)) (\<lambda>covered.
     a_bind (on_world (en_instant en)) (\<lambda>now.
     a_bind (a_get jr_last_checkpoint) (\<lambda>last_checkpoint.
     a_bind (if (persisted \<noteq> [] \<and> CHECKPOINT_INTERVAL \<le> ev_global_sequence (last persisted) - covered)
           \<or> CHECKPOINT_MAX_AGE \<le> now - last_checkpoint
         then journal_checkpoint en else a_return None) (\<lambda>_.
     a_return persisted))))"

definition append_batch ::
    "('b, 'k, 'w) JournalEnv \<Rightarrow> NewEvent list \<Rightarrow> ('b, 'k, 'w, EventEnvelope list) journal_op" where
  "append_batch en events =
     a_bind (quarantine_result en (append_locked en events)) (\<lambda>persisted.
     a_bind (a_get jr_payload_protection) (\<lambda>protection.
     if protection = Plaintext then a_return persisted else checkpoint_if_due en persisted))"

definition journal_append ::
    "('b, 'k, 'w) JournalEnv \<Rightarrow> NewEvent \<Rightarrow> ('b, 'k, 'w, EventEnvelope) journal_op" where
  "journal_append en event =
     a_bind (append_batch en [event]) (\<lambda>events.
     a_lift (ok_or (StoreAdapter ''append returned no event'')
       (if events = [] then None else Some (last events))))"

end
