(* ===== verification/JournalReads.thy ===== *)
theory JournalReads
  imports Journal
begin

text \<open>
  Reading, verifying and opening the journal (\<open>journal/streams.rs\<close>, \<open>journal/event_journal.rs\<close>,
  \<open>journal/verification.rs\<close>, \<open>journal/startup.rs\<close>, \<open>journal.rs\<close>). What a read computes is a
  function of the database snapshot its transaction sees.
\<close>

section \<open>Reading one stream\<close>

definition require_index :: "('b, 'k, 'w) JournalEnv \<Rightarrow> 'b Database \<Rightarrow> (StoreError, unit) result" where
  "require_index en db =
     bind_r (index_version en db) (\<lambda>version.
     reject_if (version \<noteq> Some STREAM_EVENTS_INDEX_VERSION)
       (Verification ''stream event index is unavailable''))"

definition indexed_event ::
    "('b, 'k, 'w) JournalEnv \<Rightarrow> 'b Database \<Rightarrow> (string \<times> nat) \<times> nat \<Rightarrow> (StoreError, EventEnvelope) result" where
  "indexed_event en db = (\<lambda>((stream, version), sequence).
     bind_r (ok_or (Verification (''stream event index references absent event '' @ nat_text sequence))
       (table_get (db_events db) sequence)) (\<lambda>bytes.
     bind_r (decode_journal_json (cd_of_envelope en bytes)) (\<lambda>event.
     bind_r (reject_if (ev_global_sequence event \<noteq> sequence \<or> ev_stream_id event \<noteq> stream
         \<or> ev_stream_version event \<noteq> version)
       (Verification (''stream event index entry '' @ stream @ ''/'' @ nat_text version @ '' is invalid''))) (\<lambda>_.
     Inr event))))"

definition durable_stream_version :: "'b Database \<Rightarrow> string \<Rightarrow> nat" where
  "durable_stream_version db stream =
     (case table_get (db_stream_versions db) stream of None \<Rightarrow> 0 | Some version \<Rightarrow> version)"

fun check_ascending :: "string \<Rightarrow> nat \<Rightarrow> EventEnvelope list \<Rightarrow> (StoreError, unit) result" where
  "check_ascending stream expected [] = Inr ()"
| "check_ascending stream expected (event # events) =
     bind_r (reject_if (ev_stream_version event \<noteq> expected)
       (Verification (''stream '' @ stream @ '' index has a version gap at '' @ nat_text expected))) (\<lambda>_.
     check_ascending stream (saturating_add64 expected 1) events)"

definition stream_snapshot ::
    "('b, 'k, 'w) JournalEnv \<Rightarrow> 'b Database \<Rightarrow> string \<Rightarrow> nat \<Rightarrow> nat option \<Rightarrow> (StoreError, EventEnvelope list) result" where
  "stream_snapshot en db stream after_version limit =
     (let start = saturating_add64 after_version 1;
          entries = table_between (stream, start) (stream, u64_max) (db_stream_events db);
          durable = durable_stream_version db stream
      in bind_r (require_index en db) (\<lambda>_.
         bind_r (traverse (indexed_event en db)
           (case limit of None \<Rightarrow> entries | Some l \<Rightarrow> take l entries)) (\<lambda>events.
         bind_r (check_ascending stream start events) (\<lambda>_.
         bind_r (reject_if ((case limit of None \<Rightarrow> True | Some l \<Rightarrow> length events < l)
             \<and> (if events = [] then min after_version durable else ev_stream_version (last events)) \<noteq> durable)
           (Verification (''stream '' @ stream @ '' index does not reach durable version '' @ nat_text durable))) (\<lambda>_.
         Inr events)))))"

definition read_indexed_stream ::
    "('b, 'k, 'w) JournalEnv \<Rightarrow> string \<Rightarrow> nat \<Rightarrow> nat option \<Rightarrow> ('b, 'k, 'w, EventEnvelope list) journal_op" where
  "read_indexed_stream en stream after_version limit =
     (if limit = Some 0 \<or> after_version = u64_max then a_return []
      else a_bind (begin_transaction en) (\<lambda>db. a_lift (stream_snapshot en db stream after_version limit)))"

fun check_descending :: "string \<Rightarrow> EventEnvelope list \<Rightarrow> (StoreError, unit) result" where
  "check_descending stream (a # b # events) =
     bind_r (reject_if (ev_stream_version a \<noteq> saturating_add64 (ev_stream_version b) 1)
       (Verification (''stream '' @ stream @ '' reverse index has a version gap''))) (\<lambda>_.
     check_descending stream (b # events))"
| "check_descending stream events = Inr ()"

definition reverse_snapshot ::
    "('b, 'k, 'w) JournalEnv \<Rightarrow> 'b Database \<Rightarrow> string \<Rightarrow> nat option \<Rightarrow> nat \<Rightarrow> (StoreError, EventEnvelope list) result" where
  "reverse_snapshot en db stream before_version limit =
     (let last_version = (case before_version of None \<Rightarrow> u64_max | Some version \<Rightarrow> version - 1);
          entries = rev (table_between (stream, 1) (stream, last_version) (db_stream_events db));
          durable = durable_stream_version db stream;
          first = (case before_version of None \<Rightarrow> durable | Some version \<Rightarrow> min (version - 1) durable)
      in bind_r (require_index en db) (\<lambda>_.
         bind_r (traverse (indexed_event en db) (take limit entries)) (\<lambda>events.
         bind_r (reject_if ((if events = [] then None else Some (ev_stream_version (hd events)))
             \<noteq> (if first > 0 then Some first else None))
           (Verification (''stream '' @ stream @ '' reverse index does not begin at version '' @ nat_text first))) (\<lambda>_.
         bind_r (reject_if (length events < limit \<and> first > 0
             \<and> (if events = [] then None else Some (ev_stream_version (last events))) \<noteq> Some 1)
           (Verification (''stream '' @ stream @ '' reverse index does not reach version 1''))) (\<lambda>_.
         bind_r (check_descending stream events) (\<lambda>_.
         Inr events))))))"

definition read_indexed_stream_backwards ::
    "('b, 'k, 'w) JournalEnv \<Rightarrow> string \<Rightarrow> nat option \<Rightarrow> nat \<Rightarrow> ('b, 'k, 'w, EventEnvelope list) journal_op" where
  "read_indexed_stream_backwards en stream before_version requested =
     (let limit = min requested MAX_STREAM_READ_BATCH
      in if limit = 0 \<or> (case before_version of None \<Rightarrow> False | Some version \<Rightarrow> version \<le> 1) then a_return []
         else a_bind (begin_transaction en) (\<lambda>db. a_lift (reverse_snapshot en db stream before_version limit)))"

definition read_stream ::
    "('b, 'k, 'w) JournalEnv \<Rightarrow> string \<Rightarrow> ('b, 'k, 'w, EventEnvelope list) journal_op" where
  "read_stream en stream = quarantine_result en (read_indexed_stream en stream 0 None)"

definition read_stream_from ::
    "('b, 'k, 'w) JournalEnv \<Rightarrow> string \<Rightarrow> nat \<Rightarrow> nat \<Rightarrow> ('b, 'k, 'w, EventEnvelope list) journal_op" where
  "read_stream_from en stream after_version limit =
     quarantine_result en (read_indexed_stream en stream after_version (Some (min limit MAX_STREAM_READ_BATCH)))"

definition read_stream_backwards ::
    "('b, 'k, 'w) JournalEnv \<Rightarrow> string \<Rightarrow> nat option \<Rightarrow> nat \<Rightarrow> ('b, 'k, 'w, EventEnvelope list) journal_op" where
  "read_stream_backwards en stream before_version limit =
     quarantine_result en (read_indexed_stream_backwards en stream before_version limit)"

text \<open>Stream identifiers in lexical order, page by page.\<close>

fun scan_streams :: "string \<Rightarrow> string option \<Rightarrow> nat \<Rightarrow> (string \<times> nat) list \<Rightarrow> string list" where
  "scan_streams pre after_id limit [] = []"
| "scan_streams pre after_id limit ((stream, version) # rest) =
     (if limit = 0 then []
      else if after_id = Some stream then scan_streams pre after_id limit rest
      else if \<not> starts_with pre stream then []
      else stream # scan_streams pre after_id (limit - 1) rest)"

definition list_stream_ids ::
    "('b, 'k, 'w) JournalEnv \<Rightarrow> string \<Rightarrow> string option \<Rightarrow> nat \<Rightarrow> ('b, 'k, 'w, string list) journal_op" where
  "list_stream_ids en pre after_id requested = quarantine_result en
     (a_bind (a_reject (CHR 0x00 \<in> set pre \<or> (case after_id of None \<Rightarrow> False
          | Some cursor \<Rightarrow> CHR 0x00 \<in> set cursor \<or> \<not> starts_with pre cursor))
        (StoreAdapter ''stream prefix and cursor must contain no NUL and share one prefix'')) (\<lambda>_.
      let limit = min requested MAX_STREAM_LIST_BATCH
      in if limit = 0 then a_return []
         else a_bind (begin_transaction en) (\<lambda>db.
           a_return (scan_streams pre after_id limit
             (table_from (case after_id of None \<Rightarrow> pre | Some cursor \<Rightarrow> cursor) (db_stream_versions db))))))"

section \<open>Reading the chain and the outbox\<close>

fun global_run :: "('b, 'k, 'w) JournalEnv \<Rightarrow> (nat \<times> 'b) list \<Rightarrow> nat \<Rightarrow> (StoreError, nat \<times> EventEnvelope list) result" where
  "global_run en [] expected = Inr (expected, [])"
| "global_run en ((key, bytes) # rest) expected =
     bind_r (decode_journal_json (cd_of_envelope en bytes)) (\<lambda>event.
     bind_r (reject_if (key \<noteq> expected \<or> ev_global_sequence event \<noteq> expected)
       (Verification (''global journal read expected sequence '' @ nat_text expected))) (\<lambda>_.
     bind_r (global_run en rest (saturating_add64 expected 1)) (\<lambda>(next, events).
     Inr (next, event # events))))"

definition global_snapshot ::
    "('b, 'k, 'w) JournalEnv \<Rightarrow> 'b Database \<Rightarrow> nat \<Rightarrow> nat \<Rightarrow> (StoreError, EventEnvelope list) result" where
  "global_snapshot en db from_sequence limit =
     bind_r (last_sequence en db) (\<lambda>head.
     bind_r (global_run en (take limit (table_from (max from_sequence 1) (db_events db)))
       (max from_sequence 1)) (\<lambda>(next, events).
     bind_r (reject_if (limit > 0 \<and> length events < limit \<and> next \<le> head)
       (Verification (''global journal read expected sequence '' @ nat_text next))) (\<lambda>_.
     Inr events)))"

definition read_global ::
    "('b, 'k, 'w) JournalEnv \<Rightarrow> nat \<Rightarrow> nat \<Rightarrow> ('b, 'k, 'w, EventEnvelope list) journal_op" where
  "read_global en from_sequence limit = quarantine_result en
     (a_bind (begin_transaction en) (\<lambda>db. a_lift (global_snapshot en db from_sequence limit)))"

fun outbox_run :: "('b, 'k, 'w) JournalEnv \<Rightarrow> (nat \<times> 'b) list \<Rightarrow> nat \<Rightarrow> (StoreError, nat \<times> ProjectionWorkItem list) result" where
  "outbox_run en [] expected = Inr (expected, [])"
| "outbox_run en ((sequence, bytes) # rest) expected =
     bind_r (reject_if (sequence \<noteq> expected)
       (Verification (''projection outbox expected sequence '' @ nat_text expected))) (\<lambda>_.
     bind_r (decode_journal_json (cd_of_value en bytes)) (\<lambda>record.
     bind_r (ok_or (Verification (''projection outbox record '' @ nat_text sequence @ '' has no event_id''))
       (get_str record ''event_id'')) (\<lambda>event_id.
     bind_r (reject_if (Option.bind (json_get record ''global_sequence'') as_u64 \<noteq> Some sequence)
       (Verification (''projection outbox record '' @ nat_text sequence @ '' has a mismatched sequence''))) (\<lambda>_.
     bind_r (outbox_run en rest (saturating_add64 expected 1)) (\<lambda>(next, work).
     Inr (next, \<lparr>wi_global_sequence = sequence, wi_event_id = event_id\<rparr> # work))))))"

definition outbox_snapshot ::
    "('b, 'k, 'w) JournalEnv \<Rightarrow> 'b Database \<Rightarrow> nat \<Rightarrow> nat \<Rightarrow> (StoreError, ProjectionWorkItem list) result" where
  "outbox_snapshot en db from_sequence limit =
     bind_r (last_sequence en db) (\<lambda>head.
     bind_r (outbox_run en (take limit (table_from (max from_sequence 1) (db_outbox db)))
       (max from_sequence 1)) (\<lambda>(next, work).
     bind_r (reject_if (limit > 0 \<and> length work < limit \<and> next \<le> head)
       (Verification (''projection outbox expected sequence '' @ nat_text next))) (\<lambda>_.
     Inr work)))"

definition read_projection_work ::
    "('b, 'k, 'w) JournalEnv \<Rightarrow> nat \<Rightarrow> nat \<Rightarrow> ('b, 'k, 'w, ProjectionWorkItem list) journal_op" where
  "read_projection_work en from_sequence limit = quarantine_result en
     (a_bind (begin_transaction en) (\<lambda>db. a_lift (outbox_snapshot en db from_sequence limit)))"

definition journal_head :: "('b, 'k, 'w) JournalEnv \<Rightarrow> ('b, 'k, 'w, nat \<times> string) journal_op" where
  "journal_head en = quarantine_result en
     (a_bind (begin_transaction en) (\<lambda>db.
      a_bind (a_lift (last_sequence en db)) (\<lambda>sequence.
      a_bind (a_lift (last_hash en db)) (\<lambda>hash.
      a_return (sequence, hash)))))"

definition decrypt_payload :: "('b, 'k, 'w) JournalEnv \<Rightarrow> EventEnvelope \<Rightarrow> ('b, 'k, 'w, json) journal_op" where
  "decrypt_payload en event = quarantine_result en
     (a_bind (begin_transaction en) (\<lambda>db.
      a_bind (a_lift (load_persisted en db event)) (\<lambda>p.
      a_bind (a_get jr_payload_protection) (\<lambda>protection.
      a_bind (a_get jr_keys) (\<lambda>keys.
      a_lift (verify_persisted_event en protection keys event p))))))"

end
