(* ===== verification/JournalStartup.thy ===== *)
theory JournalStartup
  imports JournalReads
begin

text \<open>
  Verification of a whole journal and of its tail, and opening (\<open>journal/verification.rs\<close>,
  \<open>journal/startup.rs\<close>, \<open>journal/streams.rs\<close>, \<open>journal.rs\<close>).
\<close>

section \<open>Names of projections\<close>

definition projection_prefix :: "string \<Rightarrow> (StoreError, string) result" where
  "projection_prefix projection =
     (if projection = [] \<or> CHR 0x00 \<in> set projection
      then Inl (StoreAdapter ''projection name must be nonempty and contain no NUL'')
      else Inr (projection @ [CHR 0x00]))"

definition projection_record_key :: "string \<Rightarrow> string \<Rightarrow> (StoreError, string) result" where
  "projection_record_key projection key =
     (if projection = [] \<or> CHR 0x00 \<in> set projection
      then Inl (StoreAdapter ''projection name must be nonempty and contain no NUL'')
      else if key = [] \<or> CHR 0x00 \<in> set key
      then Inl (StoreAdapter ''projection key must be nonempty and contain no NUL'')
      else Inr (projection @ [CHR 0x00] @ key))"

text \<open>\<open>split_once\<close> at the first NUL.\<close>

definition split_once_nul :: "string \<Rightarrow> (string \<times> string) option" where
  "split_once_nul s =
     (let head = takeWhile (\<lambda>c. c \<noteq> CHR 0x00) s
      in if length head = length s then None else Some (head, drop (length head + 1) s))"

definition check_positions :: "nat \<Rightarrow> (string \<Rightarrow> nat \<Rightarrow> string) \<Rightarrow> (string \<times> nat) list \<Rightarrow> (StoreError, unit) result" where
  "check_positions head message = check_all (\<lambda>(projection, position).
     bind_r (map_err (\<lambda>_. Verification ''stored projection name is invalid'') (projection_prefix projection)) (\<lambda>_.
     reject_if (position > head) (Verification (message projection position))))"

definition check_record :: "('b, 'k, 'w) JournalEnv \<Rightarrow> string \<times> 'b \<Rightarrow> (StoreError, unit) result" where
  "check_record en = (\<lambda>(key, bytes).
     case split_once_nul key of
       None \<Rightarrow> Inl (Verification ''projection record key has no namespace delimiter'')
     | Some (projection, record_key) \<Rightarrow>
         bind_r (map_err (\<lambda>_. Verification ''stored projection record key is invalid'')
           (projection_record_key projection record_key)) (\<lambda>_.
         bind_r (map_err (\<lambda>e. Verification (''projection record '' @ key @ '' is invalid JSON: '' @ store_error_text e))
           (decode_journal_json (cd_of_value en bytes))) (\<lambda>_.
         Inr ())))"

section \<open>Full verification\<close>

record verify_state =
  vs_expected :: nat
  vs_previous_hash :: string
  vs_streams :: "(string, nat) table"
  vs_checkpoint_hash :: "string option"
  vs_anchor_hash :: "string option"

definition check_queued ::
    "('b, 'k, 'w) JournalEnv \<Rightarrow> 'b Database \<Rightarrow> nat \<Rightarrow> EventEnvelope \<Rightarrow> (StoreError, unit) result" where
  "check_queued en db sequence envelope =
     bind_r (ok_or (Verification (''projection outbox record '' @ nat_text sequence @ '' is absent''))
       (table_get (db_outbox db) sequence)) (\<lambda>bytes.
     bind_r (decode_journal_json (cd_of_value en bytes)) (\<lambda>queued.
     reject_if (get_str queued ''event_id'' \<noteq> Some (ev_event_id envelope)
         \<or> Option.bind (json_get queued ''global_sequence'') as_u64 \<noteq> Some (ev_global_sequence envelope))
       (Verification (''projection outbox record '' @ nat_text sequence @ '' targets a different event''))))"

definition check_indexed :: "'b Database \<Rightarrow> nat \<Rightarrow> EventEnvelope \<Rightarrow> string \<Rightarrow> (StoreError, unit) result" where
  "check_indexed db sequence envelope what =
     reject_if (table_get (db_stream_events db) (ev_stream_id envelope, ev_stream_version envelope) \<noteq> Some sequence)
       (Verification (''stream '' @ ev_stream_id envelope @ '' version ''
         @ nat_text (ev_stream_version envelope) @ what))"

definition verify_entry ::
    "('b, 'k, 'w) JournalEnv \<Rightarrow> JournalPayloadProtection \<Rightarrow> 'k \<Rightarrow> 'b Database \<Rightarrow> SignedCheckpoint option
      \<Rightarrow> SecureAnchor option \<Rightarrow> bool \<Rightarrow> nat \<times> 'b \<Rightarrow> verify_state \<Rightarrow> (StoreError, verify_state) result" where
  "verify_entry en protection keys db checkpoint anchor indexed = (\<lambda>(sequence, bytes) st.
     bind_r (reject_if (sequence \<noteq> vs_expected st) (Verification (''global sequence gap: expected ''
       @ nat_text (vs_expected st) @ '', got '' @ nat_text sequence))) (\<lambda>_.
     bind_r (decode_journal_json (cd_of_persisted en bytes)) (\<lambda>p.
     bind_r (decode_journal_json (cd_of_envelope en bytes)) (\<lambda>envelope.
     bind_r (reject_if (ev_global_sequence envelope \<noteq> sequence
         \<or> ev_previous_hash envelope \<noteq> vs_previous_hash st)
       (Verification (''event '' @ ev_event_id envelope @ '' sequence or previous hash mismatch''))) (\<lambda>_.
     bind_r (reject_if (ev_stream_version envelope \<noteq> saturating_add64
         (case table_get (vs_streams st) (ev_stream_id envelope) of None \<Rightarrow> 0 | Some version \<Rightarrow> version) 1)
       (Verification (''stream '' @ ev_stream_id envelope @ '' version mismatch''))) (\<lambda>_.
     bind_r (if indexed then check_indexed db sequence envelope '' index mismatch'' else Inr ()) (\<lambda>_.
     bind_r (verify_persisted_event en protection keys envelope p) (\<lambda>_.
     bind_r (check_queued en db sequence envelope) (\<lambda>_.
     Inr \<lparr>vs_expected = saturating_add64 (vs_expected st) 1,
       vs_previous_hash = ev_record_hash envelope,
       vs_streams = table_insert (ev_stream_id envelope) (ev_stream_version envelope) (vs_streams st),
       vs_checkpoint_hash = (if map_option sc_global_sequence checkpoint = Some sequence
         then Some (ev_record_hash envelope) else vs_checkpoint_hash st),
       vs_anchor_hash = (if map_option sa_sequence anchor = Some sequence
         then Some (ev_record_hash envelope) else vs_anchor_hash st)\<rparr>)))))))))"

definition verify_start :: verify_state where
  "verify_start = \<lparr>vs_expected = 1, vs_previous_hash = ZERO_HASH, vs_streams = [],
     vs_checkpoint_hash = None, vs_anchor_hash = None\<rparr>"

definition index_in_use :: "('b, 'k, 'w) JournalEnv \<Rightarrow> 'b Database \<Rightarrow> (StoreError, bool) result" where
  "index_in_use en db =
     bind_r (index_version en db) (\<lambda>version.
     case version of
       None \<Rightarrow> (if db_stream_events db \<noteq> []
         then Inl (Verification ''unversioned stream event index is not empty'') else Inr False)
     | Some v \<Rightarrow> (if v = STREAM_EVENTS_INDEX_VERSION then Inr True
         else Inl (Verification ''stream event index version is unsupported'')))"

definition verify_snapshot ::
    "('b, 'k, 'w) JournalEnv \<Rightarrow> JournalPayloadProtection \<Rightarrow> 'k \<Rightarrow> SecureAnchor option \<Rightarrow> 'b Database
      \<Rightarrow> (StoreError, VerificationReport) result" where
  "verify_snapshot en protection keys anchor db =
     bind_r (latest_checkpoint en db) (\<lambda>checkpoint.
     bind_r (index_in_use en db) (\<lambda>indexed.
     bind_r (fold_r (verify_entry en protection keys db checkpoint anchor indexed) (db_events db) verify_start) (\<lambda>st.
     bind_r (last_sequence en db) (\<lambda>metadata_sequence.
     bind_r (last_hash en db) (\<lambda>metadata_hash.
     let last_seq = vs_expected st - 1
     in bind_r (reject_if (metadata_sequence \<noteq> last_seq \<or> metadata_hash \<noteq> vs_previous_hash st)
          (Verification ''journal head metadata does not match event chain'')) (\<lambda>_.
        bind_r (reject_if (length (db_outbox db) \<noteq> last_seq)
          (Verification ''projection outbox position does not match journal head'')) (\<lambda>_.
        bind_r (reject_if (db_stream_versions db \<noteq> vs_streams st)
          (Verification ''durable stream versions do not match journal replay'')) (\<lambda>_.
        bind_r (check_positions last_seq (\<lambda>projection position. ''projection '' @ projection @ '' position ''
          @ nat_text position @ '' is ahead of journal head '' @ nat_text last_seq) (db_projection_positions db)) (\<lambda>_.
        bind_r (check_all (check_record en) (db_projection_records db)) (\<lambda>_.
        bind_r (reject_if (protection = Plaintext \<and> checkpoint \<noteq> None)
          (Verification ''plaintext journal contains a signed checkpoint'')) (\<lambda>_.
        bind_r (case checkpoint of None \<Rightarrow> Inr () | Some c \<Rightarrow> verify_checkpoint en c (vs_checkpoint_hash st)) (\<lambda>_.
        bind_r (reject_if (case anchor of None \<Rightarrow> False | Some a \<Rightarrow> vs_anchor_hash st \<noteq> Some (sa_hash a))
          (Verification ''secure anchor is missing or differs from journal'')) (\<lambda>_.
        bind_r (reject_if (indexed \<and> length (db_stream_events db) \<noteq> last_seq)
          (Verification ''stream event index position does not match journal head'')) (\<lambda>_.
        Inr \<lparr>vr_event_count = last_seq, vr_last_sequence = last_seq,
          vr_last_hash = vs_previous_hash st, vr_checkpoint = checkpoint\<rparr>))))))))))))))"

definition verify_inner :: "('b, 'k, 'w) JournalEnv \<Rightarrow> ('b, 'k, 'w, VerificationReport) journal_op" where
  "verify_inner en =
     a_bind (a_get jr_keys) (\<lambda>keys.
     a_bind (a_lift (kp_load_anchor en keys)) (\<lambda>anchor.
     a_bind (begin_transaction en) (\<lambda>db.
     a_bind (a_get jr_payload_protection) (\<lambda>protection.
     a_lift (verify_snapshot en protection keys anchor db)))))"

definition verify_journal :: "('b, 'k, 'w) JournalEnv \<Rightarrow> ('b, 'k, 'w, VerificationReport) journal_op" where
  "verify_journal en = quarantine_result en (verify_inner en)"

section \<open>Index by stream\<close>

definition index_event ::
    "('b, 'k, 'w) JournalEnv \<Rightarrow> nat \<times> 'b \<Rightarrow> (string \<times> nat, nat) table \<Rightarrow> (StoreError, (string \<times> nat, nat) table) result" where
  "index_event en = (\<lambda>(sequence, bytes) index.
     bind_r (decode_journal_json (cd_of_envelope en bytes)) (\<lambda>event.
     bind_r (reject_if (ev_global_sequence event \<noteq> sequence)
       (Verification (''event '' @ ev_event_id event @ '' global sequence does not match its key''))) (\<lambda>_.
     bind_r (reject_if (table_get index (ev_stream_id event, ev_stream_version event) \<noteq> None)
       (Verification (''stream '' @ ev_stream_id event @ '' has duplicate version ''
         @ nat_text (ev_stream_version event)))) (\<lambda>_.
     Inr (table_insert (ev_stream_id event, ev_stream_version event) sequence index)))))"

definition stream_events_index_version :: "('b, 'k, 'w) JournalEnv \<Rightarrow> ('b, 'k, 'w, nat option) journal_op" where
  "stream_events_index_version en =
     a_bind (begin_transaction en) (\<lambda>db. a_lift (index_version en db))"

definition build_stream_events_index ::
    "('b, 'k, 'w) JournalEnv \<Rightarrow> 'b Database \<Rightarrow> ('b, 'k, 'w, bool) journal_op" where
  "build_stream_events_index en db =
     a_bind (a_lift (index_version en db)) (\<lambda>version.
     if version = Some STREAM_EVENTS_INDEX_VERSION then a_return False
     else
       a_bind (a_reject (version \<noteq> None) (Verification ''stream event index version is unsupported'')) (\<lambda>_.
       a_bind (a_reject (db_stream_events db \<noteq> [])
         (Verification ''unversioned stream event index is not empty'')) (\<lambda>_.
       a_bind (a_lift (fold_r (index_event en) (db_events db) (db_stream_events db))) (\<lambda>index.
       a_bind (a_lift (adapter_json (cd_to_u64 en STREAM_EVENTS_INDEX_VERSION))) (\<lambda>bytes.
       a_bind (commit_transaction en (db\<lparr>db_stream_events := index,
         db_metadata := table_insert STREAM_EVENTS_INDEX_KEY bytes (db_metadata db)\<rparr>)) (\<lambda>_.
       a_return True))))))"

definition ensure_stream_events_index :: "('b, 'k, 'w) JournalEnv \<Rightarrow> ('b, 'k, 'w, bool) journal_op" where
  "ensure_stream_events_index en =
     a_bind (stream_events_index_version en) (\<lambda>known.
     if known = Some STREAM_EVENTS_INDEX_VERSION then a_return False
     else a_bind (begin_transaction en) (build_stream_events_index en))"

section \<open>Startup\<close>

text \<open>Local checks of a journal without encryption, which has no anchor to start from.\<close>

definition plaintext_snapshot ::
    "('b, 'k, 'w) JournalEnv \<Rightarrow> JournalPayloadProtection \<Rightarrow> 'k \<Rightarrow> 'b Database \<Rightarrow> (StoreError, StartupVerificationReport) result" where
  "plaintext_snapshot en protection keys db =
     bind_r (last_sequence en db) (\<lambda>head.
     bind_r (last_hash en db) (\<lambda>head_hash.
     bind_r (reject_if (table_get (db_metadata db) ''latest_checkpoint'' \<noteq> None)
       (Verification ''plaintext journal contains a signed checkpoint'')) (\<lambda>_.
     bind_r (index_version en db) (\<lambda>version.
     bind_r (reject_if (version \<noteq> Some STREAM_EVENTS_INDEX_VERSION)
       (Verification ''plaintext journal stream index is unavailable'')) (\<lambda>_.
     bind_r (reject_if (length (db_events db) \<noteq> head \<or> length (db_outbox db) \<noteq> head
         \<or> length (db_stream_events db) \<noteq> head)
       (Verification ''plaintext journal local indexes do not match its head'')) (\<lambda>_.
     bind_r (reject_if (table_get (db_events db) 0 \<noteq> None \<or> table_get (db_outbox db) 0 \<noteq> None
         \<or> table_from (saturating_add64 head 1) (db_events db) \<noteq> []
         \<or> table_from (saturating_add64 head 1) (db_outbox db) \<noteq> [])
       (Verification ''plaintext journal contains records outside its declared sequence range'')) (\<lambda>_.
     bind_r (ok_or (Verification ''plaintext journal head is absent'') (table_get (db_events db) head)) (\<lambda>bytes.
     bind_r (decode_journal_json (cd_of_persisted en bytes)) (\<lambda>p.
     bind_r (decode_journal_json (cd_of_envelope en bytes)) (\<lambda>envelope.
     bind_r (reject_if (ev_global_sequence envelope \<noteq> head \<or> ev_record_hash envelope \<noteq> head_hash)
       (Verification ''plaintext journal head metadata does not match its record'')) (\<lambda>_.
     bind_r (verify_persisted_event en protection keys envelope p) (\<lambda>_.
     bind_r (reject_if (table_get (db_stream_events db) (ev_stream_id envelope, ev_stream_version envelope) \<noteq> Some head
         \<or> table_get (db_stream_versions db) (ev_stream_id envelope) \<noteq> Some (ev_stream_version envelope))
       (Verification ''plaintext journal head stream index is inconsistent'')) (\<lambda>_.
     bind_r (ok_or (Verification ''plaintext journal head outbox is absent'') (table_get (db_outbox db) head)) (\<lambda>outbox_bytes.
     bind_r (decode_journal_json (cd_of_value en outbox_bytes)) (\<lambda>queued.
     bind_r (reject_if (get_str queued ''event_id'' \<noteq> Some (ev_event_id envelope)
         \<or> Option.bind (json_get queued ''global_sequence'') as_u64 \<noteq> Some (ev_global_sequence envelope))
       (Verification ''plaintext journal head outbox targets a different event'')) (\<lambda>_.
     bind_r (check_positions head (\<lambda>projection _. ''projection '' @ projection
       @ '' is ahead of plaintext journal head'') (db_projection_positions db)) (\<lambda>_.
     Inr \<lparr>sr_configured_mode = Incremental, sr_path = ''local_integrity'',
       sr_verified_from_sequence = Some head, sr_verified_through_sequence = head,
       sr_verified_event_count = 1, sr_anchor_format_version = None\<rparr>)))))))))))))))))"

definition verify_plaintext_incremental ::
    "('b, 'k, 'w) JournalEnv \<Rightarrow> ('b, 'k, 'w, StartupVerificationReport) journal_op" where
  "verify_plaintext_incremental en =
     a_bind (begin_transaction en) (\<lambda>db.
     a_bind (a_get jr_payload_protection) (\<lambda>protection.
     a_bind (a_get jr_keys) (\<lambda>keys.
     a_lift (plaintext_snapshot en protection keys db))))"

text \<open>The tail of the journal after the checkpoint the anchor attests.\<close>

record tail_state =
  ts_expected :: nat
  ts_previous_hash :: string
  ts_inspected :: nat
  ts_touched :: "(string, nat) table"

definition verify_tail_entry ::
    "('b, 'k, 'w) JournalEnv \<Rightarrow> JournalPayloadProtection \<Rightarrow> 'k \<Rightarrow> 'b Database \<Rightarrow> SignedCheckpoint
      \<Rightarrow> nat \<times> 'b \<Rightarrow> tail_state \<Rightarrow> (StoreError, tail_state) result" where
  "verify_tail_entry en protection keys db checkpoint = (\<lambda>(sequence, bytes) st.
     if ts_inspected st = 0 \<and> sequence = sc_global_sequence checkpoint then
       bind_r (decode_journal_json (cd_of_persisted en bytes)) (\<lambda>p.
       bind_r (decode_journal_json (cd_of_envelope en bytes)) (\<lambda>envelope.
       bind_r (reject_if (ev_global_sequence envelope \<noteq> sequence)
         (Verification ''checkpoint event sequence does not match its journal key'')) (\<lambda>_.
       bind_r (verify_persisted_event en protection keys envelope p) (\<lambda>_.
       bind_r (reject_if (ev_record_hash envelope \<noteq> sc_record_hash checkpoint)
         (Verification ''checkpoint record is absent or has changed'')) (\<lambda>_.
       bind_r (check_indexed db sequence envelope '' checkpoint index mismatch'') (\<lambda>_.
       bind_r (check_queued en db sequence envelope) (\<lambda>_.
       Inr (st\<lparr>ts_touched := table_insert (ev_stream_id envelope) (ev_stream_version envelope) (ts_touched st),
         ts_inspected := saturating_add64 (ts_inspected st) 1\<rparr>))))))))
     else
       let expected = saturating_add64 (ts_expected st) 1
       in bind_r (reject_if (sequence \<noteq> expected) (Verification (''incremental journal sequence gap: expected ''
            @ nat_text expected @ '', got '' @ nat_text sequence))) (\<lambda>_.
          bind_r (decode_journal_json (cd_of_persisted en bytes)) (\<lambda>p.
          bind_r (decode_journal_json (cd_of_envelope en bytes)) (\<lambda>envelope.
          bind_r (reject_if (ev_global_sequence envelope \<noteq> sequence
              \<or> ev_previous_hash envelope \<noteq> ts_previous_hash st)
            (Verification (''event '' @ ev_event_id envelope @ '' sequence or previous hash mismatch''))) (\<lambda>_.
          bind_r (verify_persisted_event en protection keys envelope p) (\<lambda>_.
          bind_r (check_indexed db sequence envelope '' index mismatch'') (\<lambda>_.
          bind_r (check_queued en db sequence envelope) (\<lambda>_.
          Inr \<lparr>ts_expected = expected, ts_previous_hash = ev_record_hash envelope,
            ts_inspected = saturating_add64 (ts_inspected st) 1,
            ts_touched = table_insert (ev_stream_id envelope) (ev_stream_version envelope) (ts_touched st)\<rparr>))))))))"

definition incremental_snapshot ::
    "('b, 'k, 'w) JournalEnv \<Rightarrow> JournalPayloadProtection \<Rightarrow> 'k \<Rightarrow> SecureAnchor \<Rightarrow> 'b Database
      \<Rightarrow> (StoreError, nat \<times> SignedCheckpoint \<times> nat) result" where
  "incremental_snapshot en protection keys anchor db =
     bind_r (last_sequence en db) (\<lambda>head.
     bind_r (last_hash en db) (\<lambda>head_hash.
     bind_r (latest_checkpoint en db) (\<lambda>stored.
     bind_r (ok_or (Verification ''incremental startup requires a signed checkpoint'') stored) (\<lambda>checkpoint.
     bind_r (reject_if (sc_global_sequence checkpoint \<noteq> sa_sequence anchor
         \<or> sc_record_hash checkpoint \<noteq> sa_hash anchor \<or> sc_global_sequence checkpoint > head)
       (Verification ''secure anchor and signed checkpoint do not identify one journal boundary'')) (\<lambda>_.
     bind_r (verify_checkpoint_signature en checkpoint) (\<lambda>_.
     bind_r (fold_r (verify_tail_entry en protection keys db checkpoint)
       (table_from (max (sc_global_sequence checkpoint) 1) (db_events db))
       \<lparr>ts_expected = sc_global_sequence checkpoint, ts_previous_hash = sc_record_hash checkpoint,
        ts_inspected = 0, ts_touched = []\<rparr>) (\<lambda>st.
     bind_r (reject_if (ts_inspected st = 0)
       (Verification ''checkpoint record is absent from the journal'')) (\<lambda>_.
     bind_r (reject_if (ts_expected st \<noteq> head \<or> ts_previous_hash st \<noteq> head_hash)
       (Verification ''incremental verification did not reach the journal head'')) (\<lambda>_.
     bind_r (check_all (\<lambda>(stream, version). reject_if (table_get (db_stream_versions db) stream \<noteq> Some version)
       (Verification (''durable stream version for '' @ stream @ '' does not match the verified tail'')))
       (ts_touched st)) (\<lambda>_.
     bind_r (check_positions head (\<lambda>projection position. ''projection '' @ projection @ '' position ''
       @ nat_text position @ '' is ahead of journal head '' @ nat_text head) (db_projection_positions db)) (\<lambda>_.
     Inr (head, checkpoint, ts_inspected st))))))))))))"

definition verify_incremental ::
    "('b, 'k, 'w) JournalEnv \<Rightarrow> SecureAnchor \<Rightarrow> ('b, 'k, 'w, StartupVerificationReport) journal_op" where
  "verify_incremental en anchor =
     a_bind (begin_transaction en) (\<lambda>db.
     a_bind (a_get jr_payload_protection) (\<lambda>protection.
     a_bind (a_get jr_keys) (\<lambda>keys.
     a_bind (a_lift (incremental_snapshot en protection keys anchor db)) (\<lambda>(head, stored, inspected).
     a_bind (if head > sc_global_sequence stored then journal_checkpoint en else a_return None) (\<lambda>_.
     a_return \<lparr>sr_configured_mode = Incremental, sr_path = ''incremental'',
       sr_verified_from_sequence = Some (max (sc_global_sequence stored) 1),
       sr_verified_through_sequence = head, sr_verified_event_count = inspected,
       sr_anchor_format_version = Some (sa_format_version anchor)\<rparr>)))))"

definition set_report :: "StartupVerificationReport \<Rightarrow> ('b, 'k, 'w, unit) journal_op" where
  "set_report report = a_modify (\<lambda>s. s\<lparr>jr_startup_report := report\<rparr>)"

definition anchor_trusted :: "SecureAnchor option \<Rightarrow> bool" where
  "anchor_trusted anchor = (case anchor of None \<Rightarrow> False
     | Some a \<Rightarrow> sa_format_version a = SECURE_ANCHOR_FORMAT_VERSION
         \<and> sa_verification_profile a = Some INCREMENTAL_VERIFICATION_PROFILE
         \<and> sa_status a = AnchorVerified)"

definition verify_startup_full ::
    "('b, 'k, 'w) JournalEnv \<Rightarrow> StartupVerificationMode \<Rightarrow> ('b, 'k, 'w, unit) journal_op" where
  "verify_startup_full en mode =
     a_bind (verify_inner en) (\<lambda>report.
     a_bind (ensure_stream_events_index en) (\<lambda>_.
     a_bind (a_get jr_payload_protection) (\<lambda>protection.
     let anchored = vr_last_sequence report > 0 \<and> protection = Encrypted
     in a_bind (if anchored then journal_checkpoint en else a_return None) (\<lambda>_.
        set_report \<lparr>sr_configured_mode = mode,
          sr_path = (if mode = Full then ''full'' else ''bootstrap_full''),
          sr_verified_from_sequence = Some 1,
          sr_verified_through_sequence = vr_last_sequence report,
          sr_verified_event_count = vr_event_count report,
          sr_anchor_format_version = (if anchored then Some SECURE_ANCHOR_FORMAT_VERSION else None)\<rparr>))))"

text \<open>A journal without events: its anchor may not be ahead.\<close>

definition startup_empty ::
    "('b, 'k, 'w) JournalEnv \<Rightarrow> StartupVerificationMode \<Rightarrow> SecureAnchor option \<Rightarrow> ('b, 'k, 'w, unit) journal_op" where
  "startup_empty en mode anchor =
     a_bind (a_reject (case anchor of None \<Rightarrow> False | Some a \<Rightarrow> sa_sequence a \<noteq> 0)
       (Verification ''secure anchor is ahead of an empty journal'')) (\<lambda>_.
     a_bind (ensure_stream_events_index en) (\<lambda>_.
     set_report \<lparr>sr_configured_mode = mode, sr_path = ''empty'', sr_verified_from_sequence = None,
       sr_verified_through_sequence = 0, sr_verified_event_count = 0,
       sr_anchor_format_version = map_option sa_format_version anchor\<rparr>))"

text \<open>From a trusted anchor the tail is enough; an integrity failure falls back to everything.\<close>

definition trusted_incremental ::
    "('b, 'k, 'w) JournalEnv \<Rightarrow> StartupVerificationMode \<Rightarrow> SecureAnchor option \<Rightarrow> ('b, 'k, 'w, bool) journal_op" where
  "trusted_incremental en mode anchor =
     (if mode = Incremental \<and> anchor_trusted anchor
      then a_bind (stream_events_index_version en) (\<lambda>version.
        a_return (version = Some STREAM_EVENTS_INDEX_VERSION))
      else a_return False)"

definition incremental_else_full ::
    "('b, 'k, 'w) JournalEnv \<Rightarrow> StartupVerificationMode \<Rightarrow> SecureAnchor \<Rightarrow> ('b, 'k, 'w, unit) journal_op" where
  "incremental_else_full en mode a =
     a_bind (a_catch (verify_incremental en a)) (\<lambda>r. case r of
         Inr report \<Rightarrow> set_report report
       | Inl (Verification _) \<Rightarrow> verify_startup_full en mode
       | Inl e \<Rightarrow> a_fail e)"

definition startup_anchored ::
    "('b, 'k, 'w) JournalEnv \<Rightarrow> StartupVerificationMode \<Rightarrow> SecureAnchor option \<Rightarrow> ('b, 'k, 'w, unit) journal_op" where
  "startup_anchored en mode anchor =
     a_bind (trusted_incremental en mode anchor) (\<lambda>trusted.
     case (trusted, anchor) of
       (True, Some a) \<Rightarrow> incremental_else_full en mode a
     | _ \<Rightarrow> verify_startup_full en mode)"

definition verify_startup ::
    "('b, 'k, 'w) JournalEnv \<Rightarrow> StartupVerificationMode \<Rightarrow> ('b, 'k, 'w, unit) journal_op" where
  "verify_startup en mode =
     a_bind (a_get jr_payload_protection) (\<lambda>protection.
     a_bind (a_get jr_keys) (\<lambda>keys.
     a_bind (if protection = Encrypted then a_lift (kp_load_anchor en keys) else a_return None) (\<lambda>anchor.
     a_bind (journal_head en) (\<lambda>(head, _).
     if head = 0 then startup_empty en mode anchor
     else if protection = Plaintext \<and> mode = Incremental then
       a_bind (verify_plaintext_incremental en) set_report
     else startup_anchored en mode anchor))))"

section \<open>Opening\<close>

definition initialize_payload_protection :: "('b, 'k, 'w) JournalEnv \<Rightarrow> ('b, 'k, 'w, unit) journal_op" where
  "initialize_payload_protection en =
     (let configured = kp_payload_protection en
      in a_bind (begin_transaction en) (\<lambda>db.
         a_bind (a_lift (meta_entry (cd_of_str en) PAYLOAD_PROTECTION_KEY db)) (\<lambda>marker.
         a_bind (a_lift (last_sequence en db)) (\<lambda>head.
         a_bind (case marker of
             Some m \<Rightarrow> if m = ''encrypted'' then a_return Encrypted
               else if m = ''plaintext'' then a_return Plaintext
               else a_fail (Verification ''journal payload-protection marker is unsupported'')
           | None \<Rightarrow> a_return (if head > 0 \<or> db_events db \<noteq> [] then Encrypted else configured)) (\<lambda>effective.
         a_bind (a_reject (effective \<noteq> configured)
           (Verification (''journal payload protection is '' @ protection_str effective
             @ '', but configuration requests '' @ protection_str configured
             @ ''; use a fresh storage path because in-place protection changes are unsupported''))) (\<lambda>_.
         if marker \<noteq> None then a_return ()
         else
           a_bind (a_lift (adapter_json (cd_to_str en (protection_str configured)))) (\<lambda>bytes.
           a_bind (begin_transaction en) (\<lambda>write.
           commit_transaction en (write\<lparr>db_metadata :=
             table_insert PAYLOAD_PROTECTION_KEY bytes (db_metadata write)\<rparr>)))))))))"

definition open_steps :: "('b, 'k, 'w) JournalEnv \<Rightarrow> StartupVerificationMode \<Rightarrow> ('b, 'k, 'w, unit) journal_op" where
  "open_steps en mode =
     a_bind (initialize_payload_protection en) (\<lambda>_.
     a_bind (on_world (en_instant en)) (\<lambda>now.
     a_bind (a_modify (\<lambda>s. s\<lparr>jr_last_checkpoint := now\<rparr>)) (\<lambda>_.
     a_bind (a_catch (quarantine_result en (verify_startup en mode))) (\<lambda>startup.
     case startup of
       Inr _ \<Rightarrow> a_return ()
     | Inl e \<Rightarrow> a_modify (\<lambda>s. s\<lparr>jr_recovery_mode := True, jr_recovery_reason := Some (store_error_text e)\<rparr>)))))"

definition unverified_journal ::
    "('b, 'k, 'w) JournalEnv \<Rightarrow> 'b Database \<Rightarrow> 'k \<Rightarrow> StartupVerificationMode \<Rightarrow> 'w \<Rightarrow> ('b, 'k, 'w) RedbEventJournal" where
  "unverified_journal en database keys mode w =
     \<lparr>jr_database = database, jr_payload_protection = kp_payload_protection en,
      jr_keys = keys, jr_last_checkpoint = 0, jr_recovery_mode = False, jr_recovery_reason = None,
      jr_startup_report = \<lparr>sr_configured_mode = mode, sr_path = ''empty'',
        sr_verified_from_sequence = None, sr_verified_through_sequence = 0,
        sr_verified_event_count = 0, sr_anchor_format_version = None\<rparr>,
      jr_world = w\<rparr>"

definition open_database ::
    "('b, 'k, 'w) JournalEnv \<Rightarrow> 'b Database \<Rightarrow> 'k \<Rightarrow> StartupVerificationMode \<Rightarrow> 'w
      \<Rightarrow> (StoreError, ('b, 'k, 'w) RedbEventJournal) result" where
  "open_database en database keys mode w =
     (case open_steps en mode (unverified_journal en database keys mode w) of
        (s, Inr _) \<Rightarrow> Inr s
      | (s, Inl e) \<Rightarrow> Inl e)"

definition empty_database :: "'b Database" where
  "empty_database = \<lparr>db_events = [], db_stream_events = [], db_stream_versions = [], db_metadata = [],
     db_outbox = [], db_projection_positions = [], db_projection_records = []\<rparr>"

end
