(* ===== verification/JournalLog.thy ===== *)
theory JournalLog
  imports JournalStartup
begin

text \<open>
  What the journal relies on (\<open>lawful\<close>), the invariant that ties its tables to one list of
  envelopes (\<open>journal_inv\<close>), the abstract log it implements (\<open>shows\<close>), and that appending
  keeps the invariant and extends the log.
\<close>

named_theorems law_simps \<open>round trips of the encodings\<close>

section \<open>Documented behaviour of the packages\<close>

text \<open>
  The fields of a context that are marked \<open>#[serde(skip)]\<close> are not stored; a decoded
  envelope has their defaults.
\<close>

definition durable_context :: "ExecutionContext \<Rightarrow> ExecutionContext" where
  "durable_context c = c\<lparr>cx_image_input_budget := None, cx_draft_plan_id := None,
     cx_draft_plan_revision := None, cx_offered_tools := []\<rparr>"

definition durable :: "EventEnvelope \<Rightarrow> EventEnvelope" where
  "durable e = e\<lparr>ev_context := durable_context (ev_context e)\<rparr>"

lemma durable_simps [simp]:
  "ev_schema_version (durable e) = ev_schema_version e"
  "ev_event_version (durable e) = ev_event_version e"
  "ev_event_id (durable e) = ev_event_id e"
  "ev_global_sequence (durable e) = ev_global_sequence e"
  "ev_stream_id (durable e) = ev_stream_id e"
  "ev_stream_version (durable e) = ev_stream_version e"
  "ev_classification (durable e) = ev_classification e"
  "ev_event_type (durable e) = ev_event_type e"
  "ev_actor (durable e) = ev_actor e"
  "ev_context (durable e) = durable_context (ev_context e)"
  "ev_occurred_at (durable e) = ev_occurred_at e"
  "ev_payload (durable e) = ev_payload e"
  "ev_previous_hash (durable e) = ev_previous_hash e"
  "ev_record_hash (durable e) = ev_record_hash e"
  by (simp_all add: durable_def)

lemma durable_idem [simp]: "durable (durable e) = durable e"
  by (simp add: durable_def durable_context_def)

definition hash_input :: "EventEnvelope \<Rightarrow> RecordHashInput" where
  "hash_input e = \<lparr>rh_associated_data = associated_data e, rh_payload = ev_payload e,
     rh_previous_hash = ev_previous_hash e\<rparr>"

text \<open>
  The stored form of an envelope: re-encoding the parts that keep their exact encoding gives the
  bytes that encoding the envelope gave.
\<close>

definition stored_as :: "('b, 'k, 'w) JournalEnv \<Rightarrow> EventEnvelope \<Rightarrow> 'b PersistedEventEnvelope \<Rightarrow> bool" where
  "stored_as en e p \<longleftrightarrow> pe_record_hash p = ev_record_hash e
     \<and> cd_to_persisted_hash_input en (persisted_hash_input p) = cd_to_hash_input en (hash_input e)
     \<and> cd_to_persisted_associated en (persisted_associated_data p) = cd_to_associated en (associated_data e)"

definition envelope_law :: "('b, 'k, 'w) JournalEnv \<Rightarrow> EventEnvelope \<Rightarrow> bool" where
  "envelope_law en e \<longleftrightarrow> (\<exists>b p. cd_to_envelope en e = Inr b \<and> cd_of_envelope en b = Inr (durable e)
     \<and> cd_of_persisted en b = Inr p \<and> stored_as en e p)"

text \<open>The objects of the outbox: a string, a number and a string.\<close>

definition codec_law :: "('b, 'k, 'w) JournalEnv \<Rightarrow> bool" where
  "codec_law en \<longleftrightarrow> (\<forall>e. envelope_law en e)
     \<and> (\<forall>n. \<exists>b. cd_to_u64 en n = Inr b \<and> cd_of_u64 en b = Inr n)
     \<and> (\<forall>s. \<exists>b. cd_to_str en s = Inr b \<and> cd_of_str en b = Inr s)
     \<and> (\<forall>c. \<exists>b. cd_to_checkpoint en c = Inr b \<and> cd_of_checkpoint en b = Inr c)
     \<and> (\<forall>e. \<exists>b. cd_to_value en (outbox_record e) = Inr b \<and> cd_of_value en b = Inr (outbox_record e))"

text \<open>Failures that say nothing about the integrity of the journal.\<close>

definition fault :: "StoreError \<Rightarrow> bool" where
  "fault e \<longleftrightarrow> (\<exists>m. e = KeyUnavailable m \<or> e = StoreAdapter m)"

lemma fault_simps [simp]:
  "fault (KeyUnavailable m)" "fault (StoreAdapter m)" "\<not> fault (Verification m)"
  "\<not> fault (Conflict a b c)" "\<not> fault RecoveryMode"
  by (simp_all add: fault_def)

definition crypto_law :: "('b, 'k, 'w) JournalEnv \<Rightarrow> bool" where
  "crypto_law en \<longleftrightarrow> (\<forall>b. cr_hex_decode en (cr_hex_encode en b) = Some b)
     \<and> (\<forall>k n m a c. cr_encrypt en k n m a = Inr c \<longrightarrow> cr_decrypt en k n c a = Some m)
     \<and> (\<forall>w w' n. en_nonce en w = (w', Inr n) \<longrightarrow> cd_len en n = 24)
     \<and> (\<forall>m s. cs_sign en m = Inr s \<longrightarrow> cs_verify en m s = Inr ())
     \<and> (\<forall>m e. cs_sign en m = Inl e \<longrightarrow> fault e)
     \<and> (\<forall>m s e. cs_verify en m s = Inl e \<longrightarrow> (\<exists>t. e = Verification t))"

text \<open>
  A key provider resolves its active key by identifier, keeps its keys when it stores an anchor,
  and then holds the old or the new anchor, the new one if it reports success.
\<close>

definition provider_law ::
    "('k \<Rightarrow> (StoreError, string \<times> u8 list) result) \<Rightarrow> ('k \<Rightarrow> string \<Rightarrow> (StoreError, u8 list) result)
      \<Rightarrow> (SecureAnchor \<Rightarrow> 'k \<Rightarrow> 'k \<times> (StoreError, unit) result)
      \<Rightarrow> ('k \<Rightarrow> (StoreError, SecureAnchor option) result) \<Rightarrow> bool" where
  "provider_law active by_id put_anchor get_anchor \<longleftrightarrow>
     (\<forall>k i key. active k = Inr (i, key) \<longrightarrow> by_id k i = Inr key)
     \<and> (\<forall>k e. active k = Inl e \<longrightarrow> fault e) \<and> (\<forall>k i e. by_id k i = Inl e \<longrightarrow> fault e)
     \<and> (\<forall>a k k' r. put_anchor a k = (k', r) \<longrightarrow> by_id k' = by_id k
          \<and> (get_anchor k' = get_anchor k \<or> get_anchor k' = Inr (Some a))
          \<and> (\<forall>e. r = Inl e \<longrightarrow> fault e)
          \<and> (r = Inr () \<longrightarrow> get_anchor k' = Inr (Some a)))"

definition lawful :: "('b, 'k, 'w) JournalEnv \<Rightarrow> bool" where
  "lawful en \<longleftrightarrow> codec_law en \<and> crypto_law en
     \<and> provider_law (kp_active_key en) (kp_key_by_id en) (kp_store_anchor en) (kp_load_anchor en)"

definition encoded :: "('b, 'k, 'w) JournalEnv \<Rightarrow> EventEnvelope \<Rightarrow> 'b" where
  "encoded en e = projr (cd_to_envelope en e)"

definition queued :: "('b, 'k, 'w) JournalEnv \<Rightarrow> EventEnvelope \<Rightarrow> 'b" where
  "queued en e = projr (cd_to_value en (outbox_record e))"

lemma envelope_lawE:
  assumes "lawful en"
  obtains p where "cd_to_envelope en e = Inr (encoded en e)"
    and "cd_of_envelope en (encoded en e) = Inr (durable e)"
    and "cd_of_persisted en (encoded en e) = Inr p" and "stored_as en e p"
proof -
  have "envelope_law en e" using assms by (simp add: lawful_def codec_law_def)
  then obtain b p where "cd_to_envelope en e = Inr b" "cd_of_envelope en b = Inr (durable e)"
      "cd_of_persisted en b = Inr p" "stored_as en e p"
    by (auto simp: envelope_law_def)
  then show thesis using that by (simp add: encoded_def)
qed

lemma lawful_envelope [law_simps]:
  assumes "lawful en"
  shows "cd_to_envelope en e = Inr (encoded en e)"
    and "cd_of_envelope en (encoded en e) = Inr (durable e)"
  using envelope_lawE [OF assms] by metis+

lemma lawful_value [law_simps]:
  assumes "lawful en"
  shows "cd_to_value en (outbox_record e) = Inr (queued en e)"
    and "cd_of_value en (queued en e) = Inr (outbox_record e)"
  using assms by (auto simp: lawful_def codec_law_def queued_def dest: spec [of _ e])

lemma lawful_u64:
  assumes "lawful en"
  obtains b where "cd_to_u64 en n = Inr b" "cd_of_u64 en b = Inr n"
  using assms unfolding lawful_def codec_law_def by blast

lemma lawful_str:
  assumes "lawful en"
  obtains b where "cd_to_str en t = Inr b" "cd_of_str en b = Inr t"
  using assms unfolding lawful_def codec_law_def by blast

lemma lawful_checkpoint:
  assumes "lawful en"
  obtains b where "cd_to_checkpoint en c = Inr b" "cd_of_checkpoint en b = Inr c"
  using assms unfolding lawful_def codec_law_def by blast

lemma lawful_hex [law_simps]: "lawful en \<Longrightarrow> cr_hex_decode en (cr_hex_encode en b) = Some b"
  by (simp add: lawful_def crypto_law_def)

lemma lawful_decrypt: "lawful en \<Longrightarrow> cr_encrypt en k n m a = Inr c \<Longrightarrow> cr_decrypt en k n c a = Some m"
  by (auto simp: lawful_def crypto_law_def)

lemma lawful_nonce: "lawful en \<Longrightarrow> en_nonce en w = (w', Inr n) \<Longrightarrow> cd_len en n = 24"
  by (auto simp: lawful_def crypto_law_def)

lemma lawful_sign: "lawful en \<Longrightarrow> cs_sign en m = Inr sig \<Longrightarrow> cs_verify en m sig = Inr ()"
  by (auto simp: lawful_def crypto_law_def)

lemma lawful_active: "lawful en \<Longrightarrow> kp_active_key en k = Inr (i, key) \<Longrightarrow> kp_key_by_id en k i = Inr key"
  by (auto simp: lawful_def provider_law_def)

lemma lawful_faults:
  assumes "lawful en"
  shows "kp_active_key en k = Inl e \<Longrightarrow> fault e" "kp_store_anchor en a k = (k', Inl e) \<Longrightarrow> fault e"
    "cs_sign en m = Inl e \<Longrightarrow> fault e" "kp_key_by_id en k i = Inl e \<Longrightarrow> fault e"
  using assms by (auto simp: lawful_def provider_law_def crypto_law_def)

lemma adapter_faults [simp]: "adapter_json r = Inl e \<Longrightarrow> fault e" "adapter_text r' = Inl e \<Longrightarrow> fault e"
  by (auto simp: adapter_json_def adapter_text_def map_err_Inl_iff)

lemma lawful_store_anchor:
  assumes "lawful en" "kp_store_anchor en a k = (k', r)"
  shows "kp_key_by_id en k' = kp_key_by_id en k"
    and "kp_load_anchor en k' = kp_load_anchor en k \<or> kp_load_anchor en k' = Inr (Some a)"
    and "r = Inr () \<Longrightarrow> kp_load_anchor en k' = Inr (Some a)"
  using assms by (auto simp: lawful_def provider_law_def)

section \<open>Logs\<close>

definition stream_of :: "EventEnvelope list \<Rightarrow> string \<Rightarrow> EventEnvelope list" where
  "stream_of es stream = filter (\<lambda>e. ev_stream_id e = stream) es"

definition next_hash :: "EventEnvelope list \<Rightarrow> string" where
  "next_hash es = (if es = [] then ZERO_HASH else ev_record_hash (last es))"

lemma stream_of_simps [simp]:
  "stream_of [] stream = []"
  "stream_of (es @ fs) stream = stream_of es stream @ stream_of fs stream"
  "stream_of [e] stream = (if ev_stream_id e = stream then [e] else [])"
  by (simp_all add: stream_of_def)

lemma next_hash_simps [simp]: "next_hash [] = ZERO_HASH" "next_hash (es @ [e]) = ev_record_hash e"
  by (simp_all add: next_hash_def)

lemma next_hash_append [simp]: "fs \<noteq> [] \<Longrightarrow> next_hash (es @ fs) = next_hash fs"
  by (simp add: next_hash_def)

text \<open>The envelope opens to the value under the keys.\<close>

definition carries :: "('b, 'k, 'w) JournalEnv \<Rightarrow> JournalPayloadProtection \<Rightarrow> 'k \<Rightarrow> EventEnvelope \<Rightarrow> json \<Rightarrow> bool" where
  "carries en protection keys e v \<longleftrightarrow>
     (\<forall>p. stored_as en e p \<longrightarrow> verify_persisted_event en protection keys (durable e) p = Inr v)"

inductive log_ok :: "('b, 'k, 'w) JournalEnv \<Rightarrow> JournalPayloadProtection \<Rightarrow> 'k \<Rightarrow> EventEnvelope list \<Rightarrow> bool"
  for en protection keys where
  log_empty: "log_ok en protection keys []"
| log_snoc: "log_ok en protection keys es \<Longrightarrow> ev_global_sequence e = length es + 1
    \<Longrightarrow> ev_previous_hash e = next_hash es
    \<Longrightarrow> ev_stream_version e = length (stream_of es (ev_stream_id e)) + 1
    \<Longrightarrow> carries en protection keys e v \<Longrightarrow> log_ok en protection keys (es @ [e])"

inductive_cases log_ok_snocE: "log_ok en protection keys (es @ [e])"

lemma log_ok_prefix: "log_ok en protection keys (es @ fs) \<Longrightarrow> log_ok en protection keys es"
proof (induction fs rule: rev_induct)
  case (snoc f fs)
  then have "log_ok en protection keys ((es @ fs) @ [f])" by simp
  then have "log_ok en protection keys (es @ fs)" by (rule log_ok_snocE) simp_all
  then show ?case by (rule snoc.IH)
qed simp

lemma log_ok_nth:
  assumes "log_ok en protection keys es" "i < length es"
  shows "ev_global_sequence (es ! i) = i + 1"
  using assms by (induction) (auto simp: nth_append less_Suc_eq)

lemma log_ok_sequence_le:
  assumes "log_ok en protection keys es" "e \<in> set es"
  shows "1 \<le> ev_global_sequence e" "ev_global_sequence e \<le> length es"
  using assms by (auto simp: in_set_conv_nth log_ok_nth)

lemma log_ok_versions:
  assumes "log_ok en protection keys es" "i < length (stream_of es stream)"
  shows "ev_stream_version (stream_of es stream ! i) = i + 1"
  using assms by (induction) (auto simp: nth_append less_Suc_eq split: if_splits)

lemma log_ok_carries:
  assumes "log_ok en protection keys es" "e \<in> set es"
  obtains v where "carries en protection keys e v"
  using assms by (induction arbitrary: thesis) auto

lemma log_ok_distinct_sequence:
  "log_ok en protection keys es \<Longrightarrow> distinct (map ev_global_sequence es)"
  by (auto simp: distinct_conv_nth log_ok_nth)

section \<open>The invariant\<close>

definition checkpoint_ok :: "('b, 'k, 'w) JournalEnv \<Rightarrow> EventEnvelope list \<Rightarrow> SignedCheckpoint \<Rightarrow> bool" where
  "checkpoint_ok en es c \<longleftrightarrow> verify_checkpoint_signature en c = Inr ()
     \<and> (\<exists>e \<in> set es. ev_global_sequence e = sc_global_sequence c \<and> ev_record_hash e = sc_record_hash c)"

definition anchor_ok :: "EventEnvelope list \<Rightarrow> SecureAnchor \<Rightarrow> bool" where
  "anchor_ok es a \<longleftrightarrow> (\<exists>e \<in> set es. ev_global_sequence e = sa_sequence a \<and> ev_record_hash e = sa_hash a)"

text \<open>What the tables of events hold, and what the other metadata and projection tables hold.\<close>

definition events_ok :: "('b, 'k, 'w) JournalEnv \<Rightarrow> 'b Database \<Rightarrow> EventEnvelope list \<Rightarrow> bool" where
  "events_ok en db es \<longleftrightarrow>
     db_events db = map (\<lambda>e. (ev_global_sequence e, encoded en e)) es
     \<and> db_outbox db = map (\<lambda>e. (ev_global_sequence e, queued en e)) es
     \<and> table_ok (db_stream_events db)
     \<and> (\<forall>stream v. table_get (db_stream_events db) (stream, v) =
          (if 1 \<le> v \<and> v \<le> length (stream_of es stream)
           then Some (ev_global_sequence (stream_of es stream ! (v - 1))) else None))
     \<and> table_ok (db_stream_versions db)
     \<and> (\<forall>stream. table_get (db_stream_versions db) stream =
          (if stream_of es stream = [] then None else Some (length (stream_of es stream))))
     \<and> length es \<le> u64_max"

definition meta_ok :: "('b, 'k, 'w) JournalEnv \<Rightarrow> JournalPayloadProtection \<Rightarrow> 'b Database \<Rightarrow> EventEnvelope list \<Rightarrow> bool" where
  "meta_ok en protection db es \<longleftrightarrow> table_ok (db_metadata db)
     \<and> last_sequence en db = Inr (length es)
     \<and> last_hash en db = Inr (next_hash es)
     \<and> (es \<noteq> [] \<longrightarrow> meta_entry (cd_of_str en) ''last_hash'' db = Inr (Some (next_hash es)))
     \<and> meta_entry (cd_of_str en) PAYLOAD_PROTECTION_KEY db = Inr (Some (protection_str protection))
     \<and> (\<exists>c. latest_checkpoint en db = Inr c \<and> (protection = Plaintext \<longrightarrow> c = None)
          \<and> (\<forall>x. c = Some x \<longrightarrow> checkpoint_ok en es x))"

definition projections_ok :: "('b, 'k, 'w) JournalEnv \<Rightarrow> 'b Database \<Rightarrow> nat \<Rightarrow> bool" where
  "projections_ok en db head \<longleftrightarrow>
     (\<forall>(projection, position) \<in> set (db_projection_positions db).
        is_ok (projection_prefix projection) \<and> position \<le> head)
     \<and> (\<forall>record \<in> set (db_projection_records db). check_record en record = Inr ())
     \<and> table_ok (db_projection_positions db) \<and> table_ok (db_projection_records db)"

definition keys_ok :: "('b, 'k, 'w) JournalEnv \<Rightarrow> 'k \<Rightarrow> EventEnvelope list \<Rightarrow> bool" where
  "keys_ok en keys es \<longleftrightarrow>
     (\<exists>anchor. kp_load_anchor en keys = Inr anchor \<and> (\<forall>a. anchor = Some a \<longrightarrow> anchor_ok es a))"

definition database_ok ::
    "('b, 'k, 'w) JournalEnv \<Rightarrow> JournalPayloadProtection \<Rightarrow> 'k \<Rightarrow> 'b Database \<Rightarrow> EventEnvelope list \<Rightarrow> bool" where
  "database_ok en protection keys db es \<longleftrightarrow> log_ok en protection keys es \<and> events_ok en db es
     \<and> meta_ok en protection db es \<and> projections_ok en db (length es) \<and> keys_ok en keys es"

definition journal_inv :: "('b, 'k, 'w) JournalEnv \<Rightarrow> ('b, 'k, 'w) RedbEventJournal \<Rightarrow> EventEnvelope list \<Rightarrow> bool" where
  "journal_inv en s es \<longleftrightarrow>
     database_ok en (jr_payload_protection s) (jr_keys s) (jr_database s) es
     \<and> index_version en (jr_database s) = Inr (Some STREAM_EVENTS_INDEX_VERSION)"

lemma journal_inv_cong:
  assumes "jr_database s' = jr_database s" "jr_payload_protection s' = jr_payload_protection s"
    "jr_keys s' = jr_keys s"
  shows "journal_inv en s' es \<longleftrightarrow> journal_inv en s es"
  using assms by (simp add: journal_inv_def)

lemma carries_keys:
  assumes "kp_key_by_id en keys' = kp_key_by_id en keys"
  shows "carries en protection keys' e v \<longleftrightarrow> carries en protection keys e v"
proof -
  have "decrypt_persisted en protection keys' = decrypt_persisted en protection keys"
    by (intro ext) (simp only: decrypt_persisted_def assms)
  then show ?thesis by (simp only: carries_def verify_persisted_event_def)
qed

lemma log_ok_keys:
  assumes "kp_key_by_id en keys' = kp_key_by_id en keys" "log_ok en protection keys es"
  shows "log_ok en protection keys' es"
  using assms(2)
proof induction
  case (log_snoc es e v)
  then show ?case using carries_keys [OF assms(1)] by (auto intro: log_ok.log_snoc)
qed (rule log_ok.log_empty)

lemma checkpoint_ok_mono: "checkpoint_ok en es c \<Longrightarrow> checkpoint_ok en (es @ fs) c"
  by (auto simp: checkpoint_ok_def)

lemma anchor_ok_mono: "anchor_ok es a \<Longrightarrow> anchor_ok (es @ fs) a"
  by (auto simp: anchor_ok_def)

section \<open>Steps of the environment\<close>

text \<open>Steps that leave everything but the world as it is.\<close>

definition agrees :: "('b, 'k, 'w) RedbEventJournal \<Rightarrow> ('b, 'k, 'w) RedbEventJournal \<Rightarrow> bool" where
  "agrees s s' \<longleftrightarrow> s' = s\<lparr>jr_world := jr_world s'\<rparr>"

lemma agrees_refl [simp]: "agrees s s"
  by (simp add: agrees_def)

lemma agrees_world [simp]: "agrees s (s\<lparr>jr_world := w\<rparr>)"
  by (simp add: agrees_def)

lemma agrees_trans [trans]: "agrees s t \<Longrightarrow> agrees t u \<Longrightarrow> agrees s u"
  unfolding agrees_def by (cases s, cases t, cases u) simp

lemma agreesD:
  assumes "agrees s s'"
  shows "jr_database s' = jr_database s" "jr_payload_protection s' = jr_payload_protection s"
    "jr_keys s' = jr_keys s" "jr_recovery_mode s' = jr_recovery_mode s"
  using assms unfolding agrees_def by (metis RedbEventJournal.select_convs RedbEventJournal.update_convs(8) RedbEventJournal.surjective)+

lemma agrees_inv: "agrees s s' \<Longrightarrow> journal_inv en s' es \<longleftrightarrow> journal_inv en s es"
  by (rule journal_inv_cong) (simp_all add: agreesD)

definition world_only :: "('b, 'k, 'w, 'a) journal_op \<Rightarrow> bool" where
  "world_only m \<longleftrightarrow> (\<forall>s. after m s (\<lambda>s' _. agrees s s'))"

lemma world_only_primitive [simp]:
  "world_only (a_return x)" "world_only (a_fail e)" "world_only (a_lift r)" "world_only (a_get f)"
  by (simp_all add: world_only_def action_simps)

lemma world_only_reject [simp]: "world_only (a_reject c d)"
  by (simp add: world_only_def action_simps)

lemma world_only_on_world [simp]: "world_only (on_world g)"
  by (simp add: world_only_def on_world_def after_def split: prod.split)

lemma world_only_bind:
  assumes "world_only m" "\<And>x. world_only (f x)"
  shows "world_only (a_bind m f)"
  unfolding world_only_def
proof
  fix s
  have "after m s (\<lambda>s' _. agrees s s')" using assms(1) by (simp add: world_only_def)
  then show "after (a_bind m f) s (\<lambda>s' _. agrees s s')"
    unfolding after_bind
    by (rule after_mono) (use assms(2) in \<open>auto simp: world_only_def split: sum.split intro: after_mono agrees_trans\<close>)
qed

lemma world_only_begin [simp]: "world_only (begin_transaction en)"
  unfolding begin_transaction_def by (rule world_only_bind) (auto split: option.split)

lemma world_only_utc_now [simp]: "world_only (utc_now en)"
  unfolding utc_now_def by (rule world_only_bind) simp_all

lemma world_only_encrypt [simp]: "world_only (encrypt_payload en e b)"
  unfolding encrypt_payload_def by (auto intro!: world_only_bind split: prod.split)

lemma world_only_seal [simp]: "world_only (seal_event en event n v h)"
  unfolding seal_event_def by (intro world_only_bind) simp_all

lemma after_agrees:
  assumes "world_only m" "\<And>s' r. agrees s s' \<Longrightarrow> snd (m s) = r \<Longrightarrow> Q s' r"
  shows "after m s Q"
  using assms by (simp add: world_only_def after_run)

section \<open>Sealing an event\<close>

text \<open>A payload that its encoding determines, as parsing reads it back.\<close>

definition stable_payload :: "('b, 'k, 'w) JournalEnv \<Rightarrow> json \<Rightarrow> bool" where
  "stable_payload en v \<longleftrightarrow> (\<exists>b. cd_to_value en v = Inr b \<and> cd_of_value en b = Inr v)"

definition payload_opens ::
    "('b, 'k, 'w) JournalEnv \<Rightarrow> JournalPayloadProtection \<Rightarrow> 'k \<Rightarrow> AssociatedData \<Rightarrow> EncryptedPayload \<Rightarrow> 'b \<Rightarrow> bool" where
  "payload_opens en protection keys ad payload b \<longleftrightarrow> ep_plaintext_hash payload = cr_sha256_hex en b
     \<and> (\<forall>e p. ev_payload e = payload
          \<and> cd_to_persisted_associated en (persisted_associated_data p) = cd_to_associated en ad
          \<longrightarrow> decrypt_persisted en protection keys e p = Inr b)"

lemma on_world_after [action_simps]:
  "after (on_world f) s Q \<longleftrightarrow> (case f (jr_world s) of (w, x) \<Rightarrow> Q (s\<lparr>jr_world := w\<rparr>) (Inr x))"
  by (simp add: after_def on_world_def split: prod.split)

lemma encrypt_payload_opens:
  assumes "lawful en"
  shows "after (encrypt_payload en e b) s (\<lambda>s' r. \<forall>payload. r = Inr payload \<longrightarrow>
    payload_opens en (jr_payload_protection s) (jr_keys s) (associated_data e) payload b)"
proof (cases "jr_payload_protection s")
  case Plaintext
  then show ?thesis
    by (simp add: encrypt_payload_def action_simps payload_opens_def decrypt_persisted_def law_simps [OF assms])
next
  case Encrypted
  have opens: "payload_opens en Encrypted (jr_keys s) (associated_data e)
      \<lparr>ep_key_id = i, ep_algorithm = ENCRYPTED_PAYLOAD_ALGORITHM, ep_nonce = cr_hex_encode en n,
       ep_ciphertext = cr_hex_encode en c, ep_plaintext_hash = cr_sha256_hex en b\<rparr> b"
    if "kp_active_key en (jr_keys s) = Inr (i, k)" "en_nonce en w = (w', Inr n)"
      "adapter_json (cd_to_associated en (associated_data e)) = Inr a"
      "cr_encrypt en k n b a = Inr c" for i k w w' n a c
    using that lawful_active [OF assms that(1)] lawful_nonce [OF assms that(2)]
      lawful_decrypt [OF assms that(4)]
    by (simp add: payload_opens_def decrypt_persisted_def law_simps [OF assms])
  show ?thesis
    using Encrypted
    by (auto simp: encrypt_payload_def action_simps adapter_text_def map_err_Inr_iff
        split: sum.split prod.split intro: opens)
qed

text \<open>Steps whose errors are faults.\<close>

definition faulty :: "('b, 'k, 'w, 'a) journal_op \<Rightarrow> bool" where
  "faulty m \<longleftrightarrow> (\<forall>s. after m s (\<lambda>s' r. \<forall>e. r = Inl e \<longrightarrow> fault e))"

lemma faulty_primitive [simp]:
  "faulty (a_return x)" "faulty (a_get f)" "faulty (on_world g)"
  by (simp_all add: faulty_def action_simps split: prod.split)

lemma faulty_lift [simp]: "faulty (a_lift r) \<longleftrightarrow> (\<forall>e. r = Inl e \<longrightarrow> fault e)"
  by (simp add: faulty_def action_simps)

lemma faulty_fail [simp]: "faulty (a_fail e) \<longleftrightarrow> fault e"
  by (simp add: faulty_def action_simps)

lemma faulty_bind:
  assumes "faulty m" "\<And>x. faulty (f x)"
  shows "faulty (a_bind m f)"
  unfolding faulty_def
proof
  fix s
  have "after m s (\<lambda>s' r. \<forall>e. r = Inl e \<longrightarrow> fault e)" using assms(1) by (simp add: faulty_def)
  then show "after (a_bind m f) s (\<lambda>s' r. \<forall>e. r = Inl e \<longrightarrow> fault e)"
    unfolding after_bind
    by (rule after_mono) (use assms(2) in \<open>auto simp: faulty_def split: sum.split\<close>)
qed

lemma faulty_begin [simp]: "faulty (begin_transaction en)"
  unfolding begin_transaction_def by (rule faulty_bind) (auto split: option.split)

lemma faulty_utc_now [simp]: "faulty (utc_now en)"
  unfolding utc_now_def by (rule faulty_bind) auto

lemma faulty_seal:
  assumes "lawful en"
  shows "faulty (seal_event en event n v h)"
proof -
  have "faulty (encrypt_payload en e b)" for e b
    unfolding encrypt_payload_def
    by (auto intro!: faulty_bind lawful_faults(1) [OF assms] split: prod.split)
  moreover have "faulty (a_lift (record_hash en e))" for e
    by (auto simp: record_hash_def bind_r_def split: sum.splits)
  ultimately show ?thesis
    unfolding seal_event_def by (intro faulty_bind) auto
qed

text \<open>The envelope stands for the event in the log.\<close>

definition envelope_of :: "EventEnvelope \<Rightarrow> NewEvent \<Rightarrow> bool" where
  "envelope_of e n \<longleftrightarrow> ev_event_version e = ne_event_version n \<and> ev_stream_id e = ne_stream_id n
     \<and> ev_stream_version e = ne_expected_stream_version n + 1
     \<and> ev_classification e = ne_classification n \<and> ev_event_type e = ne_event_type n
     \<and> ev_actor e = ne_actor n \<and> ev_context e = ne_context n"

lemma sealed_carries:
  assumes "payload_opens en protection keys (associated_data e) (ev_payload e) b"
    and "record_hash en e = Inr (ev_record_hash e)" and "cd_of_value en b = Inr v"
  shows "carries en protection keys e v"
  unfolding carries_def
proof (intro allI impI)
  fix p assume p: "stored_as en e p"
  have "persisted_record_hash en p = record_hash en e"
    using p by (simp add: persisted_record_hash_def record_hash_def stored_as_def hash_input_def)
  moreover have "decrypt_persisted en protection keys (durable e) p = Inr b"
    using assms(1) p by (auto simp: payload_opens_def stored_as_def)
  ultimately show "verify_persisted_event en protection keys (durable e) p = Inr v"
    using assms p
    by (simp add: verify_persisted_event_def stored_as_def payload_opens_def decode_journal_json_def)
qed

lemma record_hash_ignores: "record_hash en (e\<lparr>ev_record_hash := h\<rparr>) = record_hash en e"
  by (simp add: record_hash_def associated_data_def)

lemma associated_data_ignores:
  "associated_data (e\<lparr>ev_payload := p, ev_record_hash := h\<rparr>) = associated_data e"
  by (simp add: associated_data_def)

lemma seal_event_result:
  assumes "lawful en" "stable_payload en (ne_payload event)"
    "version = ne_expected_stream_version event + 1"
  shows "after (seal_event en event sequence version previous) s (\<lambda>s' r. agrees s s' \<and>
    (\<forall>e. r = Inl e \<longrightarrow> fault e) \<and> (\<forall>e. r = Inr e \<longrightarrow> ev_global_sequence e = sequence \<and> ev_previous_hash e = previous
       \<and> envelope_of e event
       \<and> carries en (jr_payload_protection s) (jr_keys s) e (ne_payload event)))"
proof -
  obtain b where b: "cd_to_value en (ne_payload event) = Inr b" "cd_of_value en b = Inr (ne_payload event)"
    using assms(2) by (auto simp: stable_payload_def)
  have sealed: "after (a_bind (encrypt_payload en draft b) (\<lambda>payload.
      a_bind (a_return (draft\<lparr>ev_payload := payload\<rparr>)) (\<lambda>envelope.
      a_bind (a_lift (record_hash en envelope)) (\<lambda>hash.
      a_return (envelope\<lparr>ev_record_hash := hash\<rparr>))))) t (\<lambda>s' r. \<forall>e. r = Inr e \<longrightarrow>
        (\<exists>p h. e = draft\<lparr>ev_payload := p, ev_record_hash := h\<rparr>)
        \<and> carries en (jr_payload_protection t) (jr_keys t) e (ne_payload event))" for draft t
    unfolding after_bind
    by (rule after_mono [OF encrypt_payload_opens [OF assms(1)]])
      (auto simp: action_simps record_hash_ignores associated_data_ignores split: sum.split
        intro!: sealed_carries [OF _ _ b(2)])
  have "after (seal_event en event sequence version previous) s (\<lambda>s' r.
    (\<forall>e. r = Inr e \<longrightarrow> ev_global_sequence e = sequence \<and> ev_previous_hash e = previous
       \<and> envelope_of e event
       \<and> carries en (jr_payload_protection s) (jr_keys s) e (ne_payload event)))"
    unfolding seal_event_def utc_now_def
    by (auto simp: action_simps b adapter_json_def split: prod.split sum.split
        intro!: after_mono [OF sealed [unfolded after_bind]] simp: new_envelope_def envelope_of_def assms(3))
  then show ?thesis
    using world_only_seal [of en event sequence version previous]
      faulty_seal [OF assms(1), of event sequence version previous]
    by (simp add: world_only_def faulty_def after_run)
qed

section \<open>Appending keeps the invariant\<close>

text \<open>
  A transaction in progress: the table of events and the accumulators of the loop stand for the
  log that will be committed.
\<close>

definition txn_ok :: "('b, 'k, 'w) JournalEnv \<Rightarrow> JournalPayloadProtection \<Rightarrow> 'k \<Rightarrow> 'b Database
    \<Rightarrow> EventEnvelope list \<Rightarrow> 'b append_txn \<Rightarrow> bool" where
  "txn_ok en protection keys db es ax \<longleftrightarrow>
     (let all = es @ ax_persisted ax
      in log_ok en protection keys all \<and> events_ok en (ax_db ax) all
         \<and> ax_sequence ax = length all \<and> ax_previous_hash ax = next_hash all
         \<and> table_ok (ax_batch_versions ax)
         \<and> (\<forall>stream v. table_get (ax_batch_versions ax) stream = Some v
              \<longrightarrow> v = length (stream_of all stream))
         \<and> db_metadata (ax_db ax) = db_metadata db
         \<and> db_projection_positions (ax_db ax) = db_projection_positions db
         \<and> db_projection_records (ax_db ax) = db_projection_records db)"

lemma txn_durable_version:
  assumes "txn_ok en protection keys db es ax"
  shows "ax_durable_version ax stream = length (stream_of (es @ ax_persisted ax) stream)"
  using assms by (auto simp: ax_durable_version_def txn_ok_def Let_def events_ok_def split: option.split)

lemma rows_insert_last:
  assumes "log_ok en protection keys es"
  shows "table_insert (Suc (length es)) x (map (\<lambda>e. (ev_global_sequence e, f e)) es)
    = map (\<lambda>e. (ev_global_sequence e, f e)) es @ [(Suc (length es), x)]"
  by (rule table_insert_last) (use log_ok_sequence_le [OF assms] in \<open>fastforce simp: less_Suc_eq_le\<close>)

lemma events_ok_snoc:
  assumes ok: "events_ok en db es" and log: "log_ok en protection keys es"
    and e: "ev_global_sequence e = length es + 1"
      "ev_stream_version e = length (stream_of es (ev_stream_id e)) + 1"
    and bound: "length es + 1 \<le> u64_max"
  shows "events_ok en (db\<lparr>db_events := table_insert (ev_global_sequence e) (encoded en e) (db_events db),
            db_stream_events := table_insert (ev_stream_id e, ev_stream_version e) (ev_global_sequence e) (db_stream_events db),
            db_stream_versions := table_insert (ev_stream_id e) (ev_stream_version e) (db_stream_versions db),
            db_outbox := table_insert (ev_global_sequence e) (queued en e) (db_outbox db)\<rparr>) (es @ [e])"
  using ok e bound
  by (auto simp: events_ok_def rows_insert_last [OF log] nth_append)

definition refusal :: "EventEnvelope list \<Rightarrow> NewEvent \<Rightarrow> StoreError \<Rightarrow> bool" where
  "refusal es event e \<longleftrightarrow> fault e
     \<or> e = Conflict (ne_stream_id event) (ne_expected_stream_version event) (length (stream_of es (ne_stream_id event)))
       \<and> ne_expected_stream_version event \<noteq> length (stream_of es (ne_stream_id event))
     \<or> (\<exists>m. e = Verification m) \<and> length es = u64_max"

definition represents :: "('b, 'k, 'w) JournalEnv \<Rightarrow> JournalPayloadProtection \<Rightarrow> 'k \<Rightarrow> EventEnvelope \<Rightarrow> NewEvent \<Rightarrow> bool" where
  "represents en protection keys e event \<longleftrightarrow> envelope_of e event \<and> carries en protection keys e (ne_payload event)"

definition appended_event :: "('b, 'k, 'w) JournalEnv \<Rightarrow> JournalPayloadProtection \<Rightarrow> 'k \<Rightarrow> 'b Database
    \<Rightarrow> EventEnvelope list \<Rightarrow> NewEvent \<Rightarrow> 'b append_txn \<Rightarrow> (StoreError, 'b append_txn) result \<Rightarrow> bool" where
  "appended_event en protection keys db es event ax r = (case r of
       Inl e \<Rightarrow> refusal (es @ ax_persisted ax) event e
     | Inr ax' \<Rightarrow> txn_ok en protection keys db es ax'
         \<and> (\<exists>e. ax_persisted ax' = ax_persisted ax @ [e] \<and> represents en protection keys e event))"

lemma store_event_persisted [simp]: "ax_persisted (store_event e b q ax) = ax_persisted ax @ [e]"
  by (simp add: store_event_def Let_def)

lemma append_event_keeps:
  assumes "lawful en" "stable_payload en (ne_payload event)" "txn_ok en protection keys db es ax"
    "jr_payload_protection s = protection" "jr_keys s = keys"
  shows "after (append_event en event ax) s (\<lambda>s' r. agrees s s' \<and> appended_event en protection keys db es event ax r)"
proof -
  let ?all = "es @ ax_persisted ax"
  let ?v = "length (stream_of ?all (ne_stream_id event))"
  note durable = txn_durable_version [OF assms(3)]
  have store: "txn_ok en protection keys db es (store_event e (encoded en e) (queued en e) ax)"
    if "ne_expected_stream_version event = ?v" "envelope_of e event"
      "ev_global_sequence e = length ?all + 1" "ev_previous_hash e = next_hash ?all"
      "carries en protection keys e (ne_payload event)" "length ?all + 1 \<le> u64_max" for e
  proof -
    have version: "ev_stream_version e = length (stream_of ?all (ev_stream_id e)) + 1"
      using that(1,2) by (simp add: envelope_of_def)
    have log: "log_ok en protection keys ?all" and ok: "events_ok en (ax_db ax) ?all"
      using assms(3) by (simp_all add: txn_ok_def Let_def)
    have "log_ok en protection keys (?all @ [e])"
      using log that(3,4) version that(5) by (rule log_snoc)
    moreover have "events_ok en (ax_db (store_event e (encoded en e) (queued en e) ax)) (?all @ [e])"
      using events_ok_snoc [OF ok log that(3) version that(6)] by (simp add: store_event_def Let_def)
    ultimately show ?thesis
      using assms(3) that(3) version by (auto simp: txn_ok_def Let_def store_event_def)
  qed
  have bound: "length ?all \<le> u64_max"
    using assms(3) by (simp add: txn_ok_def Let_def events_ok_def)
  have stream_le: "?v \<le> length ?all"
    unfolding stream_of_def by (rule length_filter_le)
  have unindexed: "table_get (db_stream_events (ax_db ax)) (ne_stream_id event, Suc ?v) = None"
    using assms(3) by (simp add: txn_ok_def Let_def events_ok_def)
  have sequence: "ax_sequence ax = length ?all" and previous: "ax_previous_hash ax = next_hash ?all"
    using assms(3) by (simp_all add: txn_ok_def Let_def)
  have seal: "after (a_bind (seal_event en event (length ?all + 1) (?v + 1) (next_hash ?all)) (\<lambda>envelope.
      a_bind (a_lift (adapter_json (cd_to_envelope en envelope))) (\<lambda>encoded.
      a_bind (a_reject (table_get (db_stream_events (ax_db ax)) (ne_stream_id event, ?v + 1) \<noteq> None) err) (\<lambda>_.
      a_bind (a_lift (adapter_json (cd_to_value en (outbox_record envelope)))) (\<lambda>queued.
      a_return (store_event envelope encoded queued ax)))))) s
      (\<lambda>s' r. agrees s s' \<and> appended_event en protection keys db es event ax r)"
    if "ne_expected_stream_version event = ?v" "length ?all + 1 \<le> u64_max" for err
    unfolding after_bind
    by (rule after_mono [OF seal_event_result [OF assms(1,2)]])
      (use that unindexed in \<open>auto simp: after_primitive after_reject law_simps [OF assms(1)] adapter_json_def assms(4,5)
          appended_event_def refusal_def represents_def
          split: sum.split intro!: store\<close>)
  show ?thesis
  proof (cases "ne_expected_stream_version event = ?v \<and> length ?all + 1 \<le> u64_max")
    case True
    then have c1: "ok_or m (checked_add64 (length ?all) 1) = Inr (length ?all + 1)"
      and c2: "ok_or m (checked_add64 ?v 1) = Inr (?v + 1)" for m :: StoreError
      using stream_le by (simp_all add: checked_add64_def)
    show ?thesis
      unfolding append_event_def Let_def durable sequence previous c1 c2 a_bind_simps
      using True by (simp only: simp_thms a_reject_simps a_bind_simps) (rule seal, simp_all)
  next
    case False
    then show ?thesis
      unfolding append_event_def Let_def durable sequence previous
      using bound by (auto simp: action_simps ok_or_def checked_add64_def appended_event_def refusal_def)
  qed
qed

end
