(* ===== verification/JournalAppend.thy ===== *)
theory JournalAppend
  imports JournalLog
begin

text \<open>
  The abstract log a journal implements, and that appending and checkpointing refine it:
  optimistic concurrency decides alone, errors leave the log as it was unless the events were
  committed before a checkpoint failed, and the invariant holds afterwards.
\<close>

section \<open>The abstract log\<close>

text \<open>A log is the sequence of the events that were appended.\<close>

definition log_version :: "NewEvent list \<Rightarrow> string \<Rightarrow> nat" where
  "log_version log stream = length (filter (\<lambda>n. ne_stream_id n = stream) log)"

fun log_append :: "NewEvent list \<Rightarrow> NewEvent list \<Rightarrow> (StoreError, NewEvent list) result" where
  "log_append log [] = Inr log"
| "log_append log (n # ns) =
     (if ne_expected_stream_version n \<noteq> log_version log (ne_stream_id n)
      then Inl (Conflict (ne_stream_id n) (ne_expected_stream_version n) (log_version log (ne_stream_id n)))
      else log_append (log @ [n]) ns)"

text \<open>The state of a journal shows a log through the envelopes it holds.\<close>

definition shows_log :: "('b, 'k, 'w) JournalEnv \<Rightarrow> ('b, 'k, 'w) RedbEventJournal \<Rightarrow> EventEnvelope list \<Rightarrow> NewEvent list \<Rightarrow> bool" where
  "shows_log en s es log \<longleftrightarrow> journal_inv en s es
     \<and> list_all2 (represents en (jr_payload_protection s) (jr_keys s)) es log"

lemma log_append_append:
  "log_append log (xs @ ys) = bind_r (log_append log xs) (\<lambda>l. log_append l ys)"
  by (induction xs arbitrary: log) auto

lemma log_append_Inr: "log_append log xs = Inr l \<Longrightarrow> l = log @ xs"
  by (induction xs arbitrary: log) (fastforce split: if_splits)+

lemma represents_version:
  assumes "list_all2 (represents en protection keys) es log"
  shows "length (stream_of es stream) = log_version log stream"
  using assms
  by induction (auto simp: stream_of_def log_version_def represents_def envelope_of_def)

section \<open>Transactions\<close>

lemma after_beginI:
  assumes "\<And>s' m. agrees s s' \<Longrightarrow> Q s' (Inl (StoreAdapter m))"
    and "\<And>s'. agrees s s' \<Longrightarrow> Q s' (Inr (jr_database s))"
  shows "after (begin_transaction en) s Q"
  using assms by (auto simp: begin_transaction_def action_simps split: prod.split option.split)

text \<open>Only a transaction that does not begin fails here.\<close>

lemma after_begin_exactI:
  assumes "\<And>s' m. agrees s s' \<Longrightarrow> snd (en_begin en (jr_world s)) = Some m \<Longrightarrow> Q s' (Inl (StoreAdapter m))"
    and "\<And>s'. agrees s s' \<Longrightarrow> Q s' (Inr (jr_database s))"
  shows "after (begin_transaction en) s Q"
  using assms by (auto simp: begin_transaction_def action_simps split: prod.split option.split)

lemma after_commitI:
  assumes "\<And>s' m. agrees s s' \<Longrightarrow> Q s' (Inl (StoreAdapter m))"
    and "\<And>s'. agrees s s' \<Longrightarrow> Q (s'\<lparr>jr_database := db\<rparr>) (Inr ())"
  shows "after (commit_transaction en db) s Q"
  using assms by (auto simp: commit_transaction_def action_simps split: prod.split option.split)

lemma meta_entry_insert:
  assumes "table_ok (db_metadata db)"
  shows "meta_entry decode key (db\<lparr>db_metadata := table_insert k b (db_metadata db)\<rparr>) =
    (if k = key then bind_r (decode_journal_json (decode b)) (\<lambda>x. Inr (Some x)) else meta_entry decode key db)"
  using assms by (simp add: meta_entry_def)

lemma meta_entry_other:
  "meta_entry decode key (db\<lparr>db_events := a, db_stream_events := c, db_stream_versions := d, db_outbox := f\<rparr>)
     = meta_entry decode key db"
  by (simp add: meta_entry_def)

lemma meta_entry_cong: "db_metadata db = db_metadata db' \<Longrightarrow> meta_entry decode key db = meta_entry decode key db'"
  by (simp add: meta_entry_def)

lemma events_ok_cong:
  assumes "db_events db = db_events db'" "db_outbox db = db_outbox db'"
    "db_stream_events db = db_stream_events db'" "db_stream_versions db = db_stream_versions db'"
  shows "events_ok en db es \<longleftrightarrow> events_ok en db' es"
  using assms by (simp add: events_ok_def)

lemma projections_ok_mono:
  assumes "projections_ok en db n" "n \<le> m" "db_projection_positions db = db_projection_positions db'"
    "db_projection_records db = db_projection_records db'"
  shows "projections_ok en db' m"
  using assms by (fastforce simp: projections_ok_def)

section \<open>Committing a batch\<close>

lemma commit_batch_ok:
  assumes inv: "database_ok en protection keys db es" "index_version en db = Inr v"
    and txn: "txn_ok en protection keys db es ax"
    and seq: "cd_of_u64 en b = Inr (ax_sequence ax)" and hash: "cd_of_str en h = Inr (ax_previous_hash ax)"
  defines "db' \<equiv> (ax_db ax)\<lparr>db_metadata := table_insert ''last_hash'' h
      (table_insert ''last_sequence'' b (db_metadata (ax_db ax)))\<rparr>"
  shows "database_ok en protection keys db' (es @ ax_persisted ax)" "index_version en db' = Inr v"
proof -
  let ?all = "es @ ax_persisted ax"
  have meta: "db_metadata (ax_db ax) = db_metadata db" "table_ok (db_metadata db)"
    using txn inv(1) by (simp_all add: txn_ok_def Let_def database_ok_def meta_ok_def)
  have entry: "meta_entry decode key db' =
     (if key = ''last_hash'' then bind_r (decode_journal_json (decode h)) (\<lambda>x. Inr (Some x))
      else if key = ''last_sequence'' then bind_r (decode_journal_json (decode b)) (\<lambda>x. Inr (Some x))
      else meta_entry decode key db)" for decode :: "_ \<Rightarrow> (JsonError, 'x) result" and key
    using meta by (auto simp: db'_def meta_entry_def)
  obtain c where c: "latest_checkpoint en db = Inr c" "protection = Plaintext \<longrightarrow> c = None"
      "\<forall>x. c = Some x \<longrightarrow> checkpoint_ok en es x"
      "meta_entry (cd_of_str en) PAYLOAD_PROTECTION_KEY db = Inr (Some (protection_str protection))"
    using inv(1) by (auto simp: database_ok_def meta_ok_def)
  have "log_ok en protection keys ?all" "events_ok en (ax_db ax) ?all"
      "ax_sequence ax = length ?all" "ax_previous_hash ax = next_hash ?all"
    using txn by (simp_all add: txn_ok_def Let_def)
  moreover have "events_ok en db' ?all"
    using calculation(2) by (subst events_ok_cong [of _ "ax_db ax"]) (simp_all add: db'_def)
  moreover have "meta_ok en protection db' ?all"
    unfolding meta_ok_def last_sequence_def last_hash_def latest_checkpoint_def entry
    using meta c calculation(3,4) seq hash
    by (auto simp: db'_def decode_journal_json_def latest_checkpoint_def checkpoint_ok_mono PAYLOAD_PROTECTION_KEY_def)
  moreover have "projections_ok en db' (length ?all)"
    using inv(1) txn
    by (auto simp: database_ok_def db'_def txn_ok_def Let_def intro: projections_ok_mono [of en db "length es"])
  moreover have "keys_ok en keys ?all"
    using inv(1) by (auto simp: database_ok_def keys_ok_def anchor_ok_mono)
  ultimately show "database_ok en protection keys db' ?all"
    by (simp add: database_ok_def)
  show "index_version en db' = Inr v"
    using inv(2) by (simp add: index_version_def entry STREAM_EVENTS_INDEX_KEY_def)
qed

lemma txn_start:
  assumes "database_ok en protection keys db es"
  shows "txn_ok en protection keys db es \<lparr>ax_db = db, ax_sequence = length es,
    ax_previous_hash = next_hash es, ax_batch_versions = [], ax_persisted = []\<rparr>"
  using assms by (simp add: txn_ok_def database_ok_def)

section \<open>Appending refines the log\<close>

text \<open>Why a batch may be refused: a fault, recovery mode, a conflict the log knows, exhaustion.\<close>

definition batch_refusal :: "bool \<Rightarrow> NewEvent list \<Rightarrow> NewEvent list \<Rightarrow> StoreError \<Rightarrow> bool" where
  "batch_refusal recovery log events e \<longleftrightarrow> fault e \<or> e = RecoveryMode \<and> recovery
     \<or> log_append log events = Inl e
     \<or> (\<exists>m. e = Verification m) \<and> u64_max < length log + length events"

lemma batch_refusal_fault [simp]: "fault e \<Longrightarrow> batch_refusal recovery log events e"
  by (simp add: batch_refusal_def)

text \<open>The loop of a transaction, seen from the log.\<close>

definition txn_shows :: "('b, 'k, 'w) JournalEnv \<Rightarrow> ('b, 'k, 'w) RedbEventJournal \<Rightarrow> EventEnvelope list \<Rightarrow> NewEvent list
    \<Rightarrow> NewEvent list \<Rightarrow> 'b append_txn \<Rightarrow> bool" where
  "txn_shows en s es log pre ax \<longleftrightarrow>
     txn_ok en (jr_payload_protection s) (jr_keys s) (jr_database s) es ax
     \<and> list_all2 (represents en (jr_payload_protection s) (jr_keys s)) (es @ ax_persisted ax) (log @ pre)
     \<and> log_append log pre = Inr (log @ pre)"

lemma txn_shows_step:
  assumes lawful: "lawful en" and stable: "stable_payload en (ne_payload event)"
    and txs: "txn_shows en s es log pre ax" and agr: "agrees s t"
  shows "after (append_event en event ax) t (\<lambda>t' r. agrees s t' \<and> (case r of
      Inl e \<Rightarrow> batch_refusal False log (pre @ event # rest) e
    | Inr ax' \<Rightarrow> txn_shows en s es log (pre @ [event]) ax'))"
proof (rule after_mono [OF append_event_keeps [OF lawful stable]])
  show txn: "txn_ok en (jr_payload_protection s) (jr_keys s) (jr_database s) es ax"
    using txs by (simp add: txn_shows_def)
  show "jr_payload_protection t = jr_payload_protection s" "jr_keys t = jr_keys s"
    using agr by (simp_all add: agreesD)
  fix t' r
  assume step: "agrees t t' \<and> appended_event en (jr_payload_protection s) (jr_keys s) (jr_database s) es event ax r"
  have rep: "list_all2 (represents en (jr_payload_protection s) (jr_keys s)) (es @ ax_persisted ax) (log @ pre)"
    and ok: "log_append log pre = Inr (log @ pre)"
    using txs by (simp_all add: txn_shows_def)
  have len: "length (es @ ax_persisted ax) = length log + length pre"
    using list_all2_lengthD [OF rep] by simp
  note version = represents_version [OF rep, of "ne_stream_id event"]
  have "batch_refusal False log (pre @ event # rest) e" if "r = Inl e" for e
    using step that version len
    by (auto simp: appended_event_def refusal_def batch_refusal_def log_append_append ok)
  moreover have "txn_shows en s es log (pre @ [event]) ax'" if result: "r = Inr ax'" for ax'
  proof -
    obtain e where e: "txn_ok en (jr_payload_protection s) (jr_keys s) (jr_database s) es ax'"
        "ax_persisted ax' = ax_persisted ax @ [e]" "represents en (jr_payload_protection s) (jr_keys s) e event"
      using step result by (auto simp: appended_event_def)
    have "log_ok en (jr_payload_protection s) (jr_keys s) ((es @ ax_persisted ax) @ [e])"
      using e(1,2) by (simp add: txn_ok_def Let_def)
    then have "ev_stream_version e = length (stream_of (es @ ax_persisted ax) (ev_stream_id e)) + 1"
      by (rule log_ok_snocE) simp_all
    then have "ne_expected_stream_version event = log_version (log @ pre) (ne_stream_id event)"
      using e(3) version by (auto simp: represents_def envelope_of_def)
    then show ?thesis
      using e rep ok list_all2_appendI [OF rep, of "[e]" "[event]"]
      by (simp add: txn_shows_def log_append_append)
  qed
  ultimately show "agrees s t' \<and> (case r of Inl e \<Rightarrow> batch_refusal False log (pre @ event # rest) e
      | Inr ax' \<Rightarrow> txn_shows en s es log (pre @ [event]) ax')"
    using step agr agrees_trans by (auto split: sum.split)
qed

lemma append_fold_shows:
  assumes "lawful en" "\<And>event. event \<in> set events \<Longrightarrow> stable_payload en (ne_payload event)"
    "txn_shows en s es log [] ax" "agrees s t"
  shows "after (a_fold (append_event en) events ax) t (\<lambda>t' r. agrees s t' \<and> (case r of
      Inl e \<Rightarrow> batch_refusal False log events e
    | Inr ax' \<Rightarrow> txn_shows en s es log events ax'))"
proof (rule after_fold [where I = "\<lambda>rest ax t. agrees s t \<and> (\<exists>pre. events = pre @ rest \<and> txn_shows en s es log pre ax)"])
  show "agrees s t \<and> (\<exists>pre. events = pre @ events \<and> txn_shows en s es log pre ax)"
    using assms(3,4) by simp
next
  fix x ys a u
  assume I: "agrees s u \<and> (\<exists>pre. events = pre @ x # ys \<and> txn_shows en s es log pre a)"
  then obtain pre where d: "events = pre @ x # ys" "txn_shows en s es log pre a" by blast
  show "after (append_event en x a) u (\<lambda>s' r. case r of
      Inl e \<Rightarrow> agrees s s' \<and> (case Inl e of Inl e \<Rightarrow> batch_refusal False log events e
        | Inr ax' \<Rightarrow> txn_shows en s es log events ax')
    | Inr a' \<Rightarrow> agrees s s' \<and> (\<exists>pre. events = pre @ ys \<and> txn_shows en s es log pre a'))"
  proof (rule after_mono [OF txn_shows_step [OF assms(1) assms(2) d(2), of x u ys]])
    show "x \<in> set events" "agrees s u" using I d(1) by simp_all
    fix s' r
    assume "agrees s s' \<and> (case r of Inl e \<Rightarrow> batch_refusal False log (pre @ x # ys) e
        | Inr ax' \<Rightarrow> txn_shows en s es log (pre @ [x]) ax')"
    then show "case r of
        Inl e \<Rightarrow> agrees s s' \<and> (case Inl e of Inl e \<Rightarrow> batch_refusal False log events e
          | Inr ax' \<Rightarrow> txn_shows en s es log events ax')
      | Inr a' \<Rightarrow> agrees s s' \<and> (\<exists>pre. events = pre @ ys \<and> txn_shows en s es log pre a')"
      using d(1) by (cases r) (auto intro: exI [of _ "pre @ [x]"])
  qed
next
  fix a u
  assume "agrees s u \<and> (\<exists>pre. events = pre @ [] \<and> txn_shows en s es log pre a)"
  then show "agrees s u \<and> (case Inr a of Inl e \<Rightarrow> batch_refusal False log events e
      | Inr ax' \<Rightarrow> txn_shows en s es log events ax')"
    by auto
qed

definition batch_done :: "('b, 'k, 'w) JournalEnv \<Rightarrow> ('b, 'k, 'w) RedbEventJournal \<Rightarrow> EventEnvelope list
    \<Rightarrow> NewEvent list \<Rightarrow> NewEvent list \<Rightarrow> ('b, 'k, 'w) RedbEventJournal \<Rightarrow> EventEnvelope list \<Rightarrow> bool" where
  "batch_done en s es log events s' persisted \<longleftrightarrow> \<not> jr_recovery_mode s
     \<and> log_append log events = Inr (log @ events)
     \<and> shows_log en s' (es @ persisted) (log @ events)
     \<and> s' = s\<lparr>jr_database := jr_database s', jr_world := jr_world s'\<rparr>"

lemma agrees_update: "agrees s s' \<Longrightarrow>
    s'\<lparr>jr_database := db\<rparr> = s\<lparr>jr_database := db, jr_world := jr_world s'\<rparr>"
  unfolding agrees_def by (cases s, cases s') simp

lemma batch_done_commit:
  assumes inv: "shows_log en s es log" and tx: "txn_shows en s es log events ax"
    and "\<not> jr_recovery_mode s" "agrees s s'"
    and "cd_of_u64 en b = Inr (ax_sequence ax)" "cd_of_str en h = Inr (ax_previous_hash ax)"
  shows "batch_done en s es log events (s'\<lparr>jr_database := (ax_db ax)\<lparr>db_metadata := table_insert ''last_hash'' h
      (table_insert ''last_sequence'' b (db_metadata (ax_db ax)))\<rparr>\<rparr>) (ax_persisted ax)"
proof -
  have "database_ok en (jr_payload_protection s) (jr_keys s) (jr_database s) es"
    and index: "index_version en (jr_database s) = Inr (Some STREAM_EVENTS_INDEX_VERSION)"
    using inv by (simp_all add: shows_log_def journal_inv_def)
  note committed = commit_batch_ok [OF this(1) index _ assms(5,6)]
  show ?thesis
    using committed tx assms(3,4)
    by (simp add: batch_done_def agrees_update shows_log_def journal_inv_def txn_shows_def)
qed

lemma append_locked_refines:
  assumes lawful: "lawful en" and inv: "shows_log en s es log"
    and stable: "\<And>event. event \<in> set events \<Longrightarrow> stable_payload en (ne_payload event)"
  shows "after (append_locked en events) s (\<lambda>s' r. case r of
      Inl e \<Rightarrow> agrees s s' \<and> batch_refusal (jr_recovery_mode s) log events e
    | Inr persisted \<Rightarrow> batch_done en s es log events s' persisted)"
proof -
  have db: "database_ok en (jr_payload_protection s) (jr_keys s) (jr_database s) es"
    using inv by (simp add: shows_log_def journal_inv_def)
  then have meta: "last_sequence en (jr_database s) = Inr (length es)"
      "last_hash en (jr_database s) = Inr (next_hash es)"
    by (simp_all add: database_ok_def meta_ok_def)
  have start: "txn_shows en s es log [] \<lparr>ax_db = jr_database s, ax_sequence = length es,
      ax_previous_hash = next_hash es, ax_batch_versions = [], ax_persisted = []\<rparr>"
    using txn_start [OF db] inv by (simp add: txn_shows_def shows_log_def)
  have finish: "after (commit_batch en ax) t (\<lambda>s' r. case r of
      Inl e \<Rightarrow> agrees s s' \<and> batch_refusal (jr_recovery_mode s) log events e
    | Inr persisted \<Rightarrow> batch_done en s es log events s' persisted)"
    if "agrees s t" "txn_shows en s es log events ax" "\<not> jr_recovery_mode s" for t ax
  proof -
    obtain b where b: "cd_to_u64 en (ax_sequence ax) = Inr b" "cd_of_u64 en b = Inr (ax_sequence ax)"
      using lawful by (rule lawful_u64)
    obtain h where h: "cd_to_str en (ax_previous_hash ax) = Inr h" "cd_of_str en h = Inr (ax_previous_hash ax)"
      using lawful by (rule lawful_str)
    show ?thesis
      unfolding commit_batch_def b(1) h(1) adapter_json_def map_err_simps a_bind_simps after_bind
      by (rule after_commitI)
        (use that inv b h in \<open>auto simp: after_primitive batch_refusal_def
          intro: agrees_trans batch_done_commit\<close>)
  qed
  have refused: "batch_refusal (jr_recovery_mode s) log events e" if "batch_refusal False log events e" for e
    using that by (auto simp: batch_refusal_def)
  show ?thesis
  proof (cases "jr_recovery_mode s \<or> events = []")
    case True
    then show ?thesis
      using inv by (auto simp: append_locked_def action_simps batch_refusal_def batch_done_def)
  next
    case False
    have "after (a_bind (a_fold (append_event en) events \<lparr>ax_db = jr_database s, ax_sequence = length es,
         ax_previous_hash = next_hash es, ax_batch_versions = [], ax_persisted = []\<rparr>) (commit_batch en)) t
      (\<lambda>s' r. case r of
          Inl e \<Rightarrow> agrees s s' \<and> batch_refusal (jr_recovery_mode s) log events e
        | Inr persisted \<Rightarrow> batch_done en s es log events s' persisted)" if "agrees s t" for t
      unfolding after_bind [of "a_fold _ _ _"]
      by (rule after_mono [OF append_fold_shows [OF lawful stable start that]])
        (use finish False refused in \<open>auto split: sum.split\<close>)
    then have "after (a_bind (begin_transaction en) (\<lambda>db.
       a_bind (a_lift (last_sequence en db)) (\<lambda>sequence.
       a_bind (a_lift (last_hash en db)) (\<lambda>previous_hash.
       a_bind (a_fold (append_event en) events \<lparr>ax_db = db, ax_sequence = sequence,
         ax_previous_hash = previous_hash, ax_batch_versions = [], ax_persisted = []\<rparr>) (commit_batch en))))) s
      (\<lambda>s' r. case r of
          Inl e \<Rightarrow> agrees s s' \<and> batch_refusal (jr_recovery_mode s) log events e
        | Inr persisted \<Rightarrow> batch_done en s es log events s' persisted)"
      unfolding after_bind [of "begin_transaction en"]
      by (intro after_beginI) (simp_all add: meta)
    then show ?thesis
      unfolding append_locked_def after_bind [of "a_get jr_recovery_mode"] after_primitive sum.case
      using False by (simp only: de_Morgan_disj a_reject_simps a_bind_simps if_False)
  qed
qed

section \<open>Checkpoints and quarantine\<close>

lemma after_quarantine [action_simps]:
  "after (quarantine_result en m) s Q \<longleftrightarrow> after m s (\<lambda>s' r. case r of
      Inl (Verification reason) \<Rightarrow> Q (quarantine en reason s') r | _ \<Rightarrow> Q s' r)"
  by (auto simp: after_def quarantine_result_def split: prod.split sum.split StoreError.split)

lemma shows_log_keys:
  assumes "shows_log en s es log" "kp_key_by_id en keys' = kp_key_by_id en (jr_keys s)"
    "keys_ok en keys' es"
  shows "shows_log en (s\<lparr>jr_keys := keys'\<rparr>) es log"
proof -
  have "represents en protection keys' = represents en protection (jr_keys s)" for protection
    by (intro ext) (simp only: represents_def carries_keys [OF assms(2)])
  then show ?thesis
    using assms log_ok_keys [OF assms(2)]
    by (simp add: shows_log_def journal_inv_def database_ok_def)
qed

lemma shows_log_agrees: "agrees s s' \<Longrightarrow> shows_log en s' es log \<longleftrightarrow> shows_log en s es log"
  by (simp add: shows_log_def agreesD agrees_inv)

lemma anchor_ok_status [simp]: "anchor_ok es (a\<lparr>sa_status := x\<rparr>) \<longleftrightarrow> anchor_ok es a"
  by (simp add: anchor_ok_def)

lemma quarantine_simps [simp]:
  "jr_database (quarantine en reason s) = jr_database s" "jr_world (quarantine en reason s) = jr_world s"
  "jr_payload_protection (quarantine en reason s) = jr_payload_protection s"
  "jr_recovery_mode (quarantine en reason s)" "jr_recovery_reason (quarantine en reason s) = Some reason"
  by (simp_all add: quarantine_def)

lemma quarantine_keys:
  assumes lawful: "lawful en" and ok: "keys_ok en (jr_keys s) es"
  shows "kp_key_by_id en (jr_keys (quarantine en reason s)) = kp_key_by_id en (jr_keys s)"
    "keys_ok en (jr_keys (quarantine en reason s)) es"
proof -
  have "kp_key_by_id en keys' = kp_key_by_id en (jr_keys s) \<and> keys_ok en keys' es"
    if old: "kp_load_anchor en (jr_keys s) = Inr (Some a)"
      and new: "keys' = fst (kp_store_anchor en (a\<lparr>sa_status := AnchorQuarantined\<rparr>) (jr_keys s))" for a keys'
  proof -
    obtain r where "kp_store_anchor en (a\<lparr>sa_status := AnchorQuarantined\<rparr>) (jr_keys s) = (keys', r)"
      using new by (metis prod.collapse)
    note stored = lawful_store_anchor [OF lawful this]
    show ?thesis
      using stored(1,2) old ok by (auto simp: keys_ok_def)
  qed
  then have "kp_key_by_id en (jr_keys (quarantine en reason s)) = kp_key_by_id en (jr_keys s)
      \<and> keys_ok en (jr_keys (quarantine en reason s)) es"
    using ok by (auto simp: quarantine_def split: sum.split option.split)
  then show "kp_key_by_id en (jr_keys (quarantine en reason s)) = kp_key_by_id en (jr_keys s)"
    "keys_ok en (jr_keys (quarantine en reason s)) es" by simp_all
qed

lemma quarantine_shows:
  assumes "lawful en" "shows_log en s es log"
  shows "shows_log en (quarantine en reason s) es log"
proof -
  have ok: "keys_ok en (jr_keys s) es"
    using assms(2) by (simp add: shows_log_def journal_inv_def database_ok_def)
  have "shows_log en (s\<lparr>jr_keys := jr_keys (quarantine en reason s)\<rparr>) es log"
    using assms(2) quarantine_keys [OF assms(1) ok] by (rule shows_log_keys)
  then show ?thesis
    by (simp add: shows_log_def journal_inv_def)
qed

text \<open>Computations that keep the log, the mode and the protection, and fail only by faults.\<close>

definition log_kept :: "('b, 'k, 'w) JournalEnv \<Rightarrow> EventEnvelope list \<Rightarrow> NewEvent list \<Rightarrow> JournalPayloadProtection \<Rightarrow> bool
    \<Rightarrow> ('b, 'k, 'w) RedbEventJournal \<Rightarrow> bool" where
  "log_kept en es log protection recovery s \<longleftrightarrow> shows_log en s es log
     \<and> jr_payload_protection s = protection \<and> jr_recovery_mode s = recovery"

definition keeping :: "('b, 'k, 'w) JournalEnv \<Rightarrow> EventEnvelope list \<Rightarrow> NewEvent list \<Rightarrow> JournalPayloadProtection \<Rightarrow> bool
    \<Rightarrow> ('b, 'k, 'w) RedbEventJournal \<Rightarrow> ('b, 'k, 'w, 'a) journal_op \<Rightarrow> bool" where
  "keeping en es log protection recovery s m \<longleftrightarrow> after m s (\<lambda>s' r.
     log_kept en es log protection recovery s'
     \<and> (\<forall>e. r = Inl e \<longrightarrow> fault e \<or> e = RecoveryMode \<and> recovery))"

lemma log_kept_agrees: "agrees s s' \<Longrightarrow>
    log_kept en es log protection recovery s' \<longleftrightarrow> log_kept en es log protection recovery s"
  by (simp add: log_kept_def shows_log_agrees agreesD)

lemma keeping_bind:
  assumes "keeping en es log protection recovery s m"
    and "\<And>s' x. log_kept en es log protection recovery s' \<Longrightarrow> keeping en es log protection recovery s' (f x)"
  shows "keeping en es log protection recovery s (a_bind m f)"
  using assms unfolding keeping_def after_bind
  by (auto split: sum.split intro: after_mono [where m = m])

lemma keeping_world:
  assumes "log_kept en es log protection recovery s" "world_only m" "faulty m"
  shows "keeping en es log protection recovery s m"
  unfolding keeping_def after_run
  using assms log_kept_agrees [of s "fst (m s)" en es log protection recovery]
  by (auto simp: world_only_def faulty_def after_run)

lemma keeping_primitive:
  assumes "log_kept en es log protection recovery s"
  shows "keeping en es log protection recovery s (a_return x)"
    "keeping en es log protection recovery s (on_world g)"
    "keeping en es log protection recovery s (utc_now en)"
    "keeping en es log protection recovery s (begin_transaction en)"
  using assms by (simp_all add: keeping_world)

text \<open>The database a transaction sees is the one the state holds.\<close>

lemma keeping_begin:
  assumes "log_kept en es log protection recovery s"
    and "\<And>s'. log_kept en es log protection recovery s' \<Longrightarrow> jr_database s' = jr_database s \<Longrightarrow>
      keeping en es log protection recovery s' (f (jr_database s))"
  shows "keeping en es log protection recovery s (a_bind (begin_transaction en) f)"
  unfolding keeping_def after_bind
  by (rule after_beginI) (use assms in \<open>auto simp: keeping_def log_kept_agrees agreesD\<close>)

lemma store_anchor_keeps:
  assumes "lawful en" "log_kept en es log protection recovery s" "anchor_ok es a"
  shows "keeping en es log protection recovery s (store_anchor en a)"
proof -
  obtain keys r where st: "kp_store_anchor en a (jr_keys s) = (keys, r)" by fastforce
  note stored = lawful_store_anchor [OF assms(1) st]
  have sl: "shows_log en s es log" using assms(2) by (simp add: log_kept_def)
  then have "keys_ok en (jr_keys s) es"
    by (simp add: shows_log_def journal_inv_def database_ok_def)
  then have "keys_ok en keys es"
    using stored(2) assms(3) by (auto simp: keys_ok_def)
  then have "shows_log en (s\<lparr>jr_keys := keys\<rparr>) es log"
    using sl stored(1) by (intro shows_log_keys)
  then show ?thesis
    using st lawful_faults(2) [OF assms(1)] assms(2)
    by (auto simp: store_anchor_def after_def keeping_def log_kept_def)
qed

lemma checkpoint_commit_shows:
  assumes "shows_log en s es log" "cd_of_checkpoint en b = Inr c" "checkpoint_ok en es c"
    "jr_payload_protection s = Encrypted"
  shows "shows_log en (s\<lparr>jr_database := (jr_database s)\<lparr>db_metadata :=
      table_insert ''latest_checkpoint'' b (db_metadata (jr_database s))\<rparr>\<rparr>) es log"
proof -
  let ?db = "jr_database s"
  let ?db' = "?db\<lparr>db_metadata := table_insert ''latest_checkpoint'' b (db_metadata ?db)\<rparr>"
  have ok: "database_ok en Encrypted (jr_keys s) ?db es" "index_version en ?db = Inr (Some STREAM_EVENTS_INDEX_VERSION)"
    using assms(1,4) by (simp_all add: shows_log_def journal_inv_def)
  then have meta: "meta_ok en Encrypted ?db es" by (simp add: database_ok_def)
  then have tab: "table_ok (db_metadata ?db)" by (simp add: meta_ok_def)
  have "meta_ok en Encrypted ?db' es"
    using meta assms(2,3)
    by (auto simp: meta_ok_def last_sequence_def last_hash_def latest_checkpoint_def
        meta_entry_insert [OF tab] decode_journal_json_def PAYLOAD_PROTECTION_KEY_def)
  moreover have "events_ok en ?db' es"
    using ok(1) by (subst events_ok_cong [of _ ?db]) (simp_all add: database_ok_def)
  moreover have "projections_ok en ?db' (length es)"
    using ok(1) by (auto simp: database_ok_def intro: projections_ok_mono)
  ultimately have "database_ok en Encrypted (jr_keys s) ?db' es"
    using ok(1) by (simp add: database_ok_def)
  moreover have "index_version en ?db' = Inr (Some STREAM_EVENTS_INDEX_VERSION)"
    using ok(2) by (simp add: index_version_def meta_entry_insert [OF tab] STREAM_EVENTS_INDEX_KEY_def)
  ultimately show ?thesis
    using assms(1,4) by (simp add: shows_log_def journal_inv_def)
qed

lemma commit_checkpoint_keeps:
  assumes "log_kept en es log Encrypted recovery s" "cd_of_checkpoint en b = Inr c" "checkpoint_ok en es c"
    "db = jr_database s"
  shows "keeping en es log Encrypted recovery s (commit_transaction en
    (db\<lparr>db_metadata := table_insert ''latest_checkpoint'' b (db_metadata db)\<rparr>))"
  unfolding keeping_def
proof (rule after_commitI)
  fix s' m assume "agrees s s'"
  then show "log_kept en es log Encrypted recovery s'
      \<and> (\<forall>e. (Inl (StoreAdapter m) :: (StoreError, unit) result) = Inl e \<longrightarrow> fault e \<or> e = RecoveryMode \<and> recovery)"
    using assms(1) by (simp add: log_kept_agrees)
next
  fix s' assume agr: "agrees s s'"
  then have "shows_log en s' es log" "jr_payload_protection s' = Encrypted" "jr_database s' = db"
    using assms by (simp_all add: log_kept_def agreesD shows_log_agrees)
  then have "shows_log en (s'\<lparr>jr_database := db\<lparr>db_metadata :=
      table_insert ''latest_checkpoint'' b (db_metadata db)\<rparr>\<rparr>) es log"
    using checkpoint_commit_shows assms(2,3) by metis
  then show "log_kept en es log Encrypted recovery (s'\<lparr>jr_database := db\<lparr>db_metadata :=
      table_insert ''latest_checkpoint'' b (db_metadata db)\<rparr>\<rparr>)
      \<and> (\<forall>e. (Inr () :: (StoreError, unit) result) = Inl e \<longrightarrow> fault e \<or> e = RecoveryMode \<and> recovery)"
    using assms(1) agr by (simp add: log_kept_def agreesD)
qed

lemma last_checkpoint_keeps:
  "log_kept en es log protection recovery s \<Longrightarrow>
    keeping en es log protection recovery s (a_modify (\<lambda>s. s\<lparr>jr_last_checkpoint := n\<rparr>))"
  by (auto simp: keeping_def action_simps log_kept_def shows_log_def journal_inv_def)

lemma write_checkpoint_keeps:
  assumes "lawful en" "log_kept en es log Encrypted recovery s" "checkpoint_ok en es c"
  shows "keeping en es log Encrypted recovery s (write_checkpoint en c)"
proof -
  obtain b where b: "cd_to_checkpoint en c = Inr b" "cd_of_checkpoint en b = Inr c"
    using assms(1) by (rule lawful_checkpoint)
  show ?thesis
    unfolding write_checkpoint_def adapter_json_def b(1) map_err_simps a_bind_simps
    by (intro keeping_begin keeping_bind commit_checkpoint_keeps [OF _ b(2)] assms keeping_primitive
        last_checkpoint_keeps) simp_all
qed

lemma shows_log_meta:
  assumes "shows_log en s es log"
  shows "last_sequence en (jr_database s) = Inr (length es)"
    "last_hash en (jr_database s) = Inr (next_hash es)"
    "es \<noteq> [] \<Longrightarrow> meta_entry (cd_of_str en) ''last_hash'' (jr_database s) = Inr (Some (next_hash es))"
    "\<exists>c. latest_checkpoint en (jr_database s) = Inr c"
  using assms by (auto simp: shows_log_def journal_inv_def database_ok_def meta_ok_def)

lemma head_in_log:
  assumes "shows_log en s es log" "es \<noteq> []"
  shows "\<exists>e \<in> set es. ev_global_sequence e = length es \<and> ev_record_hash e = next_hash es"
proof -
  have "log_ok en (jr_payload_protection s) (jr_keys s) es"
    using assms(1) by (simp add: shows_log_def journal_inv_def database_ok_def)
  then have "ev_global_sequence (last es) = length es"
    using assms(2) by (simp add: last_conv_nth log_ok_nth)
  then show ?thesis using assms(2) last_in_set by (auto simp: next_hash_def)
qed

lemma sign_checkpoint_keeps:
  assumes lawful: "lawful en" and kept: "log_kept en es log Encrypted recovery s" and nonempty: "es \<noteq> []"
  shows "keeping en es log Encrypted recovery s (sign_checkpoint en (length es) (next_hash es))"
proof -
  have sl: "shows_log en s es log" using kept by (simp add: log_kept_def)
  let ?m = "cd_of_text en (checkpoint_message (length es) (next_hash es))"
  have anchor: "anchor_ok es \<lparr>sa_format_version = f, sa_sequence = length es, sa_hash = next_hash es,
      sa_verification_profile = p, sa_status = x\<rparr>" for f p x
    using head_in_log [OF sl nonempty] by (auto simp: anchor_ok_def)
  have signed: "checkpoint_ok en es \<lparr>sc_global_sequence = length es, sc_record_hash = next_hash es,
       sc_key_id = cs_key_id en, sc_algorithm = ''Ed25519'',
       sc_signature = cr_hex_encode en signature, sc_created_at = t\<rparr>"
    if "cs_sign en ?m = Inr signature" for signature t
    using head_in_log [OF sl nonempty] lawful_sign [OF lawful that]
    by (auto simp: checkpoint_ok_def verify_checkpoint_signature_def law_simps [OF lawful])
  show ?thesis
  proof (cases "cs_sign en ?m")
    case (Inl e)
    then show ?thesis
      using kept lawful_faults(3) [OF lawful Inl]
      by (simp add: sign_checkpoint_def keeping_def action_simps)
  next
    case (Inr signature)
    then show ?thesis
      unfolding sign_checkpoint_def Inr a_bind_simps
      by (intro keeping_bind keeping_primitive(3) kept store_anchor_keeps [OF lawful] anchor
          write_checkpoint_keeps [OF lawful] signed [OF Inr])
  qed
qed

lemma checkpoint_inner_keeps:
  assumes lawful: "lawful en" and kept: "log_kept en es log protection recovery s"
  shows "keeping en es log protection recovery s (checkpoint_inner en)"
proof (cases protection)
  case Plaintext
  then show ?thesis
    using kept by (simp add: checkpoint_inner_def keeping_def action_simps log_kept_def)
next
  case Encrypted
  have body: "keeping en es log Encrypted recovery t (a_bind (begin_transaction en) (\<lambda>db.
       a_bind (a_lift (last_sequence en db)) (\<lambda>sequence.
       if sequence = 0 then a_return None
       else
         a_bind (a_lift (meta_entry (cd_of_str en) ''last_hash'' db)) (\<lambda>stored.
         a_bind (a_lift (ok_or (Verification ''journal head hash is absent'') stored)) (\<lambda>hash.
         sign_checkpoint en sequence hash)))))" if "log_kept en es log Encrypted recovery t" for t
  proof (rule keeping_begin [OF that])
    fix u assume u: "log_kept en es log Encrypted recovery u" "jr_database u = jr_database t"
    then have "shows_log en t es log" using that by (simp add: log_kept_def)
    note meta = shows_log_meta [OF this]
    show "keeping en es log Encrypted recovery u (a_bind (a_lift (last_sequence en (jr_database t))) (\<lambda>sequence.
       if sequence = 0 then a_return None
       else
         a_bind (a_lift (meta_entry (cd_of_str en) ''last_hash'' (jr_database t))) (\<lambda>stored.
         a_bind (a_lift (ok_or (Verification ''journal head hash is absent'') stored)) (\<lambda>hash.
         sign_checkpoint en sequence hash))))"
      using meta sign_checkpoint_keeps [OF lawful u(1)] keeping_primitive(1) [OF u(1)]
      by (cases "es = []") simp_all
  qed
  have "jr_payload_protection s = Encrypted" "jr_recovery_mode s = recovery"
    using kept Encrypted by (simp_all add: log_kept_def)
  then show ?thesis
    using body kept Encrypted
    by (cases recovery) (simp_all add: checkpoint_inner_def keeping_def after_bind [of "a_get _"] after_primitive)
qed

lemma keeping_quarantine:
  assumes "keeping en es log protection recovery s m"
  shows "keeping en es log protection recovery s (quarantine_result en m)"
  using assms unfolding keeping_def after_quarantine
  by (rule after_mono) (auto split: sum.split StoreError.split)

lemma checkpoint_keeps:
  assumes "lawful en" "log_kept en es log protection recovery s"
  shows "keeping en es log protection recovery s (journal_checkpoint en)"
  unfolding journal_checkpoint_def using checkpoint_inner_keeps [OF assms] by (rule keeping_quarantine)

lemma checkpoint_sequence_keeps:
  assumes "log_kept en es log protection recovery s"
  shows "keeping en es log protection recovery s (checkpoint_sequence en)"
  unfolding checkpoint_sequence_def
proof (rule keeping_begin [OF assms])
  fix s' assume "log_kept en es log protection recovery s'" "jr_database s' = jr_database s"
  moreover obtain c where "latest_checkpoint en (jr_database s) = Inr c"
    using shows_log_meta(4) assms by (metis log_kept_def)
  ultimately show "keeping en es log protection recovery s' (a_bind (a_lift (latest_checkpoint en (jr_database s)))
      (\<lambda>checkpoint. a_return (case checkpoint of None \<Rightarrow> 0 | Some c \<Rightarrow> sc_global_sequence c)))"
    by (simp add: keeping_primitive(1))
qed

section \<open>A batch\<close>

text \<open>
  What a batch may do: be refused without a trace; commit and return the envelopes; or commit
  and then fail at a checkpoint that was due.
\<close>

definition batch_outcome :: "('b, 'k, 'w) JournalEnv \<Rightarrow> ('b, 'k, 'w) RedbEventJournal \<Rightarrow> EventEnvelope list \<Rightarrow> NewEvent list
    \<Rightarrow> NewEvent list \<Rightarrow> ('b, 'k, 'w) RedbEventJournal \<Rightarrow> (StoreError, EventEnvelope list) result \<Rightarrow> bool" where
  "batch_outcome en s es log events s' r = (case r of
       Inr persisted \<Rightarrow> \<not> jr_recovery_mode s' \<and> log_append log events = Inr (log @ events)
         \<and> shows_log en s' (es @ persisted) (log @ events)
     | Inl e \<Rightarrow> batch_refusal (jr_recovery_mode s) log events e \<and> shows_log en s' es log
         \<or> fault e \<and> jr_payload_protection s = Encrypted \<and> log_append log events = Inr (log @ events)
           \<and> (\<exists>persisted. shows_log en s' (es @ persisted) (log @ events)))"

lemma checkpoint_if_due_keeps:
  assumes lawful: "lawful en" and kept: "log_kept en es log protection recovery s"
  shows "keeping en es log protection recovery s (checkpoint_if_due en persisted)"
proof -
  have due: "keeping en es log protection recovery u (if b then journal_checkpoint en else a_return None)"
    if "log_kept en es log protection recovery u" for u b
    by (simp add: checkpoint_keeps [OF lawful that] keeping_primitive(1) [OF that])
  have covered: "keeping en es log protection recovery u
      (if persisted = [] then a_return 0 else quarantine_result en (checkpoint_sequence en))"
    if "log_kept en es log protection recovery u" for u
    by (simp add: keeping_quarantine [OF checkpoint_sequence_keeps [OF that]] keeping_primitive(1) [OF that])
  have time: "keeping en es log protection recovery u (a_get g)"
    if "log_kept en es log protection recovery u" for u and g :: "('a, 'b, 'c) RedbEventJournal \<Rightarrow> nat"
    using that by (simp add: keeping_world)
  show ?thesis
    unfolding checkpoint_if_due_def by (intro keeping_bind kept due covered time keeping_primitive)
qed

lemma checkpoint_if_due_value:
  "after (checkpoint_if_due en persisted) s (\<lambda>s' r. \<forall>x. r = Inr x \<longrightarrow> x = persisted)"
  unfolding checkpoint_if_due_def by (intro after_value) (simp add: after_primitive)

lemma batch_done_after:
  assumes lawful: "lawful en" and "batch_done en s es log events t persisted"
  shows "after (a_bind (a_get jr_payload_protection) (\<lambda>protection.
    if protection = Plaintext then a_return persisted else checkpoint_if_due en persisted)) t
    (batch_outcome en s es log events)"
proof -
  have t: "\<not> jr_recovery_mode s" "log_append log events = Inr (log @ events)"
      "shows_log en t (es @ persisted) (log @ events)"
      "jr_recovery_mode t = jr_recovery_mode s" "jr_payload_protection t = jr_payload_protection s"
    using assms(2) by (auto simp: batch_done_def dest: arg_cong [of t _ jr_payload_protection] arg_cong [of t _ jr_recovery_mode])
  show ?thesis
  proof (cases "jr_payload_protection t")
    case Plaintext
    then show ?thesis using t by (simp add: after_bind after_primitive batch_outcome_def)
  next
    case Encrypted
    have "log_kept en (es @ persisted) (log @ events) Encrypted False t"
      using t Encrypted by (simp add: log_kept_def)
    then have "after (checkpoint_if_due en persisted) t (\<lambda>s' r. (log_kept en (es @ persisted) (log @ events) Encrypted False s'
       \<and> (\<forall>e. r = Inl e \<longrightarrow> fault e \<or> e = RecoveryMode \<and> False)) \<and> (\<forall>x. r = Inr x \<longrightarrow> x = persisted))"
      by (intro after_both checkpoint_if_due_value checkpoint_if_due_keeps [OF lawful, unfolded keeping_def])
    then have "after (checkpoint_if_due en persisted) t (batch_outcome en s es log events)"
      by (rule after_mono) (use t Encrypted in \<open>auto simp: batch_outcome_def log_kept_def split: sum.split\<close>)
    then show ?thesis using Encrypted by (simp add: after_bind after_primitive)
  qed
qed

lemma append_batch_outcome:
  assumes lawful: "lawful en" and inv: "shows_log en s es log"
    and stable: "\<And>event. event \<in> set events \<Longrightarrow> stable_payload en (ne_payload event)"
  shows "after (append_batch en events) s (batch_outcome en s es log events)"
  unfolding append_batch_def after_bind [of "quarantine_result _ _"] after_quarantine
proof (rule after_mono [OF append_locked_refines [OF lawful inv stable]])
  fix s' r
  assume step: "case r of Inl e \<Rightarrow> agrees s s' \<and> batch_refusal (jr_recovery_mode s) log events e
      | Inr persisted \<Rightarrow> batch_done en s es log events s' persisted"
  show "case r of Inl (Verification reason) \<Rightarrow>
        (case r of Inl e \<Rightarrow> batch_outcome en s es log events (quarantine en reason s') (Inl e)
         | Inr x \<Rightarrow> after (a_bind (a_get jr_payload_protection) (\<lambda>protection.
            if protection = Plaintext then a_return x else checkpoint_if_due en x))
            (quarantine en reason s') (batch_outcome en s es log events))
      | _ \<Rightarrow> (case r of Inl e \<Rightarrow> batch_outcome en s es log events s' (Inl e)
         | Inr x \<Rightarrow> after (a_bind (a_get jr_payload_protection) (\<lambda>protection.
            if protection = Plaintext then a_return x else checkpoint_if_due en x))
            s' (batch_outcome en s es log events))"
  proof (cases r)
    case (Inl e)
    then have "shows_log en s' es log" using step inv by (simp add: shows_log_agrees [of s s'])
    then show ?thesis
      using Inl step quarantine_shows [OF lawful] by (cases e) (simp_all add: batch_outcome_def)
  next
    case (Inr x)
    then show ?thesis using step batch_done_after [OF lawful] by simp
  qed
qed simp

end
