(* ===== verification/JournalHistory.thy ===== *)
theory JournalHistory
  imports JournalAppend
begin

text \<open>
  What reading a journal returns: the events of a stream from a version on, backwards, and the
  whole chain are the envelopes that were appended, with the defaults of the context fields that
  are not stored; a payload opens to the value that was appended.
\<close>

section \<open>Rows of the index\<close>

definition index_rows :: "string \<Rightarrow> EventEnvelope list \<Rightarrow> ((string \<times> nat) \<times> nat) list" where
  "index_rows stream xs = map (\<lambda>e. ((stream, ev_stream_version e), ev_global_sequence e)) xs"

text \<open>Consecutive versions above a number.\<close>

fun numbered :: "nat \<Rightarrow> EventEnvelope list \<Rightarrow> bool" where
  "numbered a [] = True"
| "numbered a (e # es) = (ev_stream_version e = a + 1 \<and> numbered (a + 1) es)"

lemma numbered_nth: "numbered a xs \<longleftrightarrow> (\<forall>i < length xs. ev_stream_version (xs ! i) = a + i + 1)"
  by (induction xs arbitrary: a) (auto simp: nth_Cons less_Suc_eq_0_disj split: nat.split)

lemma numbered_drop: "numbered a xs \<Longrightarrow> numbered (a + n) (drop n xs)"
  by (auto simp: numbered_nth)

lemma numbered_take: "numbered a xs \<Longrightarrow> numbered a (take n xs)"
  by (auto simp: numbered_nth)

lemma numbered_last: "numbered a xs \<Longrightarrow> xs \<noteq> [] \<Longrightarrow> ev_stream_version (last xs) = a + length xs"
  by (auto simp: numbered_nth last_conv_nth Suc_diff_Suc)

lemma numbered_gt: "numbered a xs \<Longrightarrow> x \<in> set xs \<Longrightarrow> a < ev_stream_version x"
  by (auto simp: numbered_nth in_set_conv_nth)

lemma numbered_map_durable [simp]: "numbered a (map durable xs) = numbered a xs"
  by (induction xs arbitrary: a) auto

lemma stream_numbered: "log_ok en protection keys es \<Longrightarrow> numbered 0 (stream_of es stream)"
  by (auto simp: numbered_nth log_ok_versions)

lemma index_rows_get:
  "numbered a xs \<Longrightarrow> table_get (index_rows stream xs) (s, v) =
    (if s = stream \<and> a < v \<and> v \<le> a + length xs then Some (ev_global_sequence (xs ! (v - a - 1))) else None)"
proof (induction xs arbitrary: a)
  case (Cons e xs)
  have tail: "table_get (index_rows stream xs) (s, v) =
      (if s = stream \<and> a + 1 < v \<and> v \<le> a + 1 + length xs
       then Some (ev_global_sequence (xs ! (v - (a + 1) - 1))) else None)"
    by (rule Cons.IH) (use Cons.prems in simp)
  show ?case
  proof (cases "s = stream \<and> v = a + 1")
    case True
    then show ?thesis using Cons.prems by (simp add: index_rows_def)
  next
    case False
    moreover have "v - a - 1 = Suc (v - (a + 1) - 1)" if "a + 1 < v" using that by simp
    ultimately show ?thesis using tail Cons.prems by (auto simp: index_rows_def)
  qed
qed (simp add: index_rows_def)

lemma index_rows_ok: "numbered a xs \<Longrightarrow> table_ok (index_rows stream xs)"
proof (induction xs arbitrary: a)
  case (Cons e xs)
  have "ev_stream_version e < ev_stream_version x" if "x \<in> set xs" for x
    using Cons.prems that numbered_gt [of "a + 1" xs x] by simp
  with Cons show ?case by (auto simp: index_rows_def)
qed (simp add: index_rows_def)

lemma index_between:
  assumes ok: "events_ok en db es" and log: "log_ok en protection keys es"
  shows "table_between (stream, a + 1) (stream, b) (db_stream_events db)
    = index_rows stream (drop a (take b (stream_of es stream)))"
proof (rule table_eqI)
  let ?xs = "drop a (take b (stream_of es stream))"
  have num: "numbered a ?xs"
    using numbered_drop [OF numbered_take [OF stream_numbered [OF log]]] by force
  show "table_ok (table_between (stream, a + 1) (stream, b) (db_stream_events db))"
    using ok by (simp add: events_ok_def)
  show "table_ok (index_rows stream ?xs)" using num by (rule index_rows_ok)
  show "table_get (table_between (stream, a + 1) (stream, b) (db_stream_events db)) = table_get (index_rows stream ?xs)"
  proof
    fix k :: "string \<times> nat"
    obtain s v where k: "k = (s, v)" by fastforce
    have get: "table_get (db_stream_events db) (s, v) =
        (if 1 \<le> v \<and> v \<le> length (stream_of es s)
         then Some (ev_global_sequence (stream_of es s ! (v - 1))) else None)" for s v
      using ok by (simp add: events_ok_def)
    show "table_get (table_between (stream, a + 1) (stream, b) (db_stream_events db)) k
        = table_get (index_rows stream ?xs) k"
      unfolding k index_rows_get [OF num]
      by (auto simp: get restrict_map_def)
  qed
qed

section \<open>Events behind the rows\<close>

lemma event_row:
  assumes "events_ok en db es" "log_ok en protection keys es" "e \<in> set es"
  shows "table_get (db_events db) (ev_global_sequence e) = Some (encoded en e)"
proof -
  have "distinct (map fst (db_events db))"
    using log_ok_distinct_sequence [OF assms(2)] assms(1) by (simp add: events_ok_def comp_def)
  moreover have "(ev_global_sequence e, encoded en e) \<in> set (db_events db)"
    using assms(1,3) by (simp add: events_ok_def)
  ultimately show ?thesis by simp
qed

lemma traverse_rows:
  assumes "lawful en" "events_ok en db es" "log_ok en protection keys es"
    and "set xs \<subseteq> set (stream_of es stream)"
  shows "traverse (indexed_event en db) (index_rows stream xs) = Inr (map durable xs)"
  using assms(4)
proof (induction xs)
  case (Cons e xs)
  then have "e \<in> set es" "ev_stream_id e = stream" by (auto simp: stream_of_def)
  then have "indexed_event en db ((stream, ev_stream_version e), ev_global_sequence e) = Inr (durable e)"
    using event_row [OF assms(2,3)] lawful_envelope(2) [OF assms(1)]
    by (simp add: indexed_event_def decode_journal_json_def)
  with Cons show ?case by (simp add: index_rows_def)
qed (simp add: index_rows_def)

lemma check_ascending_numbered:
  assumes "numbered a xs" "a + length xs \<le> u64_max"
  shows "check_ascending stream (saturating_add64 a 1) xs = Inr ()"
  using assms
proof (induction xs arbitrary: a)
  case (Cons e xs)
  then show ?case by simp
qed simp

lemma check_descending_numbered:
  assumes "numbered a xs" "a + length xs \<le> u64_max"
  shows "check_descending stream (rev xs) = Inr ()"
proof -
  have "check_descending stream ys = Inr ()"
    if "\<forall>i. Suc i < length ys \<longrightarrow> ev_stream_version (ys ! i) = saturating_add64 (ev_stream_version (ys ! Suc i)) 1" for ys
    using that
  proof (induction stream ys rule: check_descending.induct)
    case (1 stream x y ys)
    have "\<forall>i. Suc i < length (y # ys) \<longrightarrow> ev_stream_version ((y # ys) ! i)
        = saturating_add64 (ev_stream_version ((y # ys) ! Suc i)) 1"
      using 1(2) by (metis Suc_less_eq length_Cons nth_Cons_Suc)
    then show ?case using 1 by auto
  qed simp_all
  moreover have "ev_stream_version (rev xs ! i) = saturating_add64 (ev_stream_version (rev xs ! Suc i)) 1"
    if "Suc i < length xs" for i
    using assms that by (simp add: rev_nth numbered_nth)
  ultimately show ?thesis by simp
qed

section \<open>Snapshots\<close>

lemma require_index_ok:
  "index_version en db = Inr (Some STREAM_EVENTS_INDEX_VERSION) \<Longrightarrow> require_index en db = Inr ()"
  by (simp add: require_index_def)

lemma durable_version_ok:
  "events_ok en db es \<Longrightarrow> durable_stream_version db stream = length (stream_of es stream)"
  by (simp add: events_ok_def durable_stream_version_def)

lemma stream_length_bound: "events_ok en db es \<Longrightarrow> length (stream_of es stream) \<le> u64_max"
  unfolding events_ok_def stream_of_def using length_filter_le le_trans by blast

lemma stream_snapshot_exact:
  assumes lawful: "lawful en" and ok: "events_ok en db es" and log: "log_ok en protection keys es"
    and index: "index_version en db = Inr (Some STREAM_EVENTS_INDEX_VERSION)" and "n < u64_max"
  shows "stream_snapshot en db stream n limit = Inr (map durable
    (case limit of None \<Rightarrow> drop n (stream_of es stream) | Some l \<Rightarrow> take l (drop n (stream_of es stream))))"
proof -
  let ?xs = "stream_of es stream"
  let ?ys = "case limit of None \<Rightarrow> drop n ?xs | Some l \<Rightarrow> take l (drop n ?xs)"
  note bound = stream_length_bound [OF ok, of stream]
  have start: "saturating_add64 n 1 = n + 1" using assms(5) by simp
  have rows: "table_between (stream, n + 1) (stream, u64_max) (db_stream_events db)
      = index_rows stream (drop n ?xs)"
    using index_between [OF ok log, of stream n u64_max] bound by simp
  have entries: "(case limit of None \<Rightarrow> index_rows stream (drop n ?xs)
      | Some l \<Rightarrow> take l (index_rows stream (drop n ?xs))) = index_rows stream ?ys"
    by (simp add: index_rows_def take_map split: option.split)
  have num: "numbered n ?ys"
    using numbered_drop [OF stream_numbered [OF log], of n stream]
    by (auto intro: numbered_take split: option.split)
  have len: "?ys \<noteq> [] \<Longrightarrow> n + length ?ys \<le> length ?xs"
    by (auto split: option.splits)
  have "set ?ys \<subseteq> set ?xs"
    by (auto dest!: in_set_takeD in_set_dropD split: option.splits)
  then have events: "traverse (indexed_event en db) (index_rows stream ?ys) = Inr (map durable ?ys)"
    by (rule traverse_rows [OF lawful ok log])
  have asc: "check_ascending stream (n + 1) (map durable ?ys) = Inr ()"
  proof (cases "?ys = []")
    case False
    then show ?thesis
      using check_ascending_numbered [of n "map durable ?ys" stream] num len bound start by simp
  qed simp
  have complete: "\<not> ((case limit of None \<Rightarrow> True | Some l \<Rightarrow> length (map durable ?ys) < l)
      \<and> (if map durable ?ys = [] then min n (length ?xs) else ev_stream_version (last (map durable ?ys))) \<noteq> length ?xs)"
    using numbered_last [OF num] by (auto simp: last_map split: option.splits)
  show ?thesis
    unfolding stream_snapshot_def Let_def start rows entries require_index_ok [OF index] bind_r_simps
      events asc durable_version_ok [OF ok] reject_if_def
    using complete by (simp only: if_False bind_r_simps)
qed

lemma reverse_snapshot_exact:
  assumes lawful: "lawful en" and ok: "events_ok en db es" and log: "log_ok en protection keys es"
    and index: "index_version en db = Inr (Some STREAM_EVENTS_INDEX_VERSION)"
    and "0 < limit" and below: "\<And>v. before = Some v \<Longrightarrow> 1 < v"
    and l_def: "l = (case before of None \<Rightarrow> length (stream_of es stream) | Some v \<Rightarrow> v - 1)"
  shows "reverse_snapshot en db stream before limit
    = Inr (map durable (take limit (rev (take l (stream_of es stream)))))"
proof -
  let ?xs = "stream_of es stream"
  let ?ts = "take l ?xs"
  let ?ys = "take limit (rev ?ts)"
  note bound = stream_length_bound [OF ok, of stream]
  define b where "b = (case before of None \<Rightarrow> u64_max | Some v \<Rightarrow> v - 1)"
  have cut: "take b ?xs = ?ts" using bound by (simp add: b_def l_def split: option.split)
  have rows: "rev (table_between (stream, 1) (stream, b) (db_stream_events db)) = index_rows stream (rev ?ts)"
    using index_between [OF ok log, of stream 0 b] by (simp add: cut index_rows_def rev_map)
  have entries: "take limit (index_rows stream (rev ?ts)) = index_rows stream ?ys"
    by (simp add: index_rows_def take_map)
  have "set ?ys \<subseteq> set ?xs"
    by (auto dest!: in_set_takeD)
  then have events: "traverse (indexed_event en db) (index_rows stream ?ys) = Inr (map durable ?ys)"
    by (rule traverse_rows [OF lawful ok log])
  have first: "(case before of None \<Rightarrow> length ?xs | Some v \<Rightarrow> min (v - 1) (length ?xs)) = length ?ts"
    by (simp add: l_def min.commute split: option.split)
  have num: "numbered 0 ?ts" by (intro numbered_take stream_numbered [OF log])
  have ys: "?ys = rev (drop (length ?ts - limit) ?ts)" by (simp add: take_rev)
  have hd: "(if map durable ?ys = [] then None else Some (ev_stream_version (hd (map durable ?ys))))
      = (if length ?ts > 0 then Some (length ?ts) else None)"
    using numbered_last [OF num] assms(5) by (auto simp: hd_map hd_rev)
  have last: "\<not> (length (map durable ?ys) < limit \<and> length ?ts > 0
      \<and> (if map durable ?ys = [] then None else Some (ev_stream_version (last (map durable ?ys)))) \<noteq> Some 1)"
  proof
    assume short: "length (map durable ?ys) < limit \<and> length ?ts > 0
      \<and> (if map durable ?ys = [] then None else Some (ev_stream_version (last (map durable ?ys)))) \<noteq> Some 1"
    then have "min (length ?ts) limit < limit" by (simp only: length_map length_take length_rev)
    then have "length (rev ?ts) \<le> limit" unfolding length_rev by linarith
    then have "?ys = rev ?ts" by (rule take_all)
    moreover have "?ts \<noteq> []" "ev_stream_version (hd ?ts) = 1"
      using short num by (auto simp: hd_conv_nth numbered_nth)
    ultimately show False using short by (simp add: last_map last_rev)
  qed
  have "numbered (length ?ts - limit) (drop (length ?ts - limit) ?ts)"
    using numbered_drop [OF num, of "length ?ts - limit"] by simp
  then have desc: "check_descending stream (map durable ?ys) = Inr ()"
    using check_descending_numbered [of "length ?ts - limit" "map durable (drop (length ?ts - limit) ?ts)" stream] bound
    by (simp add: ys rev_map)
  show ?thesis
    unfolding reverse_snapshot_def Let_def b_def [symmetric] rows entries require_index_ok [OF index]
      bind_r_simps events durable_version_ok [OF ok] first hd desc reject_if_def
    using last by (simp only: if_False simp_thms bind_r_simps)
qed

section \<open>The chain and the outbox\<close>

text \<open>Consecutive global sequences from a number on.\<close>

lemma sequenced_rows:
  assumes "log_ok en protection keys es"
  shows "table_from (Suc a) (map (\<lambda>e. (ev_global_sequence e, f e)) es) = map (\<lambda>e. (ev_global_sequence e, f e)) (drop a es)"
proof -
  have "filter (\<lambda>e. Suc a \<le> fst e) (map (\<lambda>e. (ev_global_sequence e, f e)) xs)
      = map (\<lambda>e. (ev_global_sequence e, f e)) (drop (a - n) xs)"
    if "\<forall>i < length xs. ev_global_sequence (xs ! i) = n + i + 1" for xs n
    using that
  proof (induction xs arbitrary: n)
    case (Cons x xs)
    have "\<forall>i < length xs. ev_global_sequence (xs ! i) = Suc n + i + 1"
      using Cons.prems by fastforce
    note tail = Cons.IH [OF this]
    have "ev_global_sequence x = n + 1" using Cons.prems by fastforce
    then show ?case
      using tail by (cases "a \<le> n") (auto simp: Suc_diff_le not_le Suc_diff_Suc [symmetric])
  qed simp
  from this [of es 0] show ?thesis
    using assms by (simp add: table_from_def log_ok_nth)
qed

lemma rows_from:
  assumes "log_ok en protection keys es" "1 \<le> n"
  shows "take limit (table_from n (map (\<lambda>e. (ev_global_sequence e, f e)) es))
    = map (\<lambda>e. (ev_global_sequence e, f e)) (take limit (drop (n - 1) es))"
  using sequenced_rows [OF assms(1), where a = "n - 1" and f = f] assms(2) by (simp add: take_map)

lemma global_run_exact:
  assumes "lawful en" "\<forall>i < length xs. ev_global_sequence (xs ! i) = n + i" "n + length xs \<le> u64_max + 1" "n \<le> u64_max"
  shows "\<exists>next. global_run en (map (\<lambda>e. (ev_global_sequence e, encoded en e)) xs) n = Inr (next, map durable xs)
    \<and> next = min (n + length xs) u64_max"
  using assms(2-4)
proof (induction xs arbitrary: n)
  case (Cons x xs)
  have x: "ev_global_sequence x = n" using Cons.prems(1) by fastforce
  have tail: "\<forall>i < length xs. ev_global_sequence (xs ! i) = Suc n + i" using Cons.prems(1) by fastforce
  show ?case
  proof (cases "xs = []")
    case True
    then show ?thesis
      using x Cons.prems by (auto simp: lawful_envelope(2) [OF assms(1)] decode_journal_json_def saturating_add64_def)
  next
    case False
    then have "Suc n \<le> u64_max" using Cons.prems(2) by (cases xs) auto
    then show ?thesis
      using Cons.IH [OF tail] Cons.prems x
      by (auto simp: lawful_envelope(2) [OF assms(1)] decode_journal_json_def)
  qed
qed simp

lemma outbox_run_exact:
  assumes "lawful en" "\<forall>i < length xs. ev_global_sequence (xs ! i) = n + i" "n + length xs \<le> u64_max + 1" "n \<le> u64_max"
  shows "\<exists>next. outbox_run en (map (\<lambda>e. (ev_global_sequence e, queued en e)) xs) n = Inr (next,
      map (\<lambda>e. \<lparr>wi_global_sequence = ev_global_sequence e, wi_event_id = ev_event_id e\<rparr>) xs)
    \<and> next = min (n + length xs) u64_max"
  using assms(2-4)
proof (induction xs arbitrary: n)
  case (Cons x xs)
  have x: "ev_global_sequence x = n" using Cons.prems(1) by fastforce
  have tail: "\<forall>i < length xs. ev_global_sequence (xs ! i) = Suc n + i" using Cons.prems(1) by fastforce
  show ?case
  proof (cases "xs = []")
    case True
    then show ?thesis
      using x Cons.prems
      by (auto simp: lawful_value(2) [OF assms(1)] decode_journal_json_def saturating_add64_def outbox_record_def get_str_def)
  next
    case False
    then have "Suc n \<le> u64_max" using Cons.prems(2) by (cases xs) auto
    then show ?thesis
      using Cons.IH [OF tail] Cons.prems x
      by (auto simp: lawful_value(2) [OF assms(1)] decode_journal_json_def outbox_record_def get_str_def)
  qed
qed simp

lemma page_sequences:
  assumes "log_ok en protection keys es" "1 \<le> n" and xs_def: "xs = take limit (drop (n - 1) es)"
  shows "\<forall>i < length xs. ev_global_sequence (xs ! i) = n + i"
    and "xs \<noteq> [] \<Longrightarrow> n + length xs \<le> length es + 1"
    and "length xs < limit \<Longrightarrow> length es < n + length xs"
  using assms log_ok_nth [OF assms(1)] by (auto simp: xs_def min_def split: if_splits)

lemma global_snapshot_exact:
  assumes "lawful en" "events_ok en db es" "log_ok en protection keys es" "last_sequence en db = Inr (length es)"
    and "length es < u64_max" "n \<le> u64_max"
  shows "global_snapshot en db n limit = Inr (map durable (take limit (drop (n - 1) es)))"
proof -
  let ?n = "max n 1"
  let ?xs = "take limit (drop (?n - 1) es)"
  have ev: "db_events db = map (\<lambda>e. (ev_global_sequence e, encoded en e)) es"
    using assms(2) by (simp add: events_ok_def)
  have rows: "take limit (table_from ?n (db_events db)) = map (\<lambda>e. (ev_global_sequence e, encoded en e)) ?xs"
    unfolding ev by (rule rows_from [OF assms(3)]) simp
  have n1: "1 \<le> ?n" by simp
  note page = page_sequences [OF assms(3) n1 refl, of limit]
  have len: "?n + length ?xs \<le> u64_max + 1"
    using page(2) assms(5,6) by (cases "?xs = []") (auto simp: u64_max_def)
  have max: "?n \<le> u64_max" using assms(6) by (simp add: u64_max_def)
  obtain next_seq where run: "global_run en (map (\<lambda>e. (ev_global_sequence e, encoded en e)) ?xs) ?n
      = Inr (next_seq, map durable ?xs)" "next_seq = min (?n + length ?xs) u64_max"
    using global_run_exact [OF assms(1) page(1) len max] by blast
  have "\<not> (limit > 0 \<and> length (map durable ?xs) < limit \<and> next_seq \<le> length es)"
  proof
    assume short: "limit > 0 \<and> length (map durable ?xs) < limit \<and> next_seq \<le> length es"
    then have "length ?xs < limit" by (simp only: length_map)
    then have "length es < ?n + length ?xs" by (rule page(3))
    then show False using short run(2) assms(5) by linarith
  qed
  then show ?thesis
    unfolding global_snapshot_def assms(4) rows run(1) bind_r_simps prod.case reject_if_def
    by (cases n) (simp_all add: max_def)
qed

lemma outbox_snapshot_exact:
  assumes "lawful en" "events_ok en db es" "log_ok en protection keys es" "last_sequence en db = Inr (length es)"
    and "length es < u64_max" "n \<le> u64_max"
  shows "outbox_snapshot en db n limit = Inr (map (\<lambda>e. \<lparr>wi_global_sequence = ev_global_sequence e,
    wi_event_id = ev_event_id e\<rparr>) (take limit (drop (n - 1) es)))"
proof -
  let ?n = "max n 1"
  let ?xs = "take limit (drop (?n - 1) es)"
  let ?items = "map (\<lambda>e. \<lparr>wi_global_sequence = ev_global_sequence e, wi_event_id = ev_event_id e\<rparr>) ?xs"
  have ev: "db_outbox db = map (\<lambda>e. (ev_global_sequence e, queued en e)) es"
    using assms(2) by (simp add: events_ok_def)
  have rows: "take limit (table_from ?n (db_outbox db)) = map (\<lambda>e. (ev_global_sequence e, queued en e)) ?xs"
    unfolding ev by (rule rows_from [OF assms(3)]) simp
  have n1: "1 \<le> ?n" by simp
  note page = page_sequences [OF assms(3) n1 refl, of limit]
  have len: "?n + length ?xs \<le> u64_max + 1"
    using page(2) assms(5,6) by (cases "?xs = []") (auto simp: u64_max_def)
  have max: "?n \<le> u64_max" using assms(6) by (simp add: u64_max_def)
  obtain next_seq where run: "outbox_run en (map (\<lambda>e. (ev_global_sequence e, queued en e)) ?xs) ?n
      = Inr (next_seq, ?items)" "next_seq = min (?n + length ?xs) u64_max"
    using outbox_run_exact [OF assms(1) page(1) len max] by blast
  have "\<not> (limit > 0 \<and> length ?items < limit \<and> next_seq \<le> length es)"
  proof
    assume short: "limit > 0 \<and> length ?items < limit \<and> next_seq \<le> length es"
    then have "length ?xs < limit" by (simp only: length_map)
    then have "length es < ?n + length ?xs" by (rule page(3))
    then show False using short run(2) assms(5) by linarith
  qed
  then show ?thesis
    unfolding outbox_snapshot_def assms(4) rows run(1) bind_r_simps prod.case reject_if_def
    by (cases n) (simp_all add: max_def)
qed

section \<open>Reading is exact\<close>

text \<open>A read leaves the journal as it is and returns the value, unless its transaction does not begin.\<close>

definition reads_as :: "('b, 'k, 'w) JournalEnv \<Rightarrow> ('b, 'k, 'w) RedbEventJournal \<Rightarrow> 'a \<Rightarrow> ('b, 'k, 'w) RedbEventJournal \<Rightarrow> (StoreError, 'a) result \<Rightarrow> bool" where
  "reads_as en s x s' r \<longleftrightarrow> agrees s s' \<and> (case snd (en_begin en (jr_world s)) of None \<Rightarrow> r = Inr x | Some m \<Rightarrow> r = Inr x \<or> r = Inl (StoreAdapter m))"

lemma reads_as_begin:
  assumes "f (jr_database s) = Inr x"
  shows "after (quarantine_result en (a_bind (begin_transaction en) (\<lambda>db. a_lift (f db)))) s (reads_as en s x)"
  unfolding after_quarantine after_bind
  by (rule after_begin_exactI) (use assms in \<open>auto simp: after_primitive reads_as_def split: option.split\<close>)

lemma reads_as_return: "after (quarantine_result en (a_return x)) s (reads_as en s x)"
  by (simp add: after_quarantine after_primitive reads_as_def split: option.split)

lemma shows_log_tables:
  assumes "shows_log en s es log"
  shows "events_ok en (jr_database s) es" "log_ok en (jr_payload_protection s) (jr_keys s) es"
    "index_version en (jr_database s) = Inr (Some STREAM_EVENTS_INDEX_VERSION)"
    "list_all2 (represents en (jr_payload_protection s) (jr_keys s)) es log"
  using assms by (simp_all add: shows_log_def journal_inv_def database_ok_def)

lemma read_stream_exact:
  assumes "lawful en" "shows_log en s es log"
  shows "after (read_stream en stream) s (reads_as en s (map durable (stream_of es stream)))"
  unfolding read_stream_def read_indexed_stream_def
  using stream_snapshot_exact [OF assms(1) shows_log_tables(1,2,3) [OF assms(2)], of 0 stream None]
  by (auto simp: u64_max_def intro!: reads_as_begin)

lemma read_stream_from_exact:
  assumes "lawful en" "shows_log en s es log" "n < u64_max"
  shows "after (read_stream_from en stream n limit) s
    (reads_as en s (map durable (take (min limit MAX_STREAM_READ_BATCH) (drop n (stream_of es stream)))))"
proof (cases "min limit MAX_STREAM_READ_BATCH = 0")
  case True
  then show ?thesis
    using assms(3) by (simp add: read_stream_from_def read_indexed_stream_def reads_as_return)
next
  case False
  then show ?thesis
    unfolding read_stream_from_def read_indexed_stream_def
    using stream_snapshot_exact [OF assms(1) shows_log_tables(1,2,3) [OF assms(2)] assms(3), of stream "Some (min limit MAX_STREAM_READ_BATCH)"]
      assms(3)
    by (auto intro!: reads_as_begin)
qed

lemma read_stream_backwards_exact:
  assumes "lawful en" "shows_log en s es log"
  shows "after (read_stream_backwards en stream before limit) s (reads_as en s (map durable
    (take (min limit MAX_STREAM_READ_BATCH) (rev (take (case before of None \<Rightarrow> length (stream_of es stream)
      | Some v \<Rightarrow> v - 1) (stream_of es stream))))))"
proof (cases "min limit MAX_STREAM_READ_BATCH = 0 \<or> (case before of None \<Rightarrow> False | Some v \<Rightarrow> v \<le> 1)")
  case True
  then have empty: "take (min limit MAX_STREAM_READ_BATCH) (rev (take (case before of None \<Rightarrow> length (stream_of es stream)
      | Some v \<Rightarrow> v - 1) (stream_of es stream))) = []"
    by (auto split: option.splits)
  then show ?thesis
    unfolding read_stream_backwards_def read_indexed_stream_backwards_def Let_def empty
    using True by (simp only: if_True list.map reads_as_return)
next
  case False
  then have "reverse_snapshot en (jr_database s) stream before (min limit MAX_STREAM_READ_BATCH)
      = Inr (map durable (take (min limit MAX_STREAM_READ_BATCH) (rev (take (case before of None \<Rightarrow> length (stream_of es stream)
      | Some v \<Rightarrow> v - 1) (stream_of es stream)))))"
    by (intro reverse_snapshot_exact [OF assms(1) shows_log_tables(1,2,3) [OF assms(2)]]) (auto split: option.splits)
  then show ?thesis
    unfolding read_stream_backwards_def read_indexed_stream_backwards_def Let_def
    using False by (simp only: if_False) (rule reads_as_begin)
qed

lemma read_global_exact:
  assumes "lawful en" "shows_log en s es log" "length es < u64_max" "n \<le> u64_max"
  shows "after (read_global en n limit) s (reads_as en s (map durable (take limit (drop (n - 1) es))))"
  unfolding read_global_def
  by (intro reads_as_begin global_snapshot_exact [OF assms(1) shows_log_tables(1,2) [OF assms(2)] _ assms(3,4)]
      shows_log_meta(1) [OF assms(2)])

lemma read_projection_work_exact:
  assumes "lawful en" "shows_log en s es log" "length es < u64_max" "n \<le> u64_max"
  shows "after (read_projection_work en n limit) s (reads_as en s (map (\<lambda>e. \<lparr>wi_global_sequence = ev_global_sequence e,
    wi_event_id = ev_event_id e\<rparr>) (take limit (drop (n - 1) es))))"
  unfolding read_projection_work_def
  by (intro reads_as_begin outbox_snapshot_exact [OF assms(1) shows_log_tables(1,2) [OF assms(2)] _ assms(3,4)]
      shows_log_meta(1) [OF assms(2)])

lemma journal_head_exact:
  assumes "shows_log en s es log"
  shows "after (journal_head en) s (reads_as en s (length es, next_hash es))"
  unfolding journal_head_def after_quarantine after_bind [of "begin_transaction en"]
  by (rule after_begin_exactI) (simp_all add: shows_log_meta(1,2) [OF assms] after_primitive reads_as_def split: option.split)

lemma decrypt_payload_exact:
  assumes "lawful en" "shows_log en s es log" "e \<in> set es"
    "carries en (jr_payload_protection s) (jr_keys s) e v"
  shows "after (decrypt_payload en (durable e)) s (reads_as en s v)"
proof -
  obtain p where p: "cd_of_persisted en (encoded en e) = Inr p" "stored_as en e p"
    using envelope_lawE [OF assms(1)] by metis
  have "load_persisted en (jr_database s) (durable e) = Inr p"
    using event_row [OF shows_log_tables(1,2) [OF assms(2)] assms(3)] p(1)
    by (simp add: load_persisted_def lawful_envelope(2) [OF assms(1)] decode_journal_json_def)
  moreover have "verify_persisted_event en (jr_payload_protection s) (jr_keys s) (durable e) p = Inr v"
    using assms(4) p(2) by (simp add: carries_def)
  ultimately show ?thesis
    unfolding decrypt_payload_def after_quarantine after_bind [of "begin_transaction en"]
    by (intro after_begin_exactI) (auto simp: action_simps reads_as_def agreesD split: option.split)
qed

text \<open>
  An envelope with a context field that is not stored differs from its stored form, and asking
  for its payload is taken for an integrity failure.
\<close>

lemma decrypt_payload_of_appended:
  assumes "lawful en" "shows_log en s es log" "e \<in> set es" "durable e \<noteq> e"
    "\<And>w. \<exists>w'. en_begin en w = (w', None)"
  shows "after (decrypt_payload en e) s (\<lambda>s' r. jr_recovery_mode s' \<and> (\<exists>m. r = Inl (Verification m)))"
proof -
  have "load_persisted en (jr_database s) e = Inl (Verification (''event '' @ ev_event_id e
      @ '' does not match its persisted envelope''))"
    using event_row [OF shows_log_tables(1,2) [OF assms(2)] assms(3)] assms(4)
    by (simp add: load_persisted_def lawful_envelope(2) [OF assms(1)] decode_journal_json_def reject_if_def)
  moreover obtain w where "en_begin en (jr_world s) = (w, None)" using assms(5) by blast
  ultimately show ?thesis
    by (simp add: decrypt_payload_def action_simps begin_transaction_def quarantine_def)
qed

end
