(* ===== verification/JournalIntegrity.thy ===== *)
theory JournalIntegrity
  imports JournalHistory
begin

text \<open>
  Verification and opening: a journal that only its own operations have written verifies and
  opens without entering recovery mode, from every state a crash may leave; and two databases
  that verify with the same head hold the same events, unless two different records have the
  same hash.
\<close>

section \<open>The full verification of an intact journal\<close>

lemma queued_row:
  assumes "events_ok en db es" "log_ok en protection keys es" "e \<in> set es"
  shows "table_get (db_outbox db) (ev_global_sequence e) = Some (queued en e)"
proof -
  have "distinct (map fst (db_outbox db))"
    using log_ok_distinct_sequence [OF assms(2)] assms(1) by (simp add: events_ok_def comp_def)
  moreover have "(ev_global_sequence e, queued en e) \<in> set (db_outbox db)"
    using assms(1,3) by (simp add: events_ok_def)
  ultimately show ?thesis by simp
qed

lemma indexed_row:
  assumes "events_ok en db es" "log_ok en protection keys es" "e \<in> set es"
  shows "table_get (db_stream_events db) (ev_stream_id e, ev_stream_version e) = Some (ev_global_sequence e)"
proof -
  let ?xs = "stream_of es (ev_stream_id e)"
  have "e \<in> set ?xs" using assms(3) by (simp add: stream_of_def)
  then obtain i where i: "i < length ?xs" "?xs ! i = e" by (auto simp: in_set_conv_nth)
  then have "ev_stream_version e = i + 1" using log_ok_versions [OF assms(2)] by metis
  then show ?thesis using i assms(1) by (simp add: events_ok_def)
qed

lemma durable_version_row:
  assumes "events_ok en db es" "e \<in> set es"
  shows "table_get (db_stream_versions db) (ev_stream_id e) = Some (length (stream_of es (ev_stream_id e)))"
proof -
  have "stream_of es (ev_stream_id e) \<noteq> []"
    using assms(2) by (auto simp: stream_of_def filter_empty_conv)
  then show ?thesis using assms(1) by (simp add: events_ok_def)
qed

lemma check_queued_ok:
  assumes "lawful en" "events_ok en db es" "log_ok en protection keys es" "e \<in> set es"
  shows "check_queued en db (ev_global_sequence e) (durable e) = Inr ()"
  using queued_row [OF assms(2-4)]
  by (simp add: check_queued_def lawful_value(2) [OF assms(1)] decode_journal_json_def outbox_record_def get_str_def)

lemma check_indexed_ok:
  assumes "events_ok en db es" "log_ok en protection keys es" "e \<in> set es"
  shows "check_indexed db (ev_global_sequence e) (durable e) what = Inr ()"
  using indexed_row [OF assms] by (simp add: check_indexed_def)

text \<open>The state of the verification loop after a part of the chain.\<close>

definition verified_to :: "SignedCheckpoint option \<Rightarrow> SecureAnchor option \<Rightarrow> EventEnvelope list \<Rightarrow> verify_state \<Rightarrow> bool" where
  "verified_to checkpoint anchor xs st \<longleftrightarrow> vs_expected st = length xs + 1
     \<and> vs_previous_hash st = next_hash xs \<and> table_ok (vs_streams st)
     \<and> (\<forall>stream. table_get (vs_streams st) stream =
          (if stream_of xs stream = [] then None else Some (length (stream_of xs stream))))
     \<and> (\<forall>e \<in> set xs. map_option sc_global_sequence checkpoint = Some (ev_global_sequence e)
          \<longrightarrow> vs_checkpoint_hash st = Some (ev_record_hash e))
     \<and> (\<forall>e \<in> set xs. map_option sa_sequence anchor = Some (ev_global_sequence e)
          \<longrightarrow> vs_anchor_hash st = Some (ev_record_hash e))"

lemma verify_entry_ok:
  assumes lawful: "lawful en" and ok: "events_ok en db es" and log: "log_ok en protection keys es"
    and bound: "length es < u64_max"
    and es: "es = xs @ e # ys" and st: "verified_to checkpoint anchor xs st"
  shows "\<exists>st'. verify_entry en protection keys db checkpoint anchor indexed (ev_global_sequence e, encoded en e) st
    = Inr st' \<and> verified_to checkpoint anchor (xs @ [e]) st'"
proof -
  have "log_ok en protection keys ((xs @ [e]) @ ys)" using log es by simp
  then have "log_ok en protection keys (xs @ [e])" by (rule log_ok_prefix)
  then obtain v where e: "ev_global_sequence e = length xs + 1" "ev_previous_hash e = next_hash xs"
      "ev_stream_version e = length (stream_of xs (ev_stream_id e)) + 1" "carries en protection keys e v"
      and xs: "log_ok en protection keys xs"
    by (rule log_ok_snocE) auto
  obtain p where p: "cd_of_persisted en (encoded en e) = Inr p" "stored_as en e p"
    using envelope_lawE [OF lawful] by metis
  have "e \<in> set es" using es by simp
  note checks = check_queued_ok [OF lawful ok log this, unfolded e(1)] check_indexed_ok [OF ok log this, unfolded e(1)]
  have version: "(case table_get (vs_streams st) (ev_stream_id e) of None \<Rightarrow> 0 | Some version \<Rightarrow> version)
      = length (stream_of xs (ev_stream_id e))"
    using st by (simp add: verified_to_def)
  have "length (stream_of xs (ev_stream_id e)) \<le> length xs"
    unfolding stream_of_def by (rule length_filter_le)
  then have exact: "saturating_add64 (length (stream_of xs (ev_stream_id e))) 1 = ev_stream_version e"
      "saturating_add64 (length xs + 1) 1 = length xs + 2"
    using bound es e(3) by simp_all
  have verified: "verify_persisted_event en protection keys (durable e) p = Inr v"
    using e(4) p(2) by (simp add: carries_def)
  have seqs: "ev_global_sequence x \<noteq> length xs + 1" if "x \<in> set xs" for x
    using log_ok_sequence_le(2) [OF xs that] by simp
  define st' where "st' = \<lparr>vs_expected = length xs + 2, vs_previous_hash = ev_record_hash e,
       vs_streams = table_insert (ev_stream_id e) (ev_stream_version e) (vs_streams st),
       vs_checkpoint_hash = (if map_option sc_global_sequence checkpoint = Some (length xs + 1)
         then Some (ev_record_hash e) else vs_checkpoint_hash st),
       vs_anchor_hash = (if map_option sa_sequence anchor = Some (length xs + 1)
         then Some (ev_record_hash e) else vs_anchor_hash st)\<rparr>"
  have "verify_entry en protection keys db checkpoint anchor indexed (ev_global_sequence e, encoded en e) st = Inr st'"
    unfolding verify_entry_def prod.case lawful_envelope(2) [OF lawful] p(1) decode_journal_json_def map_err_simps
      bind_r_simps durable_simps version exact(1) e(1) verified checks
    using st exact(2) e(2) by (simp add: verified_to_def reject_if_def st'_def)
  moreover have "verified_to checkpoint anchor (xs @ [e]) st'"
    using st e(1,3) seqs by (auto simp: verified_to_def st'_def)
  ultimately show ?thesis by blast
qed

lemma verify_fold_ok:
  assumes lawful: "lawful en" and ok: "events_ok en db es" and log: "log_ok en protection keys es"
    and bound: "length es < u64_max" and "prefix xs es"
  shows "\<exists>st. fold_r (verify_entry en protection keys db checkpoint anchor indexed)
      (map (\<lambda>e. (ev_global_sequence e, encoded en e)) xs) verify_start = Inr st
    \<and> verified_to checkpoint anchor xs st"
  using assms(5)
proof (induction xs rule: rev_induct)
  case Nil
  then show ?case by (simp add: verify_start_def verified_to_def)
next
  case (snoc e xs)
  then obtain st where st: "fold_r (verify_entry en protection keys db checkpoint anchor indexed)
      (map (\<lambda>e. (ev_global_sequence e, encoded en e)) xs) verify_start = Inr st" "verified_to checkpoint anchor xs st"
    using append_prefixD by blast
  obtain ys where "es = xs @ e # ys" using snoc.prems by (auto simp: prefix_def)
  from verify_entry_ok [OF lawful ok log bound this st(2), of indexed]
  obtain st' where "verify_entry en protection keys db checkpoint anchor indexed (ev_global_sequence e, encoded en e) st
      = Inr st'" "verified_to checkpoint anchor (xs @ [e]) st'" by blast
  then show ?case using st(1) by (simp add: fold_r_append)
qed

lemma check_positions_ok:
  assumes "projections_ok en db head"
  shows "check_positions head message (db_projection_positions db) = Inr ()"
proof -
  have "bind_r (map_err (\<lambda>_. Verification ''stored projection name is invalid'') (projection_prefix (fst e))) (\<lambda>_.
      reject_if (snd e > head) (Verification (message (fst e) (snd e)))) = Inr ()"
    if "e \<in> set (db_projection_positions db)" for e
  proof -
    have "is_ok (projection_prefix (fst e))" "snd e \<le> head"
      using assms that by (auto simp: projections_ok_def)
    then show ?thesis by (cases "projection_prefix (fst e)") simp_all
  qed
  then show ?thesis
    by (simp add: check_positions_def check_all_Inr_iff case_prod_beta)
qed

lemma check_records_ok:
  "projections_ok en db head \<Longrightarrow> check_all (check_record en) (db_projection_records db) = Inr ()"
  by (simp add: check_all_Inr_iff projections_ok_def)

definition index_state :: "('b, 'k, 'w) JournalEnv \<Rightarrow> 'b Database \<Rightarrow> EventEnvelope list \<Rightarrow> bool" where
  "index_state en db es \<longleftrightarrow> index_version en db = Inr (Some STREAM_EVENTS_INDEX_VERSION)
     \<or> es = [] \<and> index_version en db = Inr None"

lemma empty_index: "events_ok en db [] \<Longrightarrow> db_stream_events db = []"
  by (rule table_eqI) (auto simp: events_ok_def fun_eq_iff)

lemma index_length:
  assumes "events_ok en db es" "log_ok en protection keys es"
  shows "length (db_stream_events db) = length es"
proof -
  have ok: "table_ok (db_stream_events db)" using assms(1) by (simp add: events_ok_def)
  have "set (db_stream_events db) = (\<lambda>e. ((ev_stream_id e, ev_stream_version e), ev_global_sequence e)) ` set es"
  proof (intro equalityI subsetI)
    fix x assume x: "x \<in> set (db_stream_events db)"
    obtain s v n where k: "x = ((s, v), n)" by (metis prod.collapse)
    have "table_get (db_stream_events db) (s, v) = Some n"
      using table_get_Some_iff [OF ok] x k by simp
    moreover have "table_get (db_stream_events db) (s, v) = (if 1 \<le> v \<and> v \<le> length (stream_of es s)
        then Some (ev_global_sequence (stream_of es s ! (v - 1))) else None)"
      using assms(1) by (simp add: events_ok_def)
    ultimately have v: "1 \<le> v" "v \<le> length (stream_of es s)" "n = ev_global_sequence (stream_of es s ! (v - 1))"
      by (simp_all split: if_splits)
    let ?e = "stream_of es s ! (v - 1)"
    have "?e \<in> set (stream_of es s)" using v by (intro nth_mem) simp
    then have "?e \<in> set es" "ev_stream_id ?e = s" by (auto simp: stream_of_def)
    moreover have "ev_stream_version ?e = v"
      using log_ok_versions [OF assms(2), of "v - 1" s] v by simp
    ultimately show "x \<in> (\<lambda>e. ((ev_stream_id e, ev_stream_version e), ev_global_sequence e)) ` set es"
      using v(3) k by (intro image_eqI [of _ _ ?e]) simp_all
  next
    fix x assume "x \<in> (\<lambda>e. ((ev_stream_id e, ev_stream_version e), ev_global_sequence e)) ` set es"
    then show "x \<in> set (db_stream_events db)"
      using indexed_row [OF assms] table_get_Some_iff [OF ok] by auto
  qed
  moreover have "distinct (db_stream_events db)"
    using table_ok_distinct [OF ok] by (simp add: distinct_map)
  ultimately have "length (db_stream_events db)
      = card ((\<lambda>e. ((ev_stream_id e, ev_stream_version e), ev_global_sequence e)) ` set es)"
    using distinct_card by metis
  also have "inj_on ev_global_sequence (set es)" "distinct es"
    using log_ok_distinct_sequence [OF assms(2)] by (simp_all add: distinct_map)
  then have "card ((\<lambda>e. ((ev_stream_id e, ev_stream_version e), ev_global_sequence e)) ` set es) = length es"
    by (subst card_image) (auto simp: inj_on_def distinct_card)
  finally show ?thesis .
qed

lemma verify_snapshot_ok:
  assumes lawful: "lawful en" and ok: "database_ok en protection keys db es" and index: "index_state en db es"
    and bound: "length es < u64_max" and anchor: "\<And>a. anchor = Some a \<Longrightarrow> anchor_ok es a"
  shows "\<exists>report. verify_snapshot en protection keys anchor db = Inr report
    \<and> vr_event_count report = length es \<and> vr_last_sequence report = length es \<and> vr_last_hash report = next_hash es"
proof -
  have log: "log_ok en protection keys es" and ev: "events_ok en db es" and pr: "projections_ok en db (length es)"
    using ok by (simp_all add: database_ok_def)
  obtain c where c: "latest_checkpoint en db = Inr c" "protection = Plaintext \<longrightarrow> c = None"
      "\<And>x. c = Some x \<Longrightarrow> checkpoint_ok en es x"
    and seq: "last_sequence en db = Inr (length es)" and hash: "last_hash en db = Inr (next_hash es)"
    using ok by (auto simp: database_ok_def meta_ok_def)
  have "db_stream_events db = []" if "es = []" using ev that by (auto intro: empty_index)
  then have "\<exists>indexed. index_in_use en db = Inr indexed"
    using index by (auto simp: index_state_def index_in_use_def)
  then obtain indexed where indexed: "index_in_use en db = Inr indexed" ..
  obtain st where st: "fold_r (verify_entry en protection keys db c anchor indexed) (db_events db) verify_start = Inr st"
      "verified_to c anchor es st"
    using verify_fold_ok [OF lawful ev log bound prefix_order.refl] ev unfolding events_ok_def by metis
  have last: "vs_expected st - 1 = length es" "vs_previous_hash st = next_hash es"
    using st(2) by (simp_all add: verified_to_def)
  have streams: "db_stream_versions db = vs_streams st"
    by (rule table_eqI) (use ev st(2) in \<open>auto simp: events_ok_def verified_to_def fun_eq_iff\<close>)
  have outbox: "length (db_outbox db) = length es" using ev by (simp add: events_ok_def)
  have checkpoint: "(case c of None \<Rightarrow> Inr () | Some c \<Rightarrow> verify_checkpoint en c (vs_checkpoint_hash st)) = Inr ()"
    using c(3) st(2) by (auto simp: checkpoint_ok_def verified_to_def verify_checkpoint_def split: option.split)
  have anchored: "\<not> (case anchor of None \<Rightarrow> False | Some a \<Rightarrow> vs_anchor_hash st \<noteq> Some (sa_hash a))"
    using anchor st(2) by (auto simp: anchor_ok_def verified_to_def split: option.split)
  show ?thesis
    unfolding verify_snapshot_def c(1) indexed st(1) seq hash bind_r_simps Let_def last outbox
      check_positions_ok [OF pr] check_records_ok [OF pr] checkpoint index_length [OF ev log] reject_if_def
    using c(2) streams anchored by (simp add: reject_if_def)
qed

end
