(* ===== verification/JournalOpening.thy ===== *)
theory JournalOpening
  imports JournalIntegrity
begin

text \<open>
  Opening a journal: every path of the startup verification ends, on what the journal's own
  operations and a crash between them may have left, with a writable journal that shows the
  same log, or with a fault of the environment; recovery mode is not entered for its content.
\<close>

section \<open>Errors of the verification\<close>

text \<open>Verification reports integrity failures or faults, nothing else.\<close>

definition verification_error :: "StoreError \<Rightarrow> bool" where
  "verification_error e \<longleftrightarrow> fault e \<or> (\<exists>m. e = Verification m)"

definition sound_errors :: "(StoreError, 'a) result \<Rightarrow> bool" where
  "sound_errors r \<longleftrightarrow> (\<forall>e. r = Inl e \<longrightarrow> verification_error e)"

lemma sound_errors_bind:
  assumes "sound_errors m" "\<And>x. sound_errors (f x)"
  shows "sound_errors (bind_r m f)"
  using assms by (cases m) (auto simp: sound_errors_def)

lemma sound_errors_primitive [simp]:
  "sound_errors (Inr x)" "sound_errors (Inl (Verification m))"
  by (simp_all add: sound_errors_def verification_error_def)

lemma sound_errors_reject [simp]: "sound_errors (reject_if b (Verification m))"
  by (simp add: reject_if_def)

lemma sound_errors_ok_or [simp]: "sound_errors (ok_or (Verification m) x)"
  by (cases x) simp_all

lemma sound_errors_decode [simp]: "sound_errors (decode_journal_json r)"
  by (cases r) (simp_all add: decode_journal_json_def)

lemma sound_errors_adapter [simp]: "sound_errors (adapter_json r)"
  by (simp add: sound_errors_def verification_error_def)

lemma sound_errors_map_err [simp]: "sound_errors (map_err (\<lambda>e. Verification (f e)) r)"
  by (cases r) simp_all

lemma sound_errors_fold:
  assumes "\<And>x a. sound_errors (f x a)"
  shows "sound_errors (fold_r f xs a)"
  by (induction xs arbitrary: a) (auto intro: sound_errors_bind assms)

lemma sound_errors_check_all:
  assumes "\<And>x. sound_errors (f x)"
  shows "sound_errors (check_all f xs)"
  by (induction xs) (auto intro: sound_errors_bind assms)

lemma sound_errors_meta [simp]:
  "sound_errors (last_sequence en db)" "sound_errors (last_hash en db)" "sound_errors (latest_checkpoint en db)"
  unfolding last_sequence_def last_hash_def latest_checkpoint_def meta_entry_def
  by (auto intro!: sound_errors_bind split: option.split)

lemma sound_errors_positions [simp]: "sound_errors (check_positions head message table)"
  unfolding check_positions_def
  by (auto intro!: sound_errors_check_all sound_errors_bind split: prod.split)

lemma sound_errors_verify_event:
  assumes "lawful en"
  shows "sound_errors (verify_persisted_event en protection keys e p)"
proof -
  have "sound_errors (kp_key_by_id en keys i)" for i
    using lawful_faults(4) [OF assms] by (simp add: sound_errors_def verification_error_def)
  then have "sound_errors (decrypt_persisted en protection keys e p)"
    unfolding decrypt_persisted_def Let_def by (auto intro!: sound_errors_bind)
  then show ?thesis
    unfolding verify_persisted_event_def persisted_record_hash_def by (auto intro!: sound_errors_bind)
qed

lemma sound_errors_checks [simp]:
  "sound_errors (check_queued en db n e)" "sound_errors (check_indexed db n e what)"
  unfolding check_queued_def check_indexed_def by (auto intro!: sound_errors_bind)

lemma sound_errors_signature:
  assumes "lawful en"
  shows "sound_errors (verify_checkpoint_signature en c)"
proof -
  have "sound_errors (cs_verify en m sig)" for m sig
    using assms by (auto simp: lawful_def crypto_law_def sound_errors_def verification_error_def)
  then show ?thesis unfolding verify_checkpoint_signature_def by (auto intro!: sound_errors_bind)
qed

lemma sound_errors_tail_entry:
  assumes "lawful en"
  shows "sound_errors (verify_tail_entry en protection keys db c x st)"
  unfolding verify_tail_entry_def Let_def
  by (auto intro!: sound_errors_bind sound_errors_verify_event [OF assms] split: prod.split)

lemma sound_errors_incremental:
  assumes "lawful en"
  shows "sound_errors (incremental_snapshot en protection keys anchor db)"
  unfolding incremental_snapshot_def
  by (intro sound_errors_bind sound_errors_fold sound_errors_check_all sound_errors_tail_entry
      sound_errors_signature assms) (auto split: prod.split)

section \<open>The startup of a journal without encryption\<close>

lemma last_row:
  assumes "log_ok en protection keys es" "es \<noteq> []"
  shows "ev_global_sequence (last es) = length es" "last es \<in> set es"
  using assms by (simp_all add: last_conv_nth log_ok_nth)

lemma log_ok_last:
  assumes "log_ok en protection keys es" "es \<noteq> []"
  shows "ev_stream_version (last es) = length (stream_of es (ev_stream_id (last es)))"
proof -
  have "log_ok en protection keys (butlast es @ [last es])" using assms by simp
  then have "ev_stream_version (last es) = length (stream_of (butlast es) (ev_stream_id (last es))) + 1"
    by (rule log_ok_snocE) simp_all
  moreover have "stream_of es (ev_stream_id (last es))
      = stream_of (butlast es) (ev_stream_id (last es)) @ [last es]"
    using stream_of_simps(2) [of "butlast es" "[last es]"] assms(2) by simp
  ultimately show ?thesis by simp
qed

lemma plaintext_snapshot_ok:
  assumes lawful: "lawful en" and ok: "database_ok en Plaintext keys db es"
    and index: "index_version en db = Inr (Some STREAM_EVENTS_INDEX_VERSION)"
    and "es \<noteq> []" "length es < u64_max"
  shows "\<exists>report. plaintext_snapshot en Plaintext keys db = Inr report"
proof -
  have log: "log_ok en Plaintext keys es" and ev: "events_ok en db es" and pr: "projections_ok en db (length es)"
    using ok by (simp_all add: database_ok_def)
  have seq: "last_sequence en db = Inr (length es)" and hash: "last_hash en db = Inr (next_hash es)"
    and cp: "latest_checkpoint en db = Inr None"
    using ok by (auto simp: database_ok_def meta_ok_def)
  have nocp: "table_get (db_metadata db) ''latest_checkpoint'' = None"
    using cp by (auto simp: latest_checkpoint_def meta_entry_def bind_r_Inr_iff split: option.splits)
  have rows: "db_events db = map (\<lambda>e. (ev_global_sequence e, encoded en e)) es"
      "db_outbox db = map (\<lambda>e. (ev_global_sequence e, queued en e)) es"
    using ev by (simp_all add: events_ok_def)
  have lens: "length (db_events db) = length es" "length (db_outbox db) = length es"
      "length (db_stream_events db) = length es"
    using rows index_length [OF ev log] by simp_all
  have zero: "map_of (map (\<lambda>e. (ev_global_sequence e, f e)) es) 0 = None" for f :: "EventEnvelope \<Rightarrow> 'a"
    using log_ok_sequence_le(1) [OF log] by (fastforce simp: map_of_eq_None_iff)
  have outside: "table_from (length es + 1) (map (\<lambda>e. (ev_global_sequence e, f e)) es) = []" for f :: "EventEnvelope \<Rightarrow> 'a"
    using sequenced_rows [OF log, of "length es" f] by simp
  let ?e = "last es"
  note e = last_row [OF log assms(4)]
  obtain v where "carries en Plaintext keys ?e v" using log_ok_carries [OF log e(2)] by blast
  moreover obtain p where p: "cd_of_persisted en (encoded en ?e) = Inr p" "stored_as en ?e p"
    using envelope_lawE [OF lawful] by metis
  ultimately have verified: "verify_persisted_event en Plaintext keys (durable ?e) p = Inr v"
    by (simp add: carries_def)
  have versions: "table_get (db_stream_versions db) (ev_stream_id ?e) = Some (ev_stream_version ?e)"
    using durable_version_row [OF ev e(2)] log_ok_last [OF log assms(4)] by simp
  have start: "saturating_add64 (length es) 1 = length es + 1" using assms(5) by simp
  show ?thesis
    unfolding plaintext_snapshot_def seq hash index lens start bind_r_simps
    using nocp zero outside rows event_row [OF ev log e(2)] queued_row [OF ev log e(2)]
      indexed_row [OF ev log e(2)] versions verified e(1) assms(4)
      check_positions_ok [OF pr]
    by (simp add: reject_if_def p(1) lawful_envelope(2) [OF lawful] lawful_value(2) [OF lawful]
        decode_journal_json_def next_hash_def outbox_record_def get_str_def)
qed

section \<open>Startup\<close>

text \<open>The durable state a process finds: intact tables, with the index or still without events.\<close>

definition stored_log :: "('b, 'k, 'w) JournalEnv \<Rightarrow> EventEnvelope list \<Rightarrow> NewEvent list \<Rightarrow> JournalPayloadProtection
    \<Rightarrow> ('b, 'k, 'w) RedbEventJournal \<Rightarrow> bool" where
  "stored_log en es log protection s \<longleftrightarrow>
     database_ok en protection (jr_keys s) (jr_database s) es \<and> index_state en (jr_database s) es
     \<and> list_all2 (represents en protection (jr_keys s)) es log
     \<and> jr_payload_protection s = protection \<and> \<not> jr_recovery_mode s"

lemma log_kept_stored: "log_kept en es log protection False s \<Longrightarrow> stored_log en es log protection s"
  by (auto simp: log_kept_def stored_log_def shows_log_def journal_inv_def index_state_def)

lemma stored_kept: "stored_log en es log protection s \<Longrightarrow> es \<noteq> [] \<Longrightarrow> log_kept en es log protection False s"
  by (auto simp: log_kept_def stored_log_def shows_log_def journal_inv_def index_state_def)

lemma stored_log_agrees: "agrees s s' \<Longrightarrow> stored_log en es log protection s \<Longrightarrow> stored_log en es log protection s'"
  by (simp add: stored_log_def agreesD)

text \<open>A startup step ends with a journal in use or with a fault.\<close>

definition opens_to :: "('b, 'k, 'w) JournalEnv \<Rightarrow> EventEnvelope list \<Rightarrow> NewEvent list \<Rightarrow> JournalPayloadProtection
    \<Rightarrow> ('b, 'k, 'w) RedbEventJournal \<Rightarrow> (StoreError, 'a) result \<Rightarrow> bool" where
  "opens_to en es log protection s r \<longleftrightarrow> stored_log en es log protection s
     \<and> (case r of Inl e \<Rightarrow> fault e | Inr _ \<Rightarrow> log_kept en es log protection False s)"

lemma keeping_opens:
  "keeping en es log protection False s m \<Longrightarrow> after m s (opens_to en es log protection)"
  unfolding keeping_def by (erule after_mono) (auto simp: opens_to_def log_kept_stored split: sum.split)

lemma set_report_keeps:
  "log_kept en es log protection recovery s \<Longrightarrow> keeping en es log protection recovery s (set_report report)"
  by (auto simp: set_report_def keeping_def action_simps log_kept_def shows_log_def journal_inv_def)

lemma lift_keeps:
  "log_kept en es log protection recovery s \<Longrightarrow> r = Inr x \<Longrightarrow> keeping en es log protection recovery s (a_lift r)"
  by (simp add: keeping_def after_primitive)

lemma get_keeps:
  "log_kept en es log protection recovery s \<Longrightarrow> keeping en es log protection recovery s (a_get f)"
  by (simp add: keeping_def after_primitive)

lemma shows_database_ok:
  assumes "log_kept en es log protection recovery s"
  shows "database_ok en protection (jr_keys s) (jr_database s) es"
    "index_version en (jr_database s) = Inr (Some STREAM_EVENTS_INDEX_VERSION)"
  using assms by (auto simp: log_kept_def shows_log_def journal_inv_def)

lemma verify_inner_keeps:
  assumes lawful: "lawful en" and kept: "log_kept en es log protection recovery s" and "length es < u64_max"
  shows "keeping en es log protection recovery s (verify_inner en)"
proof -
  note ok = shows_database_ok [OF kept]
  obtain anchor where anchor: "kp_load_anchor en (jr_keys s) = Inr anchor" "\<And>a. anchor = Some a \<Longrightarrow> anchor_ok es a"
    using ok(1) by (auto simp: database_ok_def keys_ok_def)
  obtain report where "verify_snapshot en protection (jr_keys s) anchor (jr_database s) = Inr report"
    using verify_snapshot_ok [OF lawful ok(1) _ assms(3) anchor(2)] ok(2) by (auto simp: index_state_def)
  then have tail: "keeping en es log protection recovery s' (a_bind (a_get jr_payload_protection) (\<lambda>protection.
      a_lift (verify_snapshot en protection (jr_keys s) anchor (jr_database s))))"
    if "log_kept en es log protection recovery s'" for s'
    using that by (simp add: keeping_def after_bind after_primitive log_kept_def)
  have "keeping en es log protection recovery s (a_bind (begin_transaction en) (\<lambda>db.
     a_bind (a_get jr_payload_protection) (\<lambda>protection.
     a_lift (verify_snapshot en protection (jr_keys s) anchor db))))"
    by (rule keeping_begin [OF kept]) (rule tail)
  then show ?thesis
    by (simp add: verify_inner_def keeping_def after_bind [of "a_get jr_keys"] after_primitive anchor(1))
qed

lemma index_version_keeps:
  assumes "log_kept en es log protection recovery s"
  shows "keeping en es log protection recovery s (stream_events_index_version en)"
  unfolding stream_events_index_version_def
  by (rule keeping_begin [OF assms]) (auto intro: lift_keeps shows_database_ok(2) [OF assms])

lemma index_version_known:
  assumes "log_kept en es log protection recovery s"
  shows "after (stream_events_index_version en) s (\<lambda>s' r. \<forall>x. r = Inr x \<longrightarrow> x = Some STREAM_EVENTS_INDEX_VERSION)"
  unfolding stream_events_index_version_def after_bind [of "begin_transaction en"]
  by (rule after_beginI) (use shows_database_ok(2) [OF assms] in \<open>auto simp: after_primitive\<close>)

lemma ensure_index_keeps:
  assumes "log_kept en es log protection recovery s"
  shows "keeping en es log protection recovery s (ensure_stream_events_index en)"
  unfolding keeping_def ensure_stream_events_index_def after_bind [of "stream_events_index_version en"]
  by (rule after_mono [OF after_both [OF index_version_keeps [OF assms, unfolded keeping_def] index_version_known [OF assms]]])
    (auto simp: after_primitive split: sum.split)

lemma verify_startup_full_keeps:
  assumes lawful: "lawful en" and kept: "log_kept en es log protection recovery s" and "length es < u64_max"
  shows "keeping en es log protection recovery s (verify_startup_full en mode)"
proof -
  have due: "keeping en es log protection recovery u (if b then journal_checkpoint en else a_return None)"
    if "log_kept en es log protection recovery u" for u b
    by (simp add: checkpoint_keeps [OF lawful that] keeping_primitive(1) [OF that])
  show ?thesis
    unfolding verify_startup_full_def Let_def
    by (intro keeping_bind verify_inner_keeps [OF lawful _ assms(3)] ensure_index_keeps get_keeps due
        set_report_keeps kept)
qed

text \<open>The incremental path may also find that checkpoint and anchor do not agree.\<close>

lemma verify_incremental_keeps:
  assumes lawful: "lawful en" and kept: "log_kept en es log protection False s"
  shows "after (verify_incremental en a) s (\<lambda>s' r. log_kept en es log protection False s'
    \<and> (\<forall>e. r = Inl e \<longrightarrow> verification_error e))"
proof -
  have due: "after (a_bind (if b then journal_checkpoint en else a_return None) (\<lambda>_. a_return x)) u
      (\<lambda>s' r. log_kept en es log protection False s' \<and> (\<forall>e. r = Inl e \<longrightarrow> verification_error e))"
    if "log_kept en es log protection False u" for u b and x :: StartupVerificationReport
  proof -
    have "keeping en es log protection False u (a_bind (if b then journal_checkpoint en else a_return None) (\<lambda>_. a_return x))"
      using that by (intro keeping_bind keeping_primitive(1))
        (simp_all add: checkpoint_keeps [OF lawful that] keeping_primitive(1) [OF that])
    then show ?thesis unfolding keeping_def by (rule after_mono) (auto simp: verification_error_def)
  qed
  have errors: "verification_error e" if "incremental_snapshot en p k a db = Inl e" for p k db e
    using sound_errors_incremental [OF lawful] that by (metis sound_errors_def)
  show ?thesis
    unfolding verify_incremental_def after_bind [of "begin_transaction en"]
  proof (rule after_beginI)
    fix s' m assume "agrees s s'"
    then show "case Inl (StoreAdapter m) of Inl e \<Rightarrow> log_kept en es log protection False s'
          \<and> (\<forall>e'. Inl e = Inl e' \<longrightarrow> verification_error e')
        | Inr x \<Rightarrow> P x" for P :: "'a Database \<Rightarrow> bool"
      using kept by (simp add: log_kept_agrees verification_error_def)
  next
    fix s' assume agr: "agrees s s'"
    then have s': "log_kept en es log protection False s'" using kept by (simp add: log_kept_agrees)
    show "case Inr (jr_database s) of Inl e \<Rightarrow> Q e
        | Inr db \<Rightarrow> after (a_bind (a_get jr_payload_protection) (\<lambda>protection.
           a_bind (a_get jr_keys) (\<lambda>keys.
           a_bind (a_lift (incremental_snapshot en protection keys a db)) (\<lambda>(head, stored, inspected).
           a_bind (if head > sc_global_sequence stored then journal_checkpoint en else a_return None) (\<lambda>_.
           a_return \<lparr>sr_configured_mode = Incremental, sr_path = ''incremental'',
             sr_verified_from_sequence = Some (max (sc_global_sequence stored) 1),
             sr_verified_through_sequence = head, sr_verified_event_count = inspected,
             sr_anchor_format_version = Some (sa_format_version a)\<rparr>))))) s'
          (\<lambda>s' r. log_kept en es log protection False s' \<and> (\<forall>e. r = Inl e \<longrightarrow> verification_error e))" for Q
      using s' by (auto simp: after_bind [of "a_get _"] after_primitive after_bind [of "a_lift _"]
          split: sum.split prod.split intro: errors due [where b = True, simplified] due [where b = False, simplified])
  qed
qed

lemma stored_meta:
  assumes "stored_log en es log protection s"
  shows "last_sequence en (jr_database s) = Inr (length es)" "last_hash en (jr_database s) = Inr (next_hash es)"
    "table_ok (db_metadata (jr_database s))"
    "\<exists>anchor. kp_load_anchor en (jr_keys s) = Inr anchor \<and> (\<forall>a. anchor = Some a \<longrightarrow> anchor_ok es a)"
  using assms by (auto simp: stored_log_def database_ok_def meta_ok_def keys_ok_def)

lemma journal_head_stored:
  assumes "stored_log en es log protection s"
  shows "after (journal_head en) s (reads_as en s (length es, next_hash es))"
  unfolding journal_head_def after_quarantine after_bind [of "begin_transaction en"]
  by (rule after_begin_exactI) (simp_all add: stored_meta(1,2) [OF assms] after_primitive reads_as_def split: option.split)

text \<open>The first opening creates the index.\<close>

lemma index_key_fresh:
  "STREAM_EVENTS_INDEX_KEY \<noteq> ''last_sequence''" "STREAM_EVENTS_INDEX_KEY \<noteq> ''last_hash''"
  "STREAM_EVENTS_INDEX_KEY \<noteq> ''latest_checkpoint''" "STREAM_EVENTS_INDEX_KEY \<noteq> PAYLOAD_PROTECTION_KEY"
  by (simp_all add: STREAM_EVENTS_INDEX_KEY_def PAYLOAD_PROTECTION_KEY_def)

lemma index_commit_shows:
  assumes stored: "stored_log en [] log protection s" and b: "cd_of_u64 en b = Inr STREAM_EVENTS_INDEX_VERSION"
    and agr: "agrees s s'" and db: "db = jr_database s"
  shows "log_kept en [] log protection False (s'\<lparr>jr_database := db\<lparr>db_stream_events := [],
    db_metadata := table_insert STREAM_EVENTS_INDEX_KEY b (db_metadata db)\<rparr>\<rparr>)"
proof -
  have ok: "database_ok en protection (jr_keys s) db []"
    and rep: "list_all2 (represents en protection (jr_keys s)) [] log"
    using stored db by (simp_all add: stored_log_def)
  have tab: "table_ok (db_metadata db)" using stored_meta(3) [OF stored] db by simp
  let ?db = "db\<lparr>db_stream_events := [], db_metadata := table_insert STREAM_EVENTS_INDEX_KEY b (db_metadata db)\<rparr>"
  have entry: "meta_entry decode key ?db = (if key = STREAM_EVENTS_INDEX_KEY
      then bind_r (decode_journal_json (decode b)) (\<lambda>x. Inr (Some x)) else meta_entry decode key db)"
    for decode :: "_ \<Rightarrow> (JsonError, 'x) result" and key
    using tab by (auto simp: meta_entry_def)
  have "last_sequence en ?db = last_sequence en db" "last_hash en ?db = last_hash en db"
      "latest_checkpoint en ?db = latest_checkpoint en db"
      "meta_entry (cd_of_str en) PAYLOAD_PROTECTION_KEY ?db = meta_entry (cd_of_str en) PAYLOAD_PROTECTION_KEY db"
    by (simp_all add: last_sequence_def last_hash_def latest_checkpoint_def entry index_key_fresh index_key_fresh [symmetric])
  moreover have "meta_ok en protection db []" using ok by (simp add: database_ok_def)
  ultimately have "meta_ok en protection ?db []"
    using tab by (simp add: meta_ok_def)
  moreover have "events_ok en ?db []"
  proof -
    have ev: "events_ok en db []" using ok by (simp add: database_ok_def)
    then have "db_stream_events db = []" by (rule empty_index)
    with ev show ?thesis by (simp add: events_ok_def)
  qed
  moreover have "projections_ok en ?db 0"
  proof -
    have "projections_ok en db 0" using ok by (simp add: database_ok_def)
    then show ?thesis by (rule projections_ok_mono) simp_all
  qed
  ultimately have "database_ok en protection (jr_keys s) ?db []"
    using ok by (simp add: database_ok_def)
  moreover have "index_version en ?db = Inr (Some STREAM_EVENTS_INDEX_VERSION)"
    using b by (simp add: index_version_def entry decode_journal_json_def)
  ultimately show ?thesis
    using stored rep agr by (simp add: log_kept_def shows_log_def journal_inv_def stored_log_def agreesD)
qed

lemma ensure_index_opens:
  assumes lawful: "lawful en" and stored: "stored_log en [] log protection s"
  shows "after (ensure_stream_events_index en) s (opens_to en [] log protection)"
proof (cases "index_version en (jr_database s) = Inr (Some STREAM_EVENTS_INDEX_VERSION)")
  case True
  then have "log_kept en [] log protection False s"
    using stored by (simp add: log_kept_def stored_log_def shows_log_def journal_inv_def)
  then show ?thesis by (intro keeping_opens ensure_index_keeps)
next
  case False
  then have none: "index_version en (jr_database s) = Inr None"
    using stored by (simp add: stored_log_def index_state_def)
  have ev: "events_ok en (jr_database s) []" using stored by (simp add: stored_log_def database_ok_def)
  then have noev: "db_stream_events (jr_database s) = []" "db_events (jr_database s) = []"
    by (simp_all add: empty_index) (simp add: events_ok_def)
  obtain b where b: "cd_to_u64 en STREAM_EVENTS_INDEX_VERSION = Inr b" "cd_of_u64 en b = Inr STREAM_EVENTS_INDEX_VERSION"
    using lawful by (rule lawful_u64)
  have fault: "opens_to en [] log protection s' (Inl (StoreAdapter m))" if "agrees s s'" for s' m
    using stored_log_agrees [OF that stored] by (simp add: opens_to_def)
  have commit: "after (commit_transaction en ((jr_database s)\<lparr>db_stream_events := [],
      db_metadata := table_insert STREAM_EVENTS_INDEX_KEY b (db_metadata (jr_database s))\<rparr>)) u
      (opens_to en [] log protection)" if "agrees s u" for u
  proof (rule after_commitI)
    fix s' m assume "agrees u s'"
    then show "opens_to en [] log protection s' (Inl (StoreAdapter m))"
      using fault agrees_trans [OF that] by blast
  next
    fix s' assume "agrees u s'"
    with that have "agrees s s'" by (rule agrees_trans)
    note kept = index_commit_shows [OF stored b(2) this refl]
    then show "opens_to en [] log protection (s'\<lparr>jr_database := (jr_database s)\<lparr>db_stream_events := [],
        db_metadata := table_insert STREAM_EVENTS_INDEX_KEY b (db_metadata (jr_database s))\<rparr>\<rparr>) (Inr ())"
      using log_kept_stored [OF kept] by (simp add: opens_to_def)
  qed
  have build: "after (build_stream_events_index en (jr_database s)) t (opens_to en [] log protection)"
    if "agrees s t" for t
    unfolding build_stream_events_index_def none a_bind_simps
    by (simp add: noev b(1) adapter_json_def after_bind after_primitive)
      (rule after_mono [OF commit [OF that]], auto simp: opens_to_def after_primitive split: sum.split)
  have again: "after (a_bind (begin_transaction en) (build_stream_events_index en)) t (opens_to en [] log protection)"
    if "agrees s t" for t
    unfolding after_bind
  proof (rule after_beginI)
    fix s' m assume "agrees t s'"
    then have "agrees s s'" using that by (rule agrees_trans [rotated])
    then show "case Inl (StoreAdapter m) of Inl e \<Rightarrow> opens_to en [] log protection s' (Inl e)
        | Inr x \<Rightarrow> after (build_stream_events_index en x) s' (opens_to en [] log protection)"
      using fault by simp
  next
    fix s' assume "agrees t s'"
    then have "agrees s s'" using that by (rule agrees_trans [rotated])
    then show "case Inr (jr_database t) of Inl e \<Rightarrow> opens_to en [] log protection s' (Inl e)
        | Inr x \<Rightarrow> after (build_stream_events_index en x) s' (opens_to en [] log protection)"
      using build that by (simp add: agreesD)
  qed
  have known: "after (stream_events_index_version en) s (\<lambda>s' r. agrees s s'
      \<and> (case r of Inl e \<Rightarrow> \<exists>m. e = StoreAdapter m | Inr x \<Rightarrow> x = None))"
    unfolding stream_events_index_version_def after_bind
    by (rule after_beginI) (auto simp: none after_primitive)
  show ?thesis
    unfolding ensure_stream_events_index_def after_bind [of "stream_events_index_version en"]
    by (rule after_mono [OF known]) (use fault again in \<open>auto split: sum.split\<close>)
qed

text \<open>A step that ends well is followed by one that keeps the log.\<close>

lemma opens_bind:
  assumes "after m s (opens_to en es log protection)"
    and "\<And>s' x. log_kept en es log protection False s' \<Longrightarrow> after (f x) s' (opens_to en es log protection)"
  shows "after (a_bind m f) s (opens_to en es log protection)"
  unfolding after_bind
  by (rule after_mono [OF assms(1)]) (auto simp: opens_to_def assms(2) split: sum.split)

lemma set_report_opens:
  "log_kept en es log protection False s \<Longrightarrow> after (set_report report) s (opens_to en es log protection)"
  by (intro keeping_opens set_report_keeps)

lemma startup_empty_opens:
  assumes lawful: "lawful en" and stored: "stored_log en [] log protection s"
    and anchor: "\<And>a. anchor = Some a \<Longrightarrow> anchor_ok [] a"
  shows "after (startup_empty en mode anchor) s (opens_to en [] log protection)"
proof -
  have "\<not> (case anchor of None \<Rightarrow> False | Some a \<Rightarrow> sa_sequence a \<noteq> 0)"
    using anchor by (auto simp: anchor_ok_def split: option.split)
  then show ?thesis
    unfolding startup_empty_def
    by (simp only: a_reject_simps a_bind_simps if_False)
      (intro opens_bind ensure_index_opens [OF lawful stored] set_report_opens)
qed

lemma plaintext_incremental_opens:
  assumes lawful: "lawful en" and kept: "log_kept en es log Plaintext False s"
    and "es \<noteq> []" "length es < u64_max"
  shows "keeping en es log Plaintext False s (verify_plaintext_incremental en)"
  unfolding verify_plaintext_incremental_def
proof (rule keeping_begin [OF kept])
  fix s' assume s': "log_kept en es log Plaintext False s'" "jr_database s' = jr_database s"
  note ok = shows_database_ok [OF s'(1)]
  obtain report where "plaintext_snapshot en Plaintext (jr_keys s') (jr_database s') = Inr report"
    using plaintext_snapshot_ok [OF lawful ok assms(3,4)] by blast
  then show "keeping en es log Plaintext False s' (a_bind (a_get jr_payload_protection) (\<lambda>protection.
      a_bind (a_get jr_keys) (\<lambda>keys. a_lift (plaintext_snapshot en protection keys (jr_database s)))))"
    using s' by (simp add: keeping_def after_bind after_primitive log_kept_def)
qed

lemma incremental_else_full_opens:
  assumes lawful: "lawful en" and kept: "log_kept en es log protection False s" and "length es < u64_max"
  shows "after (incremental_else_full en mode a) s (opens_to en es log protection)"
  unfolding incremental_else_full_def after_bind [of "a_catch _"] after_catch
proof (rule after_mono [OF verify_incremental_keeps [OF lawful kept]], simp only: sum.case)
  fix s' and r :: "(StoreError, StartupVerificationReport) result"
  assume step: "log_kept en es log protection False s' \<and> (\<forall>e. r = Inl e \<longrightarrow> verification_error e)"
  then have full: "after (verify_startup_full en mode) s' (opens_to en es log protection)"
    by (intro keeping_opens verify_startup_full_keeps [OF lawful _ assms(3)]) simp
  show "after (case r of Inl (Verification _) \<Rightarrow> verify_startup_full en mode | Inl e \<Rightarrow> a_fail e
       | Inr report \<Rightarrow> set_report report) s' (opens_to en es log protection)"
    using step full
    by (auto simp: set_report_opens after_primitive opens_to_def log_kept_stored verification_error_def fault_def
        split: sum.split StoreError.split)
qed

lemma startup_anchored_opens:
  assumes lawful: "lawful en" and kept: "log_kept en es log protection False s" and len: "length es < u64_max"
  shows "after (startup_anchored en mode anchor) s (opens_to en es log protection)"
  unfolding startup_anchored_def
proof (rule opens_bind)
  show "after (trusted_incremental en mode anchor) s (opens_to en es log protection)"
    unfolding trusted_incremental_def
    by (intro keeping_opens) (auto intro!: keeping_bind index_version_keeps keeping_primitive(1) kept)
next
  fix s' trusted assume s': "log_kept en es log protection False s'"
  then have "after (verify_startup_full en mode) s' (opens_to en es log protection)"
    by (intro keeping_opens verify_startup_full_keeps [OF lawful _ len])
  then show "after (case (trusted, anchor) of (True, Some a) \<Rightarrow> incremental_else_full en mode a
      | _ \<Rightarrow> verify_startup_full en mode) s' (opens_to en es log protection)"
    using incremental_else_full_opens [OF lawful s' len] by (simp split: bool.split option.split)
qed

lemma a_bind_run: "m s = (s, Inr x) \<Longrightarrow> a_bind m f s = f x s"
  by (simp add: a_bind_def)

text \<open>
  On intact storage the startup verification ends with a writable journal that shows the log,
  or with a fault.
\<close>

lemma verify_startup_opens:
  assumes lawful: "lawful en" and stored: "stored_log en es log protection s" and len: "length es < u64_max"
  shows "after (verify_startup en mode) s (opens_to en es log protection)"
proof -
  obtain a where load: "kp_load_anchor en (jr_keys s) = Inr a" "\<And>x. a = Some x \<Longrightarrow> anchor_ok es x"
    using stored_meta(4) [OF stored] by blast
  define anchor where "anchor = (if protection = Encrypted then a else None)"
  have anchor: "anchor_ok es x" if "anchor = Some x" for x
    using that load(2) by (simp add: anchor_def split: if_splits)
  let ?rest = "\<lambda>head. if head = 0 then startup_empty en mode anchor
     else if protection = Plaintext \<and> mode = Incremental then
       a_bind (verify_plaintext_incremental en) set_report
     else startup_anchored en mode anchor"
  have rest: "after (?rest (length es)) t (opens_to en es log protection)" if "agrees s t" for t
  proof (cases "es = []")
    case True
    then show ?thesis
      using startup_empty_opens [OF lawful, of log protection t anchor mode] stored_log_agrees [OF that stored] anchor
      by simp
  next
    case False
    then have kept: "log_kept en es log protection False t"
      using stored_kept [OF stored_log_agrees [OF that stored]] by simp
    have "after (a_bind (verify_plaintext_incremental en) set_report) t (opens_to en es log protection)"
      if "protection = Plaintext"
      using kept that False
      by (intro opens_bind set_report_opens keeping_opens)
        (simp_all add: plaintext_incremental_opens [OF lawful _ False len])
    then show ?thesis using False startup_anchored_opens [OF lawful kept len] by simp
  qed
  have first: "a_get jr_payload_protection s = (s, Inr protection)" "a_get jr_keys s = (s, Inr (jr_keys s))"
      "(if protection = Encrypted then a_lift (kp_load_anchor en (jr_keys s)) else a_return None) s = (s, Inr anchor)"
    using stored load(1) by (simp_all add: stored_log_def a_get_def anchor_def a_lift_def a_return_def)
  have "verify_startup en mode s = a_bind (journal_head en) (\<lambda>(head, _). ?rest head) s"
    unfolding verify_startup_def by (subst a_bind_run, rule first, subst a_bind_run, rule first, subst a_bind_run, rule first) (rule refl)
  moreover have "after (a_bind (journal_head en) (\<lambda>(head, _). ?rest head)) s (opens_to en es log protection)"
    unfolding after_bind
  proof (rule after_mono [OF journal_head_stored [OF stored]])
    fix t r assume reads: "reads_as en s (length es, next_hash es) t r"
    then have "agrees s t" by (simp add: reads_as_def)
    then have "after (?rest (length es)) t (opens_to en es log protection)" "stored_log en es log protection t"
      by (rule rest, rule stored_log_agrees [OF _ stored])
    with reads show "case r of Inl e \<Rightarrow> opens_to en es log protection t (Inl e)
        | Inr x \<Rightarrow> after ((\<lambda>(head, _). ?rest head) x) t (opens_to en es log protection)"
      by (cases r) (auto simp only: reads_as_def opens_to_def sum.simps prod.case fault_simps split: option.splits)
  qed
  ultimately show ?thesis by (simp add: after_def)
qed

section \<open>Opening\<close>

lemma initialize_marked:
  assumes stored: "stored_log en es log protection s" and configured: "kp_payload_protection en = protection"
  shows "after (initialize_payload_protection en) s (reads_as en s ())"
proof -
  have meta: "meta_entry (cd_of_str en) PAYLOAD_PROTECTION_KEY (jr_database s) = Inr (Some (protection_str protection))"
    using stored by (simp add: stored_log_def database_ok_def meta_ok_def)
  show ?thesis
    unfolding initialize_payload_protection_def Let_def after_bind [of "begin_transaction en"]
    by (rule after_begin_exactI) (cases protection; simp add: meta stored_meta(1) [OF stored] configured
      after_primitive reads_as_def split: option.split)+
qed

lemma fresh_marked:
  assumes b: "cd_of_str en b = Inr (protection_str protection)"
    and anchor: "kp_load_anchor en keys = Inr anchor" "\<And>a. anchor = Some a \<Longrightarrow> anchor_ok [] a"
  shows "database_ok en protection keys
      (empty_database\<lparr>db_metadata := table_insert PAYLOAD_PROTECTION_KEY b (db_metadata empty_database)\<rparr>) []"
    "index_version en (empty_database\<lparr>db_metadata :=
      table_insert PAYLOAD_PROTECTION_KEY b (db_metadata empty_database)\<rparr>) = Inr None"
  using assms
  by (simp_all add: database_ok_def log_ok.log_empty events_ok_def meta_ok_def projections_ok_def keys_ok_def
      empty_database_def last_sequence_def last_hash_def latest_checkpoint_def index_version_def meta_entry_def
      decode_journal_json_def stream_of_def next_hash_def PAYLOAD_PROTECTION_KEY_def STREAM_EVENTS_INDEX_KEY_def)

lemma initialize_fresh:
  assumes lawful: "lawful en" and s: "jr_database s = empty_database" "jr_payload_protection s = protection"
    "kp_payload_protection en = protection" "\<not> jr_recovery_mode s"
    and anchor: "kp_load_anchor en (jr_keys s) = Inr anchor" "\<And>a. anchor = Some a \<Longrightarrow> anchor_ok [] a"
  shows "after (initialize_payload_protection en) s (\<lambda>s' r. case r of
      Inl e \<Rightarrow> fault e | Inr _ \<Rightarrow> stored_log en [] [] protection s')"
proof -
  obtain b where b: "cd_to_str en (protection_str protection) = Inr b" "cd_of_str en b = Inr (protection_str protection)"
    using lawful by (rule lawful_str)
  have commit: "after (a_bind (begin_transaction en) (\<lambda>write. commit_transaction en (write\<lparr>db_metadata :=
      table_insert PAYLOAD_PROTECTION_KEY b (db_metadata write)\<rparr>))) t (\<lambda>s' r. case r of
      Inl e \<Rightarrow> fault e | Inr _ \<Rightarrow> stored_log en [] [] protection s')" if "agrees s t" for t
    unfolding after_bind
  proof (rule after_beginI; simp only: sum.case)
    fix u assume u: "agrees t u"
    show "after (commit_transaction en ((jr_database t)\<lparr>db_metadata :=
        table_insert PAYLOAD_PROTECTION_KEY b (db_metadata (jr_database t))\<rparr>)) u (\<lambda>s' r. case r of
        Inl e \<Rightarrow> fault e | Inr _ \<Rightarrow> stored_log en [] [] protection s')"
    proof (rule after_commitI; simp only: sum.case)
      fix v assume "agrees u v"
      with that u have "agrees s v" by (blast intro: agrees_trans)
      then show "stored_log en [] [] protection (v\<lparr>jr_database := (jr_database t)\<lparr>db_metadata :=
          table_insert PAYLOAD_PROTECTION_KEY b (db_metadata (jr_database t))\<rparr>\<rparr>)"
        using fresh_marked [OF b(2) anchor] s that
        by (simp add: stored_log_def index_state_def agreesD)
    qed simp
  qed simp
  have empty: "meta_entry (cd_of_str en) PAYLOAD_PROTECTION_KEY empty_database = Inr None"
      "last_sequence en empty_database = Inr 0" "db_events empty_database = []"
    by (simp_all add: meta_entry_def last_sequence_def empty_database_def)
  show ?thesis
    unfolding initialize_payload_protection_def Let_def after_bind [of "begin_transaction en"]
    by (rule after_beginI) (simp_all add: empty s(1,3) b(1) adapter_json_def commit)
qed

text \<open>The tables a process may find: those of a journal, or none yet.\<close>

definition holds_log :: "('b, 'k, 'w) JournalEnv \<Rightarrow> 'b Database \<Rightarrow> 'k \<Rightarrow> EventEnvelope list \<Rightarrow> NewEvent list \<Rightarrow> bool" where
  "holds_log en database keys es log \<longleftrightarrow>
     database_ok en (kp_payload_protection en) keys database es \<and> index_state en database es
       \<and> list_all2 (represents en (kp_payload_protection en) keys) es log"

definition intact :: "('b, 'k, 'w) JournalEnv \<Rightarrow> 'b Database \<Rightarrow> 'k \<Rightarrow> EventEnvelope list \<Rightarrow> NewEvent list \<Rightarrow> bool" where
  "intact en database keys es log \<longleftrightarrow> holds_log en database keys es log
     \<or> database = empty_database \<and> es = [] \<and> log = []
       \<and> (\<exists>anchor. kp_load_anchor en keys = Inr anchor \<and> (\<forall>a. anchor = Some a \<longrightarrow> anchor_ok [] a))"

lemma initialize_intact:
  assumes lawful: "lawful en" and intact: "intact en database keys es log"
  shows "after (initialize_payload_protection en) (unverified_journal en database keys mode w) (\<lambda>s' r.
    case r of Inl e \<Rightarrow> fault e | Inr _ \<Rightarrow> stored_log en es log (kp_payload_protection en) s')"
    (is "after _ ?s _")
proof (cases "holds_log en database keys es log")
  case True
  then have "stored_log en es log (kp_payload_protection en) ?s"
    by (simp add: stored_log_def unverified_journal_def holds_log_def)
  then show ?thesis
    by (rule after_mono [OF initialize_marked [OF _ refl]])
      (auto simp: reads_as_def split: option.splits simp: stored_log_agrees [OF _ \<open>stored_log en es log (kp_payload_protection en) ?s\<close>])
next
  case False
  then show ?thesis
    using intact by (auto simp: intact_def unverified_journal_def intro!: initialize_fresh [OF lawful])
qed

definition opened_as :: "('b, 'k, 'w) JournalEnv \<Rightarrow> EventEnvelope list \<Rightarrow> NewEvent list
    \<Rightarrow> (StoreError, ('b, 'k, 'w) RedbEventJournal) result \<Rightarrow> bool" where
  "opened_as en es log r = (case r of
      Inl e \<Rightarrow> fault e
    | Inr s \<Rightarrow> jr_payload_protection s = kp_payload_protection en \<and> (if jr_recovery_mode s
        then \<exists>e. fault e \<and> jr_recovery_reason s = Some (store_error_text e)
          \<and> holds_log en (jr_database s) (jr_keys s) es log
        else shows_log en s es log))"

lemma stored_holds:
  "stored_log en es log (kp_payload_protection en) s \<Longrightarrow> holds_log en (jr_database s) (jr_keys s) es log"
  by (simp add: holds_log_def stored_log_def)

text \<open>The verified startup and what the handle records of it.\<close>

lemma startup_recorded:
  assumes lawful: "lawful en" and stored: "stored_log en es log (kp_payload_protection en) s" and len: "length es < u64_max"
  shows "after (a_bind (a_catch (quarantine_result en (verify_startup en mode))) (\<lambda>startup. case startup of
       Inr _ \<Rightarrow> a_return ()
     | Inl e \<Rightarrow> a_modify (\<lambda>s. s\<lparr>jr_recovery_mode := True, jr_recovery_reason := Some (store_error_text e)\<rparr>))) s
     (\<lambda>s' r. r = Inr () \<and> opened_as en es log (Inr s'))"
  unfolding after_bind after_catch after_quarantine
proof (rule after_mono [OF verify_startup_opens [OF lawful stored len]])
  fix t and r :: "(StoreError, unit) result" assume opens: "opens_to en es log (kp_payload_protection en) t r"
  let ?note_outcome = "\<lambda>startup. case startup of Inr _ \<Rightarrow> a_return ()
     | Inl e \<Rightarrow> a_modify (\<lambda>s. s\<lparr>jr_recovery_mode := True, jr_recovery_reason := Some (store_error_text e)\<rparr>)"
  have "holds_log en (jr_database t) (jr_keys t) es log" "jr_payload_protection t = kp_payload_protection en"
    using opens by (simp_all add: opens_to_def stored_holds) (simp add: stored_log_def)
  then have plain: "after (?note_outcome r) t (\<lambda>s' r. r = Inr () \<and> opened_as en es log (Inr s'))"
    using opens by (auto simp: opens_to_def after_primitive opened_as_def log_kept_def split: sum.splits)
  show "case r of Inl (Verification reason) \<Rightarrow>
        (case Inr r of Inl e \<Rightarrow> Inl e = Inr () \<and> opened_as en es log (Inr (quarantine en reason t))
         | Inr x \<Rightarrow> after (?note_outcome x) (quarantine en reason t) (\<lambda>s' r. r = Inr () \<and> opened_as en es log (Inr s')))
      | _ \<Rightarrow> (case Inr r of Inl e \<Rightarrow> Inl e = Inr () \<and> opened_as en es log (Inr t)
         | Inr x \<Rightarrow> after (?note_outcome x) t (\<lambda>s' r. r = Inr () \<and> opened_as en es log (Inr s')))"
    using opens plain by (cases r) (auto simp: opens_to_def split: StoreError.splits)
qed

lemma open_database_opens:
  assumes lawful: "lawful en" and intact: "intact en database keys es log" and len: "length es < u64_max"
  shows "opened_as en es log (open_database en database keys mode w)"
proof -
  let ?s = "unverified_journal en database keys mode w" and ?p = "kp_payload_protection en"
  have "after (open_steps en mode) ?s (\<lambda>s' r. case r of Inl e \<Rightarrow> fault e | Inr _ \<Rightarrow> opened_as en es log (Inr s'))"
    unfolding open_steps_def after_bind [of "initialize_payload_protection en"]
  proof (rule after_mono [OF initialize_intact [OF lawful intact]])
    fix t and r :: "(StoreError, unit) result"
    assume init: "case r of Inl e \<Rightarrow> fault e | Inr _ \<Rightarrow> stored_log en es log ?p t"
    have recorded: "after (a_bind (a_catch (quarantine_result en (verify_startup en mode))) (\<lambda>startup. case startup of
       Inr _ \<Rightarrow> a_return ()
     | Inl e \<Rightarrow> a_modify (\<lambda>s. s\<lparr>jr_recovery_mode := True, jr_recovery_reason := Some (store_error_text e)\<rparr>))) u
     (\<lambda>s' r. case r of Inl e \<Rightarrow> fault e | Inr _ \<Rightarrow> opened_as en es log (Inr s'))"
      if "stored_log en es log ?p u" for u
      by (rule after_mono [OF startup_recorded [OF lawful that len]]) simp
    show "case r of Inl e \<Rightarrow> (case Inl e of Inl e \<Rightarrow> fault e | Inr x \<Rightarrow> opened_as en es log (Inr t))
      | Inr x \<Rightarrow> after (a_bind (on_world (en_instant en)) (\<lambda>now.
          a_bind (a_modify (\<lambda>s. s\<lparr>jr_last_checkpoint := now\<rparr>)) (\<lambda>_.
          a_bind (a_catch (quarantine_result en (verify_startup en mode))) (\<lambda>startup. case startup of
            Inr _ \<Rightarrow> a_return ()
          | Inl e \<Rightarrow> a_modify (\<lambda>s. s\<lparr>jr_recovery_mode := True, jr_recovery_reason := Some (store_error_text e)\<rparr>))))) t
          (\<lambda>s' r. case r of Inl e \<Rightarrow> fault e | Inr _ \<Rightarrow> opened_as en es log (Inr s'))"
    proof (cases r)
      case (Inr x)
      then have "stored_log en es log ?p t" using init by simp
      then have "stored_log en es log ?p (t\<lparr>jr_world := v, jr_last_checkpoint := now\<rparr>)" for v now
        by (simp add: stored_log_def)
      then show ?thesis
        using Inr recorded
        by (simp add: after_bind [of "on_world _"] after_bind [of "a_modify _"] after_primitive on_world_after
            del: unit_abs_eta_conv split: prod.split)
    qed (use init in simp)
  qed
  then show ?thesis
    by (auto simp: open_database_def after_def opened_as_def split: prod.splits sum.splits)
qed

end
