(* ===== verification/Projections.thy ===== *)
theory Projections
  imports JournalStartup
begin

text \<open>
  The projection store of the journal's database (\<open>journal/projections.rs\<close>): records of named
  projections in one table, keyed by the name, a NUL and the record's key, and an optimistic
  position per projection. A view of a projection is its position and its records; applying
  batches is atomic and touches only the views of the projections it names.
\<close>

section \<open>Batches\<close>

datatype ProjectionMutation = Upsert string json | Delete string

record ProjectionBatch =
  pb_projection :: string
  pb_expected_position :: nat
  pb_through_sequence :: nat
  pb_mutations :: "ProjectionMutation list"

record 'b EncodedProjectionBatch =
  eb_projection :: string
  eb_expected_position :: nat
  eb_through_sequence :: nat
  eb_mutations :: "(string \<times> 'b option) list"

definition encode_mutation ::
    "('b, 'k, 'w) JournalEnv \<Rightarrow> string \<Rightarrow> ProjectionMutation \<Rightarrow> (StoreError, string \<times> 'b option) result" where
  "encode_mutation en projection mutation = (case mutation of
       Upsert key v \<Rightarrow>
         bind_r (projection_record_key projection key) (\<lambda>k.
         bind_r (adapter_json (cd_to_value en v)) (\<lambda>bytes. Inr (k, Some bytes)))
     | Delete key \<Rightarrow> bind_r (projection_record_key projection key) (\<lambda>k. Inr (k, None)))"

definition encode_projection_batch ::
    "('b, 'k, 'w) JournalEnv \<Rightarrow> ProjectionBatch \<Rightarrow> (StoreError, 'b EncodedProjectionBatch) result" where
  "encode_projection_batch en batch =
     bind_r (projection_prefix (pb_projection batch)) (\<lambda>_.
     bind_r (reject_if (pb_through_sequence batch \<le> pb_expected_position batch)
       (StoreAdapter ''projection position must advance'')) (\<lambda>_.
     bind_r (traverse (encode_mutation en (pb_projection batch)) (pb_mutations batch)) (\<lambda>mutations.
     Inr \<lparr>eb_projection = pb_projection batch, eb_expected_position = pb_expected_position batch,
       eb_through_sequence = pb_through_sequence batch, eb_mutations = mutations\<rparr>)))"

section \<open>Reading\<close>

definition durable_position :: "'b Database \<Rightarrow> string \<Rightarrow> nat" where
  "durable_position db projection =
     (case table_get (db_projection_positions db) projection of None \<Rightarrow> 0 | Some n \<Rightarrow> n)"

definition projection_position :: "('b, 'k, 'w) JournalEnv \<Rightarrow> string \<Rightarrow> ('b, 'k, 'w, nat) journal_op" where
  "projection_position en projection =
     a_bind (a_lift (projection_prefix projection)) (\<lambda>_.
     a_bind (begin_transaction en) (\<lambda>db. a_return (durable_position db projection)))"

definition decode_record :: "('b, 'k, 'w) JournalEnv \<Rightarrow> 'b option \<Rightarrow> (StoreError, json option) result" where
  "decode_record en stored = (case stored of None \<Rightarrow> Inr None
     | Some bytes \<Rightarrow> bind_r (adapter_json (cd_of_value en bytes)) (\<lambda>v. Inr (Some v)))"

definition projection_get :: "('b, 'k, 'w) JournalEnv \<Rightarrow> string \<Rightarrow> string \<Rightarrow> ('b, 'k, 'w, json option) journal_op" where
  "projection_get en projection key =
     a_bind (a_lift (projection_record_key projection key)) (\<lambda>namespaced.
     a_bind (begin_transaction en) (\<lambda>db.
     a_lift (decode_record en (table_get (db_projection_records db) namespaced))))"

fun scan_records ::
    "('b, 'k, 'w) JournalEnv \<Rightarrow> string \<Rightarrow> string \<Rightarrow> (string \<times> 'b) list \<Rightarrow> (StoreError, (string \<times> json) list) result" where
  "scan_records en ns key_prefix [] = Inr []"
| "scan_records en ns key_prefix ((stored_key, bytes) # rest) = (case strip_prefix ns stored_key of
       None \<Rightarrow> Inr []
     | Some key \<Rightarrow>
         if \<not> starts_with key_prefix key then Inr []
         else bind_r (adapter_json (cd_of_value en bytes)) (\<lambda>v.
              bind_r (scan_records en ns key_prefix rest) (\<lambda>records. Inr ((key, v) # records))))"

text \<open>Seek to the prefix, or beyond the exclusive cursor.\<close>

definition seek_records ::
    "string \<Rightarrow> string \<Rightarrow> string option \<Rightarrow> (string, 'b) table \<Rightarrow> (string \<times> 'b) list" where
  "seek_records ns key_prefix after_key records = (case after_key of
       Some cursor \<Rightarrow> if key_prefix \<le> cursor
         then filter (\<lambda>e. ns @ cursor < fst e) records else table_from (ns @ key_prefix) records
     | None \<Rightarrow> table_from (ns @ key_prefix) records)"

definition projection_list_after ::
    "('b, 'k, 'w) JournalEnv \<Rightarrow> string \<Rightarrow> string \<Rightarrow> string option \<Rightarrow> nat \<Rightarrow> ('b, 'k, 'w, (string \<times> json) list) journal_op" where
  "projection_list_after en projection key_prefix after_key limit =
     a_bind (a_lift (projection_prefix projection)) (\<lambda>ns.
     a_bind (a_reject (CHR 0x00 \<in> set key_prefix \<or> (case after_key of None \<Rightarrow> False | Some key \<Rightarrow> CHR 0x00 \<in> set key))
       (StoreAdapter ''projection key cursors may not contain NUL'')) (\<lambda>_.
     if limit = 0 then a_return []
     else a_bind (begin_transaction en) (\<lambda>db.
       a_lift (scan_records en ns key_prefix
         (take limit (seek_records ns key_prefix after_key (db_projection_records db)))))))"

definition projection_list ::
    "('b, 'k, 'w) JournalEnv \<Rightarrow> string \<Rightarrow> string \<Rightarrow> nat \<Rightarrow> ('b, 'k, 'w, (string \<times> json) list) journal_op" where
  "projection_list en projection key_prefix limit = projection_list_after en projection key_prefix None limit"

section \<open>Writing\<close>

definition apply_mutation :: "string \<times> 'b option \<Rightarrow> (string, 'b) table \<Rightarrow> (string, 'b) table" where
  "apply_mutation = (\<lambda>(key, v) records. case v of
       Some bytes \<Rightarrow> table_insert key bytes records | None \<Rightarrow> table_remove key records)"

definition apply_encoded :: "'b EncodedProjectionBatch \<Rightarrow> 'b Database \<Rightarrow> (StoreError, 'b Database) result" where
  "apply_encoded batch db =
     (let actual = durable_position db (eb_projection batch)
      in bind_r (reject_if (actual \<noteq> eb_expected_position batch)
           (Conflict (''projection:'' @ eb_projection batch) (eb_expected_position batch) actual)) (\<lambda>_.
         Inr (db\<lparr>db_projection_records := fold apply_mutation (eb_mutations batch) (db_projection_records db),
           db_projection_positions := table_insert (eb_projection batch) (eb_through_sequence batch)
             (db_projection_positions db)\<rparr>)))"

definition projection_apply_all ::
    "('b, 'k, 'w) JournalEnv \<Rightarrow> ProjectionBatch list \<Rightarrow> ('b, 'k, 'w, unit) journal_op" where
  "projection_apply_all en batches =
     (if batches = [] then a_return ()
      else
        a_bind (a_lift (traverse (encode_projection_batch en) batches)) (\<lambda>encoded.
        a_bind (begin_transaction en) (\<lambda>db.
        a_bind (a_lift (fold_r apply_encoded encoded db)) (commit_transaction en))))"

definition projection_apply ::
    "('b, 'k, 'w) JournalEnv \<Rightarrow> ProjectionBatch \<Rightarrow> ('b, 'k, 'w, unit) journal_op" where
  "projection_apply en batch = projection_apply_all en [batch]"

definition reset_projection :: "string \<Rightarrow> string \<Rightarrow> 'b Database \<Rightarrow> 'b Database" where
  "reset_projection projection ns db =
     (let keys = map fst (takeWhile (\<lambda>e. starts_with ns (fst e)) (table_from ns (db_projection_records db)))
      in db\<lparr>db_projection_records := fold table_remove keys (db_projection_records db),
           db_projection_positions := table_remove projection (db_projection_positions db)\<rparr>)"

definition projection_reset :: "('b, 'k, 'w) JournalEnv \<Rightarrow> string \<Rightarrow> ('b, 'k, 'w, unit) journal_op" where
  "projection_reset en projection =
     a_bind (a_lift (projection_prefix projection)) (\<lambda>ns.
     a_bind (begin_transaction en) (\<lambda>db.
     commit_transaction en (reset_projection projection ns db)))"

section \<open>Keys with one prefix are contiguous\<close>

lemma prefix_between:
  fixes x y z :: string
  assumes "prefix p x" "prefix p z" "x \<le> y" "y \<le> z"
  shows "prefix p y"
  using assms
proof (induction p arbitrary: x y z)
  case (Cons c p)
  obtain x' where x: "x = c # x'" "prefix p x'" using Cons.prems(1) by (cases x) simp_all
  obtain z' where z: "z = c # z'" "prefix p z'" using Cons.prems(2) by (cases z) simp_all
  obtain d y' where y: "y = d # y'" using Cons.prems(3) x(1) by (cases y) auto
  have "d = c" "x' \<le> y'" "y' \<le> z'"
    using Cons.prems(3,4) unfolding x(1) y z(1) by auto
  then show ?case using Cons.IH [OF x(2) z(2)] y by simp
qed simp

lemma append_le_iff: "(p @ x :: string) \<le> p @ y \<longleftrightarrow> x \<le> y"
  by (induction p) auto

lemma append_less_iff: "(p @ x :: string) < p @ y \<longleftrightarrow> x < y"
  by (induction p) auto

text \<open>From an element with the prefix on, those with the prefix come first.\<close>

lemma prefix_le: "prefix p (x :: string) \<Longrightarrow> p \<le> x"
proof (induction p arbitrary: x)
  case (Cons c p)
  then show ?case by (cases x) simp_all
qed simp

lemma prefix_run:
  fixes p :: string
  assumes "table_ok t" "\<And>e. e \<in> set t \<Longrightarrow> p \<le> fst e"
  shows "takeWhile (\<lambda>e. prefix p (fst e)) t = filter (\<lambda>e. prefix p (fst e)) t"
  using assms
proof (induction t)
  case (Cons e t)
  show ?case
  proof (cases "prefix p (fst e)")
    case False
    have "\<not> prefix p (fst x)" if "x \<in> set t" for x
    proof
      assume "prefix p (fst x)"
      moreover have "p \<le> fst e" "fst e \<le> fst x" using Cons.prems that by (simp_all add: less_imp_le)
      ultimately show False using prefix_between [of p p] False by blast
    qed
    then show ?thesis using False by (simp add: filter_empty_conv)
  qed (use Cons in simp)
qed simp

lemma takeWhile_take: "takeWhile P (take n xs) = take n (takeWhile P xs)"
  by (induction xs arbitrary: n) (auto simp: take_Cons split: nat.split)

section \<open>A page of records\<close>

text \<open>The records of one projection under its own keys, in key order.\<close>

definition projection_rows :: "string \<Rightarrow> (string, 'b) table \<Rightarrow> (string \<times> 'b) list" where
  "projection_rows ns records =
     map (\<lambda>e. (drop (length ns) (fst e), snd e)) (filter (\<lambda>e. prefix ns (fst e)) records)"

definition decode_rows ::
    "('b, 'k, 'w) JournalEnv \<Rightarrow> (string \<times> 'b) list \<Rightarrow> (StoreError, (string \<times> json) list) result" where
  "decode_rows en = traverse (\<lambda>(key, bytes). bind_r (adapter_json (cd_of_value en bytes)) (\<lambda>v. Inr (key, v)))"

definition in_page :: "string \<Rightarrow> string option \<Rightarrow> string \<Rightarrow> bool" where
  "in_page key_prefix after_key key \<longleftrightarrow> prefix key_prefix key
     \<and> (case after_key of None \<Rightarrow> True | Some cursor \<Rightarrow> cursor < key)"

lemma bind_r_assoc: "bind_r (bind_r m f) g = bind_r m (\<lambda>x. bind_r (f x) g)"
  by (cases m) simp_all

lemma scan_records_run:
  "scan_records en ns key_prefix t = decode_rows en (map (\<lambda>e. (drop (length ns) (fst e), snd e))
     (takeWhile (\<lambda>e. prefix (ns @ key_prefix) (fst e)) t))"
proof (induction t)
  case (Cons e t)
  obtain k b where e: "e = (k, b)" by (cases e)
  show ?case
  proof (cases "prefix ns k")
    case True
    then obtain key where key: "k = ns @ key" by (auto simp: prefix_def)
    then have "strip_prefix ns k = Some key" by simp
    then show ?thesis
      using Cons by (simp add: e key decode_rows_def bind_r_assoc del: strip_prefix_Some_iff)
  next
    case False
    moreover have "\<not> prefix (ns @ key_prefix) k" using False append_prefixD by blast
    ultimately show ?thesis by (simp add: e decode_rows_def strip_prefix_def)
  qed
qed (simp add: decode_rows_def)

lemma seek_records_run:
  assumes "table_ok records"
  shows "takeWhile (\<lambda>e. prefix (ns @ key_prefix) (fst e)) (seek_records ns key_prefix after_key records)
    = filter (\<lambda>e. prefix ns (fst e) \<and> in_page key_prefix after_key (drop (length ns) (fst e))) records"
proof -
  let ?p = "ns @ key_prefix" and ?t = "seek_records ns key_prefix after_key records"
  have "table_ok ?t" using assms by (auto simp: seek_records_def split: option.split)
  moreover have "?p \<le> fst e" if "e \<in> set ?t" for e
  proof -
    have "?p \<le> ns @ cursor" if "key_prefix \<le> cursor" for cursor using that by (simp add: append_le_iff)
    then show ?thesis using that by (force simp: seek_records_def table_from_def split: option.splits if_splits)
  qed
  ultimately have "takeWhile (\<lambda>e. prefix ?p (fst e)) ?t = filter (\<lambda>e. prefix ?p (fst e)) ?t"
    by (rule prefix_run)
  also have "\<dots> = filter (\<lambda>e. prefix ns (fst e) \<and> in_page key_prefix after_key (drop (length ns) (fst e))) records"
  proof -
    have seek: "?t = filter (\<lambda>e. case after_key of Some cursor \<Rightarrow> if key_prefix \<le> cursor then ns @ cursor < fst e
         else ?p \<le> fst e | None \<Rightarrow> ?p \<le> fst e) records"
      by (cases after_key) (simp_all add: seek_records_def table_from_def)
    have same: "(case after_key of Some cursor \<Rightarrow> if key_prefix \<le> cursor then ns @ cursor < k else ?p \<le> k
         | None \<Rightarrow> ?p \<le> k) \<and> prefix ?p k
       \<longleftrightarrow> prefix ns k \<and> in_page key_prefix after_key (drop (length ns) k)" for k
    proof (cases "prefix ns k")
      case True
      then obtain key where k: "k = ns @ key" by (auto simp: prefix_def)
      have "cursor < key" if "prefix key_prefix key" "\<not> key_prefix \<le> cursor" for cursor
        using that prefix_le [of key_prefix key] by simp
      then show ?thesis
        using prefix_le [of key_prefix key]
        by (auto simp: k in_page_def append_less_iff append_le_iff split: option.split)
    next
      case False
      then show ?thesis using append_prefixD by blast
    qed
    show ?thesis unfolding seek filter_filter same ..
  qed
  finally show ?thesis .
qed

text \<open>A page is the first records of the projection that match, in key order.\<close>

lemma page_exact:
  assumes "table_ok records"
  shows "scan_records en ns key_prefix (take limit (seek_records ns key_prefix after_key records))
    = decode_rows en (take limit (filter (\<lambda>row. in_page key_prefix after_key (fst row)) (projection_rows ns records)))"
  by (simp add: scan_records_run takeWhile_take seek_records_run [OF assms] projection_rows_def filter_map comp_def
      take_map [symmetric])

end
