(* ===== verification/ProjectionViews.thy ===== *)
theory ProjectionViews
  imports Projections JournalAppend
begin

text \<open>
  What the projection store promises: every projection is a position and a map from keys to
  encoded records, a transaction applies all batches or none, and projections do not see each
  other although their records share one table.
\<close>

section \<open>Views\<close>

text \<open>Names and keys as the code accepts them.\<close>

definition plain_name :: "string \<Rightarrow> bool" where
  "plain_name s \<longleftrightarrow> s \<noteq> [] \<and> CHR 0x00 \<notin> set s"

type_synonym 'b view = "nat \<times> (string \<Rightarrow> 'b option)"

definition own_records :: "string \<Rightarrow> (string \<Rightarrow> 'b option) \<Rightarrow> string \<Rightarrow> 'b option" where
  "own_records projection f = (\<lambda>key. if plain_name key then f (projection @ [CHR 0x00] @ key) else None)"

definition projection_view :: "'b Database \<Rightarrow> string \<Rightarrow> 'b view" where
  "projection_view db projection =
     (if plain_name projection
      then (durable_position db projection, own_records projection (table_get (db_projection_records db)))
      else (0, Map.empty))"

definition view_mutation ::
    "('b, 'k, 'w) JournalEnv \<Rightarrow> ProjectionMutation \<Rightarrow> (string \<Rightarrow> 'b option) \<Rightarrow> string \<Rightarrow> 'b option" where
  "view_mutation en mutation records = (case mutation of
       Upsert key v \<Rightarrow> records(key := Some (projr (cd_to_value en v)))
     | Delete key \<Rightarrow> records(key := None))"

text \<open>The abstract store: a batch moves one projection on, if it is where the batch expects it.\<close>

definition view_apply ::
    "('b, 'k, 'w) JournalEnv \<Rightarrow> ProjectionBatch \<Rightarrow> (string \<Rightarrow> 'b view) \<Rightarrow> (StoreError, string \<Rightarrow> 'b view) result" where
  "view_apply en batch views =
     (let projection = pb_projection batch; view = views projection
      in if fst view \<noteq> pb_expected_position batch
         then Inl (Conflict (''projection:'' @ projection) (pb_expected_position batch) (fst view))
         else Inr (views(projection := (pb_through_sequence batch,
           fold (view_mutation en) (pb_mutations batch) (snd view)))))"

definition acceptable_batch :: "('b, 'k, 'w) JournalEnv \<Rightarrow> ProjectionBatch \<Rightarrow> bool" where
  "acceptable_batch en batch \<longleftrightarrow> plain_name (pb_projection batch)
     \<and> pb_expected_position batch < pb_through_sequence batch
     \<and> (\<forall>mutation \<in> set (pb_mutations batch). case mutation of
          Upsert key v \<Rightarrow> plain_name key \<and> is_ok (cd_to_value en v) | Delete key \<Rightarrow> plain_name key)"

section \<open>Encoding\<close>

lemma projection_record_key_ok:
  "projection_record_key projection key = Inr k
     \<longleftrightarrow> plain_name projection \<and> plain_name key \<and> k = projection @ [CHR 0x00] @ key"
  by (auto simp: projection_record_key_def plain_name_def)

lemma projection_prefix_ok: "projection_prefix projection = Inr ns \<longleftrightarrow> plain_name projection \<and> ns = projection @ [CHR 0x00]"
  by (auto simp: projection_prefix_def plain_name_def)

lemma encode_mutation_ok:
  "encode_mutation en projection mutation = Inr m \<longleftrightarrow> plain_name projection \<and> (case mutation of
      Upsert key v \<Rightarrow> plain_name key \<and> (\<exists>b. cd_to_value en v = Inr b \<and> m = (projection @ [CHR 0x00] @ key, Some b))
    | Delete key \<Rightarrow> plain_name key \<and> m = (projection @ [CHR 0x00] @ key, None))"
  by (cases mutation)
    (auto simp: encode_mutation_def bind_r_Inr_iff projection_record_key_ok adapter_json_def map_err_Inr_iff)

lemma projection_name_faults:
  "projection_prefix projection = Inl e \<Longrightarrow> fault e" "projection_record_key projection key = Inl e \<Longrightarrow> fault e"
  by (auto simp: projection_prefix_def projection_record_key_def split: if_splits)

lemma traverse_Inl: "traverse f xs = Inl e \<Longrightarrow> \<exists>x \<in> set xs. f x = Inl e"
  by (induction xs) (auto simp: bind_r_def split: sum.splits)

lemma encode_batch_fault:
  assumes "encode_projection_batch en batch = Inl e"
  shows "fault e"
proof -
  have "fault e" if "encode_mutation en p m = Inl e" for p m
    using that by (auto simp: encode_mutation_def bind_r_def projection_name_faults
        split: ProjectionMutation.splits sum.splits)
  then show ?thesis
    using assms traverse_Inl [of "encode_mutation en (pb_projection batch)" "pb_mutations batch" e]
    by (auto simp: encode_projection_batch_def bind_r_def reject_if_def projection_name_faults
        split: sum.splits if_splits)
qed

lemma encode_batch_ok:
  assumes "encode_projection_batch en batch = Inr eb"
  shows "acceptable_batch en batch" "eb_projection eb = pb_projection batch"
    "eb_expected_position eb = pb_expected_position batch" "eb_through_sequence eb = pb_through_sequence batch"
    "traverse (encode_mutation en (pb_projection batch)) (pb_mutations batch) = Inr (eb_mutations eb)"
proof -
  obtain ms where ms: "traverse (encode_mutation en (pb_projection batch)) (pb_mutations batch) = Inr ms"
    and eb: "eb = \<lparr>eb_projection = pb_projection batch, eb_expected_position = pb_expected_position batch,
       eb_through_sequence = pb_through_sequence batch, eb_mutations = ms\<rparr>"
    and name: "plain_name (pb_projection batch)" "pb_expected_position batch < pb_through_sequence batch"
    using assms by (auto simp: encode_projection_batch_def bind_r_Inr_iff projection_prefix_ok)
  have "\<exists>x. encode_mutation en (pb_projection batch) m = Inr x" if "m \<in> set (pb_mutations batch)" for m
    using ms that by (auto simp: traverse_Inr_iff list_all2_conv_all_nth in_set_conv_nth)
  then show "acceptable_batch en batch"
    using name by (fastforce simp: acceptable_batch_def encode_mutation_ok is_ok_iff split: ProjectionMutation.splits)
  show "eb_projection eb = pb_projection batch" "eb_expected_position eb = pb_expected_position batch"
    "eb_through_sequence eb = pb_through_sequence batch"
    "traverse (encode_mutation en (pb_projection batch)) (pb_mutations batch) = Inr (eb_mutations eb)"
    using ms eb by simp_all
qed

section \<open>Applying\<close>

lemma namespaced_inject:
  assumes "plain_name p" "plain_name q"
  shows "p @ [CHR 0x00] @ k = q @ [CHR 0x00] @ k' \<longleftrightarrow> p = q \<and> k = k'"
proof
  have take: "takeWhile (\<lambda>c. c \<noteq> CHR 0x00) (r @ [CHR 0x00] @ x) = r" if "plain_name r" for r x
    using that by (subst takeWhile_append2) (auto simp: plain_name_def)
  assume "p @ [CHR 0x00] @ k = q @ [CHR 0x00] @ k'"
  then show "p = q \<and> k = k'" using take [OF assms(1)] take [OF assms(2)] by (metis append_same_eq same_append_eq)
qed simp

definition put_entry :: "string \<times> 'b option \<Rightarrow> (string \<Rightarrow> 'b option) \<Rightarrow> string \<Rightarrow> 'b option" where
  "put_entry m f = f(fst m := snd m)"

lemma apply_mutation_get:
  assumes "table_ok records"
  shows "table_ok (apply_mutation m records)" "table_get (apply_mutation m records) = put_entry m (table_get records)"
  using assms by (cases m; cases "snd m"; simp add: apply_mutation_def put_entry_def)+

lemma apply_mutations_get:
  assumes "table_ok records"
  shows "table_ok (fold apply_mutation ms records)
    \<and> table_get (fold apply_mutation ms records) = fold put_entry ms (table_get records)"
  using assms by (induction ms arbitrary: records) (simp_all add: apply_mutation_get)

text \<open>The mutations of one projection change its view and no other.\<close>

lemma mutations_view:
  assumes "list_all2 (\<lambda>m e. encode_mutation en p m = Inr e) mutations ms"
  shows "own_records p (fold put_entry ms g) = fold (view_mutation en) mutations (own_records p g)"
  using assms
proof (induction arbitrary: g rule: list_all2_induct)
  case (Cons m ms e es)
  have "own_records p (put_entry e g) = view_mutation en m (own_records p g)"
    using Cons.hyps(1) by (cases m) (auto simp: encode_mutation_ok view_mutation_def own_records_def put_entry_def)
  then show ?case using Cons.IH [of "put_entry e g"] by simp
qed simp

lemma mutations_other:
  assumes "list_all2 (\<lambda>m e. encode_mutation en p m = Inr e) mutations ms" "plain_name q" "q \<noteq> p"
  shows "own_records q (fold put_entry ms g) = own_records q g"
  using assms(1)
proof (induction arbitrary: g rule: list_all2_induct)
  case (Cons m ms e es)
  then obtain k where "plain_name p" "fst e = p @ [CHR 0x00] @ k"
    by (cases m) (auto simp: encode_mutation_ok)
  then have "fst e \<noteq> q @ [CHR 0x00] @ key" for key using namespaced_inject [of p q] assms(2,3) by metis
  then have "own_records q (put_entry e g) = own_records q g"
    unfolding own_records_def put_entry_def by (intro ext) (metis fun_upd_other)
  then show ?case using Cons.IH [of "put_entry e g"] by simp
qed simp

text \<open>Only the tables of the projections differ.\<close>

definition projections_only :: "'b Database \<Rightarrow> 'b Database \<Rightarrow> bool" where
  "projections_only db db' \<longleftrightarrow> (\<exists>records positions.
     db' = db\<lparr>db_projection_records := records, db_projection_positions := positions\<rparr>)"

lemma projections_only_refl [simp]: "projections_only db db"
  unfolding projections_only_def by (intro exI [of _ "db_projection_records db"] exI [of _ "db_projection_positions db"]) simp

lemma projections_only_trans: "projections_only a b \<Longrightarrow> projections_only b c \<Longrightarrow> projections_only a c"
  unfolding projections_only_def by (elim exE, hypsubst, simp, blast)

definition projections_sorted :: "'b Database \<Rightarrow> bool" where
  "projections_sorted db \<longleftrightarrow> table_ok (db_projection_positions db) \<and> table_ok (db_projection_records db)"

lemma apply_encoded_view:
  assumes sorted: "projections_sorted db" and eb: "encode_projection_batch en batch = Inr eb"
    and db': "apply_encoded eb db = Inr db'"
  shows "view_apply en batch (projection_view db) = Inr (projection_view db')" "projections_sorted db'"
    "projections_only db db'"
proof -
  let ?p = "pb_projection batch"
  note enc = encode_batch_ok [OF eb]
  have all: "list_all2 (\<lambda>m e. encode_mutation en ?p m = Inr e) (pb_mutations batch) (eb_mutations eb)"
    using enc(5) by (simp add: traverse_Inr_iff)
  have plain: "plain_name ?p" using enc(1) by (simp add: acceptable_batch_def)
  have step: "durable_position db ?p = pb_expected_position batch"
      "db' = db\<lparr>db_projection_records := fold apply_mutation (eb_mutations eb) (db_projection_records db),
        db_projection_positions := table_insert ?p (pb_through_sequence batch) (db_projection_positions db)\<rparr>"
    using db' enc(2-4) by (auto simp: apply_encoded_def Let_def bind_r_Inr_iff)
  note get = apply_mutations_get [of "db_projection_records db" "eb_mutations eb"]
  show "projections_sorted db'" using sorted get by (simp add: projections_sorted_def step(2))
  have "projection_view db' q = ((projection_view db)(?p := (pb_through_sequence batch,
      fold (view_mutation en) (pb_mutations batch) (snd (projection_view db ?p))))) q" for q
  proof (cases "q = ?p")
    case True
    then show ?thesis
      using sorted get plain mutations_view [OF all, of "table_get (db_projection_records db)"]
      by (simp add: projection_view_def step(2) projections_sorted_def durable_position_def)
  next
    case False
    then show ?thesis
      using sorted get mutations_other [OF all _ False]
      by (simp add: projection_view_def step(2) projections_sorted_def durable_position_def)
  qed
  then show "view_apply en batch (projection_view db) = Inr (projection_view db')"
    using step(1) plain by (auto simp: view_apply_def Let_def projection_view_def)
  show "projections_only db db'"
    unfolding projections_only_def step(2) by blast
qed

lemma apply_encoded_error:
  assumes "encode_projection_batch en batch = Inr eb" "apply_encoded eb db = Inl e"
  shows "view_apply en batch (projection_view db) = Inl e"
  using assms encode_batch_ok [OF assms(1)]
  by (auto simp: apply_encoded_def Let_def view_apply_def projection_view_def acceptable_batch_def reject_if_def
      split: if_splits)

lemma apply_all_view:
  assumes "projections_sorted db" "list_all2 (\<lambda>b e. encode_projection_batch en b = Inr e) batches ebs"
  shows "case fold_r apply_encoded ebs db of
      Inl e \<Rightarrow> fold_r (view_apply en) batches (projection_view db) = Inl e
    | Inr db' \<Rightarrow> fold_r (view_apply en) batches (projection_view db) = Inr (projection_view db')
        \<and> projections_sorted db'
        \<and> projections_only db db'"
  using assms(2,1)
proof (induction arbitrary: db rule: list_all2_induct)
  case (Cons batch batches eb ebs)
  show ?case
  proof (cases "apply_encoded eb db")
    case (Inl e)
    then show ?thesis using apply_encoded_error [OF Cons.hyps(1)] by simp
  next
    case (Inr db')
    note step = apply_encoded_view [OF Cons.prems Cons.hyps(1) Inr]
    show ?thesis
      using Cons.IH [OF step(2)] step(1,3) Inr
      by (auto intro: projections_only_trans split: sum.splits)
  qed
qed (cases db, simp)

section \<open>Transactions\<close>

text \<open>Only the tables of the projections change.\<close>

definition projections_changed :: "('b, 'k, 'w) RedbEventJournal \<Rightarrow> ('b, 'k, 'w) RedbEventJournal \<Rightarrow> bool" where
  "projections_changed s s' \<longleftrightarrow> projections_sorted (jr_database s')
     \<and> projections_only (jr_database s) (jr_database s')
     \<and> (\<exists>w. s' = s\<lparr>jr_world := w, jr_database := jr_database s'\<rparr>)"

definition applied_views ::
    "('b, 'k, 'w) JournalEnv \<Rightarrow> ProjectionBatch list \<Rightarrow> ('b, 'k, 'w) RedbEventJournal
      \<Rightarrow> ('b, 'k, 'w) RedbEventJournal \<Rightarrow> (StoreError, unit) result \<Rightarrow> bool" where
  "applied_views en batches s s' r = (case r of
       Inl e \<Rightarrow> agrees s s' \<and> (fault e \<or> fold_r (view_apply en) batches (projection_view (jr_database s)) = Inl e)
     | Inr _ \<Rightarrow> projections_changed s s'
         \<and> fold_r (view_apply en) batches (projection_view (jr_database s)) = Inr (projection_view (jr_database s')))"

lemma commit_projections:
  assumes only: "projections_only (jr_database s) db'" and sorted: "projections_sorted db'" and agr: "agrees s t"
  shows "after (commit_transaction en db') t (\<lambda>s' r. case r of Inl e \<Rightarrow> agrees s s' \<and> fault e
    | Inr _ \<Rightarrow> projections_changed s s' \<and> jr_database s' = db')"
proof (rule after_commitI)
  fix s' m assume "agrees t s'"
  with agr show "case Inl (StoreAdapter m) of Inl e \<Rightarrow> agrees s s' \<and> fault e
      | Inr _ \<Rightarrow> projections_changed s s' \<and> jr_database s' = db'" by (auto intro: agrees_trans)
next
  fix s' assume "agrees t s'"
  with agr have "agrees s s'" by (rule agrees_trans)
  then obtain w where "s' = s\<lparr>jr_world := w\<rparr>" by (auto simp: agrees_def)
  then show "case Inr () of Inl e \<Rightarrow> agrees s (s'\<lparr>jr_database := db'\<rparr>) \<and> fault e
      | Inr _ \<Rightarrow> projections_changed s (s'\<lparr>jr_database := db'\<rparr>) \<and> jr_database (s'\<lparr>jr_database := db'\<rparr>) = db'"
    using only sorted by (auto simp: projections_changed_def)
qed

lemma apply_all_after:
  assumes sorted: "projections_sorted (jr_database s)"
  shows "after (projection_apply_all en batches) s (applied_views en batches s)"
proof (cases "batches = []")
  case True
  have "s = s\<lparr>jr_world := jr_world s, jr_database := jr_database s\<rparr>" by simp
  then have "projections_changed s s" using sorted projections_only_refl unfolding projections_changed_def by blast
  then show ?thesis using True by (simp add: projection_apply_all_def applied_views_def after_primitive)
next
  case False
  show ?thesis
  proof (cases "traverse (encode_projection_batch en) batches")
    case (Inl e)
    then have "fault e" using traverse_Inl [OF Inl] encode_batch_fault by blast
    then show ?thesis
      using False Inl by (simp add: projection_apply_all_def applied_views_def after_bind after_primitive)
  next
    case (Inr ebs)
    then have ebs: "list_all2 (\<lambda>b e. encode_projection_batch en b = Inr e) batches ebs"
      by (simp add: traverse_Inr_iff)
    note applied = apply_all_view [OF sorted ebs]
    have commit: "after (a_bind (a_lift (fold_r apply_encoded ebs (jr_database s))) (commit_transaction en)) t
        (applied_views en batches s)" if "agrees s t" for t
    proof (cases "fold_r apply_encoded ebs (jr_database s)")
      case (Inl e)
      then show ?thesis using applied that by (simp add: after_primitive applied_views_def)
    next
      case (Inr db')
      then show ?thesis
        using applied that
        by (auto simp: applied_views_def intro!: after_mono [OF commit_projections [of s db' t]]
            split: sum.splits)
    qed
    show ?thesis
      unfolding projection_apply_all_def if_not_P [OF False] Inr a_bind_simps after_bind [of "begin_transaction en"]
      by (rule after_beginI) (use commit in \<open>auto simp: applied_views_def\<close>)
  qed
qed

text \<open>Resetting a projection empties its view.\<close>

lemma fold_remove:
  "table_get (fold table_remove keys t) k = (if k \<in> set keys then None else table_get t k)"
  by (induction keys arbitrary: t) auto

lemma fold_remove_ok: "table_ok t \<Longrightarrow> table_ok (fold table_remove keys t)"
  by (induction keys arbitrary: t) simp_all

lemma reset_view:
  assumes sorted: "projections_sorted db" and p: "plain_name p"
  shows "projection_view (reset_projection p (p @ [CHR 0x00]) db) = (projection_view db)(p := (0, Map.empty))"
    "projections_sorted (reset_projection p (p @ [CHR 0x00]) db)"
proof -
  let ?ns = "p @ [CHR 0x00]" and ?records = "db_projection_records db"
  let ?keys = "map fst (takeWhile (\<lambda>e. prefix ?ns (fst e)) (table_from ?ns ?records))"
  have ok: "table_ok ?records" using sorted by (simp add: projections_sorted_def)
  have "takeWhile (\<lambda>e. prefix ?ns (fst e)) (table_from ?ns ?records)
      = filter (\<lambda>e. prefix ?ns (fst e)) (table_from ?ns ?records)"
    using ok by (intro prefix_run) (auto simp: table_from_def)
  then have keys: "set ?keys = {k \<in> fst ` set ?records. prefix ?ns k}"
    using prefix_le [of ?ns] by (auto simp: table_from_def)
  have records: "table_get (fold table_remove ?keys ?records) k = (if prefix ?ns k then None else table_get ?records k)" for k
    unfolding fold_remove keys by (auto simp: map_of_eq_None_iff)
  have other: "\<not> prefix ?ns (q @ [CHR 0x00] @ key)" if "plain_name q" "q \<noteq> p" for q key
  proof
    assume "prefix ?ns (q @ [CHR 0x00] @ key)"
    then obtain k where "p @ [CHR 0x00] @ k = q @ [CHR 0x00] @ key" by (auto simp: prefix_def)
    then show False using namespaced_inject [OF p that(1)] that(2) by blast
  qed
  have "projection_view (reset_projection p ?ns db) q = ((projection_view db)(p := (0, Map.empty))) q" for q
    using p other [of q] sorted
    by (auto simp: projection_view_def reset_projection_def Let_def durable_position_def own_records_def
        projections_sorted_def records fun_eq_iff)
  then show "projection_view (reset_projection p ?ns db) = (projection_view db)(p := (0, Map.empty))" by blast
  show "projections_sorted (reset_projection p ?ns db)"
    using sorted by (simp add: projections_sorted_def reset_projection_def Let_def fold_remove_ok)
qed

lemma reset_after:
  assumes sorted: "projections_sorted (jr_database s)" and p: "plain_name p"
  shows "after (projection_reset en p) s (\<lambda>s' r. case r of
      Inl e \<Rightarrow> agrees s s' \<and> fault e
    | Inr _ \<Rightarrow> projections_changed s s'
        \<and> projection_view (jr_database s') = (projection_view (jr_database s))(p := (0, Map.empty)))"
proof -
  have ns: "projection_prefix p = Inr (p @ [CHR 0x00])" using p by (simp add: projection_prefix_ok)
  let ?db = "reset_projection p (p @ [CHR 0x00]) (jr_database s)"
  have same: "projections_only (jr_database s) ?db"
    unfolding projections_only_def reset_projection_def Let_def by blast
  have commit: "after (commit_transaction en ?db) t (\<lambda>s' r. case r of
      Inl e \<Rightarrow> agrees s s' \<and> fault e
    | Inr _ \<Rightarrow> projections_changed s s'
        \<and> projection_view (jr_database s') = (projection_view (jr_database s))(p := (0, Map.empty)))" if "agrees s t" for t
    by (rule after_mono [OF commit_projections [OF same reset_view(2) [OF sorted p] that]])
      (auto simp: reset_view(1) [OF sorted p] split: sum.splits)
  show ?thesis
    unfolding projection_reset_def ns a_bind_simps after_bind [of "begin_transaction en"]
    by (rule after_beginI) (use commit in auto)
qed

section \<open>Pages\<close>

lemma list_after_page:
  assumes sorted: "table_ok (db_projection_records (jr_database s))"
    and plain: "plain_name p" "CHR 0x00 \<notin> set key_prefix" "\<And>cursor. after_key = Some cursor \<Longrightarrow> CHR 0x00 \<notin> set cursor"
  shows "after (projection_list_after en p key_prefix after_key limit) s (\<lambda>s' r. agrees s s'
    \<and> r = (if limit = 0 then Inr [] else case snd (en_begin en (jr_world s)) of
         Some m \<Rightarrow> Inl (StoreAdapter m)
       | None \<Rightarrow> decode_rows en (take limit (filter (\<lambda>row. in_page key_prefix after_key (fst row))
           (projection_rows (p @ [CHR 0x00]) (db_projection_records (jr_database s)))))))"
proof -
  have ns: "projection_prefix p = Inr (p @ [CHR 0x00])" using plain by (simp add: projection_prefix_ok)
  have cursor: "\<not> (CHR 0x00 \<in> set key_prefix \<or> (case after_key of None \<Rightarrow> False | Some key \<Rightarrow> CHR 0x00 \<in> set key))"
    using plain by (auto split: option.split)
  show ?thesis
  proof (cases "limit = 0")
    case True
    then show ?thesis
      using cursor by (simp add: projection_list_after_def ns after_bind after_primitive)
  next
    case False
    then show ?thesis
      using cursor
      by (auto simp: projection_list_after_def ns action_simps begin_transaction_def agrees_def
          page_exact [OF sorted] split: prod.split option.split)
  qed
qed

end
