(* ===== verification/JournalRuns.thy ===== *)
theory JournalRuns
  imports JournalHistory JournalOpening ProjectionViews
begin

text \<open>
  Whole lives of a journal: a database is created, opened, operated on through the handle, and
  opened again, any number of times. The services of the environment may fail at every step, so
  a run also covers a process that stops between two of its effects.
\<close>

section \<open>Calls and runs\<close>

datatype JournalCall =
    CallAppend "NewEvent list"
  | CallCheckpoint
  | CallVerify
  | CallReadStream string
  | CallReadStreamFrom string nat nat
  | CallReadStreamBackwards string "nat option" nat
  | CallListStreamIds string "string option" nat
  | CallReadGlobal nat nat
  | CallReadProjectionWork nat nat
  | CallHead
  | CallDecryptPayload EventEnvelope
  | CallPosition string
  | CallGet string string
  | CallListAfter string string "string option" nat
  | CallApply "ProjectionBatch list"
  | CallReset string

text \<open>The result of a call does not matter to the run, only whether it failed.\<close>

definition discard :: "('b, 'k, 'w, 'a) journal_op \<Rightarrow> ('b, 'k, 'w, unit) journal_op" where
  "discard m = a_bind m (\<lambda>_. a_return ())"

fun journal_call :: "('b, 'k, 'w) JournalEnv \<Rightarrow> JournalCall \<Rightarrow> ('b, 'k, 'w, unit) journal_op" where
  "journal_call en (CallAppend events) = discard (append_batch en events)"
| "journal_call en CallCheckpoint = discard (journal_checkpoint en)"
| "journal_call en CallVerify = discard (verify_journal en)"
| "journal_call en (CallReadStream stream) = discard (read_stream en stream)"
| "journal_call en (CallReadStreamFrom stream n limit) = discard (read_stream_from en stream n limit)"
| "journal_call en (CallReadStreamBackwards stream before limit) = discard (read_stream_backwards en stream before limit)"
| "journal_call en (CallListStreamIds pre cursor limit) = discard (list_stream_ids en pre cursor limit)"
| "journal_call en (CallReadGlobal n limit) = discard (read_global en n limit)"
| "journal_call en (CallReadProjectionWork n limit) = discard (read_projection_work en n limit)"
| "journal_call en CallHead = discard (journal_head en)"
| "journal_call en (CallDecryptPayload event) = discard (decrypt_payload en event)"
| "journal_call en (CallPosition projection) = discard (projection_position en projection)"
| "journal_call en (CallGet projection key) = discard (projection_get en projection key)"
| "journal_call en (CallListAfter projection key_prefix cursor limit) =
     discard (projection_list_after en projection key_prefix cursor limit)"
| "journal_call en (CallApply batches) = projection_apply_all en batches"
| "journal_call en (CallReset projection) = projection_reset en projection"

text \<open>What the callers owe the journal: payloads that parse back, and projections that are not
  ahead of the events they project and hold documents that parse back.\<close>

definition projectable :: "('b, 'k, 'w) JournalEnv \<Rightarrow> nat \<Rightarrow> ProjectionBatch \<Rightarrow> bool" where
  "projectable en head batch \<longleftrightarrow> pb_through_sequence batch \<le> head
     \<and> (\<forall>mutation \<in> set (pb_mutations batch). case mutation of
          Upsert key v \<Rightarrow> \<forall>b. cd_to_value en v = Inr b \<longrightarrow> is_ok (cd_of_value en b) | Delete key \<Rightarrow> True)"

fun admissible :: "('b, 'k, 'w) JournalEnv \<Rightarrow> nat \<Rightarrow> JournalCall \<Rightarrow> bool" where
  "admissible en head (CallAppend events) \<longleftrightarrow> (\<forall>event \<in> set events. stable_payload en (ne_payload event))"
| "admissible en head (CallApply batches) \<longleftrightarrow> (\<forall>batch \<in> set batches. projectable en head batch)"
| "admissible en head _ \<longleftrightarrow> True"

inductive journal_step ::
    "('b, 'k, 'w) JournalEnv \<Rightarrow> ('b, 'k, 'w) RedbEventJournal \<Rightarrow> ('b, 'k, 'w) RedbEventJournal \<Rightarrow> bool"
  for en where
  called: "admissible en (length (db_events (jr_database s))) c \<Longrightarrow> journal_step en s (fst (journal_call en c s))"
| reopened: "length (db_events (jr_database s)) < u64_max
    \<Longrightarrow> open_database en (jr_database s) (jr_keys s) mode w = Inr s' \<Longrightarrow> journal_step en s s'"

inductive_cases journal_stepE: "journal_step en s s'"

section \<open>What a handle holds\<close>

definition journal_holds ::
    "('b, 'k, 'w) JournalEnv \<Rightarrow> ('b, 'k, 'w) RedbEventJournal \<Rightarrow> EventEnvelope list \<Rightarrow> NewEvent list \<Rightarrow> bool" where
  "journal_holds en s es log \<longleftrightarrow> jr_payload_protection s = kp_payload_protection en
     \<and> holds_log en (jr_database s) (jr_keys s) es log \<and> log_append [] log = Inr log
     \<and> (\<not> jr_recovery_mode s \<longrightarrow> shows_log en s es log)"

lemma shows_holds:
  assumes "shows_log en s es log" "jr_payload_protection s = kp_payload_protection en" "log_append [] log = Inr log"
  shows "journal_holds en s es log"
  using assms by (simp add: journal_holds_def shows_log_def holds_log_def journal_inv_def index_state_def)

lemma holds_log_keys:
  assumes "holds_log en db keys es log" "kp_key_by_id en keys' = kp_key_by_id en keys" "keys_ok en keys' es"
  shows "holds_log en db keys' es log"
proof -
  have "represents en protection keys' = represents en protection keys" for protection
    by (intro ext) (simp only: represents_def carries_keys [OF assms(2)])
  then show ?thesis
    using assms log_ok_keys [OF assms(2)] by (simp add: holds_log_def database_ok_def)
qed

lemma holds_agrees: "agrees s s' \<Longrightarrow> journal_holds en s' es log \<longleftrightarrow> journal_holds en s es log"
  by (simp add: journal_holds_def shows_log_agrees agreesD)

lemma holds_quarantine:
  assumes "lawful en" "journal_holds en s es log"
  shows "journal_holds en (quarantine en reason s) es log"
proof -
  have "keys_ok en (jr_keys s) es"
    using assms(2) by (simp add: journal_holds_def holds_log_def database_ok_def)
  note keys = quarantine_keys [OF assms(1) this, of reason]
  show ?thesis
    using assms(2) holds_log_keys [OF _ keys] by (simp add: journal_holds_def)
qed

text \<open>Operations that only read.\<close>

lemma holds_read:
  assumes "lawful en" "journal_holds en s es log" "world_only m"
  shows "after (quarantine_result en m) s (\<lambda>s' r. journal_holds en s' es log)"
proof -
  have held: "journal_holds en s' es log" if "agrees s s'" for s'
    using holds_agrees [OF that, of en es log] assms(2) by simp
  show ?thesis
    unfolding after_quarantine
    by (rule after_agrees [OF assms(3)]) (auto simp: held holds_quarantine [OF assms(1)] split: sum.split StoreError.split)
qed

lemma holds_plain_read:
  assumes "journal_holds en s es log" "world_only m"
  shows "after m s (\<lambda>s' r. journal_holds en s' es log)"
  by (rule after_agrees [OF assms(2)]) (use assms holds_agrees in blast)

lemma world_only_reads [simp]:
  "world_only (verify_inner en)" "world_only (read_indexed_stream en stream n l)"
  "world_only (read_indexed_stream_backwards en stream before limit)"
  "world_only (projection_position en projection)" "world_only (projection_get en projection key)"
  "world_only (projection_list_after en projection key_prefix cursor limit)"
  unfolding verify_inner_def read_indexed_stream_def read_indexed_stream_backwards_def projection_position_def
    projection_get_def projection_list_after_def Let_def
  by (auto intro!: world_only_bind)

lemma after_discard: "after (discard m) s (\<lambda>s' r. P s') \<longleftrightarrow> after m s (\<lambda>s' r. P s')"
  by (simp add: discard_def after_run a_bind_def a_return_def split: prod.split sum.split)

text \<open>Writes of projections.\<close>

lemma commit_after:
  "after (a_bind (begin_transaction en) (\<lambda>db. a_bind (a_lift (f db)) (commit_transaction en))) s
     (\<lambda>s' r. agrees s s' \<or> (\<exists>db' w. f (jr_database s) = Inr db' \<and> s' = s\<lparr>jr_database := db', jr_world := w\<rparr>))"
  unfolding after_bind [of "begin_transaction en"]
proof (rule after_beginI)
  fix t assume t: "agrees s t"
  show "case Inr (jr_database s) of
      Inl e \<Rightarrow> agrees s t \<or> (\<exists>db' w. f (jr_database s) = Inr db' \<and> t = s\<lparr>jr_database := db', jr_world := w\<rparr>)
    | Inr db \<Rightarrow> after (a_bind (a_lift (f db)) (commit_transaction en)) t
       (\<lambda>s' r. agrees s s' \<or> (\<exists>db' w. f (jr_database s) = Inr db' \<and> s' = s\<lparr>jr_database := db', jr_world := w\<rparr>))"
  proof (cases "f (jr_database s)")
    case (Inl e)
    then show ?thesis using t by (simp add: after_primitive)
  next
    case (Inr db')
    have "\<exists>w. u\<lparr>jr_database := db'\<rparr> = s\<lparr>jr_database := db', jr_world := w\<rparr>" if "agrees t u" for u
      using agrees_update [OF agrees_trans [OF t that]] by blast
    then show ?thesis
      using Inr t by (auto intro!: after_commitI intro: agrees_trans)
  qed
qed simp

lemma holds_projections:
  assumes holds: "journal_holds en s es log" and only: "projections_only (jr_database s) db'"
    and ok: "projections_ok en db' (length es)"
  shows "journal_holds en (s\<lparr>jr_database := db', jr_world := w\<rparr>) es log"
proof -
  obtain records positions where db': "db' = (jr_database s)\<lparr>db_projection_records := records,
      db_projection_positions := positions\<rparr>" using only by (auto simp: projections_only_def)
  have entry: "meta_entry decode key db' = meta_entry decode key (jr_database s)" for decode :: "'a \<Rightarrow> (JsonError, 'd) result" and key
    by (rule meta_entry_cong) (simp add: db')
  have meta: "meta_ok en protection db' es = meta_ok en protection (jr_database s) es"
    "index_version en db' = index_version en (jr_database s)" for protection
    by (simp_all add: meta_ok_def last_sequence_def last_hash_def latest_checkpoint_def entry index_version_def)
       (simp add: db')
  have events: "events_ok en db' es = events_ok en (jr_database s) es"
    by (rule events_ok_cong) (simp_all add: db')
  show ?thesis
    using holds ok
    by (simp add: journal_holds_def holds_log_def shows_log_def journal_inv_def database_ok_def index_state_def meta events)
qed

lemma split_once_plain:
  assumes "plain_name projection"
  shows "split_once_nul (projection @ CHR 0x00 # key) = Some (projection, key)"
proof -
  have "takeWhile (\<lambda>c. c \<noteq> CHR 0x00) (projection @ CHR 0x00 # key) = projection"
    using assms by (subst takeWhile_append2) (auto simp: plain_name_def)
  then show ?thesis by (simp add: split_once_nul_def Let_def)
qed

lemma apply_mutation_records:
  assumes step: "encode_mutation en projection mutation = Inr m" and checked: "\<forall>r \<in> set t. check_record en r = Inr ()"
    and sound: "case mutation of Upsert key v \<Rightarrow> \<forall>b. cd_to_value en v = Inr b \<longrightarrow> is_ok (cd_of_value en b) | Delete key \<Rightarrow> True"
    and ok: "table_ok t"
  shows "\<forall>r \<in> set (apply_mutation m t). check_record en r = Inr ()"
proof (cases mutation)
  case (Upsert key v)
  then obtain b where b: "plain_name projection" "plain_name key" "cd_to_value en v = Inr b"
      "m = (projection @ [CHR 0x00] @ key, Some b)"
    using step by (auto simp: encode_mutation_ok)
  then obtain d where "cd_of_value en b = Inr d" using sound Upsert by (auto simp: is_ok_iff)
  then have "check_record en (projection @ [CHR 0x00] @ key, b) = Inr ()"
    using b by (simp add: check_record_def split_once_plain projection_record_key_def plain_name_def decode_journal_json_def)
  moreover have "set (table_insert k b t) \<subseteq> insert (k, b) (set t)" for k
    using ok by (auto simp: table_get_Some_iff [symmetric] split: if_splits)
  ultimately show ?thesis using b checked by (auto simp: apply_mutation_def)
next
  case (Delete key)
  have "set (table_remove k t) \<subseteq> set t" for k by (auto simp: table_remove_def)
  then show ?thesis using Delete step checked by (auto simp: encode_mutation_ok apply_mutation_def)
qed

lemma apply_mutations_records:
  assumes "list_all2 (\<lambda>m e. encode_mutation en projection m = Inr e) mutations ms"
    and "\<forall>r \<in> set t. check_record en r = Inr ()" "table_ok t"
    and "\<forall>mutation \<in> set mutations. case mutation of
       Upsert key v \<Rightarrow> \<forall>b. cd_to_value en v = Inr b \<longrightarrow> is_ok (cd_of_value en b) | Delete key \<Rightarrow> True"
  shows "\<forall>r \<in> set (fold apply_mutation ms t). check_record en r = Inr ()"
  using assms
proof (induction arbitrary: t rule: list_all2_induct)
  case (Cons x xs y ys)
  have "table_ok (apply_mutation y t)" using apply_mutation_get [of t y] Cons.prems(2) by blast
  then show ?case
    using Cons.IH [of "apply_mutation y t"] Cons.prems apply_mutation_records [OF Cons.hyps(1) Cons.prems(1) _ Cons.prems(2)]
    by simp
qed simp

lemma apply_encoded_projections:
  assumes ok: "projections_ok en db head" and eb: "encode_projection_batch en batch = Inr eb"
    and fits: "projectable en head batch" and db': "apply_encoded eb db = Inr db'"
  shows "projections_ok en db' head"
proof -
  note enc = encode_batch_ok [OF eb]
  have sorted: "projections_sorted db" using ok by (simp add: projections_ok_def projections_sorted_def)
  have all: "list_all2 (\<lambda>m e. encode_mutation en (pb_projection batch) m = Inr e) (pb_mutations batch) (eb_mutations eb)"
    using enc(5) by (simp add: traverse_Inr_iff)
  have step: "db' = db\<lparr>db_projection_records := fold apply_mutation (eb_mutations eb) (db_projection_records db),
        db_projection_positions := table_insert (pb_projection batch) (pb_through_sequence batch) (db_projection_positions db)\<rparr>"
    using db' enc(2-4) by (auto simp: apply_encoded_def Let_def bind_r_Inr_iff)
  have "\<forall>r \<in> set (db_projection_records db'). check_record en r = Inr ()"
    using apply_mutations_records [OF all, of "db_projection_records db"] ok fits
    by (simp add: projections_ok_def projectable_def step)
  moreover have "is_ok (projection_prefix p) \<and> n \<le> head" if "(p, n) \<in> set (db_projection_positions db')" for p n
  proof -
    have tab: "table_ok (db_projection_positions db)" using ok by (simp add: projections_ok_def)
    from that have "table_get (db_projection_positions db') p = Some n"
      by (simp add: step table_get_Some_iff [OF table_ok_insert [OF tab]] del: table_get_insert)
    then have "p = pb_projection batch \<and> n = pb_through_sequence batch \<or> (p, n) \<in> set (db_projection_positions db)"
      using tab by (auto simp: step table_get_Some_iff split: if_splits)
    then show ?thesis
      using ok fits enc(1) by (auto simp: projections_ok_def projectable_def acceptable_batch_def is_ok_iff projection_prefix_ok)
  qed
  ultimately show ?thesis
    using apply_encoded_view(2) [OF sorted eb db'] by (auto simp: projections_ok_def projections_sorted_def)
qed

lemma apply_all_projections:
  assumes "list_all2 (\<lambda>b e. encode_projection_batch en b = Inr e) batches ebs" "projections_ok en db head"
    and "\<forall>batch \<in> set batches. projectable en head batch" "fold_r apply_encoded ebs db = Inr db'"
  shows "projections_ok en db' head"
  using assms
proof (induction arbitrary: db rule: list_all2_induct)
  case (Cons batch batches eb ebs)
  then obtain db1 where db1: "apply_encoded eb db = Inr db1" "fold_r apply_encoded ebs db1 = Inr db'"
    by (auto simp: bind_r_Inr_iff)
  then show ?case
    using Cons apply_encoded_projections [OF Cons.prems(1) Cons.hyps(1) _ db1(1)] by simp
qed simp

lemma holds_length: "journal_holds en s es log \<Longrightarrow> length (db_events (jr_database s)) = length es"
  by (simp add: journal_holds_def holds_log_def database_ok_def events_ok_def)

lemma holds_projections_ok: "journal_holds en s es log \<Longrightarrow> projections_ok en (jr_database s) (length es)"
  by (simp add: journal_holds_def holds_log_def database_ok_def)

lemma holds_apply:
  assumes holds: "journal_holds en s es log" and fits: "\<forall>batch \<in> set batches. projectable en (length es) batch"
  shows "after (projection_apply_all en batches) s (\<lambda>s' r. journal_holds en s' es log)"
proof (cases "batches = []")
  case True
  then show ?thesis using holds by (simp add: projection_apply_all_def after_primitive)
next
  case False
  show ?thesis
  proof (cases "traverse (encode_projection_batch en) batches")
    case (Inl e)
    then show ?thesis using False holds by (simp add: projection_apply_all_def after_primitive)
  next
    case (Inr ebs)
    then have ebs: "list_all2 (\<lambda>b e. encode_projection_batch en b = Inr e) batches ebs"
      by (simp add: traverse_Inr_iff)
    note ok = holds_projections_ok [OF holds]
    then have "projections_sorted (jr_database s)" by (simp add: projections_ok_def projections_sorted_def)
    note applied = apply_all_view [OF this ebs]
    have kept: "journal_holds en (s\<lparr>jr_database := db', jr_world := w\<rparr>) es log"
      if "fold_r apply_encoded ebs (jr_database s) = Inr db'" for db' w
      using holds_projections [OF holds _ apply_all_projections [OF ebs ok fits that]] applied that by simp
    show ?thesis
      unfolding projection_apply_all_def if_not_P [OF False] Inr a_bind_simps
      by (rule after_mono [OF commit_after]) (use kept holds holds_agrees in blast)
  qed
qed

lemma holds_reset:
  assumes holds: "journal_holds en s es log"
  shows "after (projection_reset en projection) s (\<lambda>s' r. journal_holds en s' es log)"
proof (cases "projection_prefix projection")
  case (Inl e)
  then show ?thesis using holds by (simp add: projection_reset_def after_primitive)
next
  case (Inr ns)
  let ?db = "reset_projection projection ns (jr_database s)"
  have plain: "plain_name projection" "ns = projection @ [CHR 0x00]" using Inr by (simp_all add: projection_prefix_ok)
  have removed: "set (fold table_remove keys t) \<subseteq> set t" for keys and t :: "(string, 'x) table"
  proof (induction keys arbitrary: t)
    case (Cons k keys)
    then show ?case using Cons.IH [of "table_remove k t"] by (auto simp: table_remove_def)
  qed simp
  note ok = holds_projections_ok [OF holds]
  then have "projections_sorted (jr_database s)" by (simp add: projections_ok_def projections_sorted_def)
  then have "projections_sorted ?db" using reset_view(2) plain by blast
  then have "projections_ok en ?db (length es)"
    using ok removed [of _ "db_projection_records (jr_database s)"]
    by (fastforce simp: projections_ok_def projections_sorted_def reset_projection_def Let_def table_remove_def)
  moreover have "projections_only (jr_database s) ?db"
    unfolding projections_only_def reset_projection_def Let_def by blast
  ultimately have kept: "journal_holds en (s\<lparr>jr_database := ?db, jr_world := w\<rparr>) es log" for w
    using holds_projections [OF holds] by blast
  show ?thesis
    unfolding projection_reset_def Inr a_bind_simps
    using commit_after [of en "\<lambda>db. Inr (reset_projection projection ns db)" s]
    by (auto elim!: after_mono simp: kept holds_agrees holds)
qed

section \<open>What no call changes\<close>

text \<open>The protection of payloads, and recovery mode once it was entered.\<close>

definition retains :: "('b, 'k, 'w) RedbEventJournal \<Rightarrow> ('b, 'k, 'w) RedbEventJournal \<Rightarrow> bool" where
  "retains s s' \<longleftrightarrow> jr_payload_protection s' = jr_payload_protection s
     \<and> (jr_recovery_mode s \<longrightarrow> jr_recovery_mode s')"

definition steady :: "('b, 'k, 'w, 'a) journal_op \<Rightarrow> bool" where
  "steady m \<longleftrightarrow> (\<forall>s. after m s (\<lambda>s' r. retains s s'))"

lemma retains_trans: "retains a b \<Longrightarrow> retains b c \<Longrightarrow> retains a c"
  by (simp add: retains_def)

lemma retains_agrees: "agrees s s' \<Longrightarrow> retains s s'"
  by (simp add: retains_def agreesD)

lemma steady_world: "world_only m \<Longrightarrow> steady m"
  by (auto simp: steady_def retains_agrees intro!: after_agrees)

lemma steady_bind:
  assumes "steady m" "\<And>x. steady (f x)"
  shows "steady (a_bind m f)"
  unfolding steady_def after_bind
proof
  fix s
  have "after m s (\<lambda>s' r. retains s s')" using assms(1) by (simp add: steady_def)
  then show "after m s (\<lambda>s' r. case r of Inl e \<Rightarrow> retains s s' | Inr x \<Rightarrow> after (f x) s' (\<lambda>s' r. retains s s'))"
    by (rule after_mono)
      (use assms(2) in \<open>auto simp: steady_def split: sum.split intro: after_mono retains_trans\<close>)
qed

lemma steady_quarantine: "steady m \<Longrightarrow> steady (quarantine_result en m)"
  unfolding steady_def after_quarantine
  by (auto elim!: after_mono split: sum.split StoreError.split simp: retains_def)

lemma steady_if: "steady m \<Longrightarrow> steady n \<Longrightarrow> steady (if b then m else n)"
  by simp

lemma steady_primitive:
  "steady (commit_transaction en db)" "steady (store_anchor en a)" "steady (a_return x)" "steady (a_lift r)"
  "steady (a_get g)" "steady (a_reject b e)" "steady (on_world h)" "steady (begin_transaction en)" "steady (utc_now en)"
  "steady (a_modify (\<lambda>s. s\<lparr>jr_last_checkpoint := now\<rparr>))"
proof -
  show "steady (commit_transaction en db)"
    unfolding steady_def
    by (intro allI after_commitI) (auto simp: retains_def agreesD)
  show "steady (store_anchor en a)"
    by (auto simp: steady_def store_anchor_def after_def retains_def split: prod.split)
qed (simp_all add: steady_world, simp add: steady_def after_primitive retains_def)

lemma steady_fold: "(\<And>x acc. steady (f x acc)) \<Longrightarrow> steady (a_fold f xs acc)"
  by (induction xs arbitrary: acc) (simp_all add: steady_primitive steady_bind)

lemmas steady_intros = steady_bind steady_quarantine steady_if steady_primitive steady_fold

lemma checkpoint_steady: "steady (journal_checkpoint en)"
  unfolding journal_checkpoint_def checkpoint_inner_def sign_checkpoint_def write_checkpoint_def
  by (intro steady_intros)

lemma append_batch_steady: "steady (append_batch en events)"
proof -
  have event: "steady (append_event en event ax)" for event ax
    unfolding append_event_def Let_def by (intro steady_world world_only_bind) simp_all
  show ?thesis
    unfolding append_batch_def append_locked_def commit_batch_def checkpoint_if_due_def checkpoint_sequence_def
    by (intro steady_intros event checkpoint_steady)
qed

lemma steady_discard: "steady m \<Longrightarrow> steady (discard m)"
  by (simp add: discard_def steady_bind steady_primitive)

lemma call_steady: "steady (journal_call en c)"
proof -
  have writes: "steady (projection_apply_all en batches)" "steady (projection_reset en p)" for batches p
    unfolding projection_apply_all_def projection_reset_def by (intro steady_intros)+
  have reads: "steady (verify_journal en)" "steady (read_stream en stream)" "steady (read_stream_from en stream n l)"
    "steady (read_stream_backwards en stream b l)" "steady (list_stream_ids en pre cursor l)" "steady (read_global en n l)"
    "steady (read_projection_work en n l)" "steady (journal_head en)" "steady (decrypt_payload en event)"
    for stream n l b pre cursor event
    unfolding verify_journal_def read_stream_def read_stream_from_def read_stream_backwards_def list_stream_ids_def
      read_global_def read_projection_work_def journal_head_def decrypt_payload_def Let_def
    by (intro steady_intros steady_world world_only_reads)+
  show ?thesis
    by (cases c) (simp_all add: steady_discard writes reads checkpoint_steady append_batch_steady steady_world)
qed

section \<open>Writing events\<close>

lemma closed_append:
  assumes "jr_recovery_mode s"
  shows "append_batch en events s = (s, Inl RecoveryMode)"
  using assms by (simp add: append_batch_def append_locked_def quarantine_result_def a_bind_def a_get_def a_reject_def a_fail_def)

lemma closed_checkpoint:
  assumes "jr_recovery_mode s"
  shows "journal_checkpoint en s = (s, if jr_payload_protection s = Plaintext then Inr None else Inl RecoveryMode)"
  using assms by (simp add: journal_checkpoint_def checkpoint_inner_def quarantine_result_def a_bind_def a_get_def
      a_reject_def a_fail_def a_return_def)

text \<open>The log that an append leaves is the log before or that log and the batch.\<close>

lemma holds_append:
  assumes lawful: "lawful en" and holds: "journal_holds en s es log"
    and stable: "\<forall>event \<in> set events. stable_payload en (ne_payload event)"
  shows "after (append_batch en events) s (\<lambda>s' r. \<exists>es' log'. journal_holds en s' (es @ es') (log @ log'))"
proof (cases "jr_recovery_mode s")
  case True
  then have "journal_holds en (fst (append_batch en events s)) (es @ []) (log @ [])"
    using holds by (simp add: closed_append)
  then show ?thesis unfolding after_run by blast
next
  case False
  then have shown: "shows_log en s es log" using holds by (simp add: journal_holds_def)
  have "after (append_batch en events) s (batch_outcome en s es log events)"
    using lawful shown stable by (intro append_batch_outcome) simp_all
  moreover have "after (append_batch en events) s (\<lambda>s' r. retains s s')"
    using append_batch_steady [of en events] by (simp add: steady_def)
  ultimately have "after (append_batch en events) s (\<lambda>s' r. batch_outcome en s es log events s' r \<and> retains s s')"
    by (rule after_both)
  then show ?thesis
  proof (rule after_mono)
    fix t :: "('a, 'b, 'c) RedbEventJournal" and r :: "(StoreError, EventEnvelope list) result"
    assume outcome: "batch_outcome en s es log events t r \<and> retains s t"
    have protection: "jr_payload_protection t = kp_payload_protection en"
      using outcome holds by (simp add: retains_def journal_holds_def)
    have log: "log_append [] log = Inr log" using holds by (simp add: journal_holds_def)
    then have grown: "log_append [] (log @ events) = Inr (log @ events)" if "log_append log events = Inr (log @ events)"
      using that by (simp add: log_append_append)
    have "shows_log en t (es @ []) (log @ []) \<or> log_append log events = Inr (log @ events)
        \<and> (\<exists>persisted. shows_log en t (es @ persisted) (log @ events))"
      using outcome by (auto simp: batch_outcome_def split: sum.splits)
    then show "\<exists>es' log'. journal_holds en t (es @ es') (log @ log')"
      using shows_holds [OF _ protection] log grown by (metis append_Nil2)
  qed
qed

lemma holds_checkpoint:
  assumes lawful: "lawful en" and holds: "journal_holds en s es log"
  shows "after (journal_checkpoint en) s (\<lambda>s' r. journal_holds en s' es log)"
proof (cases "jr_recovery_mode s")
  case True
  then show ?thesis using holds by (simp add: after_run closed_checkpoint)
next
  case False
  then have "log_kept en es log (kp_payload_protection en) False s"
    using holds by (simp add: journal_holds_def log_kept_def)
  from checkpoint_keeps [OF lawful this] show ?thesis
    unfolding keeping_def
    by (rule after_mono) (use holds in \<open>auto simp: log_kept_def journal_holds_def [of en s] intro: shows_holds\<close>)
qed

section \<open>Runs\<close>

lemma holds_call:
  assumes lawful: "lawful en" and holds: "journal_holds en s es log" and ok: "admissible en (length es) c"
  shows "\<exists>es' log'. journal_holds en (fst (journal_call en c s)) (es @ es') (log @ log')"
proof (cases "\<exists>events. c = CallAppend events")
  case True
  then obtain events where c: "c = CallAppend events" by blast
  then have "after (journal_call en c) s (\<lambda>s' r. \<exists>es' log'. journal_holds en s' (es @ es') (log @ log'))"
    using holds_append [OF lawful holds] ok by (simp add: after_discard)
  then show ?thesis by (simp add: after_run)
next
  case False
  note read = holds_read [OF lawful holds] and plain = holds_plain_read [OF holds]
    and writes = holds_apply [OF holds] holds_reset [OF holds] holds_checkpoint [OF lawful holds]
  have bodies: "after (list_stream_ids en pre cursor limit) s (\<lambda>s' r. journal_holds en s' es log)"
    "after (read_global en n limit) s (\<lambda>s' r. journal_holds en s' es log)"
    "after (read_projection_work en n limit) s (\<lambda>s' r. journal_holds en s' es log)"
    "after (journal_head en) s (\<lambda>s' r. journal_holds en s' es log)"
    "after (decrypt_payload en event) s (\<lambda>s' r. journal_holds en s' es log)" for pre cursor n limit event
    unfolding list_stream_ids_def read_global_def read_projection_work_def journal_head_def decrypt_payload_def Let_def
    by (rule read; auto intro!: world_only_bind)+
  have "after (journal_call en c) s (\<lambda>s' r. journal_holds en s' es log)"
    using False ok
    by (cases c) (simp_all add: after_discard verify_journal_def read_stream_def read_stream_from_def
        read_stream_backwards_def bodies read plain writes)
  then have "journal_holds en (fst (journal_call en c s)) (es @ []) (log @ [])" by (simp add: after_run)
  then show ?thesis by blast
qed

lemma holds_step:
  assumes lawful: "lawful en" and step: "journal_step en s s'" and holds: "journal_holds en s es log"
  shows "\<exists>es' log'. journal_holds en s' (es @ es') (log @ log')"
  using step
proof cases
  case (called c)
  then show ?thesis using holds_call [OF lawful holds] holds_length [OF holds] by simp
next
  case (reopened mode w)
  have "intact en (jr_database s) (jr_keys s) es log" using holds by (simp add: journal_holds_def intact_def)
  then have opened: "opened_as en es log (Inr s')"
    using open_database_opens [OF lawful] reopened holds_length [OF holds] by metis
  have "journal_holds en s' es log"
  proof (cases "jr_recovery_mode s'")
    case True
    then show ?thesis using opened holds by (auto simp: opened_as_def journal_holds_def)
  next
    case False
    then show ?thesis using opened holds by (auto simp: opened_as_def journal_holds_def [of en s] intro: shows_holds)
  qed
  then show ?thesis by (metis append_Nil2)
qed

lemma holds_runs:
  assumes lawful: "lawful en" and run: "(journal_step en)\<^sup>*\<^sup>* s s'" and holds: "journal_holds en s es log"
  shows "\<exists>es' log'. journal_holds en s' (es @ es') (log @ log')"
  using run
proof induction
  case base
  then show ?case using holds by (metis append_Nil2)
next
  case (step t u)
  then obtain es' log' where "journal_holds en t (es @ es') (log @ log')" by blast
  from holds_step [OF lawful step.hyps(2) this] show ?case by (metis append_assoc)
qed

text \<open>The first opening creates an empty log.\<close>

lemma holds_created:
  assumes lawful: "lawful en" and fresh: "kp_load_anchor en keys = Inr None"
    and open_it: "open_database en empty_database keys mode w = Inr s"
  shows "journal_holds en s [] []"
proof -
  have "intact en empty_database keys [] []" using fresh by (simp add: intact_def)
  then have "opened_as en [] [] (Inr s)"
    using open_database_opens [OF lawful, of empty_database keys "[]" "[]" mode w] open_it by (simp add: u64_max_def)
  then show ?thesis
    by (cases "jr_recovery_mode s")
      (auto simp: opened_as_def intro: shows_holds, auto simp: journal_holds_def)
qed

section \<open>Quarantine\<close>

text \<open>An operation that reports a failed verification leaves the journal in recovery mode.\<close>

definition guarded :: "('b, 'k, 'w, 'a) journal_op \<Rightarrow> bool" where
  "guarded m \<longleftrightarrow> (\<forall>s. after m s (\<lambda>s' r. \<forall>reason. r = Inl (Verification reason)
     \<longrightarrow> jr_recovery_mode s' \<and> jr_recovery_reason s' = Some reason))"

lemma guarded_quarantine: "guarded (quarantine_result en m)"
  unfolding guarded_def after_quarantine by (auto simp: after_run split: sum.split StoreError.split)

lemma guarded_bind: "guarded m \<Longrightarrow> (\<And>x. guarded (f x)) \<Longrightarrow> guarded (a_bind m f)"
  unfolding guarded_def after_bind by (auto simp: after_run split: sum.split)

lemma guarded_primitive:
  "guarded (a_return x)" "guarded (a_get g)" "guarded (on_world h)"
  by (simp_all add: guarded_def after_primitive) (simp add: on_world_def after_def split: prod.split)

lemma guarded_if: "guarded m \<Longrightarrow> guarded n \<Longrightarrow> guarded (if b then m else n)"
  by simp

lemma journal_guarded: "guarded (append_batch en events)" "guarded (journal_checkpoint en)" "guarded (verify_journal en)"
    "guarded (read_stream en stream)" "guarded (read_stream_from en stream n limit)"
    "guarded (read_stream_backwards en stream before limit)" "guarded (list_stream_ids en pre cursor limit)"
    "guarded (read_global en n limit)" "guarded (read_projection_work en n limit)" "guarded (journal_head en)"
    "guarded (decrypt_payload en event)"
  unfolding append_batch_def checkpoint_if_due_def journal_checkpoint_def verify_journal_def read_stream_def
    read_stream_from_def read_stream_backwards_def list_stream_ids_def read_global_def read_projection_work_def
    journal_head_def decrypt_payload_def
  by (intro guarded_quarantine guarded_bind guarded_primitive guarded_if)+

fun uses_projections :: "JournalCall \<Rightarrow> bool" where
  "uses_projections (CallPosition _) = True"
| "uses_projections (CallGet _ _) = True"
| "uses_projections (CallListAfter _ _ _ _) = True"
| "uses_projections (CallApply _) = True"
| "uses_projections (CallReset _) = True"
| "uses_projections _ = False"

lemma call_guarded: "\<not> uses_projections c \<Longrightarrow> guarded (journal_call en c)"
  by (cases c) (simp_all add: discard_def guarded_bind guarded_primitive journal_guarded)

lemma closed_calls:
  assumes "jr_recovery_mode s"
  shows "jr_recovery_mode (fold (\<lambda>c s. fst (journal_call en c s)) calls s)
    \<and> jr_payload_protection (fold (\<lambda>c s. fst (journal_call en c s)) calls s) = jr_payload_protection s"
  using assms
proof (induction calls arbitrary: s)
  case (Cons c calls)
  have "retains s (fst (journal_call en c s))"
    using call_steady [of en c] by (simp add: steady_def after_run)
  then show ?case using Cons.IH [of "fst (journal_call en c s)"] Cons.prems by (simp add: retains_def)
qed simp

end
