(* ===== verification/JournalProgress.thy ===== *)
theory JournalProgress
  imports JournalOpening
begin

text \<open>
  Progress: when the packages and the system answer (\<open>reliable\<close>), a batch that the log accepts
  is committed and its envelopes are returned.
\<close>

section \<open>Environments that answer\<close>

definition reliable :: "('b, 'k, 'w) JournalEnv \<Rightarrow> bool" where
  "reliable en \<longleftrightarrow> (\<forall>w. snd (en_begin en w) = None) \<and> (\<forall>w. snd (en_commit en w) = None)
     \<and> (\<forall>w. is_ok (snd (en_utc_now en w))) \<and> (\<forall>w. is_ok (snd (en_nonce en w)))
     \<and> (\<forall>k n m a. is_ok (cr_encrypt en k n m a)) \<and> (\<forall>m. is_ok (cs_sign en m))
     \<and> (\<forall>a k. is_ok (snd (kp_store_anchor en a k)))
     \<and> (\<forall>a. is_ok (cd_to_associated en a)) \<and> (\<forall>h. is_ok (cd_to_hash_input en h))"

text \<open>A journal whose key provider has an active key, if it needs one.\<close>

definition sealable :: "('b, 'k, 'w) JournalEnv \<Rightarrow> ('b, 'k, 'w) RedbEventJournal \<Rightarrow> bool" where
  "sealable en s \<longleftrightarrow> jr_payload_protection s = Plaintext \<or> is_ok (kp_active_key en (jr_keys s))"

text \<open>Steps that keep a condition and never end with a fault.\<close>

definition answers :: "(('b, 'k, 'w) RedbEventJournal \<Rightarrow> bool) \<Rightarrow> ('b, 'k, 'w, 'a) journal_op \<Rightarrow> bool" where
  "answers I m \<longleftrightarrow> (\<forall>s. I s \<longrightarrow> after m s (\<lambda>s' r. I s' \<and> (\<forall>e. r = Inl e \<longrightarrow> \<not> fault e)))"

lemma answersD: "answers I m \<Longrightarrow> I s \<Longrightarrow> after m s (\<lambda>s' r. I s' \<and> (\<forall>e. r = Inl e \<longrightarrow> \<not> fault e))"
  by (simp add: answers_def)

lemma answers_bind:
  assumes "answers I m" "\<And>x. answers I (f x)"
  shows "answers I (a_bind m f)"
  unfolding answers_def after_bind
  by (intro allI impI, rule after_mono [OF answersD [OF assms(1)]])
    (auto dest: answersD [OF assms(2)] split: sum.split)

lemma answers_primitive [simp]: "answers I (a_return x)" "answers I (a_get f)"
  by (simp_all add: answers_def action_simps)

lemma answers_lift: "(\<And>e. r = Inl e \<Longrightarrow> \<not> fault e) \<Longrightarrow> answers I (a_lift r)"
  by (simp add: answers_def action_simps)

lemma answers_reject: "\<not> fault e \<Longrightarrow> answers I (a_reject b e)"
  by (simp add: answers_def action_simps)

lemma answers_fold:
  assumes "\<And>x a. x \<in> set xs \<Longrightarrow> answers I (f x a)"
  shows "answers I (a_fold f xs a)"
  using assms by (induction xs arbitrary: a) (auto intro: answers_bind)

text \<open>Conditions that the world, the database and the bookkeeping do not touch.\<close>

definition untouched :: "(('b, 'k, 'w) RedbEventJournal \<Rightarrow> bool) \<Rightarrow> bool" where
  "untouched I \<longleftrightarrow> (\<forall>s w db now. I s \<longrightarrow> I (s\<lparr>jr_world := w\<rparr>) \<and> I (s\<lparr>jr_database := db\<rparr>)
     \<and> I (s\<lparr>jr_last_checkpoint := now\<rparr>))"

lemma untouched_sealable [simp]: "untouched (sealable en)" "untouched (\<lambda>_. True)"
  by (simp_all add: untouched_def sealable_def)

lemma answers_on_world: "untouched I \<Longrightarrow> answers I (on_world g)"
  by (auto simp: answers_def action_simps untouched_def split: prod.split)

lemma answers_begin: "untouched I \<Longrightarrow> reliable en \<Longrightarrow> answers I (begin_transaction en)"
  by (auto simp: answers_def begin_transaction_def action_simps untouched_def reliable_def
      split: prod.split option.split dest: arg_cong [of _ _ snd])

lemma answers_commit: "untouched I \<Longrightarrow> reliable en \<Longrightarrow> answers I (commit_transaction en db)"
  by (auto simp: answers_def commit_transaction_def action_simps untouched_def reliable_def
      split: prod.split option.split dest: arg_cong [of _ _ snd])

lemma answers_utc_now: "untouched I \<Longrightarrow> reliable en \<Longrightarrow> answers I (utc_now en)"
proof -
  assume I: "untouched I" and reliable: "reliable en"
  have "is_ok t" if "en_utc_now en w = (w', t)" for w w' t
    using reliable that by (metis reliable_def snd_conv)
  then show ?thesis
    using I by (fastforce simp: answers_def utc_now_def action_simps untouched_def adapter_text_def is_ok_iff split: prod.split)
qed

section \<open>Appending\<close>

lemma metadata_errors [simp]:
  "last_sequence en db = Inl e \<Longrightarrow> \<not> fault e" "last_hash en db = Inl e \<Longrightarrow> \<not> fault e"
  "latest_checkpoint en db = Inl e \<Longrightarrow> \<not> fault e"
  "meta_entry (cd_of_str en) key db = Inl e \<Longrightarrow> \<not> fault e"
  by (auto simp: last_sequence_def last_hash_def latest_checkpoint_def meta_entry_def decode_journal_json_def
      bind_r_def map_err_Inl_iff split: option.splits sum.splits)

lemma answers_encrypt:
  assumes "reliable en"
  shows "answers (sealable en) (encrypt_payload en e b)"
  unfolding answers_def
proof (intro allI impI)
  fix s :: "('a, 'b, 'c) RedbEventJournal" assume s: "sealable en s"
  show "after (encrypt_payload en e b) s (\<lambda>s' r. sealable en s' \<and> (\<forall>e. r = Inl e \<longrightarrow> \<not> fault e))"
  proof (cases "jr_payload_protection s")
    case Plaintext
    then show ?thesis using s by (simp add: encrypt_payload_def action_simps)
  next
    case Encrypted
    then obtain i k where k: "kp_active_key en (jr_keys s) = Inr (i, k)"
      using s by (auto simp: sealable_def is_ok_iff)
    obtain w n where n: "en_nonce en (jr_world s) = (w, Inr n)"
      using assms by (metis is_ok_iff prod.collapse reliable_def)
    obtain a where a: "cd_to_associated en (associated_data e) = Inr a"
      using assms by (metis is_ok_iff reliable_def)
    obtain c where c: "cr_encrypt en k n b a = Inr c"
      using assms by (metis is_ok_iff reliable_def)
    have "sealable en (s\<lparr>jr_world := w\<rparr>)" using s by (simp add: sealable_def)
    then show ?thesis
      using Encrypted k n a c by (simp add: encrypt_payload_def action_simps adapter_text_def adapter_json_def)
  qed
qed

lemma answers_seal:
  assumes "reliable en" "stable_payload en (ne_payload event)"
  shows "answers (sealable en) (seal_event en event sequence version previous)"
proof -
  obtain b where "cd_to_value en (ne_payload event) = Inr b" using assms(2) by (auto simp: stable_payload_def)
  moreover have "record_hash en e \<noteq> Inl x" for e x
    using assms(1) unfolding reliable_def is_ok_iff record_hash_def adapter_json_def
    by (metis bind_r_simps(2) map_err_simps(2) sum.distinct(1))
  ultimately show ?thesis
    unfolding seal_event_def
    by (intro answers_bind answers_on_world answers_utc_now answers_encrypt assms(1) answers_lift)
      (auto simp: adapter_json_def)
qed

lemma answers_append_event:
  assumes lawful: "lawful en" and "reliable en" "stable_payload en (ne_payload event)"
  shows "answers (sealable en) (append_event en event ax)"
  unfolding append_event_def Let_def
  by (intro answers_bind answers_reject answers_lift answers_seal assms(2,3) answers_primitive)
    (auto simp: adapter_json_def lawful_envelope(1) [OF lawful] lawful_value(1) [OF lawful] ok_or_def
      split: option.splits)

lemma answers_append_locked:
  assumes lawful: "lawful en" and reliable: "reliable en"
    and stable: "\<And>event. event \<in> set events \<Longrightarrow> stable_payload en (ne_payload event)"
  shows "answers (sealable en) (append_locked en events)"
proof -
  have commit: "answers (sealable en) (commit_batch en ax)" for ax
  proof -
    obtain b where "cd_to_u64 en (ax_sequence ax) = Inr b" using lawful by (rule lawful_u64)
    moreover obtain h where "cd_to_str en (ax_previous_hash ax) = Inr h" using lawful by (rule lawful_str)
    ultimately show ?thesis
      unfolding commit_batch_def
      by (intro answers_bind answers_lift answers_commit reliable) (auto simp: adapter_json_def)
  qed
  have "answers (sealable en) (a_bind (begin_transaction en) (\<lambda>db.
       a_bind (a_lift (last_sequence en db)) (\<lambda>sequence.
       a_bind (a_lift (last_hash en db)) (\<lambda>previous_hash.
       a_bind (a_fold (append_event en) events \<lparr>ax_db = db, ax_sequence = sequence,
         ax_previous_hash = previous_hash, ax_batch_versions = [], ax_persisted = []\<rparr>) (commit_batch en)))))"
    by (intro answers_bind answers_begin answers_lift answers_fold answers_append_event lawful reliable stable commit)
      simp_all
  then show ?thesis
    unfolding append_locked_def by (intro answers_bind answers_reject) simp_all
qed

section \<open>Checkpoints\<close>

lemma answers_quarantine:
  assumes "answers I m" "\<And>s reason. I s \<Longrightarrow> I (quarantine en reason s)"
  shows "answers I (quarantine_result en m)"
  unfolding answers_def after_quarantine
  by (intro allI impI, rule after_mono [OF answersD [OF assms(1)]])
    (auto simp: assms(2) split: sum.split StoreError.split)

lemma answers_checkpoint:
  assumes lawful: "lawful en" and reliable: "reliable en"
  shows "answers (\<lambda>_. True) (journal_checkpoint en)"
proof -
  have anchor: "answers (\<lambda>_. True) (store_anchor en a)" for a
    using reliable by (auto simp: answers_def store_anchor_def after_def reliable_def is_ok_iff split: prod.split
        dest: arg_cong [of _ _ snd])
  have stored: "answers (\<lambda>_. True) (write_checkpoint en c)" for c
  proof -
    obtain b where "cd_to_checkpoint en c = Inr b" using lawful by (rule lawful_checkpoint)
    then show ?thesis
      unfolding write_checkpoint_def
      by (intro answers_bind answers_lift answers_begin answers_commit answers_on_world reliable)
        (auto simp: adapter_json_def answers_def action_simps)
  qed
  have sign: "answers (\<lambda>_. True) (sign_checkpoint en n h)" for n h
    unfolding sign_checkpoint_def
    by (intro answers_bind answers_lift answers_utc_now anchor stored reliable)
      (use reliable in \<open>auto simp: reliable_def dest: spec [of _ "cd_of_text en (checkpoint_message n h)"]\<close>)
  have "answers (\<lambda>_. True) (a_bind (begin_transaction en) (\<lambda>db.
       a_bind (a_lift (last_sequence en db)) (\<lambda>sequence.
       if sequence = 0 then a_return None
       else
         a_bind (a_lift (meta_entry (cd_of_str en) ''last_hash'' db)) (\<lambda>stored.
         a_bind (a_lift (ok_or (Verification ''journal head hash is absent'') stored)) (\<lambda>hash.
         sign_checkpoint en sequence hash)))))"
    (is "answers _ (a_bind _ (\<lambda>db. a_bind _ (?rest db)))")
  proof -
    have "answers (\<lambda>_. True) (?rest db n)" for db n
      by (cases "n = 0") (auto intro!: answers_bind answers_lift sign simp: ok_or_def split: option.splits)
    then show ?thesis by (intro answers_bind answers_begin answers_lift reliable) simp_all
  qed
  then have "answers (\<lambda>_. True) (checkpoint_inner en)"
    unfolding checkpoint_inner_def
    by (intro answers_bind answers_primitive) (auto intro!: answers_bind answers_reject)
  then show ?thesis unfolding journal_checkpoint_def by (rule answers_quarantine) simp
qed

lemma answers_checkpoint_if_due:
  assumes lawful: "lawful en" and reliable: "reliable en"
  shows "answers (\<lambda>_. True) (checkpoint_if_due en persisted)"
proof -
  have "answers (\<lambda>_. True) (if b then journal_checkpoint en else a_return None)" for b
    by (simp add: answers_checkpoint [OF assms])
  moreover have "answers (\<lambda>_. True) (checkpoint_sequence en)"
    unfolding checkpoint_sequence_def by (intro answers_bind answers_begin answers_lift reliable) simp_all
  then have "answers (\<lambda>_. True) (if persisted = [] then a_return 0 else quarantine_result en (checkpoint_sequence en))"
    by (simp add: answers_quarantine)
  ultimately show ?thesis
    unfolding checkpoint_if_due_def by (intro answers_bind answers_on_world) simp_all
qed

lemma append_batch_answers:
  assumes lawful: "lawful en" and reliable: "reliable en" and s: "sealable en s"
    and stable: "\<And>event. event \<in> set events \<Longrightarrow> stable_payload en (ne_payload event)"
  shows "after (append_batch en events) s (\<lambda>s' r. \<forall>e. r = Inl e \<longrightarrow> \<not> fault e)"
proof -
  have rest: "after (a_bind (a_get jr_payload_protection) (\<lambda>protection.
     if protection = Plaintext then a_return x else checkpoint_if_due en x)) t (\<lambda>s' r. \<forall>e. r = Inl e \<longrightarrow> \<not> fault e)" for x t
    using answersD [OF answers_checkpoint_if_due [OF lawful reliable, of x], of t]
    by (simp add: after_bind after_primitive)
  show ?thesis
    unfolding append_batch_def after_bind [of "quarantine_result _ _"] after_quarantine
    by (rule after_mono [OF answersD [OF answers_append_locked [OF lawful reliable stable] s]])
      (auto split: sum.split StoreError.split intro: rest)
qed

text \<open>A batch the log accepts is committed.\<close>

lemma append_batch_commits:
  assumes "lawful en" "reliable en" "shows_log en s es log" "sealable en s" "\<not> jr_recovery_mode s"
    and "\<And>event. event \<in> set events \<Longrightarrow> stable_payload en (ne_payload event)"
    and "log_append log events = Inr (log @ events)" "length log + length events \<le> u64_max"
  shows "after (append_batch en events) s (\<lambda>s' r. \<exists>persisted. r = Inr persisted
    \<and> \<not> jr_recovery_mode s' \<and> shows_log en s' (es @ persisted) (log @ events))"
  by (rule after_mono [OF after_both [OF append_batch_outcome [OF assms(1,3,6)] append_batch_answers [OF assms(1,2,4,6)]]])
    (use assms(5,7,8) in \<open>auto simp: batch_outcome_def batch_refusal_def split: sum.splits\<close>)

end
