(* ===== verification/JournalTamper.thy ===== *)
theory JournalTamper
  imports JournalIntegrity
begin

text \<open>
  Tamper evidence: what a verification that succeeds says about tables of unknown origin. No
  law of the codec, the cipher or the key provider is used but that the two decoders read the
  same hashes from the same bytes and that the encoding of a hash input determines it.
\<close>

section \<open>Chains\<close>

text \<open>Both decoders read an envelope with the same field names, so they see the same hashes.\<close>

definition decoders_agree :: "('b, 'k, 'w) JournalEnv \<Rightarrow> bool" where
  "decoders_agree en \<longleftrightarrow> (\<forall>b e p. cd_of_envelope en b = Inr e \<and> cd_of_persisted en b = Inr p
     \<longrightarrow> ev_previous_hash e = pe_previous_hash p \<and> ev_global_sequence e = pe_global_sequence p)"

definition hash_encoding_injective :: "('b, 'k, 'w) JournalEnv \<Rightarrow> bool" where
  "hash_encoding_injective en \<longleftrightarrow> (\<forall>h h' b. cd_to_persisted_hash_input en h = Inr b
     \<and> cd_to_persisted_hash_input en h' = Inr b \<longrightarrow> h = h')"

text \<open>The bytes that were hashed for one stored record, and the records of the table of events.\<close>

definition hashed_bytes :: "('b, 'k, 'w) JournalEnv \<Rightarrow> 'b PersistedEventEnvelope \<Rightarrow> 'b" where
  "hashed_bytes en p = projr (cd_to_persisted_hash_input en (persisted_hash_input p))"

definition stored_records :: "('b, 'k, 'w) JournalEnv \<Rightarrow> 'b Database \<Rightarrow> 'b PersistedEventEnvelope list" where
  "stored_records en db = map (\<lambda>(sequence, bytes). projr (cd_of_persisted en bytes)) (db_events db)"

text \<open>Two different inputs with one hash.\<close>

definition collision :: "('b, 'k, 'w) JournalEnv \<Rightarrow> 'b PersistedEventEnvelope list \<Rightarrow> 'b PersistedEventEnvelope list \<Rightarrow> bool" where
  "collision en ps qs \<longleftrightarrow> (\<exists>p \<in> set ps. \<exists>q \<in> set qs. hashed_bytes en p \<noteq> hashed_bytes en q
     \<and> cr_sha256_hex en (hashed_bytes en p) = cr_sha256_hex en (hashed_bytes en q))"

definition linked :: "('b, 'k, 'w) JournalEnv \<Rightarrow> 'b PersistedEventEnvelope list \<Rightarrow> bool" where
  "linked en ps \<longleftrightarrow> (\<forall>i < length ps.
     cd_to_persisted_hash_input en (persisted_hash_input (ps ! i)) = Inr (hashed_bytes en (ps ! i))
     \<and> cr_sha256_hex en (hashed_bytes en (ps ! i)) = pe_record_hash (ps ! i)
     \<and> (0 < i \<longrightarrow> pe_previous_hash (ps ! i) = pe_record_hash (ps ! (i - 1))))"

lemma record_determined:
  assumes "persisted_hash_input p = persisted_hash_input q" "pe_record_hash p = pe_record_hash q"
  shows "p = q"
  using assms by (cases p, cases q) (simp add: persisted_hash_input_def persisted_associated_data_def)

text \<open>Equal hashes at one position: the same record, or a collision.\<close>

lemma linked_same_record:
  assumes "hash_encoding_injective en" "linked en ps" "linked en qs"
    and "n < length ps" "n < length qs" "pe_record_hash (ps ! n) = pe_record_hash (qs ! n)"
  shows "ps ! n = qs ! n \<or> collision en ps qs"
proof (cases "hashed_bytes en (ps ! n) = hashed_bytes en (qs ! n)")
  case True
  then have "persisted_hash_input (ps ! n) = persisted_hash_input (qs ! n)"
    using assms(1-5) by (metis hash_encoding_injective_def linked_def)
  then show ?thesis using assms(6) record_determined by blast
next
  case False
  have "cr_sha256_hex en (hashed_bytes en (ps ! n)) = cr_sha256_hex en (hashed_bytes en (qs ! n))"
    using assms(2-6) by (simp add: linked_def)
  then show ?thesis using False assms(4,5) unfolding collision_def by (meson nth_mem)
qed

text \<open>Everything before it is then equal too, or the hash collided.\<close>

lemma linked_prefix_equal:
  assumes "hash_encoding_injective en" "linked en ps" "linked en qs"
    and "n < length ps" "n < length qs" "pe_record_hash (ps ! n) = pe_record_hash (qs ! n)"
  shows "take (Suc n) ps = take (Suc n) qs \<or> collision en ps qs"
  using assms(4-6)
proof (induction n)
  case (Suc n)
  show ?case
  proof (cases "collision en ps qs")
    case False
    then have same: "ps ! Suc n = qs ! Suc n" using linked_same_record [OF assms(1-3) Suc.prems] by simp
    then have "pe_record_hash (ps ! n) = pe_record_hash (qs ! n)"
      using assms(2,3) Suc.prems unfolding linked_def by (metis diff_Suc_1 zero_less_Suc)
    then have "take (Suc n) ps = take (Suc n) qs" using False Suc.IH Suc.prems by simp
    then show ?thesis using same Suc.prems by (simp add: take_Suc_conv_app_nth [of "Suc n"])
  qed simp
next
  case 0
  then show ?case using linked_same_record [OF assms(1-3) 0] by (auto simp: take_Suc_conv_app_nth)
qed

section \<open>What a verification establishes\<close>

text \<open>The invariant of the loop over the table of events.\<close>

definition verified_chain :: "('b, 'k, 'w) JournalEnv \<Rightarrow> SecureAnchor option \<Rightarrow> 'b PersistedEventEnvelope list
    \<Rightarrow> verify_state \<Rightarrow> bool" where
  "verified_chain en anchor ps st \<longleftrightarrow> linked en ps \<and> vs_expected st = length ps + 1
     \<and> vs_previous_hash st = (if ps = [] then ZERO_HASH else pe_record_hash (last ps))
     \<and> (\<forall>i < length ps. pe_global_sequence (ps ! i) = i + 1)
     \<and> (\<forall>h. vs_anchor_hash st = Some h \<longrightarrow> (\<exists>a i. anchor = Some a \<and> sa_sequence a = i + 1 \<and> i < length ps
          \<and> pe_record_hash (ps ! i) = h))"

lemma linked_snoc:
  assumes "linked en ps" "cd_to_persisted_hash_input en (persisted_hash_input p) = Inr b"
    "cr_sha256_hex en b = pe_record_hash p" "ps \<noteq> [] \<Longrightarrow> pe_previous_hash p = pe_record_hash (last ps)"
  shows "linked en (ps @ [p])"
  using assms by (auto simp: linked_def hashed_bytes_def nth_append last_conv_nth less_Suc_eq)

lemma verify_entry_chain:
  assumes agree: "decoders_agree en" and chain: "verified_chain en anchor ps st"
    and bound: "length ps + 1 < u64_max"
    and step: "verify_entry en protection keys db checkpoint anchor indexed (sequence, bytes) st = Inr st'"
  shows "verified_chain en anchor (ps @ [projr (cd_of_persisted en bytes)]) st'"
proof -
  obtain p e where p: "cd_of_persisted en bytes = Inr p" and e: "cd_of_envelope en bytes = Inr e"
    and eq: "sequence = vs_expected st" "ev_global_sequence e = sequence" "ev_previous_hash e = vs_previous_hash st"
    and verified: "\<exists>v. verify_persisted_event en protection keys e p = Inr v"
    and st': "vs_expected st' = saturating_add64 (vs_expected st) 1" "vs_previous_hash st' = ev_record_hash e"
      "vs_anchor_hash st' = (if map_option sa_sequence anchor = Some sequence
         then Some (ev_record_hash e) else vs_anchor_hash st)"
    using step by (auto simp: verify_entry_def bind_r_Inr_iff decode_journal_json_def map_err_Inr_iff)
  have hash: "ev_record_hash e = pe_record_hash p" "persisted_record_hash en p = Inr (pe_record_hash p)"
    using verified by (auto simp: verify_persisted_event_def bind_r_Inr_iff)
  then obtain b where b: "cd_to_persisted_hash_input en (persisted_hash_input p) = Inr b"
      "cr_sha256_hex en b = pe_record_hash p"
    by (auto simp: persisted_record_hash_def bind_r_Inr_iff adapter_json_def map_err_Inr_iff)
  have same: "pe_previous_hash p = vs_previous_hash st" "pe_global_sequence p = vs_expected st"
    using agree p e eq by (auto simp: decoders_agree_def)
  have linked: "linked en (ps @ [p])"
    using chain same b by (intro linked_snoc [OF _ b]) (auto simp: verified_chain_def)
  have "vs_expected st' = length (ps @ [p]) + 1"
    using chain st'(1) bound by (simp add: verified_chain_def saturating_add64_exact)
  moreover have "pe_global_sequence ((ps @ [p]) ! i) = i + 1" if "i < length (ps @ [p])" for i
    using chain same(2) that by (auto simp: verified_chain_def nth_append less_Suc_eq)
  moreover have "\<exists>a i. anchor = Some a \<and> sa_sequence a = i + 1 \<and> i < length (ps @ [p])
      \<and> pe_record_hash ((ps @ [p]) ! i) = h" if "vs_anchor_hash st' = Some h" for h
  proof (cases "map_option sa_sequence anchor = Some sequence")
    case True
    then show ?thesis using that st'(3) hash(1) chain eq(1) by (auto simp: verified_chain_def intro!: exI [of _ "length ps"])
  next
    case False
    then have "vs_anchor_hash st = Some h" using that st'(3) unfolding if_not_P [OF False] by simp
    then obtain a i where "anchor = Some a" "sa_sequence a = i + 1" "i < length ps" "pe_record_hash (ps ! i) = h"
      using chain by (auto simp: verified_chain_def)
    then show ?thesis by (auto simp: nth_append intro!: exI [of _ i])
  qed
  ultimately show ?thesis
    using linked st'(2) hash(1) by (simp add: verified_chain_def p)
qed

lemma verify_snapshot_chain:
  assumes agree: "decoders_agree en"
    and ok: "verify_snapshot en protection keys anchor db = Inr report"
    and bound: "length (db_events db) < u64_max"
  shows "\<exists>st. verified_chain en anchor (stored_records en db) st
    \<and> vr_last_sequence report = length (stored_records en db) \<and> vr_last_hash report = vs_previous_hash st
    \<and> (\<forall>a. anchor = Some a \<longrightarrow> vs_anchor_hash st = Some (sa_hash a))"
proof -
  obtain checkpoint indexed st where fold:
      "fold_r (verify_entry en protection keys db checkpoint anchor indexed) (db_events db) verify_start = Inr st"
    and rest: "vr_last_sequence report = vs_expected st - 1" "vr_last_hash report = vs_previous_hash st"
      "\<forall>a. anchor = Some a \<longrightarrow> vs_anchor_hash st = Some (sa_hash a)"
    using ok by (auto simp: verify_snapshot_def bind_r_Inr_iff Let_def split: option.splits)
  have "verified_chain en anchor (map (\<lambda>(sequence, bytes). projr (cd_of_persisted en bytes)) rows) t"
    if "fold_r (verify_entry en protection keys db checkpoint anchor indexed) rows verify_start = Inr t"
      "length rows \<le> length (db_events db)" for rows t
    using that
  proof (induction rows arbitrary: t rule: rev_induct)
    case Nil
    then show ?case by (auto simp: verified_chain_def linked_def verify_start_def)
  next
    case (snoc row rows)
    then obtain u where u: "fold_r (verify_entry en protection keys db checkpoint anchor indexed) rows verify_start = Inr u"
        "verify_entry en protection keys db checkpoint anchor indexed row u = Inr t"
      by (auto simp: fold_r_append bind_r_Inr_iff)
    show ?case
      using snoc.IH [OF u(1)] snoc.prems(2) bound u(2)
        verify_entry_chain [OF agree, of anchor _ u protection keys db checkpoint indexed "fst row" "snd row" t]
      by (auto simp: case_prod_beta)
  qed
  from this [OF fold] have chain: "verified_chain en anchor (stored_records en db) st"
    by (simp add: stored_records_def)
  then show ?thesis using rest by (auto simp: verified_chain_def)
qed

text \<open>Two journals that verify against one anchor agree on all records it covers.\<close>

lemma anchored_prefix_equal:
  assumes "decoders_agree en" "hash_encoding_injective en"
    and "verify_snapshot en protection keys (Some a) db = Inr report" "length (db_events db) < u64_max"
    and "verify_snapshot en protection' keys' (Some a) db' = Inr report'" "length (db_events db') < u64_max"
  shows "take (sa_sequence a) (stored_records en db) = take (sa_sequence a) (stored_records en db')
    \<or> collision en (stored_records en db) (stored_records en db')"
proof -
  obtain st st' where
    chain: "verified_chain en (Some a) (stored_records en db) st" "vs_anchor_hash st = Some (sa_hash a)"
      "verified_chain en (Some a) (stored_records en db') st'" "vs_anchor_hash st' = Some (sa_hash a)"
    using verify_snapshot_chain [OF assms(1,3,4)] verify_snapshot_chain [OF assms(1,5,6)] by blast
  then obtain i where i: "sa_sequence a = Suc i" "i < length (stored_records en db)" "i < length (stored_records en db')"
      "pe_record_hash (stored_records en db ! i) = sa_hash a" "pe_record_hash (stored_records en db' ! i) = sa_hash a"
    by (auto simp: verified_chain_def)
  then show ?thesis
    using linked_prefix_equal [OF assms(2), of "stored_records en db" "stored_records en db'" i] chain
    by (simp add: verified_chain_def)
qed

end
