(* ===== verification/Keys.thy ===== *)
theory Keys
  imports JournalLog
begin

text \<open>
  Key providers of the journal (\<open>keys.rs\<close>): the provider of a journal without encryption, the
  in-memory provider with rotation, key material from the environment, and the decoding of the
  separately protected anchor. The locale \<open>key_provider\<close> is the contract the journal relies on;
  both providers that need nothing of the operating system are interpretations of it.
\<close>

section \<open>Secure anchors\<close>

definition MAX_SECURE_ANCHOR_BYTES :: nat where
  "MAX_SECURE_ANCHOR_BYTES = 8192"

definition u16_max :: nat where
  "u16_max = 65535"

text \<open>The wire names of the derived (de)serialisers.\<close>

fun anchor_status_str :: "SecureAnchorStatus \<Rightarrow> string" where
  "anchor_status_str AnchorVerified = ''verified''"
| "anchor_status_str AnchorQuarantined = ''quarantined''"

definition anchor_status_from_value :: "json \<Rightarrow> SecureAnchorStatus option" where
  "anchor_status_from_value v =
     (if v = JStr ''verified'' then Some AnchorVerified
      else if v = JStr ''quarantined'' then Some AnchorQuarantined else None)"

definition anchor_value :: "SecureAnchor \<Rightarrow> json" where
  "anchor_value a = JObj
     [(''format_version'', JNum (Unsigned (sa_format_version a))),
      (''sequence'', JNum (Unsigned (sa_sequence a))),
      (''hash'', JStr (sa_hash a)),
      (''verification_profile'', (case sa_verification_profile a of None \<Rightarrow> JNull | Some p \<Rightarrow> JStr p)),
      (''status'', JStr (anchor_status_str (sa_status a)))]"

definition decode_anchor :: "json \<Rightarrow> (StoreError, SecureAnchor) result" where
  "decode_anchor value =
     bind_r (ok_or (Verification ''secure anchor has no sequence'')
       (Option.bind (json_get value ''sequence'') as_u64)) (\<lambda>sequence.
     bind_r (ok_or (Verification ''secure anchor has no hash'') (get_str value ''hash'')) (\<lambda>hash.
     bind_r (case json_get value ''format_version'' of
         None \<Rightarrow> Inr 1
       | Some version \<Rightarrow> ok_or (Verification ''secure anchor format version is invalid'')
           (Option.bind (as_u64 version) (\<lambda>v. if v \<le> u16_max then Some v else None))) (\<lambda>format_version.
     bind_r (case json_get value ''status'' of
         None \<Rightarrow> Inr AnchorVerified
       | Some status \<Rightarrow> ok_or (Verification ''secure anchor status is invalid'')
           (anchor_status_from_value status)) (\<lambda>status.
     Inr \<lparr>sa_format_version = format_version, sa_sequence = sequence, sa_hash = hash,
       sa_verification_profile = get_str value ''verification_profile'', sa_status = status\<rparr>))))"

definition decode_secure_anchor ::
    "('b \<Rightarrow> nat) \<Rightarrow> ('b \<Rightarrow> (JsonError, json) result) \<Rightarrow> 'b \<Rightarrow> (StoreError, SecureAnchor) result" where
  "decode_secure_anchor len parse bytes =
     bind_r (reject_if (len bytes > MAX_SECURE_ANCHOR_BYTES)
       (Verification ''secure anchor exceeds bound'')) (\<lambda>_.
     bind_r (map_err (\<lambda>_. Verification ''secure anchor is invalid'') (parse bytes)) decode_anchor)"

section \<open>Providers\<close>

text \<open>No key and no anchor.\<close>

definition plaintext_active_key :: "unit \<Rightarrow> (StoreError, string \<times> u8 list) result" where
  "plaintext_active_key k = Inl (KeyUnavailable ''plaintext journal has no encryption key'')"

definition plaintext_key_by_id :: "unit \<Rightarrow> string \<Rightarrow> (StoreError, u8 list) result" where
  "plaintext_key_by_id k key_id = Inl (KeyUnavailable ''plaintext journal has no encryption key'')"

definition plaintext_store_anchor :: "SecureAnchor \<Rightarrow> unit \<Rightarrow> unit \<times> (StoreError, unit) result" where
  "plaintext_store_anchor anchor k = (k, Inl (StoreAdapter ''plaintext journal does not support secure anchors''))"

definition plaintext_load_anchor :: "unit \<Rightarrow> (StoreError, SecureAnchor option) result" where
  "plaintext_load_anchor k = Inr None"

text \<open>Keys in memory: one active, the historical ones kept.\<close>

record StaticKeyProvider =
  sk_active_id :: string
  sk_keys :: "(string, u8 list) table"
  sk_anchor :: "SecureAnchor option"

definition static_new :: "string \<Rightarrow> u8 list \<Rightarrow> StaticKeyProvider" where
  "static_new key_id key = \<lparr>sk_active_id = key_id, sk_keys = table_insert key_id key [], sk_anchor = None\<rparr>"

definition static_rotate ::
    "string \<Rightarrow> u8 list \<Rightarrow> StaticKeyProvider \<Rightarrow> StaticKeyProvider \<times> (StoreError, unit) result" where
  "static_rotate key_id key k =
     (if (case table_get (sk_keys k) key_id of None \<Rightarrow> False | Some existing \<Rightarrow> existing \<noteq> key)
      then (k, Inl (StoreAdapter ''a historical key identity cannot be assigned different key material''))
      else (k\<lparr>sk_keys := table_insert key_id key (sk_keys k), sk_active_id := key_id\<rparr>, Inr ()))"

definition static_key_by_id :: "StaticKeyProvider \<Rightarrow> string \<Rightarrow> (StoreError, u8 list) result" where
  "static_key_by_id k key_id = ok_or (KeyUnavailable key_id) (table_get (sk_keys k) key_id)"

definition static_active_key :: "StaticKeyProvider \<Rightarrow> (StoreError, string \<times> u8 list) result" where
  "static_active_key k =
     bind_r (ok_or (KeyUnavailable (sk_active_id k)) (table_get (sk_keys k) (sk_active_id k))) (\<lambda>key.
     Inr (sk_active_id k, key))"

definition static_store_anchor :: "SecureAnchor \<Rightarrow> StaticKeyProvider \<Rightarrow> StaticKeyProvider \<times> (StoreError, unit) result" where
  "static_store_anchor anchor k = (k\<lparr>sk_anchor := Some anchor\<rparr>, Inr ())"

definition static_load_anchor :: "StaticKeyProvider \<Rightarrow> (StoreError, SecureAnchor option) result" where
  "static_load_anchor k = Inr (sk_anchor k)"

text \<open>A key of the environment: 32 bytes in hexadecimal or base64.\<close>

definition environment_read_key ::
    "(string \<Rightarrow> string option) \<Rightarrow> (string \<Rightarrow> u8 list option) \<Rightarrow> (string \<Rightarrow> u8 list option) \<Rightarrow> string
      \<Rightarrow> (StoreError, u8 list) result" where
  "environment_read_key env hex base64 variable =
     bind_r (ok_or (KeyUnavailable (''environment variable '' @ variable @ '' is unset'')) (env variable)) (\<lambda>encoded.
     bind_r (ok_or (KeyUnavailable (variable @ '' must contain 32 bytes encoded as hex or base64''))
       (case hex encoded of Some bytes \<Rightarrow> Some bytes | None \<Rightarrow> base64 encoded)) (\<lambda>bytes.
     bind_r (reject_if (length bytes \<noteq> 32)
       (KeyUnavailable (variable @ '' must decode to exactly 32 bytes''))) (\<lambda>_.
     Inr bytes)))"

definition environment_active_key ::
    "(string \<Rightarrow> string option) \<Rightarrow> (string \<Rightarrow> u8 list option) \<Rightarrow> (string \<Rightarrow> u8 list option) \<Rightarrow> string \<Rightarrow> string
      \<Rightarrow> (StoreError, string \<times> u8 list) result" where
  "environment_active_key env hex base64 variable key_id =
     bind_r (environment_read_key env hex base64 variable) (\<lambda>key. Inr (key_id, key))"

definition environment_key_by_id ::
    "(string \<Rightarrow> string option) \<Rightarrow> (string \<Rightarrow> u8 list option) \<Rightarrow> (string \<Rightarrow> u8 list option) \<Rightarrow> string \<Rightarrow> string
      \<Rightarrow> string \<Rightarrow> (StoreError, u8 list) result" where
  "environment_key_by_id env hex base64 variable configured key_id =
     (if key_id \<noteq> configured
      then Inl (KeyUnavailable (''historical key '' @ key_id @ '' is not configured''))
      else environment_read_key env hex base64 variable)"

section \<open>The contract of a provider\<close>

locale key_provider =
  fixes active_key :: "'k \<Rightarrow> (StoreError, string \<times> u8 list) result"
    and key_by_id :: "'k \<Rightarrow> string \<Rightarrow> (StoreError, u8 list) result"
    and put_anchor :: "SecureAnchor \<Rightarrow> 'k \<Rightarrow> 'k \<times> (StoreError, unit) result"
    and get_anchor :: "'k \<Rightarrow> (StoreError, SecureAnchor option) result"
  assumes active_resolves: "active_key k = Inr (i, key) \<Longrightarrow> key_by_id k i = Inr key"
    and active_fault: "active_key k = Inl e \<Longrightarrow> fault e"
    and lookup_fault: "key_by_id k i = Inl e \<Longrightarrow> fault e"
    and put_keeps_keys: "put_anchor a k = (k', r) \<Longrightarrow> key_by_id k' = key_by_id k"
    and put_old_or_new: "put_anchor a k = (k', r) \<Longrightarrow> get_anchor k' = get_anchor k \<or> get_anchor k' = Inr (Some a)"
    and put_fault: "put_anchor a k = (k', Inl e) \<Longrightarrow> fault e"
    and put_stores: "put_anchor a k = (k', Inr ()) \<Longrightarrow> get_anchor k' = Inr (Some a)"
begin

lemma law: "provider_law active_key key_by_id put_anchor get_anchor"
  unfolding provider_law_def
  by (intro conjI allI impI)
    (blast intro: active_resolves active_fault lookup_fault put_keeps_keys put_fault | auto dest: put_old_or_new put_stores)+

text \<open>Any number of stores: the keys stay, and the anchor is one of those that were stored.\<close>

lemma stores_keep_keys: "key_by_id (fold (\<lambda>a k. fst (put_anchor a k)) stored k) = key_by_id k"
  by (induction stored arbitrary: k) (simp_all add: put_keeps_keys [OF surjective_pairing])

lemma stores_anchor:
  "get_anchor (fold (\<lambda>a k. fst (put_anchor a k)) stored k) = get_anchor k
     \<or> (\<exists>a \<in> set stored. get_anchor (fold (\<lambda>a k. fst (put_anchor a k)) stored k) = Inr (Some a))"
proof (induction stored arbitrary: k)
  case (Cons a stored)
  have "get_anchor (fst (put_anchor a k)) = get_anchor k \<or> get_anchor (fst (put_anchor a k)) = Inr (Some a)"
    by (rule put_old_or_new [OF surjective_pairing])
  then show ?case using Cons.IH [of "fst (put_anchor a k)"] by auto
qed simp

end

interpretation plaintext_keys: key_provider plaintext_active_key plaintext_key_by_id plaintext_store_anchor plaintext_load_anchor
  by unfold_locales
    (auto simp: plaintext_active_key_def plaintext_key_by_id_def plaintext_store_anchor_def plaintext_load_anchor_def)

interpretation static_keys: key_provider static_active_key static_key_by_id static_store_anchor static_load_anchor
proof unfold_locales
  show "static_active_key k = Inr (i, key) \<Longrightarrow> static_key_by_id k i = Inr key" for k i key
    by (auto simp: static_active_key_def static_key_by_id_def bind_r_Inr_iff)
  show "static_active_key k = Inl e \<Longrightarrow> fault e" for k e
    by (cases "table_get (sk_keys k) (sk_active_id k)") (auto simp: static_active_key_def)
  show "static_key_by_id k i = Inl e \<Longrightarrow> fault e" for k i e
    by (cases "table_get (sk_keys k) i") (auto simp: static_key_by_id_def)
qed (auto simp: static_store_anchor_def static_load_anchor_def static_key_by_id_def fun_eq_iff)

section \<open>Rotation\<close>

lemma static_rotate_keeps:
  assumes "static_rotate key_id key k = (k', r)" "table_ok (sk_keys k)"
    "static_key_by_id k i = Inr old"
  shows "static_key_by_id k' i = Inr old"
  using assms by (auto simp: static_rotate_def static_key_by_id_def ok_or_Inr_iff split: if_splits option.splits)

lemma static_rotate_active:
  assumes "static_rotate key_id key k = (k', Inr ())" "table_ok (sk_keys k)"
  shows "static_active_key k' = Inr (key_id, key)"
  using assms by (auto simp: static_rotate_def static_active_key_def split: if_splits)

section \<open>Encoding of anchors\<close>

lemma anchor_round_trip:
  "sa_format_version a \<le> u16_max \<Longrightarrow> decode_anchor (anchor_value a) = Inr a"
  by (cases "sa_status a"; cases "sa_verification_profile a"; cases a)
    (simp_all add: decode_anchor_def anchor_value_def get_str_def anchor_status_from_value_def)

lemma legacy_anchor:
  assumes "decode_anchor v = Inr a" "json_get v ''format_version'' = None"
  shows "sa_format_version a = 1" "\<not> anchor_trusted (Some a)"
  using assms
  by (auto simp: decode_anchor_def bind_r_Inr_iff anchor_trusted_def SECURE_ANCHOR_FORMAT_VERSION_def)

end
