(* ===== verification/JournalExample.thy ===== *)
theory JournalExample
  imports Keys JournalOpening
begin

text \<open>
  A concrete environment in which the hypotheses of the journal's properties hold: a small
  self-delimiting text encoding in place of JSON, a checksum in place of SHA-256, a cipher that
  authenticates its key, the in-memory key provider, and a world without faults.
\<close>

section \<open>A self-delimiting encoding\<close>

fun marked :: "string \<Rightarrow> string" where
  "marked [] = '';''"
| "marked (c # s) = CHR ''+'' # c # marked s"

definition pack :: "string list \<Rightarrow> string" where
  "pack parts = concat (map marked parts)"

fun unpack_from :: "string \<Rightarrow> string \<Rightarrow> string list" where
  "unpack_from acc (x # s) =
     (if x = CHR '';'' then rev acc # unpack_from [] s
      else case s of [] \<Rightarrow> [] | c # t \<Rightarrow> unpack_from (c # acc) t)"
| "unpack_from acc [] = []"

definition unpack :: "string \<Rightarrow> string list" where
  "unpack = unpack_from []"

lemma unpack_marked: "unpack_from acc (marked f @ s) = (rev acc @ f) # unpack_from [] s"
  by (induction f arbitrary: acc) simp_all

lemma unpack_pack [simp]: "unpack (pack parts) = parts"
  unfolding unpack_def pack_def by (induction parts) (simp_all add: unpack_marked)

definition tally :: "nat \<Rightarrow> string" where
  "tally n = replicate n CHR ''1''"

lemma length_tally [simp]: "length (tally n) = n"
  by (simp add: tally_def)

definition opt_text :: "string option \<Rightarrow> string" where
  "opt_text x = pack (case x of None \<Rightarrow> [] | Some s \<Rightarrow> [s])"

definition of_opt_text :: "string \<Rightarrow> string option" where
  "of_opt_text t = (case unpack t of [] \<Rightarrow> None | s # _ \<Rightarrow> Some s)"

lemma of_opt_text [simp]: "of_opt_text (opt_text x) = x"
  by (cases x) (simp_all add: of_opt_text_def opt_text_def)

section \<open>Encodings of the journal's records\<close>

definition actor_text :: "Actor \<Rightarrow> string" where
  "actor_text a = pack [actor_type_display (actor_type a), actor_id a]"

definition of_actor_text :: "string \<Rightarrow> Actor" where
  "of_actor_text t = (let f = unpack t in \<lparr>actor_type = projr (actor_type_from_str (f ! 0)), actor_id = f ! 1\<rparr>)"

lemma of_actor_text [simp]: "of_actor_text (actor_text a) = a"
  by (simp add: of_actor_text_def actor_text_def Let_def actor_wire.parse_display)

definition context_text :: "ExecutionContext \<Rightarrow> string" where
  "context_text c = pack [cx_correlation_id c, opt_text (cx_causation_id c), opt_text (cx_session_id c),
     opt_text (cx_run_id c), opt_text (cx_goal_id c), opt_text (cx_plan_id c), opt_text (cx_subagent_id c),
     pack (cx_skill_ids c), pack (map (\<lambda>(k, v). pack [k, v]) (cx_plugin_digests c)),
     opt_text (cx_workflow_id c), opt_text (cx_workflow_hash c), opt_text (cx_step_id c),
     opt_text (map_option tally (cx_attempt c))]"

definition of_context_text :: "string \<Rightarrow> ExecutionContext" where
  "of_context_text t = (let f = unpack t
     in \<lparr>cx_image_input_budget = None, cx_correlation_id = f ! 0, cx_causation_id = of_opt_text (f ! 1),
        cx_session_id = of_opt_text (f ! 2), cx_run_id = of_opt_text (f ! 3), cx_goal_id = of_opt_text (f ! 4),
        cx_plan_id = of_opt_text (f ! 5), cx_draft_plan_id = None, cx_draft_plan_revision = None,
        cx_subagent_id = of_opt_text (f ! 6), cx_skill_ids = unpack (f ! 7),
        cx_plugin_digests = map (\<lambda>t. (unpack t ! 0, unpack t ! 1)) (unpack (f ! 8)), cx_offered_tools = [],
        cx_workflow_id = of_opt_text (f ! 9), cx_workflow_hash = of_opt_text (f ! 10),
        cx_step_id = of_opt_text (f ! 11), cx_attempt = map_option length (of_opt_text (f ! 12))\<rparr>)"

lemma of_context_text [simp]: "of_context_text (context_text c) = durable_context c"
  by (cases c) (simp add: of_context_text_def context_text_def Let_def durable_context_def comp_def
      case_prod_beta option.map_comp option.map_ident)

definition payload_text :: "EncryptedPayload \<Rightarrow> string" where
  "payload_text p = pack [ep_key_id p, ep_algorithm p, ep_nonce p, ep_ciphertext p, ep_plaintext_hash p]"

definition of_payload_text :: "string \<Rightarrow> EncryptedPayload" where
  "of_payload_text t = (let f = unpack t in \<lparr>ep_key_id = f ! 0, ep_algorithm = f ! 1, ep_nonce = f ! 2,
     ep_ciphertext = f ! 3, ep_plaintext_hash = f ! 4\<rparr>)"

lemma of_payload_text [simp]: "of_payload_text (payload_text p) = p"
  by (simp add: of_payload_text_def payload_text_def Let_def)

definition envelope_text :: "EventEnvelope \<Rightarrow> string" where
  "envelope_text e = pack [tally (ev_schema_version e), tally (ev_event_version e), ev_event_id e,
     tally (ev_global_sequence e), ev_stream_id e, tally (ev_stream_version e),
     classification_display (ev_classification e), ev_event_type e, actor_text (ev_actor e),
     context_text (ev_context e), ev_occurred_at e, payload_text (ev_payload e), ev_previous_hash e,
     ev_record_hash e]"

definition of_persisted_text :: "string \<Rightarrow> string PersistedEventEnvelope" where
  "of_persisted_text t = (let f = unpack t
     in \<lparr>pe_schema_version = length (f ! 0), pe_event_version = length (f ! 1), pe_event_id = f ! 2,
        pe_global_sequence = length (f ! 3), pe_stream_id = f ! 4, pe_stream_version = length (f ! 5),
        pe_classification = projr (classification_from_str (f ! 6)), pe_event_type = f ! 7,
        pe_actor = f ! 8, pe_context = f ! 9, pe_occurred_at = f ! 10, pe_payload = f ! 11,
        pe_previous_hash = f ! 12, pe_record_hash = f ! 13\<rparr>)"

definition of_envelope_text :: "string \<Rightarrow> EventEnvelope" where
  "of_envelope_text t = (let p = of_persisted_text t
     in \<lparr>ev_schema_version = pe_schema_version p, ev_event_version = pe_event_version p,
        ev_event_id = pe_event_id p, ev_global_sequence = pe_global_sequence p,
        ev_stream_id = pe_stream_id p, ev_stream_version = pe_stream_version p,
        ev_classification = pe_classification p, ev_event_type = pe_event_type p,
        ev_actor = of_actor_text (pe_actor p), ev_context = of_context_text (pe_context p),
        ev_occurred_at = pe_occurred_at p, ev_payload = of_payload_text (pe_payload p),
        ev_previous_hash = pe_previous_hash p, ev_record_hash = pe_record_hash p\<rparr>)"

definition associated_text :: "string PersistedAssociatedData \<Rightarrow> string" where
  "associated_text a = pack [tally (pa_schema_version a), tally (pa_event_version a), pa_event_id a,
     tally (pa_global_sequence a), pa_stream_id a, tally (pa_stream_version a),
     classification_display (pa_classification a), pa_event_type a, pa_actor a, pa_context a, pa_occurred_at a]"

definition persist_associated :: "AssociatedData \<Rightarrow> string PersistedAssociatedData" where
  "persist_associated a = \<lparr>pa_schema_version = ad_schema_version a, pa_event_version = ad_event_version a,
     pa_event_id = ad_event_id a, pa_global_sequence = ad_global_sequence a, pa_stream_id = ad_stream_id a,
     pa_stream_version = ad_stream_version a, pa_classification = ad_classification a,
     pa_event_type = ad_event_type a, pa_actor = actor_text (ad_actor a),
     pa_context = context_text (ad_context a), pa_occurred_at = ad_occurred_at a\<rparr>"

definition hash_text :: "string PersistedRecordHashInput \<Rightarrow> string" where
  "hash_text h = pack [associated_text (ph_associated_data h), ph_payload h, ph_previous_hash h]"

definition checkpoint_text :: "SignedCheckpoint \<Rightarrow> string" where
  "checkpoint_text c = pack [tally (sc_global_sequence c), sc_record_hash c, sc_key_id c, sc_algorithm c,
     sc_signature c, sc_created_at c]"

definition of_checkpoint_text :: "string \<Rightarrow> SignedCheckpoint" where
  "of_checkpoint_text t = (let f = unpack t in \<lparr>sc_global_sequence = length (f ! 0), sc_record_hash = f ! 1,
     sc_key_id = f ! 2, sc_algorithm = f ! 3, sc_signature = f ! 4, sc_created_at = f ! 5\<rparr>)"

text \<open>Of the JSON documents only strings and flat objects of strings, counts, truth values and nulls.\<close>

fun flat_text :: "(string \<times> json) list \<Rightarrow> string list option" where
  "flat_text [] = Some []"
| "flat_text ((k, JStr s) # rest) = map_option (\<lambda>t. k # ''s'' # s # t) (flat_text rest)"
| "flat_text ((k, JNum (Unsigned n)) # rest) = map_option (\<lambda>t. k # ''n'' # tally n # t) (flat_text rest)"
| "flat_text ((k, JBool b) # rest) = map_option (\<lambda>t. k # ''b'' # (if b then ''1'' else []) # t) (flat_text rest)"
| "flat_text ((k, JNull) # rest) = map_option (\<lambda>t. k # ''0'' # [] # t) (flat_text rest)"
| "flat_text _ = None"

fun of_flat_text :: "string list \<Rightarrow> (string \<times> json) list" where
  "of_flat_text (k # kind # t # rest) =
     (k, if kind = ''s'' then JStr t else if kind = ''n'' then JNum (Unsigned (length t))
       else if kind = ''b'' then JBool (t \<noteq> []) else JNull) # of_flat_text rest"
| "of_flat_text _ = []"

definition value_text :: "json \<Rightarrow> (JsonError, string) result" where
  "value_text v = (case v of
       JStr s \<Rightarrow> Inr (pack [s])
     | JObj entries \<Rightarrow> (case flat_text entries of
         Some t \<Rightarrow> Inr (pack (''object'' # ''of'' # t))
       | None \<Rightarrow> Inl \<lparr>je_display = ''unsupported'', je_located = ''line 1''\<rparr>)
     | _ \<Rightarrow> Inl \<lparr>je_display = ''unsupported'', je_located = ''line 1''\<rparr>)"

definition of_value_text :: "string \<Rightarrow> json" where
  "of_value_text t = (case unpack t of [s] \<Rightarrow> JStr s | f \<Rightarrow> JObj (of_flat_text (drop 2 f)))"

lemma of_flat_text: "flat_text entries = Some t \<Longrightarrow> of_flat_text t = entries"
  by (induction entries arbitrary: t rule: flat_text.induct) auto

section \<open>The environment\<close>

definition example_env :: "(string, StaticKeyProvider, nat) JournalEnv" where
  "example_env = \<lparr>
     cd_to_envelope = Inr \<circ> envelope_text, cd_of_envelope = Inr \<circ> of_envelope_text,
     cd_of_persisted = Inr \<circ> of_persisted_text,
     cd_to_u64 = Inr \<circ> tally, cd_of_u64 = Inr \<circ> length, cd_to_str = Inr, cd_of_str = Inr,
     cd_to_checkpoint = Inr \<circ> checkpoint_text, cd_of_checkpoint = Inr \<circ> of_checkpoint_text,
     cd_to_value = value_text, cd_of_value = Inr \<circ> of_value_text,
     cd_to_associated = Inr \<circ> associated_text \<circ> persist_associated,
     cd_to_persisted_associated = Inr \<circ> associated_text,
     cd_to_hash_input = (\<lambda>h. Inr (hash_text \<lparr>ph_associated_data = persist_associated (rh_associated_data h),
        ph_payload = payload_text (rh_payload h), ph_previous_hash = rh_previous_hash h\<rparr>)),
     cd_to_persisted_hash_input = Inr \<circ> hash_text,
     cd_of_text = (\<lambda>s. s), cd_len = length,
     cr_sha256_hex = (\<lambda>b. tally (length b)), cr_hex_encode = (\<lambda>b. b), cr_hex_decode = Some,
     cr_encrypt = (\<lambda>k n m a. Inr (pack [tally (length k), m])),
     cr_decrypt = (\<lambda>k n c a. if hd (unpack c) = tally (length k) then Some (unpack c ! 1) else None),
     kp_payload_protection = Encrypted, kp_active_key = static_active_key, kp_key_by_id = static_key_by_id,
     kp_store_anchor = static_store_anchor, kp_load_anchor = static_load_anchor,
     cs_key_id = ''signer'', cs_sign = (\<lambda>m. Inr (marked m)),
     cs_verify = (\<lambda>m s. if s = marked m then Inr () else Inl (Verification ''signature'')),
     en_begin = (\<lambda>w. (w, None)), en_commit = (\<lambda>w. (w, None)),
     en_utc_now = (\<lambda>w. (w, Inr ''2026-01-01T00:00:00Z'')), en_uuid = (\<lambda>w. (w + 1, tally w)),
     en_nonce = (\<lambda>w. (w, Inr (replicate 24 CHR ''0''))), en_instant = (\<lambda>w. (w, 0))\<rparr>"

lemma example_envelope_law: "envelope_law example_env e"
  unfolding envelope_law_def
  by (rule exI [of _ "envelope_text e"], rule exI [of _ "of_persisted_text (envelope_text e)"])
    (simp add: example_env_def of_envelope_text_def of_persisted_text_def envelope_text_def Let_def durable_def
      stored_as_def persisted_hash_input_def persisted_associated_data_def persist_associated_def hash_input_def
      associated_data_def classification_wire.parse_display)

lemma example_codec_law: "codec_law example_env"
proof -
  have "of_checkpoint_text (checkpoint_text c) = c" for c
    by (simp add: of_checkpoint_text_def checkpoint_text_def Let_def)
  then show ?thesis
    unfolding codec_law_def
    by (auto simp: example_envelope_law)
      (simp_all add: example_env_def outbox_record_def value_text_def of_value_text_def get_str_def)
qed

lemma example_crypto_law: "crypto_law example_env"
  by (auto simp: crypto_law_def example_env_def fault_def split: if_splits)

lemma example_lawful: "lawful example_env"
  using example_codec_law example_crypto_law static_keys.law
  by (simp add: lawful_def) (simp add: example_env_def)

lemma example_stable_object: "flat_text entries = Some t \<Longrightarrow> stable_payload example_env (JObj entries)"
  by (simp add: stable_payload_def example_env_def value_text_def of_value_text_def of_flat_text)

lemma example_stable [simp]: "stable_payload example_env (JStr s)"
  by (simp add: stable_payload_def example_env_def value_text_def of_value_text_def)

definition example_keys :: StaticKeyProvider where
  "example_keys = static_new ''k1'' (replicate 32 7)"

text \<open>The first opening, on a database without tables, and an append.\<close>

lemma example_intact: "intact example_env empty_database example_keys [] []"
  by (simp add: intact_def example_env_def static_load_anchor_def example_keys_def static_new_def)

definition example_journal :: "(string, StaticKeyProvider, nat) RedbEventJournal" where
  "example_journal = unverified_journal example_env (empty_database\<lparr>db_metadata :=
     [(PAYLOAD_PROTECTION_KEY, protection_str Encrypted), (STREAM_EVENTS_INDEX_KEY, tally STREAM_EVENTS_INDEX_VERSION)]\<rparr>)
     example_keys Incremental 0"

definition example_event :: NewEvent where
  "example_event = \<lparr>ne_event_version = 1, ne_stream_id = ''s'', ne_expected_stream_version = 0,
     ne_classification = DomainClass, ne_event_type = ''t'',
     ne_actor = \<lparr>actor_type = System, actor_id = ''a''\<rparr>, ne_context = default_context,
     ne_payload = JStr ''hello''\<rparr>"


end
