(* ===== verification/JournalProperties.thy ===== *)
theory JournalProperties
  imports JournalHistory JournalProgress JournalTamper JournalExample
begin

text \<open>
  The properties of the journal, each applied to the concrete environment of the example.
\<close>

section \<open>The example\<close>

lemma example_reliable: "reliable example_env"
  by (simp add: reliable_def example_env_def static_store_anchor_def)

lemma example_shows: "shows_log example_env example_journal [] []"
proof -
  have "list_all2 (represents example_env Encrypted example_keys) [] []" by simp
  moreover have "journal_inv example_env example_journal []"
    by (simp add: journal_inv_def database_ok_def log_ok.log_empty events_ok_def meta_ok_def projections_ok_def
        keys_ok_def last_sequence_def last_hash_def latest_checkpoint_def index_version_def meta_entry_def
        example_journal_def unverified_journal_def empty_database_def example_env_def decode_journal_json_def
        stream_of_def next_hash_def PAYLOAD_PROTECTION_KEY_def STREAM_EVENTS_INDEX_KEY_def
        STREAM_EVENTS_INDEX_VERSION_def static_load_anchor_def example_keys_def static_new_def tally_def)
  ultimately show ?thesis by (simp add: shows_log_def)
qed

lemma example_state [simp]:
  "sealable example_env example_journal" "\<not> jr_recovery_mode example_journal"
  "jr_payload_protection example_journal = Encrypted" "jr_keys example_journal = example_keys"
  by (simp_all add: sealable_def example_journal_def unverified_journal_def example_env_def example_keys_def
      static_new_def static_active_key_def)

lemma example_event_stable: "event \<in> set [example_event] \<Longrightarrow> stable_payload example_env (ne_payload event)"
  by (simp add: example_event_def)

section \<open>Properties\<close>

text \<open>C25. Appending refines the abstract log: a batch is refused without a trace, by a fault of
  the environment, recovery mode, a stream version the log does not have, or an exhausted
  sequence; or all of it is appended, in order, to what the journal shows, and its envelopes are
  returned; or, with encryption, it is appended and the checkpoint that then was due fails.\<close>

theorem append_refines_log:
  assumes "lawful en" "shows_log en s es log"
    and "\<And>event. event \<in> set events \<Longrightarrow> stable_payload en (ne_payload event)"
  shows "after (append_batch en events) s (batch_outcome en s es log events)"
  using assms by (rule append_batch_outcome)

theorem append_refines_log_witness:
  "after (append_batch example_env [example_event]) example_journal
     (batch_outcome example_env example_journal [] [] [example_event])"
  by (rule append_refines_log [OF example_lawful example_shows example_event_stable])

text \<open>C29. Appends that nothing hinders succeed: when the packages and the system answer and the
  provider has an active key, a batch whose expected stream versions are those of the log is
  committed and its envelopes are returned, due checkpoints included.\<close>

theorem accepted_batch_commits:
  assumes "lawful en" "reliable en" "shows_log en s es log" "sealable en s" "\<not> jr_recovery_mode s"
    and "\<And>event. event \<in> set events \<Longrightarrow> stable_payload en (ne_payload event)"
    and "log_append log events = Inr (log @ events)" "length log + length events \<le> u64_max"
  shows "after (append_batch en events) s (\<lambda>s' r. \<exists>persisted. r = Inr persisted
    \<and> \<not> jr_recovery_mode s' \<and> shows_log en s' (es @ persisted) (log @ events))"
  using assms by (rule append_batch_commits)

theorem accepted_batch_commits_witness:
  "after (append_batch example_env [example_event]) example_journal (\<lambda>s' r. \<exists>persisted. r = Inr persisted
    \<and> \<not> jr_recovery_mode s' \<and> shows_log example_env s' ([] @ persisted) ([] @ [example_event]))"
  by (rule accepted_batch_commits [OF example_lawful example_reliable example_shows _ _ example_event_stable])
    (simp_all add: example_event_def log_version_def u64_max_def)

text \<open>C28. What was appended is read back: every read of a journal that shows a log returns the
  envelopes of that log, by stream forwards and backwards in pages and by global sequence, the
  payload of each envelope decrypts to the payload that was appended, and reading changes
  nothing; only the storage engine may fail.\<close>

theorem history_reads_back:
  assumes "lawful en" "shows_log en s es log" "length es < u64_max" "i < length log" "n < u64_max"
  shows "after (read_stream en stream) s (reads_as en s (map durable (stream_of es stream)))
    \<and> after (read_stream_from en stream n limit) s
        (reads_as en s (map durable (take (min limit MAX_STREAM_READ_BATCH) (drop n (stream_of es stream)))))
    \<and> after (read_stream_backwards en stream before limit) s (reads_as en s (map durable
        (take (min limit MAX_STREAM_READ_BATCH) (rev (take (case before of None \<Rightarrow> length (stream_of es stream)
          | Some v \<Rightarrow> v - 1) (stream_of es stream))))))
    \<and> after (read_global en n limit) s (reads_as en s (map durable (take limit (drop (n - 1) es))))
    \<and> after (decrypt_payload en (durable (es ! i))) s (reads_as en s (ne_payload (log ! i)))
    \<and> envelope_of (es ! i) (log ! i)"
proof -
  have rep: "represents en (jr_payload_protection s) (jr_keys s) (es ! i) (log ! i)" "es ! i \<in> set es"
    using assms(2,4) by (auto simp: shows_log_def list_all2_conv_all_nth)
  show ?thesis
    by (intro conjI read_stream_exact [OF assms(1,2)] read_stream_from_exact [OF assms(1,2,5)]
        read_stream_backwards_exact [OF assms(1,2)] read_global_exact [OF assms(1-3)]
        decrypt_payload_exact [OF assms(1,2) rep(2)])
      (use rep(1) assms(5) in \<open>simp_all add: represents_def\<close>)
qed

theorem history_reads_back_witness:
  "\<exists>s es. after (read_stream example_env ''s'') s (reads_as example_env s (map durable (stream_of es ''s'')))
    \<and> after (decrypt_payload example_env (durable (es ! 0))) s (reads_as example_env s (JStr ''hello''))"
proof -
  have run: "after (append_batch example_env [example_event]) example_journal (\<lambda>s' r. \<exists>persisted. r = Inr persisted
      \<and> \<not> jr_recovery_mode s' \<and> shows_log example_env s' ([] @ persisted) ([] @ [example_event]))"
    by (rule append_batch_commits [OF example_lawful example_reliable example_shows _ _ example_event_stable])
      (simp_all add: example_event_def log_version_def u64_max_def)
  then obtain s es where s: "shows_log example_env s es [example_event]" by (auto simp: after_run)
  then have "length es = 1" by (auto simp: shows_log_def dest: list_all2_lengthD)
  then show ?thesis
    using history_reads_back [OF example_lawful s, of 0 0 "''s''" 0 None] by (auto simp: example_event_def u64_max_def)
qed



text \<open>C27. Tampering is evident: if two databases, of whatever origin, verify against the same
  secure anchor, then the records up to the anchored sequence are the same, field by field and
  in order, or the two histories exhibit a collision of the hash.\<close>

theorem anchored_history_is_unique:
  assumes "decoders_agree en" "hash_encoding_injective en"
    and "verify_snapshot en protection keys (Some a) db = Inr report" "length (db_events db) < u64_max"
    and "verify_snapshot en protection' keys' (Some a) db' = Inr report'" "length (db_events db') < u64_max"
  shows "take (sa_sequence a) (stored_records en db) = take (sa_sequence a) (stored_records en db')
    \<or> collision en (stored_records en db) (stored_records en db')"
  using assms by (rule anchored_prefix_equal)

lemma example_decoders: "decoders_agree example_env" "hash_encoding_injective example_env"
proof -
  show "decoders_agree example_env"
    by (auto simp: decoders_agree_def example_env_def of_envelope_text_def Let_def)
  have pack_inject: "pack xs = pack ys \<longleftrightarrow> xs = ys" for xs ys
    using unpack_pack by metis
  have tally_inject: "tally m = tally n \<longleftrightarrow> m = n" for m n
    using length_tally by metis
  have "hash_text h = hash_text h' \<Longrightarrow> h = h'" for h h'
    by (cases h; cases h'; cases "ph_associated_data h"; cases "ph_associated_data h'")
      (simp add: hash_text_def associated_text_def pack_inject tally_inject classification_wire.display_inject)
  then show "hash_encoding_injective example_env"
    by (auto simp: hash_encoding_injective_def example_env_def)
qed

theorem anchored_history_is_unique_witness:
  "\<exists>p k a db db' report report'. verify_snapshot example_env p k (Some a) db = Inr report
    \<and> verify_snapshot example_env p k (Some a) db' = Inr report' \<and> db \<noteq> db' \<and> sa_sequence a = 1
    \<and> (take 1 (stored_records example_env db) = take 1 (stored_records example_env db')
       \<or> collision example_env (stored_records example_env db) (stored_records example_env db'))"
proof -
  have "after (append_batch example_env [example_event]) example_journal (\<lambda>s' r. \<exists>persisted. r = Inr persisted
      \<and> \<not> jr_recovery_mode s' \<and> shows_log example_env s' ([] @ persisted) ([] @ [example_event]))"
    by (rule append_batch_commits [OF example_lawful example_reliable example_shows _ _ example_event_stable])
      (simp_all add: example_event_def log_version_def u64_max_def)
  then obtain s es where s: "shows_log example_env s es [example_event]" by (auto simp: after_run)
  then have len: "length es = 1" by (auto simp: shows_log_def dest: list_all2_lengthD)
  define p k db where "p = jr_payload_protection s" and "k = jr_keys s" and "db = jr_database s"
  define db' where "db' = db\<lparr>db_projection_positions := [(''p'', if db_projection_positions db = [(''p'', 1)] then 0 else 1)]\<rparr>"
  define a where "a = \<lparr>sa_format_version = 2, sa_sequence = 1, sa_hash = next_hash es,
    sa_verification_profile = None, sa_status = AnchorVerified\<rparr>"
  have ok: "database_ok example_env p k db es" "index_state example_env db es"
    using s by (simp_all add: shows_log_def journal_inv_def index_state_def p_def k_def db_def)
  have "anchor_ok es a" using head_in_log [OF s] len by (cases es) (auto simp: anchor_ok_def a_def)
  then have verified: "\<exists>report. verify_snapshot example_env p k (Some a) d = Inr report"
    if "database_ok example_env p k d es" "index_state example_env d es" for d
    using verify_snapshot_ok [OF example_lawful that, of "Some a"] len by (auto simp: u64_max_def)
  have "database_ok example_env p k db' es" "index_state example_env db' es"
    using ok len
    by (auto simp: database_ok_def db'_def index_state_def index_version_def meta_ok_def events_ok_def
        projections_ok_def last_sequence_def last_hash_def latest_checkpoint_def projection_prefix_def
        cong: meta_entry_cong)
  then obtain report report' where verify: "verify_snapshot example_env p k (Some a) db = Inr report"
      "verify_snapshot example_env p k (Some a) db' = Inr report'"
    using verified ok by blast
  have "length (db_events db) < u64_max" "length (db_events db') < u64_max"
    using ok len by (simp_all add: database_ok_def events_ok_def db'_def u64_max_def)
  note unique = anchored_history_is_unique [OF example_decoders verify(1) this(1) verify(2) this(2)]
  have "db \<noteq> db'" by (cases db) (auto simp: db'_def split: if_splits)
  then show ?thesis using verify unique by (intro exI [of _ p] exI [of _ k] exI [of _ a] exI [of _ db] exI [of _ db'] exI [of _ report]
      exI [of _ report']) (simp add: a_def)
qed

end
