(* ===== verification/JournalRunProperties.thy ===== *)
theory JournalRunProperties
  imports JournalRuns JournalProperties
begin

text \<open>
  The properties of whole lives of a journal, with a life of the example.
\<close>

section \<open>The example\<close>

lemma open_database_runs:
  assumes "initialize_payload_protection en (unverified_journal en database keys mode w) = (t, Inr ())"
  shows "\<exists>s. open_database en database keys mode w = Inr s"
  using assms
  by (simp add: open_database_def open_steps_def on_world_def a_modify_def a_bind_def a_catch_def a_return_def
      split: prod.split sum.split)

lemma example_opens: "\<exists>s. open_database example_env empty_database example_keys Incremental 0 = Inr s"
proof -
  have "\<exists>t. initialize_payload_protection example_env
      (unverified_journal example_env empty_database example_keys Incremental 0) = (t, Inr ())"
    by (simp add: initialize_payload_protection_def Let_def unverified_journal_def empty_database_def example_env_def
        a_bind_def begin_transaction_def on_world_def meta_entry_def last_sequence_def a_lift_def a_return_def a_get_def
        a_reject_def commit_transaction_def a_modify_def adapter_json_def)
  then show ?thesis by (elim exE) (rule open_database_runs)
qed

text \<open>The example journal with a head that no event stands for.\<close>

definition damaged_journal :: "(string, StaticKeyProvider, nat) RedbEventJournal" where
  "damaged_journal = example_journal\<lparr>jr_database := (jr_database example_journal)\<lparr>db_metadata :=
     table_insert ''last_sequence'' (tally 1) (db_metadata (jr_database example_journal))\<rparr>\<rparr>"

section \<open>Properties\<close>



text \<open>C33. A failed verification closes the journal: when a call reports one, the handle is in
  recovery mode with that reason, and then, whatever calls follow, every append and, with
  encryption, every checkpoint is refused and changes nothing.\<close>

theorem failed_verification_closes:
  assumes "\<not> uses_projections c" "snd (journal_call en c s) = Inl (Verification reason)"
    and "s' = fst (journal_call en c s)" "t = fold (\<lambda>c s. fst (journal_call en c s)) calls s'"
  shows "jr_recovery_mode s' \<and> jr_recovery_reason s' = Some reason
    \<and> jr_recovery_mode t \<and> append_batch en events t = (t, Inl RecoveryMode)
    \<and> journal_checkpoint en t = (t, if jr_payload_protection s' = Plaintext then Inr None else Inl RecoveryMode)"
proof -
  have s': "jr_recovery_mode s'" "jr_recovery_reason s' = Some reason"
    using call_guarded [OF assms(1), of en] assms(2,3) by (simp_all add: guarded_def after_run)
  from closed_calls [OF this(1), of en calls] show ?thesis
    using s' by (simp add: closed_append closed_checkpoint assms(4))
qed

theorem failed_verification_closes_witness:
  "\<exists>reason t. t = fst (journal_call example_env (CallReadGlobal 1 10) damaged_journal)
    \<and> jr_recovery_reason t = Some reason
    \<and> append_batch example_env [example_event] t = (t, Inl RecoveryMode)"
proof -
  have table: "table_get (table_insert ''last_sequence'' (tally 1) (db_metadata (jr_database example_journal)))
      ''last_sequence'' = Some (tally 1)"
    by (simp add: example_journal_def unverified_journal_def empty_database_def PAYLOAD_PROTECTION_KEY_def
        STREAM_EVENTS_INDEX_KEY_def)
  then obtain reason where lost: "snd (journal_call example_env (CallReadGlobal 1 10) damaged_journal)
      = Inl (Verification reason)"
    by (simp add: damaged_journal_def discard_def read_global_def global_snapshot_def quarantine_result_def a_bind_def
        begin_transaction_def on_world_def example_env_def last_sequence_def meta_entry_def a_get_def a_lift_def
        decode_journal_json_def example_journal_def unverified_journal_def empty_database_def table_from_def
        reject_if_def a_return_def del: table_get_insert)
  have "jr_recovery_mode (fst (journal_call example_env (CallReadGlobal 1 10) damaged_journal))
    \<and> jr_recovery_reason (fst (journal_call example_env (CallReadGlobal 1 10) damaged_journal)) = Some reason
    \<and> jr_recovery_mode (fst (journal_call example_env (CallReadGlobal 1 10) damaged_journal))
    \<and> append_batch example_env [example_event] (fst (journal_call example_env (CallReadGlobal 1 10) damaged_journal))
      = (fst (journal_call example_env (CallReadGlobal 1 10) damaged_journal), Inl RecoveryMode)
    \<and> journal_checkpoint example_env (fst (journal_call example_env (CallReadGlobal 1 10) damaged_journal))
      = (fst (journal_call example_env (CallReadGlobal 1 10) damaged_journal),
         if jr_payload_protection (fst (journal_call example_env (CallReadGlobal 1 10) damaged_journal)) = Plaintext
         then Inr None else Inl RecoveryMode)"
    by (rule failed_verification_closes [where calls = "[]", OF _ lost refl]) simp_all
  then show ?thesis by blast
qed

end
