(* ===== verification/ProjectionProperties.thy ===== *)
theory ProjectionProperties
  imports ProjectionViews JournalExample
begin

text \<open>
  The properties of the projection store: its transactions refine the abstract store that maps
  each projection to a position and the values under its keys, and its pages are the pages of
  that store.
\<close>

section \<open>The example\<close>

definition example_batch :: ProjectionBatch where
  "example_batch = \<lparr>pb_projection = ''p'', pb_expected_position = 0,
     pb_through_sequence = 1, pb_mutations = [Upsert ''k'' (JStr ''v'')]\<rparr>"

definition example_rows :: "(string, StaticKeyProvider, nat) RedbEventJournal" where
  "example_rows = example_journal\<lparr>jr_database := (jr_database example_journal)\<lparr>db_projection_records :=
     [(''o'' @ [CHR 0x00] @ ''k2'', pack [''other'']), (''p'' @ [CHR 0x00] @ ''k1'', pack [''first'']),
      (''p'' @ [CHR 0x00] @ ''k2'', pack [''second'']), (''p'' @ [CHR 0x00] @ ''x'', pack [''third''])]\<rparr>\<rparr>"

section \<open>Properties\<close>

text \<open>C30. Projection batches apply atomically and exactly: a list of batches either changes nothing,
  by a fault of the environment or because the abstract store refuses a batch (an expected
  position the projection does not have), or commits the store that applying every batch in
  turn gives, the events, checkpoints and metadata untouched; a reset empties one projection
  and no other.\<close>

theorem projections_refine_store:
  assumes "projections_sorted (jr_database s)" "plain_name p"
  shows "after (projection_apply_all en batches) s (\<lambda>s' r. case r of
       Inl e \<Rightarrow> agrees s s' \<and> (fault e \<or> fold_r (view_apply en) batches (projection_view (jr_database s)) = Inl e)
     | Inr _ \<Rightarrow> projections_changed s s'
         \<and> fold_r (view_apply en) batches (projection_view (jr_database s)) = Inr (projection_view (jr_database s')))
    \<and> after (projection_reset en p) s (\<lambda>s' r. case r of
       Inl e \<Rightarrow> agrees s s' \<and> fault e
     | Inr _ \<Rightarrow> projections_changed s s'
         \<and> projection_view (jr_database s') = (projection_view (jr_database s))(p := (0, Map.empty)))"
  using apply_all_after [OF assms(1), of en batches, unfolded applied_views_def]
    reset_after [OF assms, of en] by (rule conjI)

theorem projections_refine_store_witness:
  "after (projection_apply_all example_env [example_batch]) example_journal (\<lambda>s' r. case r of
       Inl e \<Rightarrow> fault e
     | Inr _ \<Rightarrow> projections_changed example_journal s'
         \<and> projection_view (jr_database s') ''p'' = (1, [''k'' \<mapsto> pack [''v'']]))"
proof -
  have ready: "projections_sorted (jr_database example_journal)" "plain_name ''p''"
    and empty: "projection_view (jr_database example_journal) ''p'' = (0, Map.empty)"
    by (simp_all add: projections_sorted_def example_journal_def unverified_journal_def empty_database_def
        plain_name_def projection_view_def durable_position_def own_records_def fun_eq_iff)
  have applied: "fold_r (view_apply example_env) [example_batch] (projection_view (jr_database example_journal))
      = Inr ((projection_view (jr_database example_journal))(''p'' := (1, [''k'' \<mapsto> pack [''v''] ])))"
    by (simp add: view_apply_def example_batch_def empty view_mutation_def example_env_def value_text_def Let_def)
  have upd: "f(k := x) = g \<Longrightarrow> g k = x" for f g :: "string \<Rightarrow> string view" and k x by (metis fun_upd_same)
  show ?thesis
    using applied conjunct1 [OF projections_refine_store [OF ready, of example_env "[example_batch]"]]
    by (auto elim!: after_mono split: sum.splits dest!: upd simp del: fold_r.simps)
qed

text \<open>C31. Pages are exact: listing a projection after an exclusive cursor returns, in key order,
  the first records, up to the limit, of that projection alone whose keys have the prefix and
  lie beyond the cursor, or the error of the first record that does not decode; nothing
  changes.\<close>

theorem projection_page_exact:
  assumes "table_ok (db_projection_records (jr_database s))"
    and "plain_name p" "CHR 0x00 \<notin> set key_prefix" "\<And>cursor. after_key = Some cursor \<Longrightarrow> CHR 0x00 \<notin> set cursor"
  shows "after (projection_list_after en p key_prefix after_key limit) s (\<lambda>s' r. agrees s s'
    \<and> r = (if limit = 0 then Inr [] else case snd (en_begin en (jr_world s)) of
         Some m \<Rightarrow> Inl (StoreAdapter m)
       | None \<Rightarrow> decode_rows en (take limit (filter (\<lambda>row. in_page key_prefix after_key (fst row))
           (projection_rows (p @ [CHR 0x00]) (db_projection_records (jr_database s)))))))"
  using assms by (rule list_after_page)

theorem projection_page_exact_witness:
  "after (projection_list_after example_env ''p'' ''k'' (Some ''k1'') 5) example_rows
     (\<lambda>s' r. r = Inr [(''k2'', JStr ''second'')])"
proof -
  have "table_ok (db_projection_records (jr_database example_rows))"
    by (simp add: example_rows_def table_ok_def less_char_def)
  then have "after (projection_list_after example_env ''p'' ''k'' (Some ''k1'') 5) example_rows (\<lambda>s' r. agrees example_rows s'
    \<and> r = (if (5::nat) = 0 then Inr [] else case snd (en_begin example_env (jr_world example_rows)) of
         Some m \<Rightarrow> Inl (StoreAdapter m)
       | None \<Rightarrow> decode_rows example_env (take 5 (filter (\<lambda>row. in_page ''k'' (Some ''k1'') (fst row))
           (projection_rows (''p'' @ [CHR 0x00]) (db_projection_records (jr_database example_rows)))))))"
    by (rule projection_page_exact) (auto simp: plain_name_def)
  moreover have "decode_rows example_env (take 5 (filter (\<lambda>row. in_page ''k'' (Some ''k1'') (fst row))
       (projection_rows (''p'' @ [CHR 0x00]) (db_projection_records (jr_database example_rows)))))
     = Inr [(''k2'', JStr ''second'')]"
    by (simp add: decode_rows_def projection_rows_def example_rows_def in_page_def example_env_def of_value_text_def
        adapter_json_def)
  ultimately show ?thesis by (auto elim!: after_mono simp: example_env_def)
qed

end
