(* ===== verification/Ports.thy ===== *)
theory Ports
  imports JournalReads Projections
begin

text \<open>
  The ports the journal and the projection store are used through (\<open>colossus-ports\<close>): a record
  of operations on one state for each trait, and the records of the redb implementations. Code
  that works over \<open>dyn EventJournal\<close> and \<open>dyn ProjectionStore\<close> takes these records.
\<close>

type_synonym ('s, 'a) store_op = "('s, StoreError, 'a) action"

record 's EventJournalPort =
  ej_append :: "NewEvent \<Rightarrow> ('s, EventEnvelope) store_op"
  ej_append_batch :: "NewEvent list \<Rightarrow> ('s, EventEnvelope list) store_op"
  ej_read_stream :: "string \<Rightarrow> ('s, EventEnvelope list) store_op"
  ej_read_stream_from :: "string \<Rightarrow> nat \<Rightarrow> nat \<Rightarrow> ('s, EventEnvelope list) store_op"
  ej_read_stream_backwards :: "string \<Rightarrow> nat option \<Rightarrow> nat \<Rightarrow> ('s, EventEnvelope list) store_op"
  ej_list_stream_ids :: "string \<Rightarrow> string option \<Rightarrow> nat \<Rightarrow> ('s, string list) store_op"
  ej_read_global :: "nat \<Rightarrow> nat \<Rightarrow> ('s, EventEnvelope list) store_op"
  ej_read_projection_work :: "nat \<Rightarrow> nat \<Rightarrow> ('s, ProjectionWorkItem list) store_op"
  ej_head :: "('s, nat \<times> string) store_op"
  ej_decrypt_payload :: "EventEnvelope \<Rightarrow> ('s, json) store_op"
  ej_is_recovery_mode :: "'s \<Rightarrow> bool"

record 's ProjectionStorePort =
  ps_position :: "string \<Rightarrow> ('s, nat) store_op"
  ps_get :: "string \<Rightarrow> string \<Rightarrow> ('s, json option) store_op"
  ps_list_after :: "string \<Rightarrow> string \<Rightarrow> string option \<Rightarrow> nat \<Rightarrow> ('s, (string \<times> json) list) store_op"
  ps_apply :: "ProjectionBatch \<Rightarrow> ('s, unit) store_op"
  ps_apply_all :: "ProjectionBatch list \<Rightarrow> ('s, unit) store_op"
  ps_reset :: "string \<Rightarrow> ('s, unit) store_op"

definition redb_journal :: "('b, 'k, 'w) JournalEnv \<Rightarrow> ('b, 'k, 'w) RedbEventJournal EventJournalPort" where
  "redb_journal en = \<lparr>ej_append = journal_append en, ej_append_batch = append_batch en, ej_read_stream = read_stream en,
     ej_read_stream_from = read_stream_from en, ej_read_stream_backwards = read_stream_backwards en,
     ej_list_stream_ids = list_stream_ids en, ej_read_global = read_global en, ej_read_projection_work = read_projection_work en,
     ej_head = journal_head en, ej_decrypt_payload = decrypt_payload en, ej_is_recovery_mode = jr_recovery_mode\<rparr>"

definition redb_store :: "('b, 'k, 'w) JournalEnv \<Rightarrow> ('b, 'k, 'w) RedbEventJournal ProjectionStorePort" where
  "redb_store en = \<lparr>ps_position = projection_position en, ps_get = projection_get en,
     ps_list_after = projection_list_after en, ps_apply = projection_apply en,
     ps_apply_all = projection_apply_all en, ps_reset = projection_reset en\<rparr>"

section \<open>The store as callers see it\<close>

text \<open>A projection has a position and documents under its keys.\<close>

type_synonym store_view = "string \<Rightarrow> nat \<times> (string \<Rightarrow> json option)"

definition mutate :: "ProjectionMutation \<Rightarrow> (string \<Rightarrow> json option) \<Rightarrow> string \<Rightarrow> json option" where
  "mutate mutation records = (case mutation of
       Upsert key v \<Rightarrow> records(key := Some v) | Delete key \<Rightarrow> records(key := None))"

definition advance :: "string \<Rightarrow> nat \<Rightarrow> ProjectionMutation list \<Rightarrow> store_view \<Rightarrow> store_view" where
  "advance projection sequence mutations view =
     view(projection := (sequence, fold mutate mutations (snd (view projection))))"

text \<open>The first records of a page, in key order.\<close>

definition view_page :: "(string \<Rightarrow> json option) \<Rightarrow> string \<Rightarrow> string option \<Rightarrow> nat \<Rightarrow> (string \<times> json) list" where
  "view_page records key_prefix after_key limit =
     map (\<lambda>key. (key, the (records key)))
       (take limit (sorted_list_of_set {key \<in> dom records. in_page key_prefix after_key key}))"

end
