(* ===== verification/ProjectionWorker.thy ===== *)
theory ProjectionWorker
  imports Ports
begin

text \<open>
  The projection worker (\<open>colossus-projection/src/worker.rs\<close>) and the overlay that its
  reducers read through (\<open>worker/overlay.rs\<close>). A worker replays the events of the journal
  into every registered projection, page by page, and commits a round at once.
\<close>

section \<open>Data\<close>

record 's ProjectionHandler =
  ph_name :: string
  ph_applies_to :: "EventEnvelope \<Rightarrow> bool"
  ph_requires_payload :: bool
  ph_project :: "'s ProjectionStorePort \<Rightarrow> EventEnvelope \<Rightarrow> json \<Rightarrow> ('s, ProjectionMutation list) store_op"

record ProjectionStatus =
  st_projection :: string
  st_position :: nat
  st_journal_head :: nat
  st_lag :: nat
  st_ready :: bool

record ProjectionRunReport =
  rr_applied :: nat
  rr_projections :: "ProjectionStatus list"

record 's ProjectionWorker =
  pw_journal :: "'s EventJournalPort"
  pw_store :: "'s ProjectionStorePort"
  pw_handlers :: "'s ProjectionHandler list"

fun adjacent_equal :: "string list \<Rightarrow> bool" where
  "adjacent_equal (x # y # rest) \<longleftrightarrow> x = y \<or> adjacent_equal (y # rest)"
| "adjacent_equal _ \<longleftrightarrow> False"

definition worker_new ::
    "'s EventJournalPort \<Rightarrow> 's ProjectionStorePort \<Rightarrow> 's ProjectionHandler list \<Rightarrow> (StoreError, 's ProjectionWorker) result" where
  "worker_new journal store handlers =
     bind_r (reject_if (adjacent_equal (sort (map ph_name handlers)))
       (StoreAdapter ''projection handler names must be unique'')) (\<lambda>_.
     Inr \<lparr>pw_journal = journal, pw_store = store, pw_handlers = handlers\<rparr>)"

section \<open>The overlay\<close>

record PendingProjection =
  pp_expected_position :: nat
  pp_through_sequence :: nat
  pp_records :: "(string, json option) table"

type_synonym pending_table = "(string, PendingProjection) table"

definition stage_mutation :: "ProjectionMutation \<Rightarrow> (string, json option) table \<Rightarrow> (string, json option) table" where
  "stage_mutation mutation records = (case mutation of
       Upsert key v \<Rightarrow> table_insert key (Some v) records
     | Delete key \<Rightarrow> table_insert key None records)"

definition stage :: "string \<Rightarrow> nat \<Rightarrow> nat \<Rightarrow> ProjectionMutation list \<Rightarrow> pending_table \<Rightarrow> pending_table" where
  "stage projection expected_position through_sequence mutations pending =
     (let entry = (case table_get pending projection of
          Some p \<Rightarrow> p
        | None \<Rightarrow> \<lparr>pp_expected_position = expected_position, pp_through_sequence = through_sequence, pp_records = []\<rparr>)
      in table_insert projection (entry\<lparr>pp_through_sequence := through_sequence,
           pp_records := fold stage_mutation mutations (pp_records entry)\<rparr>) pending)"

definition record_mutation :: "string \<times> json option \<Rightarrow> ProjectionMutation" where
  "record_mutation = (\<lambda>(key, v). case v of Some x \<Rightarrow> Upsert key x | None \<Rightarrow> Delete key)"

definition take_batch :: "string \<Rightarrow> pending_table \<Rightarrow> ProjectionBatch option \<times> pending_table" where
  "take_batch projection pending =
     (map_option (\<lambda>p. \<lparr>pb_projection = projection, pb_expected_position = pp_expected_position p,
         pb_through_sequence = pp_through_sequence p,
         pb_mutations = map record_mutation (pp_records p)\<rparr>) (table_get pending projection),
      table_remove projection pending)"

definition overlay_position :: "'s ProjectionStorePort \<Rightarrow> pending_table \<Rightarrow> string \<Rightarrow> ('s, nat) store_op" where
  "overlay_position store pending projection = (case table_get pending projection of
       None \<Rightarrow> ps_position store projection
     | Some p \<Rightarrow> a_return (pp_through_sequence p))"

definition overlay_get :: "'s ProjectionStorePort \<Rightarrow> pending_table \<Rightarrow> string \<Rightarrow> string \<Rightarrow> ('s, json option) store_op" where
  "overlay_get store pending projection key =
     (case Option.bind (table_get pending projection) (\<lambda>p. table_get (pp_records p) key) of
        Some v \<Rightarrow> a_return v
      | None \<Rightarrow> ps_get store projection key)"

text \<open>Enough durable records are read to fill the page after staged deletes.\<close>

definition merge_record :: "string \<times> json option \<Rightarrow> (string, json) table \<Rightarrow> (string, json) table" where
  "merge_record = (\<lambda>(key, v) records. case v of
       Some x \<Rightarrow> table_insert key x records | None \<Rightarrow> table_remove key records)"

definition overlay_list_after ::
    "'s ProjectionStorePort \<Rightarrow> pending_table \<Rightarrow> string \<Rightarrow> string \<Rightarrow> string option \<Rightarrow> nat \<Rightarrow> ('s, (string \<times> json) list) store_op" where
  "overlay_list_after store pending projection key_prefix after_key limit =
     (case table_get pending projection of
        None \<Rightarrow> ps_list_after store projection key_prefix after_key limit
      | Some p \<Rightarrow>
          if limit = 0 then ps_list_after store projection key_prefix after_key 0
          else
            let staged = filter (\<lambda>e. in_page key_prefix after_key (fst e)) (pp_records p)
            in a_bind (ps_list_after store projection key_prefix after_key (saturating_add64 limit (length staged)))
                 (\<lambda>durable. a_return (take limit
                    (fold merge_record staged (fold (\<lambda>(key, v). table_insert key v) durable [])))))"

definition overlay_port :: "'s ProjectionStorePort \<Rightarrow> pending_table \<Rightarrow> 's ProjectionStorePort" where
  "overlay_port store pending = \<lparr>ps_position = overlay_position store pending, ps_get = overlay_get store pending,
     ps_list_after = overlay_list_after store pending,
     ps_apply = (\<lambda>_. a_fail (StoreAdapter ''projection reducers must return mutations instead of writing to the store'')),
     ps_apply_all = (\<lambda>_. a_fail (StoreAdapter ''projection reducers must return mutations instead of writing to the store'')),
     ps_reset = (\<lambda>_. a_fail (StoreAdapter ''projection reducers cannot reset the store''))\<rparr>"

section \<open>Reading a page\<close>

fun check_contiguous :: "(nat \<Rightarrow> nat \<Rightarrow> StoreError) \<Rightarrow> nat \<Rightarrow> ProjectionWorkItem list \<Rightarrow> (StoreError, nat) result" where
  "check_contiguous gap expected [] = Inr expected"
| "check_contiguous gap expected (item # items) =
     bind_r (reject_if (wi_global_sequence item \<noteq> expected) (gap expected (wi_global_sequence item))) (\<lambda>_.
     check_contiguous gap (saturating_add64 expected 1) items)"

definition pair_item :: "ProjectionWorkItem \<times> EventEnvelope \<Rightarrow> (StoreError, ProjectionWorkItem \<times> EventEnvelope) result" where
  "pair_item = (\<lambda>(item, event).
     bind_r (reject_if (ev_global_sequence event \<noteq> wi_global_sequence item \<or> ev_event_id event \<noteq> wi_event_id item)
       (Verification (''projection outbox sequence '' @ nat_text (wi_global_sequence item)
         @ '' does not match its journal event''))) (\<lambda>_.
     Inr (item, event)))"

definition read_page ::
    "'s ProjectionWorker \<Rightarrow> string \<Rightarrow> nat \<Rightarrow> nat \<Rightarrow> ('s, (ProjectionWorkItem \<times> EventEnvelope) list) store_op" where
  "read_page worker projection from_sequence limit =
     a_bind (ej_read_projection_work (pw_journal worker) from_sequence limit) (\<lambda>work.
     a_bind (a_lift (check_contiguous (\<lambda>expected actual. Verification (''projection '' @ projection
       @ '' expected outbox sequence '' @ nat_text expected @ '', got '' @ nat_text actual)) from_sequence work)) (\<lambda>expected.
     a_bind (ej_read_global (pw_journal worker) from_sequence (length work)) (\<lambda>events.
     a_bind (a_reject (length events \<noteq> length work)
       (Verification (''projection outbox sequence '' @ nat_text (if length events < length work
         then wi_global_sequence (work ! length events) else expected) @ '' has no journal event''))) (\<lambda>_.
     a_lift (traverse pair_item (zip work events))))))"

section \<open>A round\<close>

definition reduce_event ::
    "'s ProjectionWorker \<Rightarrow> 's ProjectionHandler \<Rightarrow> nat \<Rightarrow> ProjectionWorkItem \<times> EventEnvelope \<Rightarrow> pending_table
      \<Rightarrow> ('s, pending_table) store_op" where
  "reduce_event worker handler position = (\<lambda>(_, event) pending.
     a_bind (if ph_applies_to handler event
       then a_bind (if ph_requires_payload handler then ej_decrypt_payload (pw_journal worker) event else a_return JNull)
              (ph_project handler (overlay_port (pw_store worker) pending) event)
       else a_return []) (\<lambda>mutations.
     a_return (stage (ph_name handler) position (ev_global_sequence event) mutations pending)))"

record worker_round =
  wr_applied :: nat
  wr_pending :: pending_table
  wr_pages :: "(nat, (ProjectionWorkItem \<times> EventEnvelope) list) table"

definition run_handler ::
    "'s ProjectionWorker \<Rightarrow> nat \<Rightarrow> 's ProjectionHandler \<Rightarrow> worker_round \<Rightarrow> ('s, worker_round) store_op" where
  "run_handler worker limit handler wr =
     a_bind (ps_position (pw_store worker) (ph_name handler)) (\<lambda>position.
     case checked_add64 position 1 of
       None \<Rightarrow> a_return wr
     | Some from_sequence \<Rightarrow>
         a_bind (case table_get (wr_pages wr) from_sequence of
             Some page \<Rightarrow> a_return (page, wr)
           | None \<Rightarrow> a_bind (read_page worker (ph_name handler) from_sequence limit) (\<lambda>page.
               a_return (page, wr\<lparr>wr_pages := table_insert from_sequence page (wr_pages wr)\<rparr>))) (\<lambda>(page, wr).
         if page = [] then a_return wr
         else
           let through_sequence = ev_global_sequence (snd (last page))
           in a_bind (a_fold (reduce_event worker handler position) page (wr_pending wr)) (\<lambda>pending.
              a_return (wr\<lparr>wr_applied := saturating_add64 (wr_applied wr) (through_sequence - position),
                wr_pending := pending\<rparr>))))"

fun take_batches :: "string list \<Rightarrow> pending_table \<Rightarrow> ProjectionBatch list" where
  "take_batches [] pending = []"
| "take_batches (name # names) pending =
     (case take_batch name pending of
        (None, rest) \<Rightarrow> take_batches names rest
      | (Some batch, rest) \<Rightarrow> batch # take_batches names rest)"

definition handler_status :: "'s ProjectionWorker \<Rightarrow> nat \<Rightarrow> 's ProjectionHandler \<Rightarrow> ProjectionStatus list
    \<Rightarrow> ('s, ProjectionStatus list) store_op" where
  "handler_status worker head handler statuses =
     a_bind (ps_position (pw_store worker) (ph_name handler)) (\<lambda>position.
     a_bind (a_get (ej_is_recovery_mode (pw_journal worker))) (\<lambda>recovery.
     a_return (statuses @ [\<lparr>st_projection = ph_name handler, st_position = position, st_journal_head = head,
       st_lag = head - position, st_ready = (\<not> recovery \<and> position = head)\<rparr>])))"

definition worker_status :: "'s ProjectionWorker \<Rightarrow> ('s, ProjectionStatus list) store_op" where
  "worker_status worker =
     a_bind (ej_head (pw_journal worker)) (\<lambda>(head, _). a_fold (handler_status worker head) (pw_handlers worker) [])"

definition worker_report :: "'s ProjectionWorker \<Rightarrow> nat \<Rightarrow> ('s, ProjectionRunReport) store_op" where
  "worker_report worker applied =
     a_bind (worker_status worker) (\<lambda>statuses. a_return \<lparr>rr_applied = applied, rr_projections = statuses\<rparr>)"

definition run_once :: "'s ProjectionWorker \<Rightarrow> nat \<Rightarrow> ('s, ProjectionRunReport) store_op" where
  "run_once worker limit =
     a_bind (a_fold (run_handler worker limit) (pw_handlers worker)
       \<lparr>wr_applied = 0, wr_pending = [], wr_pages = []\<rparr>) (\<lambda>wr.
     let batches = take_batches (map ph_name (pw_handlers worker)) (wr_pending wr)
     in a_bind (if batches \<noteq> [] then ps_apply_all (pw_store worker) batches else a_return ()) (\<lambda>_.
        worker_report worker (wr_applied wr)))"

section \<open>Draining and rebuilding\<close>

fun drain_rounds :: "'s ProjectionWorker \<Rightarrow> nat \<Rightarrow> nat \<Rightarrow> nat \<Rightarrow> ('s, ProjectionRunReport) store_op" where
  "drain_rounds worker batch_limit 0 applied = worker_report worker applied"
| "drain_rounds worker batch_limit (Suc rounds) applied =
     a_bind (run_once worker batch_limit) (\<lambda>report.
     let applied = saturating_add64 applied (rr_applied report)
     in if list_all st_ready (rr_projections report)
        then a_return \<lparr>rr_applied = applied, rr_projections = rr_projections report\<rparr>
        else if rr_applied report = 0 then worker_report worker applied
        else drain_rounds worker batch_limit rounds applied)"

definition drain :: "'s ProjectionWorker \<Rightarrow> nat \<Rightarrow> nat \<Rightarrow> ('s, ProjectionRunReport) store_op" where
  "drain worker batch_limit max_rounds =
     a_bind (a_reject (batch_limit = 0 \<or> max_rounds = 0)
       (StoreAdapter ''projection drain bounds must be greater than zero'')) (\<lambda>_.
     drain_rounds worker batch_limit max_rounds 0)"

definition rebuild :: "'s ProjectionWorker \<Rightarrow> string \<Rightarrow> ('s, ProjectionRunReport) store_op" where
  "rebuild worker name =
     a_bind (a_reject (\<not> list_ex (\<lambda>handler. ph_name handler = name) (pw_handlers worker))
       (NotFound (''projection '' @ name))) (\<lambda>_.
     a_bind (ps_reset (pw_store worker) name) (\<lambda>_.
     drain worker 256 16384))"

definition rebuild_all :: "'s ProjectionWorker \<Rightarrow> ('s, ProjectionRunReport) store_op" where
  "rebuild_all worker =
     a_bind (a_fold (\<lambda>handler _. ps_reset (pw_store worker) (ph_name handler)) (pw_handlers worker) ()) (\<lambda>_.
     drain worker 256 16384)"

end
