(* ===== verification/ProjectionServices.thy ===== *)
theory ProjectionServices
  imports ProjectionWorker JournalRuns
begin

text \<open>
  What the projection worker relies on: the contract of a journal and a projection store that
  share a state, and the overlay as a store of its own.
\<close>

section \<open>Contracts\<close>

text \<open>The expected value, or a fault if the services may fail.\<close>

definition answer :: "bool \<Rightarrow> 'a \<Rightarrow> (StoreError, 'a) result \<Rightarrow> bool" where
  "answer live x r \<longleftrightarrow> r = Inr x \<or> \<not> live \<and> (\<exists>e. r = Inl e \<and> fault e)"

lemma answer_value [simp]: "answer live x (Inr y) \<longleftrightarrow> y = x"
  by (auto simp: answer_def)

lemma answer_failure [simp]: "answer live x (Inl e) \<longleftrightarrow> \<not> live \<and> fault e"
  by (auto simp: answer_def)

definition sound_mutation :: "(json \<Rightarrow> bool) \<Rightarrow> ProjectionMutation \<Rightarrow> bool" where
  "sound_mutation storable mutation = (case mutation of
       Upsert key v \<Rightarrow> plain_name key \<and> storable v | Delete key \<Rightarrow> plain_name key)"

definition sound_batch :: "(json \<Rightarrow> bool) \<Rightarrow> nat \<Rightarrow> ProjectionBatch \<Rightarrow> bool" where
  "sound_batch storable head batch \<longleftrightarrow> plain_name (pb_projection batch)
     \<and> pb_expected_position batch < pb_through_sequence batch \<and> pb_through_sequence batch \<le> head
     \<and> list_all (sound_mutation storable) (pb_mutations batch)"

fun apply_views :: "ProjectionBatch list \<Rightarrow> store_view \<Rightarrow> store_view option" where
  "apply_views [] v = Some v"
| "apply_views (b # bs) v = (if fst (v (pb_projection b)) = pb_expected_position b
     then apply_views bs (advance (pb_projection b) (pb_through_sequence b) (pb_mutations b) v) else None)"

definition work_item :: "EventEnvelope \<Rightarrow> ProjectionWorkItem" where
  "work_item e = \<lparr>wi_global_sequence = ev_global_sequence e, wi_event_id = ev_event_id e\<rparr>"

definition history_ok :: "(EventEnvelope \<times> json) list \<Rightarrow> bool" where
  "history_ok hist \<longleftrightarrow> length hist < u64_max \<and> (\<forall>i < length hist. ev_global_sequence (fst (hist ! i)) = Suc i)"

text \<open>\<open>holds s hist v\<close>: in state \<open>s\<close> the journal has the events and payloads \<open>hist\<close> and the
  store shows \<open>v\<close>.\<close>

locale projection_services =
  fixes J :: "'s EventJournalPort" and S :: "'s ProjectionStorePort"
    and holds :: "'s \<Rightarrow> (EventEnvelope \<times> json) list \<Rightarrow> store_view \<Rightarrow> bool"
    and live :: bool and storable :: "json \<Rightarrow> bool"
  assumes head_law: "holds s hist v \<Longrightarrow> after (ej_head J) s (\<lambda>s' r. holds s' hist v
        \<and> (\<exists>hash. answer live (length hist, hash) r))"
    and work_law: "holds s hist v \<Longrightarrow> 0 < n \<Longrightarrow> n \<le> u64_max \<Longrightarrow>
        after (ej_read_projection_work J n limit) s (\<lambda>s' r. holds s' hist v
          \<and> answer live (map (work_item \<circ> fst) (take limit (drop (n - 1) hist))) r)"
    and global_law: "holds s hist v \<Longrightarrow> 0 < n \<Longrightarrow> n \<le> u64_max \<Longrightarrow>
        after (ej_read_global J n limit) s (\<lambda>s' r. holds s' hist v
          \<and> answer live (map fst (take limit (drop (n - 1) hist))) r)"
    and payload_law: "holds s hist v \<Longrightarrow> (e, payload) \<in> set hist \<Longrightarrow>
        after (ej_decrypt_payload J e) s (\<lambda>s' r. holds s' hist v \<and> answer live payload r)"
    and writable_law: "holds s hist v \<Longrightarrow> \<not> ej_is_recovery_mode J s"
    and history_law: "holds s hist v \<Longrightarrow> history_ok hist"
    and behind_law: "holds s hist v \<Longrightarrow> fst (v p) \<le> length hist"
    and position_law: "holds s hist v \<Longrightarrow> plain_name p \<Longrightarrow>
        after (ps_position S p) s (\<lambda>s' r. holds s' hist v \<and> answer live (fst (v p)) r)"
    and get_law: "holds s hist v \<Longrightarrow> plain_name p \<Longrightarrow> plain_name key \<Longrightarrow>
        after (ps_get S p key) s (\<lambda>s' r. holds s' hist v \<and> answer live (snd (v p) key) r)"
    and apply_law: "holds s hist v \<Longrightarrow> list_all (sound_batch storable (length hist)) batches \<Longrightarrow>
        apply_views batches v = Some v' \<Longrightarrow>
        after (ps_apply_all S batches) s (\<lambda>s' r. r = Inr () \<and> holds s' hist v'
          \<or> \<not> live \<and> (\<exists>e. r = Inl e \<and> fault e) \<and> holds s' hist v)"
    and reset_law: "holds s hist v \<Longrightarrow> plain_name p \<Longrightarrow>
        after (ps_reset S p) s (\<lambda>s' r. r = Inr () \<and> holds s' hist (v(p := (0, Map.empty)))
          \<or> \<not> live \<and> (\<exists>e. r = Inl e \<and> fault e) \<and> holds s' hist v)"

section \<open>The overlay shows the staged store\<close>

definition staged :: "pending_table \<Rightarrow> store_view \<Rightarrow> store_view" where
  "staged pending v = (\<lambda>p. case table_get pending p of
       None \<Rightarrow> v p
     | Some pp \<Rightarrow> (pp_through_sequence pp, \<lambda>key. case table_get (pp_records pp) key of
           Some x \<Rightarrow> x | None \<Rightarrow> snd (v p) key))"

definition pending_ok :: "(json \<Rightarrow> bool) \<Rightarrow> nat \<Rightarrow> store_view \<Rightarrow> pending_table \<Rightarrow> bool" where
  "pending_ok storable head v pending \<longleftrightarrow> table_ok pending
     \<and> (\<forall>p pp. table_get pending p = Some pp \<longrightarrow> plain_name p \<and> table_ok (pp_records pp)
          \<and> pp_expected_position pp = fst (v p) \<and> fst (v p) < pp_through_sequence pp \<and> pp_through_sequence pp \<le> head
          \<and> (\<forall>e \<in> set (pp_records pp). sound_mutation storable (record_mutation e)))"

lemma staged_empty [simp]: "staged [] v = v"
  by (simp add: staged_def)

lemma staged_cong:
  "table_get pending p = table_get pending' p \<Longrightarrow> v p = v' p \<Longrightarrow> staged pending v p = staged pending' v' p"
  by (simp only: staged_def)

lemma pending_ok_empty [simp]: "pending_ok storable head v []"
  by (simp add: pending_ok_def)

lemma stage_mutations:
  assumes "table_ok records"
  shows "table_ok (fold stage_mutation mutations records)"
    "(\<lambda>key. case table_get (fold stage_mutation mutations records) key of Some x \<Rightarrow> x | None \<Rightarrow> m key)
      = fold mutate mutations (\<lambda>key. case table_get records key of Some x \<Rightarrow> x | None \<Rightarrow> m key)"
  using assms
proof (induction mutations arbitrary: records)
  case (Cons mutation mutations)
  { case 1
    then show ?case using Cons.IH(1) [of "stage_mutation mutation records"]
      by (simp add: stage_mutation_def split: ProjectionMutation.split)
  next
    case 2
    have "table_ok (stage_mutation mutation records)"
      using 2 by (simp add: stage_mutation_def split: ProjectionMutation.split)
    moreover have "(\<lambda>key. case table_get (stage_mutation mutation records) key of Some x \<Rightarrow> x | None \<Rightarrow> m key)
        = mutate mutation (\<lambda>key. case table_get records key of Some x \<Rightarrow> x | None \<Rightarrow> m key)"
      using 2 by (auto simp: stage_mutation_def mutate_def fun_eq_iff split: ProjectionMutation.split)
    ultimately show ?case using Cons.IH(2) [of "stage_mutation mutation records"] by simp
  }
qed simp_all

lemma stage_records_sound:
  assumes "table_ok records" "list_all (sound_mutation storable) mutations"
    and "\<forall>e \<in> set records. sound_mutation storable (record_mutation e)"
  shows "\<forall>e \<in> set (fold stage_mutation mutations records). sound_mutation storable (record_mutation e)"
  using assms
proof (induction mutations arbitrary: records)
  case (Cons mutation mutations)
  have ok: "table_ok (stage_mutation mutation records)"
    using Cons.prems(1) by (simp add: stage_mutation_def split: ProjectionMutation.split)
  have insert: "set (table_insert k x records) \<subseteq> insert (k, x) (set records)" for k x
  proof
    fix e assume "e \<in> set (table_insert k x records)"
    then have "table_get (table_insert k x records) (fst e) = Some (snd e)"
      by (simp add: table_get_Some_iff [OF table_ok_insert [OF Cons.prems(1)]] del: table_get_insert)
    then show "e \<in> insert (k, x) (set records)"
      using Cons.prems(1) by (cases e) (auto simp: table_get_Some_iff split: if_splits)
  qed
  have "\<forall>e \<in> set (stage_mutation mutation records). sound_mutation storable (record_mutation e)"
  proof (cases mutation)
    case (Upsert key v)
    then show ?thesis
      using Cons.prems(2,3) insert [of key "Some v"] by (auto simp: stage_mutation_def sound_mutation_def record_mutation_def)
  next
    case (Delete key)
    then show ?thesis
      using Cons.prems(2,3) insert [of key None] by (auto simp: stage_mutation_def sound_mutation_def record_mutation_def)
  qed
  then show ?case using Cons.IH [OF ok] Cons.prems(2) by simp
qed simp

lemma stage_staged:
  assumes ok: "pending_ok storable head v pending" and p: "plain_name p" and expected: "expected = fst (v p)"
    and sequence: "fst (v p) < sequence" "sequence \<le> head" and sound: "list_all (sound_mutation storable) mutations"
  shows "pending_ok storable head v (stage p expected sequence mutations pending)"
    "staged (stage p expected sequence mutations pending) v = advance p sequence mutations (staged pending v)"
proof -
  define entry where "entry = (case table_get pending p of Some pp \<Rightarrow> pp
    | None \<Rightarrow> \<lparr>pp_expected_position = expected, pp_through_sequence = sequence, pp_records = []\<rparr>)"
  let ?new = "entry\<lparr>pp_through_sequence := sequence, pp_records := fold stage_mutation mutations (pp_records entry)\<rparr>"
  have tab: "table_ok pending" using ok by (simp add: pending_ok_def)
  have new: "stage p expected sequence mutations pending = table_insert p ?new pending"
    by (simp add: stage_def Let_def entry_def)
  have entry: "table_ok (pp_records entry)" "pp_expected_position entry = fst (v p)"
      "\<forall>e \<in> set (pp_records entry). sound_mutation storable (record_mutation e)"
    using ok expected by (auto simp: pending_ok_def entry_def split: option.split)
  have before: "snd (staged pending v p) = (\<lambda>key. case table_get (pp_records entry) key of Some x \<Rightarrow> x | None \<Rightarrow> snd (v p) key)"
    by (cases "table_get pending p") (simp_all add: staged_def entry_def)
  note staged_records = stage_mutations(1) [OF entry(1), where mutations = mutations]
    stage_mutations(2) [OF entry(1), where mutations = mutations and m = "snd (v p)"]
  have "plain_name q \<and> table_ok (pp_records pp)
      \<and> pp_expected_position pp = fst (v q) \<and> fst (v q) < pp_through_sequence pp \<and> pp_through_sequence pp \<le> head
      \<and> (\<forall>e \<in> set (pp_records pp). sound_mutation storable (record_mutation e))"
    if get: "table_get (table_insert p ?new pending) q = Some pp" for q pp
  proof (cases "q = p")
    case True
    then have "pp = ?new" using get tab by simp
    then show ?thesis
      using True p sequence entry(2) staged_records(1) stage_records_sound [OF entry(1) sound entry(3)] by simp
  next
    case False
    then show ?thesis using get tab ok by (simp add: pending_ok_def)
  qed
  then show "pending_ok storable head v (stage p expected sequence mutations pending)"
    using tab unfolding new pending_ok_def by (auto simp del: table_get_insert)
  have "staged (table_insert p ?new pending) v q = advance p sequence mutations (staged pending v) q" for q
  proof (cases "q = p")
    case True
    have "staged (table_insert p ?new pending) v p = (sequence, fold mutate mutations (snd (staged pending v p)))"
      using tab by (simp add: staged_def [of "table_insert _ _ _"] before staged_records(2))
    then show ?thesis using True by (simp add: advance_def)
  next
    case False
    then show ?thesis using tab by (simp add: staged_def advance_def)
  qed
  then show "staged (stage p expected sequence mutations pending) v = advance p sequence mutations (staged pending v)"
    unfolding new by blast
qed

lemma stage_other: "table_ok pending \<Longrightarrow> q \<noteq> p \<Longrightarrow> table_get (stage p n i ms pending) q = table_get pending q"
  by (simp add: stage_def Let_def)

lemma record_mutations:
  assumes "table_ok records"
  shows "fold mutate (map record_mutation records) m = (\<lambda>key. case table_get records key of Some x \<Rightarrow> x | None \<Rightarrow> m key)"
  using assms
proof (induction records arbitrary: m)
  case (Cons e records)
  obtain k x where e: "e = (k, x)" by (cases e)
  have fresh: "table_get records k = None"
    using table_ok_distinct [OF Cons.prems] by (simp add: e map_of_eq_None_iff)
  have "mutate (record_mutation e) m = m(k := x)"
    by (cases x) (simp_all add: e record_mutation_def mutate_def)
  then show ?case
    using Cons fresh by (auto simp: e fun_eq_iff split: option.split)
qed simp

lemma take_batches_apply:
  assumes "pending_ok storable head v pending" "distinct names" "\<And>p. table_get pending p \<noteq> None \<Longrightarrow> p \<in> set names"
  shows "list_all (sound_batch storable head) (take_batches names pending)
    \<and> apply_views (take_batches names pending) v = Some (staged pending v)"
  using assms
proof (induction names arbitrary: pending v)
  case Nil
  then have "table_get pending p = None" for p by (cases "table_get pending p") auto
  then show ?case by (simp add: staged_def fun_eq_iff)
next
  case (Cons name names)
  let ?rest = "table_remove name pending"
  have tab: "table_ok pending" using Cons.prems(1) by (simp add: pending_ok_def)
  have names: "p \<in> set names" if "table_get ?rest p \<noteq> None" for p
    using Cons.prems(3) [of p] that by (auto split: if_splits)
  show ?case
  proof (cases "table_get pending name")
    case None
    have same: "table_get ?rest = table_get pending" using None by (auto simp: fun_eq_iff)
    have ok: "pending_ok storable head v ?rest" and view: "staged ?rest v = staged pending v"
      using Cons.prems(1) tab by (simp_all only: pending_ok_def staged_def same table_ok_restrict)
    have "distinct names" using Cons.prems(2) by simp
    from Cons.IH [OF ok this names] show ?thesis
      using view None by (simp add: take_batch_def)
  next
    case (Some pp)
    have pp: "plain_name name" "table_ok (pp_records pp)" "pp_expected_position pp = fst (v name)"
        "fst (v name) < pp_through_sequence pp" "pp_through_sequence pp \<le> head"
        "\<forall>e \<in> set (pp_records pp). sound_mutation storable (record_mutation e)"
      using Cons.prems(1) Some by (simp_all add: pending_ok_def)
    let ?v = "advance name (pp_through_sequence pp) (map record_mutation (pp_records pp)) v"
    have ok: "pending_ok storable head ?v ?rest"
      using Cons.prems(1) tab by (auto simp: pending_ok_def advance_def)
    have "staged ?rest ?v p = staged pending v p" for p
    proof (cases "p = name")
      case True
      then show ?thesis
        using Some by (simp add: staged_def advance_def record_mutations [OF pp(2)])
    next
      case False
      then show ?thesis by (intro staged_cong) (simp_all add: advance_def)
    qed
    then have view: "staged ?rest ?v = staged pending v" by blast
    have "distinct names" using Cons.prems(2) by simp
    from Cons.IH [OF ok this names] show ?thesis
      using view Some pp by (simp add: take_batch_def sound_batch_def list_all_iff)
  qed
qed

section \<open>Readers of a store\<close>

text \<open>A port that shows \<open>f v\<close> wherever the state holds \<open>v\<close>.\<close>

definition presents ::
    "bool \<Rightarrow> ('s \<Rightarrow> (EventEnvelope \<times> json) list \<Rightarrow> store_view \<Rightarrow> bool) \<Rightarrow> 's ProjectionStorePort
      \<Rightarrow> (store_view \<Rightarrow> store_view) \<Rightarrow> bool" where
  "presents live holds P f \<longleftrightarrow> (\<forall>s hist v p. holds s hist v \<longrightarrow> plain_name p \<longrightarrow>
     after (ps_position P p) s (\<lambda>s' r. holds s' hist v \<and> answer live (fst (f v p)) r)
     \<and> (\<forall>key. plain_name key \<longrightarrow>
          after (ps_get P p key) s (\<lambda>s' r. holds s' hist v \<and> answer live (snd (f v p) key) r)))"

context projection_services
begin

lemma store_presents: "presents live holds S (\<lambda>v. v)"
  by (simp add: presents_def position_law get_law)

lemma overlay_presents: "presents live holds (overlay_port S pending) (staged pending)"
  by (auto simp: presents_def overlay_port_def overlay_position_def overlay_get_def staged_def position_law get_law
      after_primitive split: option.split)

end

end
