(* ===== verification/ProjectionReplay.thy ===== *)
theory ProjectionReplay
  imports ProjectionServices
begin

text \<open>
  What the worker does over services that keep their contract: a round is a page of the replay
  of every projection, and draining replays all that is left.
\<close>

section \<open>Reducers and replays\<close>

type_synonym reduction = "nat \<times> (string \<Rightarrow> json option) \<Rightarrow> EventEnvelope \<Rightarrow> json \<Rightarrow> (StoreError, ProjectionMutation list) result"

text \<open>A handler is a pure reduction: through any port it computes what the reduction gives for its
  own projection, and it changes nothing.\<close>

definition handler_law ::
    "bool \<Rightarrow> ('s \<Rightarrow> (EventEnvelope \<times> json) list \<Rightarrow> store_view \<Rightarrow> bool) \<Rightarrow> (EventEnvelope \<times> json) list
      \<Rightarrow> 's ProjectionHandler \<Rightarrow> reduction \<Rightarrow> bool" where
  "handler_law live holds hist h red \<longleftrightarrow> plain_name (ph_name h)
     \<and> (\<forall>P f s v e payload. presents live holds P f \<longrightarrow> holds s hist v \<longrightarrow> e \<in> fst ` set hist \<longrightarrow> ph_applies_to h e \<longrightarrow>
          after (ph_project h P e payload) s (\<lambda>s' r. holds s' hist v
            \<and> (r = red (f v (ph_name h)) e payload \<or> \<not> live \<and> (\<exists>err. r = Inl err \<and> fault err))))"

definition event_mutations ::
    "'s ProjectionHandler \<Rightarrow> reduction \<Rightarrow> EventEnvelope \<times> json \<Rightarrow> nat \<times> (string \<Rightarrow> json option)
      \<Rightarrow> (StoreError, ProjectionMutation list) result" where
  "event_mutations h red = (\<lambda>(e, payload) x. if ph_applies_to h e
     then red x e (if ph_requires_payload h then payload else JNull) else Inr [])"

definition replay_event ::
    "'s ProjectionHandler \<Rightarrow> reduction \<Rightarrow> EventEnvelope \<times> json \<Rightarrow> nat \<times> (string \<Rightarrow> json option)
      \<Rightarrow> (StoreError, nat \<times> (string \<Rightarrow> json option)) result" where
  "replay_event h red ev x = bind_r (event_mutations h red ev x) (\<lambda>ms.
     Inr (ev_global_sequence (fst ev), fold mutate ms (snd x)))"

definition replay ::
    "'s ProjectionHandler \<Rightarrow> reduction \<Rightarrow> (EventEnvelope \<times> json) list \<Rightarrow> nat \<times> (string \<Rightarrow> json option)
      \<Rightarrow> (StoreError, nat \<times> (string \<Rightarrow> json option)) result" where
  "replay h red = fold_r (replay_event h red)"

text \<open>The mutations a reduction gives may be stored.\<close>

definition reduction_sound ::
    "(json \<Rightarrow> bool) \<Rightarrow> (EventEnvelope \<times> json) list \<Rightarrow> 's ProjectionHandler \<Rightarrow> reduction \<Rightarrow> bool" where
  "reduction_sound storable hist h red \<longleftrightarrow> (\<forall>ev \<in> set hist. \<forall>x ms. event_mutations h red ev x = Inr ms
     \<longrightarrow> list_all (sound_mutation storable) ms)"

text \<open>The outcome a specification names, or a fault if the services may fail.\<close>

definition settles :: "bool \<Rightarrow> (StoreError, 'a) result \<Rightarrow> ('a \<Rightarrow> 'b \<Rightarrow> bool) \<Rightarrow> (StoreError, 'b) result \<Rightarrow> bool" where
  "settles live spec P r \<longleftrightarrow> (case spec of Inl e \<Rightarrow> r = Inl e | Inr x \<Rightarrow> \<exists>y. r = Inr y \<and> P x y)
     \<or> \<not> live \<and> (\<exists>e. r = Inl e \<and> fault e)"

lemma settles_fault: "\<not> live \<Longrightarrow> fault e \<Longrightarrow> settles live spec P (Inl e)"
  by (simp add: settles_def)

lemma settles_mono: "settles live spec P r \<Longrightarrow> (\<And>x y. P x y \<Longrightarrow> Q x y) \<Longrightarrow> settles live spec Q r"
  by (auto simp: settles_def split: sum.splits)

lemma settles_Inl: "settles live spec P (Inl e) \<longleftrightarrow> spec = Inl e \<or> \<not> live \<and> fault e"
  by (auto simp: settles_def split: sum.split)

lemma settles_Inr: "settles live spec P (Inr y) \<longleftrightarrow> (\<exists>x. spec = Inr x \<and> P x y)"
  by (auto simp: settles_def split: sum.split)

lemma history_sequence:
  assumes "history_ok hist" "ev \<in> set (drop n hist)"
  shows "n < ev_global_sequence (fst ev)" "ev_global_sequence (fst ev) \<le> length hist" "ev \<in> set hist"
proof -
  obtain i where i: "i < length hist - n" "ev = hist ! (n + i)"
    using assms(2) by (auto simp: in_set_conv_nth)
  then have "ev_global_sequence (fst ev) = Suc (n + i)" using assms(1) by (simp add: history_ok_def)
  then show "n < ev_global_sequence (fst ev)" "ev_global_sequence (fst ev) \<le> length hist" using i by simp_all
  show "ev \<in> set hist" using assms(2) by (rule in_set_dropD)
qed

definition page_items :: "(EventEnvelope \<times> json) list \<Rightarrow> (ProjectionWorkItem \<times> EventEnvelope) list" where
  "page_items = map (\<lambda>ev. (work_item (fst ev), fst ev))"

lemma contiguous_ok:
  assumes "history_ok hist" "n \<le> length hist"
  shows "check_contiguous gap (Suc n) (map (work_item \<circ> fst) (take limit (drop n hist)))
    = Inr (Suc (min (n + limit) (length hist)))"
  using assms(2)
proof (induction limit arbitrary: n)
  case (Suc limit)
  show ?case
  proof (cases "n < length hist")
    case True
    have sequence: "ev_global_sequence (fst (hist ! n)) = Suc n" "Suc n + 1 \<le> u64_max"
      using assms(1) True by (auto simp: history_ok_def)
    then show ?thesis
      using Suc.IH [of "Suc n"] True by (simp add: Cons_nth_drop_Suc [symmetric] work_item_def)
  next
    case False
    then show ?thesis using Suc.prems by simp
  qed
qed (use assms in simp)

lemma pairs_ok: "traverse pair_item (zip (map (work_item \<circ> fst) evs) (map fst evs)) = Inr (page_items evs)"
  by (induction evs) (simp_all add: pair_item_def work_item_def page_items_def)

text \<open>A round replays a page of every projection from where it was.\<close>

definition round_views ::
    "('s ProjectionHandler \<Rightarrow> reduction) \<Rightarrow> (EventEnvelope \<times> json) list \<Rightarrow> nat \<Rightarrow> store_view
      \<Rightarrow> 's ProjectionHandler list \<Rightarrow> store_view \<Rightarrow> (StoreError, store_view) result" where
  "round_views red hist limit v0 = fold_r (\<lambda>h v.
     bind_r (replay h (red h) (take limit (drop (fst (v0 (ph_name h))) hist)) (v0 (ph_name h))) (\<lambda>x.
     Inr (v(ph_name h := x))))"

text \<open>Every projection is the replay of the events it had not seen.\<close>

definition replayed ::
    "('s ProjectionHandler \<Rightarrow> reduction) \<Rightarrow> (EventEnvelope \<times> json) list \<Rightarrow> 's ProjectionHandler list
      \<Rightarrow> store_view \<Rightarrow> store_view \<Rightarrow> bool" where
  "replayed red hist hs v v' \<longleftrightarrow>
     (\<forall>h \<in> set hs. replay h (red h) (drop (fst (v (ph_name h))) hist) (v (ph_name h)) = Inr (v' (ph_name h)))
     \<and> (\<forall>p. p \<notin> ph_name ` set hs \<longrightarrow> v' p = v p)"

definition status_of :: "(EventEnvelope \<times> json) list \<Rightarrow> store_view \<Rightarrow> 's ProjectionHandler list \<Rightarrow> ProjectionStatus list" where
  "status_of hist v = map (\<lambda>h. \<lparr>st_projection = ph_name h, st_position = fst (v (ph_name h)),
     st_journal_head = length hist, st_lag = length hist - fst (v (ph_name h)),
     st_ready = (fst (v (ph_name h)) = length hist)\<rparr>)"

lemma replay_position:
  assumes "history_ok hist" "replay h red (take limit (drop (fst x) hist)) x = Inr y" "fst x \<le> length hist"
  shows "fst y = min (fst x + limit) (length hist)"
  using assms(2,3)
proof (induction limit arbitrary: x)
  case (Suc limit)
  show ?case
  proof (cases "fst x < length hist")
    case True
    then have "take (Suc limit) (drop (fst x) hist) = (hist ! fst x) # take limit (drop (Suc (fst x)) hist)"
      by (simp add: Cons_nth_drop_Suc [symmetric])
    then obtain z where z: "replay_event h red (hist ! fst x) x = Inr z" "replay h red (take limit (drop (Suc (fst x)) hist)) z = Inr y"
      using Suc.prems(1) by (auto simp: replay_def bind_r_Inr_iff)
    have "fst z = Suc (fst x)"
      using z(1) assms(1) True by (auto simp: replay_event_def bind_r_Inr_iff history_ok_def)
    then show ?thesis using Suc.IH [of z] z(2) True by simp
  next
    case False
    then show ?thesis using Suc.prems by (simp add: replay_def)
  qed
qed (simp add: replay_def)

lemma replay_continues:
  assumes "history_ok hist" "replay h red (take limit (drop (fst x) hist)) x = Inr y" "fst x \<le> length hist"
  shows "replay h red (drop (fst y) hist) y = replay h red (drop (fst x) hist) x"
proof -
  have "drop (fst y) hist = drop limit (drop (fst x) hist)"
    using replay_position [OF assms] by (auto simp: min_def add.commute)
  moreover have "replay h red (drop (fst x) hist) x
      = bind_r (replay h red (take limit (drop (fst x) hist)) x) (replay h red (drop limit (drop (fst x) hist)))"
    unfolding replay_def fold_r_append [symmetric] append_take_drop_id ..
  ultimately show ?thesis using assms(2) by simp
qed

context projection_services
begin

section \<open>Pages\<close>

lemma read_page_exact:
  assumes worker: "pw_journal W = J" and hold: "holds s hist v" and n: "n \<le> length hist"
  shows "after (read_page W name (Suc n) limit) s
    (\<lambda>s' r. holds s' hist v \<and> answer live (page_items (take limit (drop n hist))) r)"
proof -
  have hist: "history_ok hist" using history_law [OF hold] .
  then have bound: "0 < Suc n" "Suc n \<le> u64_max" using n by (simp_all add: history_ok_def)
  let ?evs = "take limit (drop n hist)"
  have again: "take (length ?evs) (drop n hist) = ?evs" by (simp add: min_def)
  show ?thesis
    unfolding read_page_def worker after_bind [of "ej_read_projection_work _ _ _"]
  proof (rule after_mono [OF work_law [OF hold bound]], clarify)
    fix t r assume t: "holds t hist v" and r: "answer live (map (work_item \<circ> fst) (take limit (drop (Suc n - 1) hist))) r"
    show "case r of Inl e \<Rightarrow> holds t hist v \<and> answer live (page_items ?evs) (Inl e)
      | Inr work \<Rightarrow> after (a_bind (a_lift (check_contiguous (\<lambda>expected actual. Verification (''projection '' @ name
            @ '' expected outbox sequence '' @ nat_text expected @ '', got '' @ nat_text actual)) (Suc n) work)) (\<lambda>expected.
          a_bind (ej_read_global J (Suc n) (length work)) (\<lambda>events.
          a_bind (a_reject (length events \<noteq> length work)
            (Verification (''projection outbox sequence '' @ nat_text (if length events < length work
              then wi_global_sequence (work ! length events) else expected) @ '' has no journal event''))) (\<lambda>_.
          a_lift (traverse pair_item (zip work events)))))) t
          (\<lambda>s' r. holds s' hist v \<and> answer live (page_items ?evs) r)"
    proof (cases r)
      case (Inl e)
      then show ?thesis using t r by (simp add: answer_def)
    next
      case (Inr work)
      then have work: "work = map (work_item \<circ> fst) ?evs" using r by simp
      have tail: "after (ej_read_global J (Suc n) (length work)) t (\<lambda>s' r. holds s' hist v \<and> answer live (map fst ?evs) r)"
        using global_law [OF t bound, of "length ?evs"] by (simp only: work length_map diff_Suc_1 again)
      show ?thesis
        unfolding Inr sum.case work contiguous_ok [OF hist n] a_bind_simps
        unfolding after_bind [of "ej_read_global _ _ _"]
        by (rule after_mono [OF tail [unfolded work]])
          (auto simp: answer_def after_primitive pairs_ok split: sum.split)
    qed
  qed
qed

section \<open>One handler\<close>

text \<open>Where a round stands: the staged mutations and the pages read so far.\<close>

definition extends_to :: "nat \<Rightarrow> store_view \<Rightarrow> string \<Rightarrow> pending_table \<Rightarrow> nat \<times> (string \<Rightarrow> json option) \<Rightarrow> pending_table \<Rightarrow> bool" where
  "extends_to head v name pending x pending' \<longleftrightarrow> pending_ok storable head v pending'
     \<and> staged pending' v = (staged pending v)(name := x) \<and> (\<forall>p. p \<noteq> name \<longrightarrow> table_get pending' p = table_get pending p)"

lemma reduce_event_exact:
  assumes worker: "pw_journal W = J" "pw_store W = S" and hold: "holds s hist v"
    and law: "handler_law live holds hist h red" and sound: "reduction_sound storable hist h red"
    and ev: "ev \<in> set (drop (fst (v (ph_name h))) hist)" and ok: "pending_ok storable (length hist) v pending"
  shows "after (reduce_event W h (fst (v (ph_name h))) (work_item (fst ev), fst ev) pending) s (\<lambda>s' r. holds s' hist v
    \<and> settles live (replay_event h red ev (staged pending v (ph_name h)))
        (extends_to (length hist) v (ph_name h) pending) r)"
proof -
  obtain e payload where e: "ev = (e, payload)" by (cases ev)
  let ?name = "ph_name h" and ?x = "staged pending v (ph_name h)"
  have plain: "plain_name ?name" using law by (simp add: handler_law_def)
  note sequence = history_sequence [OF history_law [OF hold] ev]
  define input where "input = (if ph_requires_payload h then payload else JNull)"
  have read: "after (if ph_requires_payload h then ej_decrypt_payload J e else a_return JNull) s
      (\<lambda>s' r. holds s' hist v \<and> answer live input r)"
    using payload_law [OF hold, of e payload] sequence(3) hold by (simp add: e after_primitive input_def)
  have project: "after (ph_project h (overlay_port S pending) e input) t (\<lambda>s' r. holds s' hist v
      \<and> (r = red ?x e input \<or> \<not> live \<and> (\<exists>err. r = Inl err \<and> fault err)))" if "holds t hist v" "ph_applies_to h e" for t
  proof -
    have "e \<in> fst ` set hist" using sequence(3) by (force simp: e)
    then show ?thesis using law that overlay_presents unfolding handler_law_def by blast
  qed
  have mutations: "after (if ph_applies_to h e
       then a_bind (if ph_requires_payload h then ej_decrypt_payload J e else a_return JNull)
              (ph_project h (overlay_port S pending) e)
       else a_return []) s (\<lambda>s' r. holds s' hist v
      \<and> (r = event_mutations h red ev ?x \<or> \<not> live \<and> (\<exists>err. r = Inl err \<and> fault err)))"
  proof (cases "ph_applies_to h e")
    case True
    have "after (a_bind (if ph_requires_payload h then ej_decrypt_payload J e else a_return JNull)
        (ph_project h (overlay_port S pending) e)) s (\<lambda>s' r. holds s' hist v
        \<and> (r = red ?x e input \<or> \<not> live \<and> (\<exists>err. r = Inl err \<and> fault err)))"
      unfolding after_bind
      by (rule after_mono [OF read]) (auto simp: answer_def project True split: sum.split)
    then show ?thesis using True by (simp add: e event_mutations_def input_def)
  next
    case False
    then show ?thesis using hold by (simp add: e event_mutations_def after_primitive)
  qed
  have staged_ms: "extends_to (length hist) v ?name pending (ev_global_sequence e, fold mutate ms (snd ?x))
      (stage ?name (fst (v ?name)) (ev_global_sequence e) ms pending)"
    if ms: "event_mutations h red ev ?x = Inr ms" for ms
  proof -
    have "list_all (sound_mutation storable) ms"
      using sound sequence(3) ms unfolding reduction_sound_def by blast
    moreover have "table_ok pending" using ok by (simp add: pending_ok_def)
    ultimately show ?thesis
      using stage_staged [OF ok plain refl, of "ev_global_sequence e" ms] sequence
      by (simp add: e extends_to_def advance_def stage_other)
  qed
  show ?thesis
    unfolding reduce_event_def worker e fst_conv prod.case after_bind [of "if ph_applies_to h e then _ else _"]
  proof (rule after_mono [OF mutations [unfolded e]])
    fix t r
    assume t: "holds t hist v \<and> (r = event_mutations h red (e, payload) ?x \<or> \<not> live \<and> (\<exists>err. r = Inl err \<and> fault err))"
    show "case r of
        Inl err \<Rightarrow> holds t hist v \<and> settles live (replay_event h red (e, payload) ?x) (extends_to (length hist) v ?name pending) (Inl err)
      | Inr ms \<Rightarrow> after (a_return (stage ?name (fst (v ?name)) (ev_global_sequence e) ms pending)) t
          (\<lambda>s' r. holds s' hist v \<and> settles live (replay_event h red (e, payload) ?x) (extends_to (length hist) v ?name pending) r)"
      using t staged_ms [unfolded e]
      by (cases "event_mutations h red (e, payload) ?x"; cases r)
        (auto simp: settles_Inl settles_Inr replay_event_def after_primitive)
  qed
qed

lemma replay_simps: "replay h red [] x = Inr x"
  "replay h red (ev # evs) x = bind_r (replay_event h red ev x) (replay h red evs)"
  by (simp_all add: replay_def)

lemma extends_to_step:
  assumes "extends_to head v name pending x pending'" "extends_to head v name pending' y pending''"
  shows "extends_to head v name pending y pending''"
  using assms by (simp add: extends_to_def)

lemma reduce_page_exact:
  assumes worker: "pw_journal W = J" "pw_store W = S" and hold: "holds s hist v"
    and law: "handler_law live holds hist h red" and sound: "reduction_sound storable hist h red"
    and evs: "set evs \<subseteq> set (drop (fst (v (ph_name h))) hist)" and ok: "pending_ok storable (length hist) v pending"
  shows "after (a_fold (reduce_event W h (fst (v (ph_name h)))) (page_items evs) pending) s (\<lambda>s' r. holds s' hist v
    \<and> settles live (replay h red evs (staged pending v (ph_name h)))
        (extends_to (length hist) v (ph_name h) pending) r)"
  using hold evs ok
proof (induction evs arbitrary: s pending)
  case Nil
  then show ?case by (simp add: page_items_def after_primitive settles_def replay_simps extends_to_def)
next
  case (Cons ev evs)
  let ?x = "staged pending v (ph_name h)"
  have ev: "ev \<in> set (drop (fst (v (ph_name h))) hist)" "set evs \<subseteq> set (drop (fst (v (ph_name h))) hist)"
    using Cons.prems(2) by simp_all
  note first = reduce_event_exact [OF worker Cons.prems(1) law sound ev(1) Cons.prems(3)]
  have items: "page_items (ev # evs) = (work_item (fst ev), fst ev) # page_items evs"
    by (simp add: page_items_def)
  show ?case
    unfolding items a_fold.simps after_bind
  proof (rule after_mono [OF first])
    fix t r
    assume t: "holds t hist v \<and> settles live (replay_event h red ev ?x) (extends_to (length hist) v (ph_name h) pending) r"
    show "case r of
        Inl e \<Rightarrow> holds t hist v \<and> settles live (replay h red (ev # evs) ?x) (extends_to (length hist) v (ph_name h) pending) (Inl e)
      | Inr pending' \<Rightarrow> after (a_fold (reduce_event W h (fst (v (ph_name h)))) (page_items evs) pending') t
          (\<lambda>s' r. holds s' hist v \<and> settles live (replay h red (ev # evs) ?x) (extends_to (length hist) v (ph_name h) pending) r)"
    proof (cases r)
      case (Inl e)
      then show ?thesis using t by (auto simp: settles_Inl replay_simps)
    next
      case (Inr pending')
      then obtain x where x: "replay_event h red ev ?x = Inr x" "extends_to (length hist) v (ph_name h) pending x pending'"
        using t by (auto simp: settles_Inr)
      then have next_view: "pending_ok storable (length hist) v pending'" "staged pending' v (ph_name h) = x"
        by (simp_all add: extends_to_def)
      have hold_t: "holds t hist v" using t by simp
      have step: "settles live (replay h red evs x) (extends_to (length hist) v (ph_name h) pending') r'
          \<Longrightarrow> settles live (replay h red (ev # evs) ?x) (extends_to (length hist) v (ph_name h) pending) r'" for r'
        by (simp only: replay_simps x(1) bind_r_simps) (erule settles_mono, erule extends_to_step [OF x(2)])
      show ?thesis
        unfolding Inr sum.case
        by (rule after_mono [OF Cons.IH [OF hold_t ev(2) next_view(1)]]) (use step next_view(2) in auto)
    qed
  qed
qed

text \<open>The pages of a round are those of the journal.\<close>

definition round_ok :: "(EventEnvelope \<times> json) list \<Rightarrow> store_view \<Rightarrow> nat \<Rightarrow> worker_round \<Rightarrow> bool" where
  "round_ok hist v limit wr \<longleftrightarrow> pending_ok storable (length hist) v (wr_pending wr) \<and> table_ok (wr_pages wr)
     \<and> wr_applied wr \<le> u64_max
     \<and> (\<forall>n page. table_get (wr_pages wr) (Suc n) = Some page \<longrightarrow> page = page_items (take limit (drop n hist)))"

definition handled :: "(EventEnvelope \<times> json) list \<Rightarrow> store_view \<Rightarrow> nat \<Rightarrow> string \<Rightarrow> worker_round
    \<Rightarrow> nat \<times> (string \<Rightarrow> json option) \<Rightarrow> worker_round \<Rightarrow> bool" where
  "handled hist v limit name wr x wr' \<longleftrightarrow> round_ok hist v limit wr'
     \<and> staged (wr_pending wr') v = (staged (wr_pending wr) v)(name := x)
     \<and> wr_applied wr \<le> wr_applied wr'
     \<and> (0 < limit \<and> fst (v name) < length hist \<longrightarrow> 0 < wr_applied wr')
     \<and> (\<forall>p. p \<noteq> name \<longrightarrow> table_get (wr_pending wr') p = table_get (wr_pending wr) p)"

lemma page_of_round:
  assumes worker: "pw_journal W = J" and hold: "holds s hist v" and wr: "round_ok hist v limit wr" and n: "n \<le> length hist"
  shows "after (case table_get (wr_pages wr) (Suc n) of
       Some page \<Rightarrow> a_return (page, wr)
     | None \<Rightarrow> a_bind (read_page W name (Suc n) limit) (\<lambda>page.
         a_return (page, wr\<lparr>wr_pages := table_insert (Suc n) page (wr_pages wr)\<rparr>))) s
    (\<lambda>s' r. holds s' hist v \<and> (case r of Inl e \<Rightarrow> \<not> live \<and> fault e
      | Inr (page, wr') \<Rightarrow> page = page_items (take limit (drop n hist)) \<and> round_ok hist v limit wr'
          \<and> wr_pending wr' = wr_pending wr \<and> wr_applied wr' = wr_applied wr))"
proof (cases "table_get (wr_pages wr) (Suc n)")
  case None
  show ?thesis
    unfolding None option.case after_bind
    by (rule after_mono [OF read_page_exact [OF worker hold n]])
      (use wr in \<open>auto simp: answer_def after_primitive round_ok_def\<close>)
next
  case (Some page)
  then show ?thesis using wr hold by (auto simp: after_primitive round_ok_def)
qed

lemma last_page_item:
  assumes "history_ok hist" "take limit (drop n hist) \<noteq> []"
  shows "n < ev_global_sequence (snd (last (page_items (take limit (drop n hist)))))"
proof -
  have "last (take limit (drop n hist)) \<in> set (drop n hist)"
    using assms(2) by (meson in_set_takeD last_in_set)
  from history_sequence(1) [OF assms(1) this] show ?thesis
    using assms(2) by (simp add: page_items_def last_map)
qed

lemma run_handler_exact:
  assumes worker: "pw_journal W = J" "pw_store W = S" and hold: "holds s hist v"
    and law: "handler_law live holds hist h red" and sound: "reduction_sound storable hist h red"
    and wr: "round_ok hist v limit wr" and fresh: "table_get (wr_pending wr) (ph_name h) = None"
  shows "after (run_handler W limit h wr) s (\<lambda>s' r. holds s' hist v
    \<and> settles live (replay h red (take limit (drop (fst (v (ph_name h))) hist)) (v (ph_name h)))
        (handled hist v limit (ph_name h) wr) r)"
proof -
  let ?name = "ph_name h" and ?n = "fst (v (ph_name h))"
  let ?evs = "take limit (drop ?n hist)"
  have plain: "plain_name ?name" using law by (simp add: handler_law_def)
  note hist = history_law [OF hold]
  have n: "?n \<le> length hist" using behind_law [OF hold] .
  then have next_position: "checked_add64 ?n 1 = Some (Suc ?n)" using hist by (simp add: history_ok_def)
  have unstaged: "staged pending v ?name = v ?name" if "pending = wr_pending wr" for pending
    using fresh that by (simp add: staged_def)
  have reduced: "after (if page = [] then a_return wr' else
         let through_sequence = ev_global_sequence (snd (last page))
         in a_bind (a_fold (reduce_event W h ?n) page (wr_pending wr')) (\<lambda>pending.
            a_return (wr'\<lparr>wr_applied := saturating_add64 (wr_applied wr') (through_sequence - ?n),
              wr_pending := pending\<rparr>))) t
      (\<lambda>s' r. holds s' hist v \<and> settles live (replay h red ?evs (v ?name)) (handled hist v limit ?name wr) r)"
    if t: "holds t hist v" and page: "page = page_items ?evs" and wr': "round_ok hist v limit wr'"
      "wr_pending wr' = wr_pending wr" "wr_applied wr' = wr_applied wr" for t page wr'
  proof (cases "?evs = []")
    case True
    then have "\<not> (0 < limit \<and> ?n < length hist)" by auto
    then have "handled hist v limit ?name wr (v ?name) wr'"
      using wr' unstaged [OF refl] by (auto simp: handled_def fun_upd_idem)
    then show ?thesis
      using t unfolding page True by (simp add: page_items_def after_primitive replay_simps settles_Inr)
  next
    case False
    have ok: "pending_ok storable (length hist) v (wr_pending wr')" using wr'(1) by (simp add: round_ok_def)
    have evs: "set ?evs \<subseteq> set (drop ?n hist)" by (rule set_take_subset)
    note fold = reduce_page_exact [OF worker t law sound evs ok, unfolded unstaged [OF wr'(2)]]
    have finished: "handled hist v limit ?name wr x (wr'\<lparr>wr_applied := saturating_add64 (wr_applied wr')
        (ev_global_sequence (snd (last (page_items ?evs))) - ?n), wr_pending := pending\<rparr>)"
      if "extends_to (length hist) v ?name (wr_pending wr') x pending" for x pending
      using that wr' last_page_item [OF hist False]
      by (auto simp: handled_def extends_to_def round_ok_def saturating_add64_def u64_max_def)
    have nonempty: "page_items ?evs \<noteq> []" using False by (simp add: page_items_def)
    show ?thesis
      unfolding page if_not_P [OF nonempty] Let_def after_bind [of "a_fold _ _ _"]
      by (rule after_mono [OF fold]) (auto simp: settles_Inl settles_Inr after_primitive finished split: sum.split)
  qed
  show ?thesis
    unfolding run_handler_def worker after_bind [of "ps_position _ _"]
  proof (rule after_mono [OF position_law [OF hold plain]])
    fix t r assume t: "holds t hist v \<and> answer live ?n r"
    show "case r of
        Inl e \<Rightarrow> holds t hist v \<and> settles live (replay h red ?evs (v ?name)) (handled hist v limit ?name wr) (Inl e)
      | Inr position \<Rightarrow> after (case checked_add64 position 1 of
            None \<Rightarrow> a_return wr
          | Some from_sequence \<Rightarrow>
              a_bind (case table_get (wr_pages wr) from_sequence of
                  Some page \<Rightarrow> a_return (page, wr)
                | None \<Rightarrow> a_bind (read_page W ?name from_sequence limit) (\<lambda>page.
                    a_return (page, wr\<lparr>wr_pages := table_insert from_sequence page (wr_pages wr)\<rparr>))) (\<lambda>(page, wr).
              if page = [] then a_return wr
              else
                let through_sequence = ev_global_sequence (snd (last page))
                in a_bind (a_fold (reduce_event W h position) page (wr_pending wr)) (\<lambda>pending.
                   a_return (wr\<lparr>wr_applied := saturating_add64 (wr_applied wr) (through_sequence - position),
                     wr_pending := pending\<rparr>)))) t
          (\<lambda>s' r. holds s' hist v \<and> settles live (replay h red ?evs (v ?name)) (handled hist v limit ?name wr) r)"
    proof (cases r)
      case (Inl e)
      then show ?thesis using t by (auto simp: answer_def settles_Inl)
    next
      case (Inr position)
      then have position: "position = ?n" and hold_t: "holds t hist v" using t by simp_all
      show ?thesis
        unfolding Inr sum.case position next_position option.case after_bind [of "case table_get _ _ of None \<Rightarrow> _ | Some p \<Rightarrow> _ p"]
      proof (rule after_mono [OF page_of_round [OF worker(1) hold_t wr n]], elim conjE)
        fix u r' assume u: "holds u hist v" and r': "case r' of Inl e \<Rightarrow> \<not> live \<and> fault e
          | Inr (page, wr') \<Rightarrow> page = page_items ?evs \<and> round_ok hist v limit wr'
              \<and> wr_pending wr' = wr_pending wr \<and> wr_applied wr' = wr_applied wr"
        show "case r' of
            Inl e \<Rightarrow> holds u hist v \<and> settles live (replay h red ?evs (v ?name)) (handled hist v limit ?name wr) (Inl e)
          | Inr x \<Rightarrow> after (case x of (page, wr) \<Rightarrow>
              if page = [] then a_return wr
              else
                let through_sequence = ev_global_sequence (snd (last page))
                in a_bind (a_fold (reduce_event W h ?n) page (wr_pending wr)) (\<lambda>pending.
                   a_return (wr\<lparr>wr_applied := saturating_add64 (wr_applied wr) (through_sequence - ?n),
                     wr_pending := pending\<rparr>))) u
              (\<lambda>s' r. holds s' hist v \<and> settles live (replay h red ?evs (v ?name)) (handled hist v limit ?name wr) r)"
        proof (cases r')
          case (Inl e)
          then show ?thesis using u r' by (simp add: settles_Inl)
        next
          case (Inr x)
          obtain page wr' where x: "x = (page, wr')" by (cases x)
          show ?thesis
            unfolding Inr x sum.case prod.case by (rule reduced) (use u r' Inr x in simp_all)
        qed
      qed
    qed
  qed
qed

section \<open>A round\<close>

text \<open>A worker over these services whose handlers are reductions.\<close>

definition worker_ok :: "'s ProjectionWorker \<Rightarrow> (EventEnvelope \<times> json) list \<Rightarrow> ('s ProjectionHandler \<Rightarrow> reduction) \<Rightarrow> bool" where
  "worker_ok W hist red \<longleftrightarrow> pw_journal W = J \<and> pw_store W = S \<and> distinct (map ph_name (pw_handlers W))
     \<and> (\<forall>h \<in> set (pw_handlers W). handler_law live holds hist h (red h) \<and> reduction_sound storable hist h (red h))"

definition rounded :: "(EventEnvelope \<times> json) list \<Rightarrow> store_view \<Rightarrow> nat \<Rightarrow> 's ProjectionHandler list \<Rightarrow> worker_round
    \<Rightarrow> store_view \<Rightarrow> worker_round \<Rightarrow> bool" where
  "rounded hist v limit hs wr v' wr' \<longleftrightarrow> round_ok hist v limit wr' \<and> staged (wr_pending wr') v = v'
     \<and> wr_applied wr \<le> wr_applied wr'
     \<and> (0 < limit \<and> (\<exists>h \<in> set hs. fst (v (ph_name h)) < length hist) \<longrightarrow> 0 < wr_applied wr')
     \<and> (\<forall>p. p \<notin> ph_name ` set hs \<longrightarrow> table_get (wr_pending wr') p = table_get (wr_pending wr) p)"

lemma round_exact:
  assumes worker: "pw_journal W = J" "pw_store W = S" and hold: "holds s hist v"
    and laws: "\<forall>h \<in> set hs. handler_law live holds hist h (red h) \<and> reduction_sound storable hist h (red h)"
    and names: "distinct (map ph_name hs)" and wr: "round_ok hist v limit wr"
    and fresh: "\<forall>h \<in> set hs. table_get (wr_pending wr) (ph_name h) = None"
  shows "after (a_fold (run_handler W limit) hs wr) s (\<lambda>s' r. holds s' hist v
    \<and> settles live (round_views red hist limit v hs (staged (wr_pending wr) v)) (rounded hist v limit hs wr) r)"
  using hold laws names wr fresh
proof (induction hs arbitrary: s wr)
  case Nil
  then show ?case by (simp add: after_primitive round_views_def settles_Inr rounded_def)
next
  case (Cons h hs)
  let ?part = "replay h (red h) (take limit (drop (fst (v (ph_name h))) hist)) (v (ph_name h))"
  have law: "handler_law live holds hist h (red h)" "reduction_sound storable hist h (red h)" using Cons.prems(2) by simp_all
  have new: "table_get (wr_pending wr) (ph_name h) = None" using Cons.prems(5) by simp
  note first = run_handler_exact [OF worker Cons.prems(1) law Cons.prems(4) new]
  show ?case
    unfolding a_fold.simps after_bind
  proof (rule after_mono [OF first], elim conjE)
    fix t r assume t: "holds t hist v" and r: "settles live ?part (handled hist v limit (ph_name h) wr) r"
    show "case r of
        Inl e \<Rightarrow> holds t hist v \<and> settles live (round_views red hist limit v (h # hs) (staged (wr_pending wr) v))
            (rounded hist v limit (h # hs) wr) (Inl e)
      | Inr wr1 \<Rightarrow> after (a_fold (run_handler W limit) hs wr1) t (\<lambda>s' r. holds s' hist v
          \<and> settles live (round_views red hist limit v (h # hs) (staged (wr_pending wr) v)) (rounded hist v limit (h # hs) wr) r)"
    proof (cases r)
      case (Inl e)
      then show ?thesis using t r by (auto simp: settles_Inl round_views_def)
    next
      case (Inr wr1)
      then obtain x where x: "?part = Inr x" and wr1: "handled hist v limit (ph_name h) wr x wr1"
        using r by (auto simp: settles_Inr)
      have ok: "round_ok hist v limit wr1" using wr1 by (simp add: handled_def)
      have fresh: "\<forall>h' \<in> set hs. table_get (wr_pending wr1) (ph_name h') = None"
      proof
        fix h' assume "h' \<in> set hs"
        moreover from this have "ph_name h' \<noteq> ph_name h" using Cons.prems(3) by (metis distinct.simps(2) image_eqI list.set_map list.simps(9))
        ultimately show "table_get (wr_pending wr1) (ph_name h') = None"
          using wr1 Cons.prems(5) by (simp add: handled_def)
      qed
      have view: "round_views red hist limit v (h # hs) (staged (wr_pending wr) v)
          = round_views red hist limit v hs (staged (wr_pending wr1) v)"
        using wr1 by (simp add: round_views_def x handled_def)
      have step: "rounded hist v limit (h # hs) wr v' wr'" if "rounded hist v limit hs wr1 v' wr'" for v' wr'
        using that wr1 by (auto simp: rounded_def handled_def)
      have "after (a_fold (run_handler W limit) hs wr1) t (\<lambda>s' r. holds s' hist v
          \<and> settles live (round_views red hist limit v hs (staged (wr_pending wr1) v)) (rounded hist v limit hs wr1) r)"
        using Cons.IH [OF t _ _ ok fresh] Cons.prems(2,3) by simp
      then show ?thesis
        unfolding Inr sum.case view
        by (rule after_mono) (auto elim: settles_mono intro: step)
    qed
  qed
qed

section \<open>Reports\<close>

lemma status_exact:
  assumes worker: "worker_ok W hist red" and hold: "holds s hist v"
  shows "after (worker_report W n) s (\<lambda>s' r. holds s' hist v
    \<and> answer live \<lparr>rr_applied = n, rr_projections = status_of hist v (pw_handlers W)\<rparr> r)"
proof -
  have one: "after (handler_status W (length hist) h statuses) t (\<lambda>s' r. holds s' hist v
      \<and> answer live (statuses @ status_of hist v [h]) r)" if "h \<in> set (pw_handlers W)" "holds t hist v" for h t statuses
  proof -
    have plain: "plain_name (ph_name h)" and ports: "pw_store W = S" "pw_journal W = J"
      using worker that(1) by (simp_all add: worker_ok_def handler_law_def)
    show ?thesis
      unfolding handler_status_def ports after_bind
      by (rule after_mono [OF position_law [OF that(2) plain]])
        (auto simp: after_primitive answer_def status_of_def writable_law split: sum.split)
  qed
  have all: "after (a_fold (handler_status W (length hist)) hs statuses) t (\<lambda>s' r. holds s' hist v
      \<and> answer live (statuses @ status_of hist v hs) r)"
    if "set hs \<subseteq> set (pw_handlers W)" "holds t hist v" for hs statuses t
    using that
  proof (induction hs arbitrary: statuses t)
    case (Cons h hs)
    have h: "h \<in> set (pw_handlers W)" "set hs \<subseteq> set (pw_handlers W)" using Cons.prems(1) by simp_all
    have rest: "after (a_fold (handler_status W (length hist)) hs (statuses @ status_of hist v [h])) u (\<lambda>s' r. holds s' hist v
        \<and> answer live (statuses @ status_of hist v (h # hs)) r)" if "holds u hist v" for u
      using Cons.IH [OF h(2) that, of "statuses @ status_of hist v [h]"] by (simp add: status_of_def)
    show ?case
      unfolding a_fold.simps after_bind
      by (rule after_mono [OF one [OF h(1) Cons.prems(2)]]) (auto simp: rest split: sum.split)
  qed (simp add: after_primitive status_of_def)
  have "after (worker_status W) s (\<lambda>s' r. holds s' hist v \<and> answer live (status_of hist v (pw_handlers W)) r)"
    unfolding worker_status_def after_bind
    using worker all [OF subset_refl, of _ "[]"]
    by (auto intro!: after_mono [OF head_law [OF hold]] simp: worker_ok_def split: sum.split prod.split)
  then show ?thesis
    unfolding worker_report_def after_bind
    by (rule after_mono) (auto simp: after_primitive answer_def split: sum.split)
qed

section \<open>A committed round\<close>

definition round_outcome :: "'s ProjectionWorker \<Rightarrow> ('s ProjectionHandler \<Rightarrow> reduction) \<Rightarrow> (EventEnvelope \<times> json) list
    \<Rightarrow> store_view \<Rightarrow> nat \<Rightarrow> 's \<Rightarrow> (StoreError, ProjectionRunReport) result \<Rightarrow> bool" where
  "round_outcome W red hist v limit s' r \<longleftrightarrow> (case round_views red hist limit v (pw_handlers W) v of
       Inl e \<Rightarrow> holds s' hist v \<and> (r = Inl e \<or> \<not> live \<and> (\<exists>f. r = Inl f \<and> fault f))
     | Inr v' \<Rightarrow> (\<exists>rep. r = Inr rep \<and> holds s' hist v' \<and> rr_projections rep = status_of hist v' (pw_handlers W)
           \<and> (0 < limit \<and> (\<exists>h \<in> set (pw_handlers W). fst (v (ph_name h)) < length hist) \<longrightarrow> 0 < rr_applied rep))
         \<or> \<not> live \<and> (\<exists>f. r = Inl f \<and> fault f) \<and> (holds s' hist v \<or> holds s' hist v'))"

lemma commit_round:
  assumes worker: "worker_ok W hist red" and hold: "holds s hist v" and wr: "round_ok hist v limit wr"
    and keys: "\<And>p. table_get (wr_pending wr) p \<noteq> None \<Longrightarrow> p \<in> ph_name ` set (pw_handlers W)"
  shows "after (let batches = take_batches (map ph_name (pw_handlers W)) (wr_pending wr)
      in a_bind (if batches \<noteq> [] then ps_apply_all (pw_store W) batches else a_return ()) (\<lambda>_.
         worker_report W (wr_applied wr))) s
    (\<lambda>s' r. holds s' hist (staged (wr_pending wr) v) \<and> answer live \<lparr>rr_applied = wr_applied wr,
          rr_projections = status_of hist (staged (wr_pending wr) v) (pw_handlers W)\<rparr> r
      \<or> holds s' hist v \<and> \<not> live \<and> (\<exists>f. r = Inl f \<and> fault f))"
proof -
  let ?batches = "take_batches (map ph_name (pw_handlers W)) (wr_pending wr)" and ?v = "staged (wr_pending wr) v"
  have pending: "pending_ok storable (length hist) v (wr_pending wr)" using wr by (simp add: round_ok_def)
  have names: "distinct (map ph_name (pw_handlers W))" and store: "pw_store W = S"
    using worker by (simp_all add: worker_ok_def)
  have "p \<in> set (map ph_name (pw_handlers W))" if "table_get (wr_pending wr) p \<noteq> None" for p
    using keys [OF that] by simp
  note batches = take_batches_apply [OF pending names this]
  have applied: "after (if ?batches \<noteq> [] then ps_apply_all S ?batches else a_return ()) s
      (\<lambda>s' r. r = Inr () \<and> holds s' hist ?v \<or> \<not> live \<and> (\<exists>e. r = Inl e \<and> fault e) \<and> holds s' hist v)"
  proof (cases "?batches = []")
    case True
    then have "?v = v" using batches by simp
    then show ?thesis using True hold by (simp add: after_primitive)
  next
    case False
    then show ?thesis using apply_law [OF hold] batches by simp
  qed
  show ?thesis
    unfolding Let_def store after_bind
  proof (rule after_mono [OF applied])
    fix t r assume t: "r = Inr () \<and> holds t hist ?v \<or> \<not> live \<and> (\<exists>e. r = Inl e \<and> fault e) \<and> holds t hist v"
    show "case r of
        Inl e \<Rightarrow> holds t hist ?v \<and> answer live \<lparr>rr_applied = wr_applied wr,
            rr_projections = status_of hist ?v (pw_handlers W)\<rparr> (Inl e) \<or> holds t hist v \<and> \<not> live \<and> (\<exists>f. Inl e = Inl f \<and> fault f)
      | Inr x \<Rightarrow> after (worker_report W (wr_applied wr)) t (\<lambda>s' r. holds s' hist ?v \<and> answer live \<lparr>rr_applied = wr_applied wr,
            rr_projections = status_of hist ?v (pw_handlers W)\<rparr> r \<or> holds s' hist v \<and> \<not> live \<and> (\<exists>f. r = Inl f \<and> fault f))"
    proof (cases r)
      case (Inr u)
      then have "holds t hist ?v" using t by auto
      from status_exact [OF worker this, of "wr_applied wr"] show ?thesis
        unfolding Inr sum.case by (rule after_mono) simp
    qed (use t in auto)
  qed
qed

lemma run_once_exact:
  assumes worker: "worker_ok W hist red" and hold: "holds s hist v"
  shows "after (run_once W limit) s (round_outcome W red hist v limit)"
proof -
  let ?hs = "pw_handlers W"
  let ?start = "\<lparr>wr_applied = 0, wr_pending = [], wr_pages = []\<rparr>"
  have ports: "pw_journal W = J" "pw_store W = S" and names: "distinct (map ph_name ?hs)"
    and laws: "\<forall>h \<in> set ?hs. handler_law live holds hist h (red h) \<and> reduction_sound storable hist h (red h)"
    using worker by (simp_all add: worker_ok_def)
  have start: "round_ok hist v limit ?start" "\<forall>h \<in> set ?hs. table_get (wr_pending ?start) (ph_name h) = None"
    "staged (wr_pending ?start) v = v"
    by (simp_all add: round_ok_def)
  note reduced = round_exact [OF ports hold laws names start(1,2), unfolded start(3)]
  show ?thesis
    unfolding run_once_def after_bind [of "a_fold _ _ _"]
  proof (rule after_mono [OF reduced], elim conjE)
    fix t r assume t: "holds t hist v" and r: "settles live (round_views red hist limit v ?hs v) (rounded hist v limit ?hs ?start) r"
    show "case r of
        Inl e \<Rightarrow> round_outcome W red hist v limit t (Inl e)
      | Inr wr \<Rightarrow> after (let batches = take_batches (map ph_name ?hs) (wr_pending wr)
            in a_bind (if batches \<noteq> [] then ps_apply_all (pw_store W) batches else a_return ()) (\<lambda>_.
               worker_report W (wr_applied wr))) t (round_outcome W red hist v limit)"
    proof (cases r)
      case (Inl e)
      then show ?thesis using t r by (auto simp: settles_Inl round_outcome_def split: sum.split)
    next
      case (Inr wr)
      then obtain v' where v': "round_views red hist limit v ?hs v = Inr v'" and wr: "rounded hist v limit ?hs ?start v' wr"
        using r by (auto simp: settles_Inr)
      have keys: "p \<in> ph_name ` set ?hs" if "table_get (wr_pending wr) p \<noteq> None" for p
        using wr that by (auto simp: rounded_def)
      have ok: "round_ok hist v limit wr" and view: "staged (wr_pending wr) v = v'"
        and grown: "0 < limit \<and> (\<exists>h \<in> set ?hs. fst (v (ph_name h)) < length hist) \<longrightarrow> 0 < wr_applied wr"
        using wr by (simp_all add: rounded_def)
      show ?thesis
        unfolding Inr sum.case
        by (rule after_mono [OF commit_round [OF worker t ok keys]])
          (use grown in \<open>auto simp: round_outcome_def v' view answer_def\<close>)
    qed
  qed
qed

section \<open>Draining\<close>

text \<open>The replay of what is left succeeds.\<close>

definition replayable :: "('s ProjectionHandler \<Rightarrow> reduction) \<Rightarrow> (EventEnvelope \<times> json) list \<Rightarrow> 's ProjectionHandler list \<Rightarrow> store_view \<Rightarrow> bool" where
  "replayable red hist hs v \<longleftrightarrow>
     (\<forall>h \<in> set hs. is_ok (replay h (red h) (drop (fst (v (ph_name h))) hist) (v (ph_name h))))"

lemma replayable_page:
  assumes "is_ok (replay h red (drop n hist) x)"
  shows "\<exists>y. replay h red (take limit (drop n hist)) x = Inr y"
proof -
  have "replay h red (drop n hist) x
      = bind_r (replay h red (take limit (drop n hist)) x) (replay h red (drop limit (drop n hist)))"
    unfolding replay_def fold_r_append [symmetric] append_take_drop_id ..
  then show ?thesis using assms by (cases "replay h red (take limit (drop n hist)) x") simp_all
qed

lemma round_views_total:
  assumes names: "distinct (map ph_name hs)"
    and parts: "\<forall>h \<in> set hs. \<exists>x. replay h (red h) (take limit (drop (fst (v0 (ph_name h))) hist)) (v0 (ph_name h)) = Inr x"
  shows "\<exists>v'. round_views red hist limit v0 hs v = Inr v'
    \<and> (\<forall>h \<in> set hs. replay h (red h) (take limit (drop (fst (v0 (ph_name h))) hist)) (v0 (ph_name h)) = Inr (v' (ph_name h)))
    \<and> (\<forall>p. p \<notin> ph_name ` set hs \<longrightarrow> v' p = v p)"
  using assms
proof (induction hs arbitrary: v)
  case (Cons h hs)
  obtain x where x: "replay h (red h) (take limit (drop (fst (v0 (ph_name h))) hist)) (v0 (ph_name h)) = Inr x"
    using Cons.prems(2) by auto
  have "distinct (map ph_name hs)" "\<forall>h \<in> set hs. \<exists>x. replay h (red h) (take limit (drop (fst (v0 (ph_name h))) hist)) (v0 (ph_name h)) = Inr x"
    using Cons.prems by simp_all
  from Cons.IH [OF this, of "v(ph_name h := x)"] obtain v' where v': "round_views red hist limit v0 hs (v(ph_name h := x)) = Inr v'"
      "\<forall>h \<in> set hs. replay h (red h) (take limit (drop (fst (v0 (ph_name h))) hist)) (v0 (ph_name h)) = Inr (v' (ph_name h))"
      "\<forall>p. p \<notin> ph_name ` set hs \<longrightarrow> v' p = (v(ph_name h := x)) p" by blast
  moreover have "ph_name h \<notin> ph_name ` set hs" using Cons.prems(1) by simp
  ultimately show ?case
    using x by (intro exI [of _ v']) (auto simp: round_views_def)
qed (simp add: round_views_def)

lemma replayed_trans:
  assumes hist: "history_ok hist" and behind: "\<forall>h \<in> set hs. fst (v (ph_name h)) \<le> length hist"
    and part: "\<forall>h \<in> set hs. replay h (red h) (take limit (drop (fst (v (ph_name h))) hist)) (v (ph_name h)) = Inr (v1 (ph_name h))"
    and others: "\<forall>p. p \<notin> ph_name ` set hs \<longrightarrow> v1 p = v p"
    and rest: "replayed red hist hs v1 v'"
  shows "replayed red hist hs v v'"
  unfolding replayed_def
proof (intro conjI ballI)
  fix h assume h: "h \<in> set hs"
  have "replay h (red h) (drop (fst (v1 (ph_name h))) hist) (v1 (ph_name h)) = Inr (v' (ph_name h))"
    using rest h by (simp add: replayed_def)
  then show "replay h (red h) (drop (fst (v (ph_name h))) hist) (v (ph_name h)) = Inr (v' (ph_name h))"
    using replay_continues [OF hist part [THEN bspec, OF h] behind [THEN bspec, OF h]] by (rule trans [OF sym, rotated])
next
  show "\<forall>p. p \<notin> ph_name ` set hs \<longrightarrow> v' p = v p" using others rest by (simp add: replayed_def)
qed

lemma replayed_current:
  assumes "\<forall>h \<in> set hs. fst (v (ph_name h)) = length hist"
  shows "replayed red hist hs v v"
  using assms by (simp add: replayed_def replay_simps)

lemma replayed_ready:
  assumes hist: "history_ok hist" and behind: "\<forall>h \<in> set hs. fst (v (ph_name h)) \<le> length hist"
    and done_: "replayed red hist hs v v'"
  shows "list_all st_ready (status_of hist v' hs)"
proof -
  have "fst (v' (ph_name h)) = length hist" if "h \<in> set hs" for h
  proof -
    have "replay h (red h) (take (length hist) (drop (fst (v (ph_name h))) hist)) (v (ph_name h)) = Inr (v' (ph_name h))"
      using done_ that by (simp add: replayed_def)
    from replay_position [OF hist this] show ?thesis using behind that by simp
  qed
  then show ?thesis by (auto simp: status_of_def list_all_iff)
qed

lemma drain_rounds_exact:
  assumes worker: "worker_ok W hist red" and live: "live" and limit: "0 < limit"
    and hold: "holds s hist v" and total: "replayable red hist (pw_handlers W) v"
    and lag: "\<forall>h \<in> set (pw_handlers W). length hist - fst (v (ph_name h)) \<le> limit * rounds"
  shows "after (drain_rounds W limit rounds applied) s (\<lambda>s' r. \<exists>rep v'. r = Inr rep \<and> holds s' hist v'
    \<and> replayed red hist (pw_handlers W) v v' \<and> rr_projections rep = status_of hist v' (pw_handlers W))"
  using hold total lag
proof (induction rounds arbitrary: s v applied)
  case 0
  let ?hs = "pw_handlers W"
  have "fst (v (ph_name h)) = length hist" if "h \<in> set ?hs" for h
    using 0(3) behind_law [OF 0(1), of "ph_name h"] that by force
  then have "replayed red hist ?hs v v" by (simp add: replayed_current)
  then show ?case
    using status_exact [OF worker 0(1), of applied] live
    by (auto simp: answer_def elim!: after_mono)
next
  case (Suc rounds)
  let ?hs = "pw_handlers W"
  have hist: "history_ok hist" using history_law [OF Suc.prems(1)] .
  have names: "distinct (map ph_name ?hs)" using worker by (simp add: worker_ok_def)
  have parts: "\<exists>x. replay h (red h) (take limit (drop (fst (v (ph_name h))) hist)) (v (ph_name h)) = Inr x" if "h \<in> set ?hs" for h
    using Suc.prems(2) that by (intro replayable_page) (simp add: replayable_def)
  then have "\<forall>h \<in> set ?hs. \<exists>x. replay h (red h) (take limit (drop (fst (v (ph_name h))) hist)) (v (ph_name h)) = Inr x"
    by (intro ballI)
  from round_views_total [OF names this, of v] obtain v1 where v1: "round_views red hist limit v ?hs v = Inr v1"
      "\<forall>h \<in> set ?hs. replay h (red h) (take limit (drop (fst (v (ph_name h))) hist)) (v (ph_name h)) = Inr (v1 (ph_name h))"
      "\<forall>p. p \<notin> ph_name ` set ?hs \<longrightarrow> v1 p = v p"
    by (elim exE conjE)
  have behind: "\<forall>h \<in> set ?hs. fst (v (ph_name h)) \<le> length hist" using behind_law [OF Suc.prems(1)] by simp
  have position: "fst (v1 (ph_name h)) = min (fst (v (ph_name h)) + limit) (length hist)" if "h \<in> set ?hs" for h
    using replay_position [OF hist] v1(2) behind that by blast
  have step: "replayed red hist ?hs v v'" if "replayed red hist ?hs v1 v'" for v'
    using replayed_trans [OF hist behind v1(2,3) that] .
  show ?case
    unfolding drain_rounds.simps after_bind
  proof (rule after_mono [OF run_once_exact [OF worker Suc.prems(1), of limit]])
    fix t r assume "round_outcome W red hist v limit t r"
    then have "\<exists>rep. r = Inr rep \<and> holds t hist v1 \<and> rr_projections rep = status_of hist v1 ?hs
        \<and> ((\<exists>h \<in> set ?hs. fst (v (ph_name h)) < length hist) \<longrightarrow> 0 < rr_applied rep)"
      unfolding round_outcome_def v1(1) sum.case using live limit by blast
    then obtain rep where rep: "r = Inr rep" "holds t hist v1" "rr_projections rep = status_of hist v1 ?hs"
        "(\<exists>h \<in> set ?hs. fst (v (ph_name h)) < length hist) \<longrightarrow> 0 < rr_applied rep"
      by blast
    let ?applied = "saturating_add64 applied (rr_applied rep)"
    let ?done = "\<lambda>s' r. \<exists>rep v'. r = Inr rep \<and> holds s' hist v' \<and> replayed red hist ?hs v v'
        \<and> rr_projections rep = status_of hist v' ?hs"
    have ready: "after (a_return \<lparr>rr_applied = ?applied, rr_projections = rr_projections rep\<rparr>) t ?done"
      if "list_all st_ready (rr_projections rep)"
    proof -
      have "\<forall>h \<in> set ?hs. fst (v1 (ph_name h)) = length hist"
        using that by (simp add: rep(3) status_of_def list_all_iff)
      then show ?thesis using step [OF replayed_current] rep(2,3) by (auto simp: after_primitive)
    qed
    have "list_all st_ready (rr_projections rep)" if "rr_applied rep = 0"
    proof -
      have "fst (v1 (ph_name h)) = length hist" if h: "h \<in> set ?hs" for h
        using rep(4) \<open>rr_applied rep = 0\<close> position [OF h] behind h by force
      then show ?thesis by (simp add: rep(3) status_of_def list_all_iff)
    qed
    moreover have "after (drain_rounds W limit rounds ?applied) t ?done"
    proof -
      have "length hist - fst (v1 (ph_name h)) \<le> limit * rounds" if "h \<in> set ?hs" for h
        using Suc.prems(3) that position [OF that] by fastforce
      then have lag: "\<forall>h \<in> set ?hs. length hist - fst (v1 (ph_name h)) \<le> limit * rounds" by blast
      have "is_ok (replay h (red h) (drop (fst (v1 (ph_name h))) hist) (v1 (ph_name h)))" if "h \<in> set ?hs" for h
        using Suc.prems(2) that replay_continues [OF hist v1(2) [THEN bspec, OF that] behind [THEN bspec, OF that]]
        by (simp add: replayable_def)
      then have "replayable red hist ?hs v1" unfolding replayable_def by blast
      from Suc.IH [OF rep(2) this lag, of ?applied] show ?thesis
        by (rule after_mono) (use step in blast)
    qed
    ultimately show "case r of Inl e \<Rightarrow> ?done t (Inl e)
      | Inr report \<Rightarrow> after (let applied = saturating_add64 applied (rr_applied report)
          in if list_all st_ready (rr_projections report)
             then a_return \<lparr>rr_applied = applied, rr_projections = rr_projections report\<rparr>
             else if rr_applied report = 0 then worker_report W applied
             else drain_rounds W limit rounds applied) t ?done"
      using ready by (auto simp: rep(1) Let_def)
  qed
qed

text \<open>A rebuilt projection is the replay of the whole history from nothing.\<close>

lemma rebuild_exact:
  assumes worker: "worker_ok W hist red" and live: "live"
    and hold: "holds s hist v" and h: "h \<in> set (pw_handlers W)"
    and total: "replayable red hist (pw_handlers W) (v(ph_name h := (0, Map.empty)))" and bound: "length hist \<le> 256 * 16384"
  shows "after (rebuild W (ph_name h)) s (\<lambda>s' r. \<exists>rep v'. r = Inr rep \<and> holds s' hist v'
    \<and> replay h (red h) hist (0, Map.empty) = Inr (v' (ph_name h))
    \<and> replayed red hist (pw_handlers W) (v(ph_name h := (0, Map.empty))) v'
    \<and> list_all st_ready (rr_projections rep))"
proof -
  let ?v = "v(ph_name h := (0, Map.empty))" and ?hs = "pw_handlers W"
  have store: "pw_store W = S" and plain: "plain_name (ph_name h)"
    using worker h by (auto simp: worker_ok_def handler_law_def)
  have known: "list_ex (\<lambda>h'. ph_name h' = ph_name h) ?hs" using h by (auto simp: list_ex_iff)
  have drained: "after (drain W 256 16384) t (\<lambda>s' r. \<exists>rep v'. r = Inr rep \<and> holds s' hist v'
      \<and> replay h (red h) hist (0, Map.empty) = Inr (v' (ph_name h)) \<and> replayed red hist ?hs ?v v'
      \<and> list_all st_ready (rr_projections rep))" if t: "holds t hist ?v" for t
  proof -
    have lag: "\<forall>h' \<in> set ?hs. length hist - fst (?v (ph_name h')) \<le> 256 * 16384"
      using bound by (meson diff_le_self le_trans)
    have "after (drain_rounds W 256 16384 0) t (\<lambda>s' r. \<exists>rep v'. r = Inr rep \<and> holds s' hist v'
        \<and> replayed red hist ?hs ?v v' \<and> rr_projections rep = status_of hist v' ?hs)"
      by (rule drain_rounds_exact [OF worker live _ t total lag]) simp
    moreover have "replay h (red h) hist (0, Map.empty) = Inr (v' (ph_name h)) \<and> list_all st_ready (status_of hist v' ?hs)"
      if "replayed red hist ?hs ?v v'" for v'
      using that h replayed_ready [OF history_law [OF t] _ that] behind_law [OF t] by (force simp: replayed_def)
    ultimately show ?thesis
      unfolding drain_def by (simp add: a_reject_def) (auto elim!: after_mono)
  qed
  have step: "rebuild W (ph_name h) = a_bind (ps_reset S (ph_name h)) (\<lambda>_. drain W 256 16384)"
    using known by (simp add: rebuild_def store a_reject_def)
  show ?thesis
    unfolding step after_bind
  proof (rule after_mono [OF reset_law [OF hold plain]])
    fix t r assume "r = Inr () \<and> holds t hist ?v \<or> \<not> live \<and> (\<exists>e. r = Inl e \<and> fault e) \<and> holds t hist v"
    then have r: "r = Inr ()" and t: "holds t hist ?v" using live by auto
    show "case r of Inl e \<Rightarrow> (\<exists>rep v'. Inl e = Inr rep \<and> holds t hist v' \<and> replay h (red h) hist (0, Map.empty) = Inr (v' (ph_name h))
          \<and> replayed red hist ?hs ?v v' \<and> list_all st_ready (rr_projections rep))
      | Inr x \<Rightarrow> after (drain W 256 16384) t (\<lambda>s' r. \<exists>rep v'. r = Inr rep \<and> holds s' hist v'
          \<and> replay h (red h) hist (0, Map.empty) = Inr (v' (ph_name h))
          \<and> replayed red hist ?hs ?v v' \<and> list_all st_ready (rr_projections rep))"
      unfolding r sum.case by (rule drained [OF t])
  qed
qed

end

end
