(* ===== verification/ProjectionHandlers.thy ===== *)
theory ProjectionHandlers
  imports ProjectionReplay SchemaDisclosure
begin

text \<open>
  Built-in projections (\<open>colossus-projection/src/handlers.rs\<close>): sessions, work records and the
  effects that began without a terminal event, and the snapshot of pending effects that startup
  recovery reads. The text of a \<open>serde_json\<close> error is a parameter.
\<close>

section \<open>Helpers\<close>

type_synonym json_object = "(string, json) table"

definition upsert :: "string \<Rightarrow> json \<Rightarrow> ProjectionMutation list" where
  "upsert key v = [Upsert key v]"

definition object_of :: "json \<Rightarrow> json_object" where
  "object_of v = (case as_object v of Some entries \<Rightarrow> entries | None \<Rightarrow> [])"

definition json_u64 :: "nat \<Rightarrow> json" where
  "json_u64 n = JNum (Unsigned n)"

definition payload_field :: "json \<Rightarrow> string \<Rightarrow> json" where
  "payload_field payload key = (case json_get payload key of Some v \<Rightarrow> v | None \<Rightarrow> JNull)"

text \<open>What the derived deserialisation of a struct sees: an object without unknown or repeated
  fields, or an array with a value for every field in the order of the declaration.\<close>

definition struct_entries :: "string list \<Rightarrow> json \<Rightarrow> json option" where
  "struct_entries names v = (case v of
       JObj entries \<Rightarrow> if distinct (map fst entries) \<and> list_all (\<lambda>e. fst e \<in> set names) entries then Some v else None
     | JArr vs \<Rightarrow> if length vs = length names then Some (JObj (zip names vs)) else None
     | _ \<Rightarrow> None)"

text \<open>The first characters of a UTF-8 string.\<close>

fun take_chars :: "nat \<Rightarrow> string \<Rightarrow> string" where
  "take_chars n [] = []"
| "take_chars n (c # s) =
     (if 128 \<le> code c \<and> code c < 192 then c # take_chars n s
      else case n of 0 \<Rightarrow> [] | Suc m \<Rightarrow> c # take_chars m s)"

definition merged_event :: "string \<Rightarrow> EventEnvelope \<Rightarrow> json \<Rightarrow> json option \<Rightarrow> json" where
  "merged_event key event payload current =
     (let start = (case current of Some v \<Rightarrow> object_of v | None \<Rightarrow> []);
          extended = (case as_object payload of
            Some entries \<Rightarrow> fold (\<lambda>(k, v). table_insert k v) entries start
          | None \<Rightarrow> table_insert ''payload'' payload start)
      in JObj (table_insert ''updated_at'' (JStr (ev_occurred_at event))
           (table_insert ''last_event_type'' (JStr (ev_event_type event))
           (table_insert ''stream_version'' (json_u64 (ev_stream_version event))
           (table_insert ''stream_id'' (JStr (ev_stream_id event))
           (table_insert ''id'' (JStr key) extended))))))"

definition merge_event ::
    "'s ProjectionStorePort \<Rightarrow> string \<Rightarrow> string \<Rightarrow> EventEnvelope \<Rightarrow> json \<Rightarrow> ('s, json) store_op" where
  "merge_event store projection key event payload =
     a_bind (ps_get store projection key) (\<lambda>current. a_return (merged_event key event payload current))"

section \<open>Sessions\<close>

definition session_fields :: "EventEnvelope \<Rightarrow> json \<Rightarrow> json_object \<Rightarrow> json_object" where
  "session_fields event payload current =
     (if ev_event_type event = ''session.created.v1'' then
        table_insert ''last_user_preview'' JNull
          (table_insert ''last_run_id'' JNull
          (table_insert ''message_count'' (json_u64 0)
          (table_insert ''created_at'' (JStr (ev_occurred_at event))
          (table_insert ''title'' (payload_field payload ''title'') current))))
      else if ev_event_type event = ''session.title.set.v1'' then
        table_insert ''title'' (payload_field payload ''title'') current
      else if ev_event_type event = ''session.message.appended.v1'' then
        let message_count = saturating_add64
              (case Option.bind (table_get current ''message_count'') as_u64 of Some n \<Rightarrow> n | None \<Rightarrow> 0) 1;
            counted = table_insert ''last_run_id'' (payload_field payload ''run_id'')
              (table_insert ''message_count'' (json_u64 message_count) current)
        in if Option.bind (json_pointer payload ''/message/role'') as_str = Some ''user''
           then table_insert ''last_user_preview''
             (case Option.bind (json_pointer payload ''/message/content'') as_str of
                Some content \<Rightarrow> JStr (take_chars 160 content) | None \<Rightarrow> JNull) counted
           else counted
      else current)"

definition session_record :: "string \<Rightarrow> EventEnvelope \<Rightarrow> json \<Rightarrow> json option \<Rightarrow> json" where
  "session_record sid event payload current =
     JObj (table_insert ''updated_at'' (JStr (ev_occurred_at event))
       (table_insert ''last_event_type'' (JStr (ev_event_type event))
       (table_insert ''stream_version'' (json_u64 (ev_stream_version event))
       (table_insert ''stream_id'' (JStr (ev_stream_id event))
       (table_insert ''id'' (JStr sid)
         (session_fields event payload (case current of Some v \<Rightarrow> object_of v | None \<Rightarrow> [])))))))"

definition session_project ::
    "'s ProjectionStorePort \<Rightarrow> EventEnvelope \<Rightarrow> json \<Rightarrow> ('s, ProjectionMutation list) store_op" where
  "session_project store event payload = (case strip_prefix ''session:'' (ev_stream_id event) of
       None \<Rightarrow> a_return []
     | Some sid \<Rightarrow> a_bind (ps_get store ''sessions-v1'' sid) (\<lambda>current.
         a_return (upsert sid (session_record sid event payload current))))"

definition SessionProjection :: "'s ProjectionHandler" where
  "SessionProjection = \<lparr>ph_name = ''sessions-v1'',
     ph_applies_to = (\<lambda>event. starts_with ''session:'' (ev_stream_id event)),
     ph_requires_payload = True, ph_project = session_project\<rparr>"

section \<open>Work records\<close>

definition work_stream :: "string \<Rightarrow> bool" where
  "work_stream stream \<longleftrightarrow> list_ex (\<lambda>p. starts_with p stream) [''task:'', ''decision:'', ''plan:'', ''goal:'']"

definition work_record :: "EventEnvelope \<Rightarrow> json \<Rightarrow> json" where
  "work_record event record =
     JObj (table_insert ''last_event_type'' (JStr (ev_event_type event))
       (table_insert ''stream_version'' (json_u64 (ev_stream_version event))
       (table_insert ''stream_id'' (JStr (ev_stream_id event)) (object_of record))))"

definition work_project ::
    "'s ProjectionStorePort \<Rightarrow> EventEnvelope \<Rightarrow> json \<Rightarrow> ('s, ProjectionMutation list) store_op" where
  "work_project store event payload =
     (if \<not> work_stream (ev_stream_id event) then a_return []
      else case json_get payload ''record'' of
        Some record \<Rightarrow> a_return (upsert (ev_stream_id event) (work_record event record))
      | None \<Rightarrow> a_bind (merge_event store ''work-v1'' (ev_stream_id event) event payload) (\<lambda>merged.
          a_return (upsert (ev_stream_id event) merged)))"

definition WorkProjection :: "'s ProjectionHandler" where
  "WorkProjection = \<lparr>ph_name = ''work-v1'', ph_applies_to = (\<lambda>event. work_stream (ev_stream_id event)),
     ph_requires_payload = True, ph_project = work_project\<rparr>"

section \<open>Pending effects\<close>

definition EFFECT_RECOVERY_PROJECTION :: string where
  "EFFECT_RECOVERY_PROJECTION = ''effects-recovery-v1''"

record PendingEffect =
  pe_stream_id :: string
  pe_started_stream_version :: nat
  pe_latest_stream_version :: nat
  pe_started_event_id :: string

definition pending_effect_value :: "PendingEffect \<Rightarrow> json" where
  "pending_effect_value effect = JObj
     [(''latest_stream_version'', json_u64 (pe_latest_stream_version effect)),
      (''started_event_id'', JStr (pe_started_event_id effect)),
      (''started_stream_version'', json_u64 (pe_started_stream_version effect)),
      (''stream_id'', JStr (pe_stream_id effect))]"

definition pending_effect_from_value :: "json \<Rightarrow> PendingEffect option" where
  "pending_effect_from_value v = Option.bind
     (struct_entries [''stream_id'', ''started_stream_version'', ''latest_stream_version'', ''started_event_id''] v) (\<lambda>entries.
     case (get_str entries ''stream_id'', Option.bind (json_get entries ''started_stream_version'') as_u64,
         Option.bind (json_get entries ''latest_stream_version'') as_u64, get_str entries ''started_event_id'') of
       (Some stream, Some started, Some latest, Some event) \<Rightarrow>
         Some \<lparr>pe_stream_id = stream, pe_started_stream_version = started,
           pe_latest_stream_version = latest, pe_started_event_id = event\<rparr>
     | _ \<Rightarrow> None)"

definition started_effect :: "EventEnvelope \<Rightarrow> PendingEffect" where
  "started_effect event = \<lparr>pe_stream_id = ev_stream_id event, pe_started_stream_version = ev_stream_version event,
     pe_latest_stream_version = ev_stream_version event, pe_started_event_id = ev_event_id event\<rparr>"

definition terminal_effect_event :: "string \<Rightarrow> bool" where
  "terminal_effect_event event_type \<longleftrightarrow>
     event_type \<in> {''effect.completed.v1'', ''effect.failed.v1'', ''effect.outcome_unknown.v1''}"

definition effect_update :: "(json \<Rightarrow> string) \<Rightarrow> EventEnvelope \<Rightarrow> json option
    \<Rightarrow> (StoreError, ProjectionMutation list) result" where
  "effect_update serde_error event stored = (case stored of
       None \<Rightarrow> Inr []
     | Some v \<Rightarrow> (case pending_effect_from_value v of
           None \<Rightarrow> Inl (Verification (''pending effect projection record '' @ ev_stream_id event @ '' is invalid: ''
             @ serde_error v))
         | Some effect \<Rightarrow> Inr (upsert (ev_stream_id event)
             (pending_effect_value (effect\<lparr>pe_latest_stream_version := ev_stream_version event\<rparr>)))))"

definition effect_project ::
    "(json \<Rightarrow> string) \<Rightarrow> 's ProjectionStorePort \<Rightarrow> EventEnvelope \<Rightarrow> json \<Rightarrow> ('s, ProjectionMutation list) store_op" where
  "effect_project serde_error store event payload =
     (if ev_event_type event = ''effect.started.v1'' then
        a_return (upsert (ev_stream_id event) (pending_effect_value (started_effect event)))
      else if terminal_effect_event (ev_event_type event) then a_return [Delete (ev_stream_id event)]
      else a_bind (ps_get store EFFECT_RECOVERY_PROJECTION (ev_stream_id event)) (\<lambda>stored.
        a_lift (effect_update serde_error event stored)))"

definition EffectRecoveryProjection :: "(json \<Rightarrow> string) \<Rightarrow> 's ProjectionHandler" where
  "EffectRecoveryProjection serde_error = \<lparr>ph_name = EFFECT_RECOVERY_PROJECTION,
     ph_applies_to = (\<lambda>event. starts_with ''effect:'' (ev_stream_id event)),
     ph_requires_payload = True, ph_project = effect_project serde_error\<rparr>"

definition pending_effect_row :: "(json \<Rightarrow> string) \<Rightarrow> string \<times> json \<Rightarrow> (StoreError, PendingEffect) result" where
  "pending_effect_row serde_error = (\<lambda>(key, v). case pending_effect_from_value v of
       None \<Rightarrow> Inl (Verification (''pending effect projection record '' @ key @ '' is invalid: '' @ serde_error v))
     | Some effect \<Rightarrow>
         if pe_stream_id effect \<noteq> key
         then Inl (Verification (''pending effect projection key '' @ key @ '' does not match its stream''))
         else Inr effect)"

definition pending_effects :: "(json \<Rightarrow> string) \<Rightarrow> 's ProjectionStorePort \<Rightarrow> nat \<Rightarrow> ('s, PendingEffect list) store_op" where
  "pending_effects serde_error store limit =
     a_bind (ps_list_after store EFFECT_RECOVERY_PROJECTION ''effect:'' None limit) (\<lambda>records.
     a_lift (traverse (pending_effect_row serde_error) records))"

section \<open>Handlers are reductions\<close>

definition session_reduction :: reduction where
  "session_reduction x event payload = (case strip_prefix ''session:'' (ev_stream_id event) of
       None \<Rightarrow> Inr []
     | Some sid \<Rightarrow> Inr (upsert sid (session_record sid event payload (snd x sid))))"

definition work_reduction :: reduction where
  "work_reduction x event payload = (case json_get payload ''record'' of
       Some record \<Rightarrow> Inr (upsert (ev_stream_id event) (work_record event record))
     | None \<Rightarrow> Inr (upsert (ev_stream_id event)
         (merged_event (ev_stream_id event) event payload (snd x (ev_stream_id event)))))"

definition effect_reduction :: "(json \<Rightarrow> string) \<Rightarrow> reduction" where
  "effect_reduction serde_error x event payload =
     (if ev_event_type event = ''effect.started.v1'' then
        Inr (upsert (ev_stream_id event) (pending_effect_value (started_effect event)))
      else if terminal_effect_event (ev_event_type event) then Inr [Delete (ev_stream_id event)]
      else effect_update serde_error event (snd x (ev_stream_id event)))"

lemma handler_lawI:
  assumes "plain_name (ph_name h)"
    and "\<And>P f s v e payload. \<lbrakk>presents live holds P f; holds s hist v; e \<in> fst ` set hist; ph_applies_to h e\<rbrakk> \<Longrightarrow>
      after (ph_project h P e payload) s (\<lambda>s' r. holds s' hist v
        \<and> (r = red (f v (ph_name h)) e payload \<or> \<not> live \<and> (\<exists>err. r = Inl err \<and> fault err)))"
  shows "handler_law live holds hist h red"
  using assms unfolding handler_law_def by blast

text \<open>A handler that reads one record.\<close>

lemma reader_exact:
  assumes "presents live holds P f" "holds s hist v" "plain_name p" "plain_name key"
  shows "after (a_bind (ps_get P p key) (\<lambda>current. a_lift (g current))) s (\<lambda>s' r. holds s' hist v
    \<and> (r = g (snd (f v p) key) \<or> \<not> live \<and> (\<exists>err. r = Inl err \<and> fault err)))"
proof -
  have "after (ps_get P p key) s (\<lambda>s' r. holds s' hist v \<and> answer live (snd (f v p) key) r)"
    using assms unfolding presents_def by blast
  then show ?thesis
    unfolding after_bind by (rule after_mono) (auto simp: answer_def after_primitive split: sum.split)
qed

lemma effect_handler_law:
  assumes "\<And>e. e \<in> fst ` set hist \<Longrightarrow> CHR 0x00 \<notin> set (ev_stream_id e)"
  shows "handler_law live holds hist (EffectRecoveryProjection serde_error) (effect_reduction serde_error)"
proof (rule handler_lawI)
  fix P f s v e payload
  assume *: "presents live holds P f" "holds s hist v" "e \<in> fst ` set hist" "ph_applies_to (EffectRecoveryProjection serde_error) e"
  have key: "plain_name (ev_stream_id e)" and name: "plain_name EFFECT_RECOVERY_PROJECTION"
    using * assms by (auto simp: plain_name_def EffectRecoveryProjection_def EFFECT_RECOVERY_PROJECTION_def prefix_def)
  show "after (ph_project (EffectRecoveryProjection serde_error) P e payload) s (\<lambda>s' r. holds s' hist v
      \<and> (r = effect_reduction serde_error (f v (ph_name (EffectRecoveryProjection serde_error))) e payload
         \<or> \<not> live \<and> (\<exists>err. r = Inl err \<and> fault err)))"
    using reader_exact [OF *(1,2) name key, of "effect_update serde_error e"] *(2)
    by (simp add: EffectRecoveryProjection_def effect_project_def effect_reduction_def after_primitive)
qed (simp add: EffectRecoveryProjection_def EFFECT_RECOVERY_PROJECTION_def plain_name_def)

lemma session_handler_law:
  assumes "\<And>e sid. e \<in> fst ` set hist \<Longrightarrow> ev_stream_id e = ''session:'' @ sid \<Longrightarrow> plain_name sid"
  shows "handler_law live holds hist SessionProjection session_reduction"
proof (rule handler_lawI)
  fix P f s v e payload
  assume *: "presents live holds P f" "holds s hist v" "e \<in> fst ` set hist" "ph_applies_to SessionProjection e"
  then obtain sid where stream: "ev_stream_id e = ''session:'' @ sid" by (auto simp: SessionProjection_def prefix_def)
  have key: "plain_name sid" and name: "plain_name ''sessions-v1''"
    using * assms stream by (auto simp: plain_name_def)
  have sid: "strip_prefix ''session:'' (ev_stream_id e) = Some sid" by (simp only: strip_prefix_Some_iff stream)
  have return: "(\<lambda>current. a_return (upsert sid (session_record sid e payload current)))
      = (\<lambda>current. a_lift (Inr (upsert sid (session_record sid e payload current))))"
    by (simp add: a_return_def a_lift_def)
  show "after (ph_project SessionProjection P e payload) s (\<lambda>s' r. holds s' hist v
      \<and> (r = session_reduction (f v (ph_name SessionProjection)) e payload \<or> \<not> live \<and> (\<exists>err. r = Inl err \<and> fault err)))"
    using reader_exact [OF *(1,2) name key, of "\<lambda>current. Inr (upsert sid (session_record sid e payload current))"]
    by (simp only: SessionProjection_def ProjectionHandler.simps session_project_def session_reduction_def sid option.case return)
qed (simp add: SessionProjection_def plain_name_def)

lemma work_handler_law:
  assumes "\<And>e. e \<in> fst ` set hist \<Longrightarrow> CHR 0x00 \<notin> set (ev_stream_id e)"
  shows "handler_law live holds hist WorkProjection work_reduction"
proof (rule handler_lawI)
  fix P f s v e payload
  assume *: "presents live holds P f" "holds s hist v" "e \<in> fst ` set hist" "ph_applies_to WorkProjection e"
  have work: "work_stream (ev_stream_id e)" using *(4) by (simp add: WorkProjection_def)
  have key: "plain_name (ev_stream_id e)" and name: "plain_name ''work-v1''"
    using * assms work by (auto simp: plain_name_def work_stream_def prefix_def)
  let ?g = "\<lambda>current. Inr (upsert (ev_stream_id e) (merged_event (ev_stream_id e) e payload current))"
  have merged: "a_bind (merge_event P ''work-v1'' (ev_stream_id e) e payload) (\<lambda>m. a_return (upsert (ev_stream_id e) m))
      = a_bind (ps_get P ''work-v1'' (ev_stream_id e)) (\<lambda>current. a_lift (?g current))"
    by (simp add: merge_event_def a_bind_def a_return_def a_lift_def fun_eq_iff split: prod.split sum.split)
  show "after (ph_project WorkProjection P e payload) s (\<lambda>s' r. holds s' hist v
      \<and> (r = work_reduction (f v (ph_name WorkProjection)) e payload \<or> \<not> live \<and> (\<exists>err. r = Inl err \<and> fault err)))"
  proof (cases "json_get payload ''record''")
    case None
    then show ?thesis
      using reader_exact [OF *(1,2) name key, of ?g] work
      by (simp add: WorkProjection_def work_project_def work_reduction_def merged)
  next
    case (Some stored)
    then show ?thesis
      using *(2) work by (simp add: WorkProjection_def work_project_def work_reduction_def after_primitive)
  qed
qed (simp add: WorkProjection_def plain_name_def)

section \<open>Which effects are pending\<close>

text \<open>The events that end an effect, by name.\<close>

definition concluded :: "string \<Rightarrow> bool" where
  "concluded event_type \<longleftrightarrow> event_type = ''effect.completed.v1'' \<or> event_type = ''effect.failed.v1''
     \<or> event_type = ''effect.outcome_unknown.v1''"

lemma terminal_concluded: "terminal_effect_event event_type \<longleftrightarrow> concluded event_type"
  by (simp only: terminal_effect_event_def concluded_def insert_iff empty_iff simp_thms)

definition unfinished :: "string \<Rightarrow> EventEnvelope list \<Rightarrow> PendingEffect option" where
  "unfinished stream events = fold (\<lambda>e pending.
     if ev_stream_id e \<noteq> stream then pending
     else if ev_event_type e = ''effect.started.v1'' then Some (started_effect e)
     else if concluded (ev_event_type e) then None
     else map_option (\<lambda>p. p\<lparr>pe_latest_stream_version := ev_stream_version e\<rparr>) pending) events None"

definition recovery_records :: "EventEnvelope list \<Rightarrow> string \<Rightarrow> json option" where
  "recovery_records events stream = (if starts_with ''effect:'' stream
     then map_option pending_effect_value (unfinished stream events) else None)"

lemma pending_effect_round_trip: "pending_effect_from_value (pending_effect_value effect) = Some effect"
  by (simp add: struct_entries_def pending_effect_from_value_def pending_effect_value_def get_str_def json_u64_def)

lemma unfinished_snoc:
  "unfinished stream (events @ [e]) = (if ev_stream_id e \<noteq> stream then unfinished stream events
     else if ev_event_type e = ''effect.started.v1'' then Some (started_effect e)
     else if concluded (ev_event_type e) then None
     else map_option (\<lambda>p. p\<lparr>pe_latest_stream_version := ev_stream_version e\<rparr>) (unfinished stream events))"
  by (simp add: unfinished_def)

lemma unfinished_stream: "unfinished stream events = Some effect \<Longrightarrow> pe_stream_id effect = stream"
  by (induction events arbitrary: effect rule: rev_induct)
    (auto simp: unfinished_snoc started_effect_def split: if_splits, simp add: unfinished_def)

lemma unfinished_iff:
  "unfinished stream events \<noteq> None \<longleftrightarrow> (\<exists>before e later. events = before @ e # later \<and> ev_stream_id e = stream
     \<and> ev_event_type e = ''effect.started.v1''
     \<and> (\<forall>e' \<in> set later. ev_stream_id e' = stream \<longrightarrow> \<not> concluded (ev_event_type e')))"
  (is "_ \<longleftrightarrow> ?begun events")
proof (induction events rule: rev_induct)
  case (snoc x events)
  have begun: "?begun (events @ [x]) \<longleftrightarrow> ev_stream_id x = stream \<and> ev_event_type x = ''effect.started.v1''
      \<or> ?begun events \<and> (ev_stream_id x = stream \<longrightarrow> \<not> concluded (ev_event_type x))"
    (is "_ \<longleftrightarrow> ?new \<or> ?old")
  proof
    assume "?begun (events @ [x])"
    then obtain before e later where *: "events @ [x] = before @ e # later" "ev_stream_id e = stream"
        "ev_event_type e = ''effect.started.v1''"
        "\<forall>e' \<in> set later. ev_stream_id e' = stream \<longrightarrow> \<not> concluded (ev_event_type e')" by blast
    show "?new \<or> ?old"
    proof (cases later rule: rev_cases)
      case Nil
      then show ?thesis using * by simp
    next
      case (snoc ys y)
      then have "events = before @ e # ys" "x = y" using *(1) by simp_all
      then show ?thesis using * snoc by auto
    qed
  next
    assume "?new \<or> ?old"
    then show "?begun (events @ [x])"
    proof
      assume ?new
      then show ?thesis by (intro exI [of _ events] exI [of _ x] exI [of _ "[]"]) simp
    next
      assume ?old
      then obtain before e later where *: "events = before @ e # later" "ev_stream_id e = stream"
        "ev_event_type e = ''effect.started.v1''"
        "\<forall>e' \<in> set later. ev_stream_id e' = stream \<longrightarrow> \<not> concluded (ev_event_type e')"
        "ev_stream_id x = stream \<longrightarrow> \<not> concluded (ev_event_type x)" by blast
      then show ?thesis by (intro exI [of _ before] exI [of _ e] exI [of _ "later @ [x]"]) auto
    qed
  qed
  have started: "\<not> concluded ''effect.started.v1''" by (simp add: concluded_def)
  show ?case
    unfolding unfinished_snoc begun using snoc.IH started by auto
qed (simp add: unfinished_def)

text \<open>Replaying the history computes exactly the pending effects.\<close>

lemma effect_replay:
  "\<exists>n. replay (EffectRecoveryProjection serde_error :: 's ProjectionHandler) (effect_reduction serde_error) hist (0, Map.empty)
     = Inr (n, recovery_records (map fst hist))"
proof (induction hist rule: rev_induct)
  case Nil
  show ?case by (simp add: replay_def recovery_records_def unfinished_def fun_eq_iff)
next
  case (snoc ev hist)
  let ?h = "EffectRecoveryProjection serde_error :: 's ProjectionHandler" and ?red = "effect_reduction serde_error"
  obtain e payload where ev: "ev = (e, payload)" by (cases ev)
  obtain n where before: "replay ?h ?red hist (0, Map.empty) = Inr (n, recovery_records (map fst hist))"
    using snoc.IH by blast
  let ?old = "recovery_records (map fst hist)" and ?new = "recovery_records (map fst (hist @ [ev]))"
  have "\<exists>ms. event_mutations ?h ?red ev (n, ?old) = Inr ms \<and> fold mutate ms ?old = ?new"
  proof (cases "starts_with ''effect:'' (ev_stream_id e)")
    case False
    then show ?thesis
      by (auto simp: ev event_mutations_def EffectRecoveryProjection_def recovery_records_def unfinished_snoc fun_eq_iff)
  next
    case True
    then show ?thesis
      by (cases "unfinished (ev_stream_id e) (map fst hist)")
        (auto simp: ev event_mutations_def EffectRecoveryProjection_def effect_reduction_def effect_update_def
          recovery_records_def unfinished_snoc mutate_def upsert_def pending_effect_round_trip terminal_concluded fun_eq_iff)
  qed
  then have "\<exists>y. replay_event ?h ?red ev (n, ?old) = Inr (y, ?new)"
    by (auto simp: replay_event_def)
  then show ?case using before by (auto simp: replay_def fold_r_append)
qed

end
