(* ===== verification/ExternalWork.thy ===== *)
theory ExternalWork
  imports ProjectionHandlers
begin

text \<open>
  The queue of work for external consumers (\<open>colossus-projection/src/external_work.rs\<close>): every
  consumer reads the outbox of the journal behind a checkpoint of its own, which is the position
  of a projection without records, and keeps the state of its failing attempts in another
  projection. Timestamps are a parameter.
\<close>

section \<open>Data\<close>

record 's JournalExternalWorkQueue =
  eq_journal :: "'s EventJournalPort"
  eq_store :: "'s ProjectionStorePort"

record ExternalWorkRetryState =
  xr_consumer :: string
  xr_global_sequence :: nat
  xr_event_id :: "string option"
  xr_attempts :: nat
  xr_retryable :: bool
  xr_first_failed_at :: string
  xr_last_failed_at :: string
  xr_next_retry_at :: "string option"
  xr_error_code :: string
  xr_error :: string

text \<open>RFC 3339 timestamps of the \<open>time\<close> crate and the text of a \<open>serde_json\<close> error.\<close>

record 't RetryEnv =
  rt_parse :: "string \<Rightarrow> 't option"
  rt_is_utc :: "'t \<Rightarrow> bool"
  rt_before :: "'t \<Rightarrow> 't \<Rightarrow> bool"
  rt_add_seconds :: "'t \<Rightarrow> nat \<Rightarrow> 't"
  rt_format :: "'t \<Rightarrow> (string, string) result"
  rt_serde_error :: "json \<Rightarrow> string"

definition EXTERNAL_WORK_PREFIX :: string where "EXTERNAL_WORK_PREFIX = ''external-work:''"
definition EXTERNAL_WORK_RETRY_PREFIX :: string where "EXTERNAL_WORK_RETRY_PREFIX = ''external-work-retry:''"
definition EXTERNAL_WORK_RETRY_KEY :: string where "EXTERNAL_WORK_RETRY_KEY = ''state''"
definition MAX_EXTERNAL_WORK_BATCH :: nat where "MAX_EXTERNAL_WORK_BATCH = 4096"
definition MAX_RETRY_STATE_ATTEMPTS :: nat where "MAX_RETRY_STATE_ATTEMPTS = 8"
definition MAX_RETRY_ERROR_BYTES :: nat where "MAX_RETRY_ERROR_BYTES = 2048"
definition MAX_RETRY_BACKOFF_SECONDS :: nat where "MAX_RETRY_BACKOFF_SECONDS = 300"

section \<open>Names, states and the backoff\<close>

definition code_chars :: "string \<Rightarrow> bool" where
  "code_chars s = list_all (\<lambda>c. is_ascii_alphanumeric c \<or> c \<in> {CHR ''.'', CHR ''_'', CHR ''-''}) s"

definition external_work_projection :: "string \<Rightarrow> (StoreError, string) result" where
  "external_work_projection consumer =
     (if consumer = [] \<or> length consumer > 128 \<or> \<not> code_chars consumer
      then Inl (StoreAdapter (''external-work consumer must be 1-128 ASCII letters, digits, '.', '_', or '-'' @ [CHR 0x27]))
      else Inr (EXTERNAL_WORK_PREFIX @ consumer))"

definition external_work_retry_projection :: "string \<Rightarrow> (StoreError, string) result" where
  "external_work_retry_projection consumer =
     bind_r (external_work_projection consumer) (\<lambda>_. Inr (EXTERNAL_WORK_RETRY_PREFIX @ consumer))"

definition opt_str :: "string option \<Rightarrow> json" where
  "opt_str v = (case v of Some s \<Rightarrow> JStr s | None \<Rightarrow> JNull)"

definition retry_state_value :: "ExternalWorkRetryState \<Rightarrow> json" where
  "retry_state_value state = JObj
     [(''attempts'', json_u64 (xr_attempts state)),
      (''consumer'', JStr (xr_consumer state)),
      (''error'', JStr (xr_error state)),
      (''error_code'', JStr (xr_error_code state)),
      (''event_id'', opt_str (xr_event_id state)),
      (''first_failed_at'', JStr (xr_first_failed_at state)),
      (''global_sequence'', json_u64 (xr_global_sequence state)),
      (''last_failed_at'', JStr (xr_last_failed_at state)),
      (''next_retry_at'', opt_str (xr_next_retry_at state)),
      (''retryable'', JBool (xr_retryable state))]"

text \<open>An optional field may be absent or null.\<close>

definition get_opt_str :: "json \<Rightarrow> string \<Rightarrow> string option option" where
  "get_opt_str v k = (case json_get v k of
       None \<Rightarrow> Some None | Some JNull \<Rightarrow> Some None | Some (JStr s) \<Rightarrow> Some (Some s) | Some _ \<Rightarrow> None)"

definition get_u32 :: "json \<Rightarrow> string \<Rightarrow> nat option" where
  "get_u32 v k = Option.bind (Option.bind (json_get v k) as_u64) (\<lambda>n. if n < 2 ^ 32 then Some n else None)"

definition get_bool :: "json \<Rightarrow> string \<Rightarrow> bool option" where
  "get_bool v k = (case json_get v k of Some (JBool b) \<Rightarrow> Some b | _ \<Rightarrow> None)"

definition retry_state_fields :: "string list" where
  "retry_state_fields = [''consumer'', ''global_sequence'', ''event_id'', ''attempts'', ''retryable'', ''first_failed_at'',
     ''last_failed_at'', ''next_retry_at'', ''error_code'', ''error'']"

definition retry_state_parse :: "json \<Rightarrow> ExternalWorkRetryState option" where
  "retry_state_parse v =
     Option.bind (struct_entries retry_state_fields v) (\<lambda>v.
     Option.bind (get_str v ''consumer'') (\<lambda>consumer.
     Option.bind (Option.bind (json_get v ''global_sequence'') as_u64) (\<lambda>global_sequence.
     Option.bind (get_opt_str v ''event_id'') (\<lambda>event_id.
     Option.bind (get_u32 v ''attempts'') (\<lambda>attempts.
     Option.bind (get_bool v ''retryable'') (\<lambda>retryable.
     Option.bind (get_str v ''first_failed_at'') (\<lambda>first_failed_at.
     Option.bind (get_str v ''last_failed_at'') (\<lambda>last_failed_at.
     Option.bind (get_opt_str v ''next_retry_at'') (\<lambda>next_retry_at.
     Option.bind (get_str v ''error_code'') (\<lambda>error_code.
     Option.bind (get_str v ''error'') (\<lambda>error.
     Some \<lparr>xr_consumer = consumer, xr_global_sequence = global_sequence, xr_event_id = event_id, xr_attempts = attempts,
       xr_retryable = retryable, xr_first_failed_at = first_failed_at, xr_last_failed_at = last_failed_at,
       xr_next_retry_at = next_retry_at, xr_error_code = error_code, xr_error = error\<rparr>)))))))))))"

definition retry_state_from_value :: "'t RetryEnv \<Rightarrow> json \<Rightarrow> (StoreError, ExternalWorkRetryState) result" where
  "retry_state_from_value env v =
     ok_or (Verification (''external-work retry state is invalid: '' @ rt_serde_error env v)) (retry_state_parse v)"

definition retry_timestamp :: "'t RetryEnv \<Rightarrow> string \<Rightarrow> (StoreError, 't) result" where
  "retry_timestamp env v =
     bind_r (ok_or (StoreAdapter ''external-work failure timestamp must be UTC RFC3339'') (rt_parse env v)) (\<lambda>timestamp.
     if \<not> rt_is_utc env timestamp then Inl (StoreAdapter ''external-work failure timestamp must be UTC RFC3339'')
     else Inr timestamp)"

definition retry_backoff :: "nat \<Rightarrow> nat" where
  "retry_backoff attempts = min (2 ^ min (attempts - 1) 9) MAX_RETRY_BACKOFF_SECONDS"

definition saturating_add32 :: "nat \<Rightarrow> nat \<Rightarrow> nat" where
  "saturating_add32 a b = min (a + b) (2 ^ 32 - 1)"

section \<open>Reading and acknowledging\<close>

definition verify_item :: "'s JournalExternalWorkQueue \<Rightarrow> ProjectionWorkItem \<Rightarrow> ('s, unit) store_op" where
  "verify_item q item =
     a_bind (ej_read_projection_work (eq_journal q) (wi_global_sequence item) 1) (\<lambda>found.
     case found of
       [] \<Rightarrow> a_fail (Verification (''external-work outbox sequence '' @ nat_text (wi_global_sequence item) @ '' is missing''))
     | stored # _ \<Rightarrow> a_reject (stored \<noteq> item) (Verification (''external-work outbox sequence ''
         @ nat_text (wi_global_sequence item) @ '' does not match its durable item'')))"

definition work_position :: "'s JournalExternalWorkQueue \<Rightarrow> string \<Rightarrow> ('s, nat) store_op" where
  "work_position q consumer =
     a_bind (a_lift (external_work_projection consumer)) (ps_position (eq_store q))"

text \<open>The loop over a batch: contiguous from the expected sequence, and each item as it is stored.\<close>

fun check_items :: "'s JournalExternalWorkQueue \<Rightarrow> (nat \<Rightarrow> nat \<Rightarrow> StoreError) \<Rightarrow> nat \<Rightarrow> ProjectionWorkItem list \<Rightarrow> ('s, unit) store_op" where
  "check_items q gap expected [] = a_return ()"
| "check_items q gap expected (item # items) =
     a_bind (a_reject (wi_global_sequence item \<noteq> expected) (gap expected (wi_global_sequence item))) (\<lambda>_.
     a_bind (verify_item q item) (\<lambda>_.
     check_items q gap (saturating_add64 expected 1) items))"

definition pending_work :: "'s JournalExternalWorkQueue \<Rightarrow> string \<Rightarrow> nat \<Rightarrow> ('s, ProjectionWorkItem list) store_op" where
  "pending_work q consumer limit =
     a_bind (a_reject (limit = 0 \<or> limit > MAX_EXTERNAL_WORK_BATCH)
       (StoreAdapter (''external-work batch limit must be between 1 and '' @ nat_text MAX_EXTERNAL_WORK_BATCH))) (\<lambda>_.
     a_bind (work_position q consumer) (\<lambda>position.
     a_bind (ej_read_projection_work (eq_journal q) (saturating_add64 position 1) limit) (\<lambda>work.
     a_bind (check_items q (\<lambda>expected got. Verification (''external-work consumer '' @ consumer @ '' expected sequence ''
       @ nat_text expected @ '', got '' @ nat_text got)) (saturating_add64 position 1) work) (\<lambda>_.
     a_return work))))"

definition acknowledge_batch :: "'s JournalExternalWorkQueue \<Rightarrow> string \<Rightarrow> nat \<Rightarrow> ProjectionWorkItem list \<Rightarrow> ('s, nat) store_op" where
  "acknowledge_batch q consumer expected_position items =
     a_bind (a_reject (items = [] \<or> length items > MAX_EXTERNAL_WORK_BATCH)
       (StoreAdapter (''external-work acknowledgment batch must contain 1-'' @ nat_text MAX_EXTERNAL_WORK_BATCH @ '' items''))) (\<lambda>_.
     a_bind (a_lift (external_work_projection consumer)) (\<lambda>projection.
     a_bind (check_items q (\<lambda>expected got. StoreAdapter (''external-work acknowledgment expected sequence ''
       @ nat_text expected @ '', got '' @ nat_text got)) (saturating_add64 expected_position 1) items) (\<lambda>_.
     let through_sequence = wi_global_sequence (last items)
     in a_bind (ps_apply (eq_store q) \<lparr>pb_projection = projection, pb_expected_position = expected_position,
          pb_through_sequence = through_sequence, pb_mutations = []\<rparr>) (\<lambda>_.
        a_return through_sequence))))"

definition acknowledge :: "'s JournalExternalWorkQueue \<Rightarrow> string \<Rightarrow> nat \<Rightarrow> ProjectionWorkItem \<Rightarrow> ('s, nat) store_op" where
  "acknowledge q consumer expected_position item = acknowledge_batch q consumer expected_position [item]"

definition reset_work :: "'s JournalExternalWorkQueue \<Rightarrow> string \<Rightarrow> ('s, unit) store_op" where
  "reset_work q consumer =
     a_bind (a_lift (external_work_projection consumer)) (\<lambda>projection.
     a_bind (ps_reset (eq_store q) projection) (\<lambda>_.
     a_bind (a_lift (external_work_retry_projection consumer)) (ps_reset (eq_store q))))"

section \<open>Failed attempts\<close>

definition utc_times :: "'t RetryEnv \<Rightarrow> ExternalWorkRetryState \<Rightarrow> bool" where
  "utc_times env state =
     (case (rt_parse env (xr_first_failed_at state), rt_parse env (xr_last_failed_at state)) of
        (Some first, Some latest) \<Rightarrow> rt_is_utc env first \<and> rt_is_utc env latest
          \<and> (case xr_next_retry_at state of None \<Rightarrow> True
             | Some at \<Rightarrow> (case rt_parse env at of None \<Rightarrow> False | Some next \<Rightarrow> rt_is_utc env next))
          \<and> rt_before env first latest
      | _ \<Rightarrow> False)"

definition valid_code :: "string \<Rightarrow> bool" where
  "valid_code c \<longleftrightarrow> c \<noteq> [] \<and> length c \<le> 128 \<and> code_chars c"

definition valid_error :: "string \<Rightarrow> bool" where
  "valid_error error \<longleftrightarrow> error \<noteq> [] \<and> length error \<le> MAX_RETRY_ERROR_BYTES"

definition retry_state_valid :: "'t RetryEnv \<Rightarrow> string \<Rightarrow> ExternalWorkRetryState \<Rightarrow> bool" where
  "retry_state_valid env consumer state \<longleftrightarrow> xr_consumer state = consumer \<and> xr_global_sequence state \<noteq> 0
     \<and> xr_attempts state \<noteq> 0 \<and> xr_event_id state \<noteq> Some [] \<and> xr_retryable state = (xr_next_retry_at state \<noteq> None)
     \<and> valid_code (xr_error_code state) \<and> valid_error (xr_error state) \<and> utc_times env state"

definition retry_state :: "'t RetryEnv \<Rightarrow> 's JournalExternalWorkQueue \<Rightarrow> string \<Rightarrow> ('s, ExternalWorkRetryState option) store_op" where
  "retry_state env q consumer =
     a_bind (work_position q consumer) (\<lambda>position.
     a_bind (a_lift (external_work_retry_projection consumer)) (\<lambda>projection.
     a_bind (ps_get (eq_store q) projection EXTERNAL_WORK_RETRY_KEY) (\<lambda>stored.
     case stored of
       None \<Rightarrow> a_return None
     | Some v \<Rightarrow>
         a_bind (a_lift (retry_state_from_value env v)) (\<lambda>state.
         a_bind (a_reject (\<not> retry_state_valid env consumer state)
           (Verification ''external-work retry state failed semantic validation'')) (\<lambda>_.
         a_return (if xr_global_sequence state > position then Some state else None))))))"

text \<open>The state after one more attempt: the attempts on the same sequence are counted.\<close>

definition next_retry_state ::
    "'t RetryEnv \<Rightarrow> string \<Rightarrow> nat \<Rightarrow> string option \<Rightarrow> string \<Rightarrow> 't \<Rightarrow> bool \<Rightarrow> string \<Rightarrow> string
      \<Rightarrow> ExternalWorkRetryState option \<Rightarrow> (StoreError, ExternalWorkRetryState) result" where
  "next_retry_state env consumer global_sequence event_id failed_at failed_at_value retryable error_code error existing =
     (let same = (case existing of
            Some state \<Rightarrow> if xr_global_sequence state = global_sequence then Some state else None | None \<Rightarrow> None);
          attempts = (case same of Some state \<Rightarrow> saturating_add32 (xr_attempts state) 1 | None \<Rightarrow> 1);
          first_failed_at = (case same of Some state \<Rightarrow> xr_first_failed_at state | None \<Rightarrow> failed_at)
      in bind_r (if retryable
             then map_err StoreAdapter (map_sum id Some
               (rt_format env (rt_add_seconds env failed_at_value (retry_backoff attempts))))
             else Inr None) (\<lambda>next_retry_at.
         Inr \<lparr>xr_consumer = consumer, xr_global_sequence = global_sequence, xr_event_id = event_id,
           xr_attempts = attempts, xr_retryable = retryable, xr_first_failed_at = first_failed_at,
           xr_last_failed_at = failed_at, xr_next_retry_at = next_retry_at, xr_error_code = error_code,
           xr_error = error\<rparr>))"

text \<open>The bounded loop that repeats a read and a conditional write until nothing intervenes.\<close>

fun contended :: "nat \<Rightarrow> ('s, 'a + ProjectionBatch \<times> 'a) store_op \<Rightarrow> 's ProjectionStorePort \<Rightarrow> ('s, 'a) store_op" where
  "contended 0 attempt store = a_fail (StoreAdapter ''external-work retry state remained contended'')"
| "contended (Suc n) attempt store =
     a_bind attempt (\<lambda>step.
     case step of
       Inl result \<Rightarrow> a_return result
     | Inr (batch, result) \<Rightarrow>
         a_bind (a_catch (ps_apply store batch)) (\<lambda>applied.
         case applied of
           Inr _ \<Rightarrow> a_return result
         | Inl (Conflict _ _ _) \<Rightarrow> contended n attempt store
         | Inl error \<Rightarrow> a_fail error))"

definition retry_batch :: "string \<Rightarrow> nat \<Rightarrow> ProjectionMutation \<Rightarrow> ProjectionBatch" where
  "retry_batch projection position mutation = \<lparr>pb_projection = projection, pb_expected_position = position,
     pb_through_sequence = saturating_add64 position 1, pb_mutations = [mutation]\<rparr>"

definition failure_attempt ::
    "'t RetryEnv \<Rightarrow> 's JournalExternalWorkQueue \<Rightarrow> string \<Rightarrow> (ExternalWorkRetryState option \<Rightarrow> (StoreError, ExternalWorkRetryState) result)
      \<Rightarrow> ('s, ExternalWorkRetryState + ProjectionBatch \<times> ExternalWorkRetryState) store_op" where
  "failure_attempt env q projection next_state =
     a_bind (ps_position (eq_store q) projection) (\<lambda>retry_position.
     a_bind (ps_get (eq_store q) projection EXTERNAL_WORK_RETRY_KEY) (\<lambda>stored.
     a_bind (a_lift (case stored of None \<Rightarrow> Inr None | Some v \<Rightarrow> map_sum id Some (retry_state_from_value env v))) (\<lambda>existing.
     a_bind (a_lift (next_state existing)) (\<lambda>state.
     a_return (Inr (retry_batch projection retry_position (Upsert EXTERNAL_WORK_RETRY_KEY (retry_state_value state)), state))))))"

definition record_failure ::
    "'t RetryEnv \<Rightarrow> 's JournalExternalWorkQueue \<Rightarrow> string \<Rightarrow> ProjectionWorkItem option \<Rightarrow> string \<Rightarrow> bool \<Rightarrow> string \<Rightarrow> string
      \<Rightarrow> ('s, ExternalWorkRetryState) store_op" where
  "record_failure env q consumer item failed_at retryable error_code error =
     a_bind (a_lift (retry_timestamp env failed_at)) (\<lambda>failed_at_value.
     a_bind (a_reject (\<not> valid_code error_code \<or> \<not> valid_error error)
       (StoreAdapter ''external-work failure code or redacted diagnostic is invalid'')) (\<lambda>_.
     a_bind (work_position q consumer) (\<lambda>position.
     a_bind (case item of None \<Rightarrow> a_return () | Some item \<Rightarrow>
       a_bind (a_reject (wi_global_sequence item \<noteq> saturating_add64 position 1)
         (StoreAdapter ''external-work failure must refer to the next pending item'')) (\<lambda>_.
       verify_item q item)) (\<lambda>_.
     let global_sequence = (case item of None \<Rightarrow> saturating_add64 position 1 | Some item \<Rightarrow> wi_global_sequence item)
     in a_bind (a_reject (global_sequence \<le> position) (StoreAdapter ''external-work failure must refer to pending work'')) (\<lambda>_.
        a_bind (a_lift (external_work_retry_projection consumer)) (\<lambda>projection.
        contended MAX_RETRY_STATE_ATTEMPTS (failure_attempt env q projection
          (next_retry_state env consumer global_sequence (map_option wi_event_id item) failed_at failed_at_value
            retryable error_code error)) (eq_store q)))))))"

definition clear_attempt :: "'s JournalExternalWorkQueue \<Rightarrow> string \<Rightarrow> ('s, unit + ProjectionBatch \<times> unit) store_op" where
  "clear_attempt q projection =
     a_bind (ps_position (eq_store q) projection) (\<lambda>retry_position.
     a_bind (ps_get (eq_store q) projection EXTERNAL_WORK_RETRY_KEY) (\<lambda>stored.
     a_return (if stored = None then Inl ()
       else Inr (retry_batch projection retry_position (Delete EXTERNAL_WORK_RETRY_KEY), ()))))"

definition clear_failure :: "'s JournalExternalWorkQueue \<Rightarrow> string \<Rightarrow> ('s, unit) store_op" where
  "clear_failure q consumer =
     a_bind (a_lift (external_work_retry_projection consumer)) (\<lambda>projection.
     contended MAX_RETRY_STATE_ATTEMPTS (clear_attempt q projection) (eq_store q))"

section \<open>The backoff\<close>

lemma retry_backoff_bounds: "1 \<le> retry_backoff attempts" "retry_backoff attempts \<le> MAX_RETRY_BACKOFF_SECONDS"
  by (simp_all add: retry_backoff_def MAX_RETRY_BACKOFF_SECONDS_def)

lemma retry_backoff_doubles: "retry_backoff (Suc attempts) = min (2 ^ attempts) MAX_RETRY_BACKOFF_SECONDS"
proof (cases "attempts \<le> 9")
  case False
  have "(2::nat) ^ 9 \<le> 2 ^ attempts" by (rule power_increasing) (use False in simp_all)
  then show ?thesis using False by (simp add: retry_backoff_def MAX_RETRY_BACKOFF_SECONDS_def)
qed (simp add: retry_backoff_def)

lemma retry_state_round_trip:
  "xr_attempts state < 2 ^ 32 \<Longrightarrow> retry_state_parse (retry_state_value state) = Some state"
  by (simp add: retry_state_parse_def retry_state_value_def retry_state_fields_def struct_entries_def get_str_def
      get_opt_str_def get_u32_def get_bool_def json_u64_def opt_str_def split: option.split)

end
