(* ===== verification/RedbServices.thy ===== *)
theory RedbServices
  imports ProjectionReplay JournalProgress
begin

text \<open>
  The redb journal and its projection store keep the contract the projection worker relies on.
\<close>

section \<open>The store of documents\<close>

definition decode_document :: "('b, 'k, 'w) JournalEnv \<Rightarrow> 'b \<Rightarrow> json option" where
  "decode_document en b = (case cd_of_value en b of Inr v \<Rightarrow> Some v | Inl _ \<Rightarrow> None)"

definition documents :: "('b, 'k, 'w) JournalEnv \<Rightarrow> (string \<Rightarrow> 'b view) \<Rightarrow> store_view" where
  "documents en views = (\<lambda>p. (fst (views p), \<lambda>key. Option.bind (snd (views p) key) (decode_document en)))"

definition redb_holds ::
    "('b, 'k, 'w) JournalEnv \<Rightarrow> ('b, 'k, 'w) RedbEventJournal \<Rightarrow> (EventEnvelope \<times> json) list \<Rightarrow> store_view \<Rightarrow> bool" where
  "redb_holds en s hist v \<longleftrightarrow> (\<exists>es log. journal_holds en s es log \<and> \<not> jr_recovery_mode s \<and> length es < u64_max
     \<and> hist = zip (map durable es) (map ne_payload log) \<and> v = documents en (projection_view (jr_database s)))"

lemma redb_holds_agrees: "agrees s s' \<Longrightarrow> redb_holds en s' hist v \<longleftrightarrow> redb_holds en s hist v"
  by (simp add: redb_holds_def holds_agrees agreesD)

lemma reads_answer:
  assumes "reads_as en s x s' r" "redb_holds en s hist v"
  shows "redb_holds en s' hist v \<and> answer (reliable en) x r"
proof -
  have "agrees s s'" using assms(1) by (simp add: reads_as_def)
  moreover have "answer (reliable en) x r"
    using assms(1) by (auto simp: reads_as_def answer_def reliable_def split: option.splits)
  ultimately show ?thesis using assms(2) redb_holds_agrees by blast
qed

lemma mutations_documents:
  assumes "list_all (sound_mutation (stable_payload en)) ms"
  shows "(\<lambda>key. Option.bind (fold (view_mutation en) ms f key) (decode_document en))
    = fold mutate ms (\<lambda>key. Option.bind (f key) (decode_document en))"
  using assms
proof (induction ms arbitrary: f)
  case (Cons m ms)
  have "(\<lambda>key. Option.bind (view_mutation en m f key) (decode_document en))
      = mutate m (\<lambda>key. Option.bind (f key) (decode_document en))"
    using Cons.prems by (cases m)
      (auto simp: view_mutation_def mutate_def sound_mutation_def stable_payload_def decode_document_def fun_eq_iff)
  then show ?case using Cons by simp
qed simp

lemma apply_documents:
  assumes "list_all (sound_batch (stable_payload en) head) batches" "apply_views batches (documents en views) = Some v'"
  shows "\<exists>views'. fold_r (view_apply en) batches views = Inr views' \<and> documents en views' = v'"
  using assms
proof (induction batches arbitrary: views)
  case (Cons b bs)
  let ?p = "pb_projection b"
  let ?views = "views(?p := (pb_through_sequence b, fold (view_mutation en) (pb_mutations b) (snd (views ?p))))"
  have at: "fst (views ?p) = pb_expected_position b"
    and rest: "apply_views bs (advance ?p (pb_through_sequence b) (pb_mutations b) (documents en views)) = Some v'"
    using Cons.prems(2) by (auto simp: documents_def split: if_splits)
  have "list_all (sound_mutation (stable_payload en)) (pb_mutations b)"
    using Cons.prems(1) by (simp add: sound_batch_def)
  from mutations_documents [OF this] have "documents en ?views = advance ?p (pb_through_sequence b) (pb_mutations b) (documents en views)"
    by (simp add: documents_def advance_def fun_eq_iff)
  then have "apply_views bs (documents en ?views) = Some v'" using rest by simp
  moreover have "list_all (sound_batch (stable_payload en) head) bs" using Cons.prems(1) by simp
  ultimately obtain views' where "fold_r (view_apply en) bs ?views = Inr views'" "documents en views' = v'"
    using Cons.IH by blast
  moreover have "view_apply en b views = Inr ?views" using at by (simp add: view_apply_def Let_def)
  ultimately show ?case by (intro exI [of _ views']) (simp only: fold_r.simps bind_r_simps simp_thms)
qed simp

lemma sound_batch_encodes:
  assumes "sound_batch (stable_payload en) head batch"
  shows "\<exists>eb. encode_projection_batch en batch = Inr eb" "projectable en head batch"
proof -
  have "\<exists>e. encode_mutation en (pb_projection batch) m = Inr e" if "m \<in> set (pb_mutations batch)" for m
  proof -
    have "sound_mutation (stable_payload en) m" "plain_name (pb_projection batch)"
      using assms that by (simp_all add: sound_batch_def list_all_iff)
    then show ?thesis by (cases m) (auto simp: encode_mutation_ok sound_mutation_def stable_payload_def)
  qed
  then have "\<exists>ms. traverse (encode_mutation en (pb_projection batch)) (pb_mutations batch) = Inr ms"
    using traverse_Inl by (metis sum.exhaust sum.distinct(1))
  then show "\<exists>eb. encode_projection_batch en batch = Inr eb"
    using assms by (auto simp: encode_projection_batch_def sound_batch_def projection_prefix_def plain_name_def reject_if_def)
  have "case m of Upsert key v \<Rightarrow> \<forall>b. cd_to_value en v = Inr b \<longrightarrow> is_ok (cd_of_value en b) | Delete key \<Rightarrow> True"
    if "m \<in> set (pb_mutations batch)" for m
  proof -
    have "sound_mutation (stable_payload en) m" using assms that by (simp add: sound_batch_def list_all_iff)
    then show ?thesis by (cases m) (auto simp: sound_mutation_def stable_payload_def)
  qed
  then show "projectable en head batch" using assms by (simp add: projectable_def sound_batch_def)
qed

lemma apply_all_answers:
  assumes "reliable en" "\<forall>b \<in> set batches. \<exists>eb. encode_projection_batch en b = Inr eb"
  shows "after (projection_apply_all en batches) s (\<lambda>s' r. \<forall>e. r = Inl e \<longrightarrow> \<not> fault e)"
proof -
  have "\<exists>ebs. traverse (encode_projection_batch en) batches = Inr ebs"
    using assms(2) traverse_Inl by (metis sum.exhaust sum.distinct(1))
  then obtain ebs where ebs: "traverse (encode_projection_batch en) batches = Inr ebs" ..
  have conflict: "\<not> fault e" if "fold_r apply_encoded es db = Inl e" for es db e
    using that
  proof (induction es arbitrary: db)
    case (Cons x es)
    then show ?case
      by (cases "apply_encoded x db") (auto simp: apply_encoded_def Let_def reject_if_def split: if_splits)
  qed simp
  have "answers (\<lambda>_. True) (projection_apply_all en batches)"
    unfolding projection_apply_all_def ebs
    using assms(1) conflict by (auto intro!: answers_bind answers_lift answers_begin answers_commit)
  then show ?thesis by (auto simp: answers_def elim: after_mono)
qed

section \<open>The contract\<close>

text \<open>What a handle that may be written shows.\<close>

lemma redb_holdsE:
  assumes "redb_holds en s hist v"
  obtains es log where "journal_holds en s es log" "shows_log en s es log" "\<not> jr_recovery_mode s" "length es < u64_max"
    "length log = length es" "hist = zip (map durable es) (map ne_payload log)" "v = documents en (projection_view (jr_database s))"
proof -
  obtain es log where es: "journal_holds en s es log" "\<not> jr_recovery_mode s" "length es < u64_max"
      "hist = zip (map durable es) (map ne_payload log)" "v = documents en (projection_view (jr_database s))"
    using assms unfolding redb_holds_def by (elim exE conjE)
  then have "shows_log en s es log" by (simp add: journal_holds_def)
  moreover from this have "length log = length es" by (auto simp: shows_log_def dest: list_all2_lengthD)
  ultimately show thesis using that es by blast
qed

lemma redb_head:
  assumes "redb_holds en s hist v"
  shows "after (journal_head en) s (\<lambda>s' r. redb_holds en s' hist v \<and> (\<exists>hash. answer (reliable en) (length hist, hash) r))"
proof -
  from assms obtain es log where "shows_log en s es log" "length hist = length es" by (elim redb_holdsE) auto
  then show ?thesis
    by (intro after_mono [OF journal_head_exact]) (auto dest: reads_answer [OF _ assms])
qed

lemma redb_work:
  assumes lawful: "lawful en" and hold: "redb_holds en s hist v" and n: "n \<le> u64_max"
  shows "after (read_projection_work en n limit) s (\<lambda>s' r. redb_holds en s' hist v
    \<and> answer (reliable en) (map (work_item \<circ> fst) (take limit (drop (n - 1) hist))) r)"
    "after (read_global en n limit) s (\<lambda>s' r. redb_holds en s' hist v
    \<and> answer (reliable en) (map fst (take limit (drop (n - 1) hist))) r)"
proof -
  from hold obtain es log where es: "shows_log en s es log" "length es < u64_max" "length log = length es"
      "hist = zip (map durable es) (map ne_payload log)" by (elim redb_holdsE)
  have events: "map fst (take limit (drop (n - 1) hist)) = map durable (take limit (drop (n - 1) es))"
    using es(3,4) by (simp add: take_map drop_map take_zip drop_zip)
  have "map (work_item \<circ> fst) (take limit (drop (n - 1) hist)) = map work_item (map fst (take limit (drop (n - 1) hist)))"
    by simp
  then have items: "map (work_item \<circ> fst) (take limit (drop (n - 1) hist))
      = map (\<lambda>e. \<lparr>wi_global_sequence = ev_global_sequence e, wi_event_id = ev_event_id e\<rparr>) (take limit (drop (n - 1) es))"
    unfolding events by (simp add: work_item_def)
  show "after (read_projection_work en n limit) s (\<lambda>s' r. redb_holds en s' hist v
      \<and> answer (reliable en) (map (work_item \<circ> fst) (take limit (drop (n - 1) hist))) r)"
    unfolding items
    by (rule after_mono [OF read_projection_work_exact [OF lawful es(1,2) n]]) (rule reads_answer [OF _ hold])
  show "after (read_global en n limit) s (\<lambda>s' r. redb_holds en s' hist v
      \<and> answer (reliable en) (map fst (take limit (drop (n - 1) hist))) r)"
    unfolding events
    by (rule after_mono [OF read_global_exact [OF lawful es(1,2) n]]) (rule reads_answer [OF _ hold])
qed

lemma redb_payload:
  assumes lawful: "lawful en" and hold: "redb_holds en s hist v" and ev: "(e, payload) \<in> set hist"
  shows "after (decrypt_payload en e) s (\<lambda>s' r. redb_holds en s' hist v \<and> answer (reliable en) payload r)"
proof -
  from hold obtain es log where es: "shows_log en s es log" "length log = length es"
      "hist = zip (map durable es) (map ne_payload log)" by (elim redb_holdsE)
  then obtain i where i: "i < length es" "e = durable (es ! i)" "payload = ne_payload (log ! i)"
    using ev by (auto simp: in_set_zip)
  then have "represents en (jr_payload_protection s) (jr_keys s) (es ! i) (log ! i)"
    using es(1) by (auto simp: shows_log_def list_all2_conv_all_nth)
  then have "carries en (jr_payload_protection s) (jr_keys s) (es ! i) payload" using i by (simp add: represents_def)
  then show ?thesis
    unfolding i(2)
    by (rule after_mono [OF decrypt_payload_exact [OF lawful es(1) nth_mem [OF i(1)]]]) (rule reads_answer [OF _ hold])
qed

lemma redb_history:
  assumes "redb_holds en s hist v"
  shows "history_ok hist" "fst (v p) \<le> length hist"
proof -
  from assms obtain es log where es: "journal_holds en s es log" "shows_log en s es log" "length es < u64_max"
      "length log = length es" "hist = zip (map durable es) (map ne_payload log)"
      "v = documents en (projection_view (jr_database s))" by (elim redb_holdsE)
  show "history_ok hist"
    using es(3-5) log_ok_nth [OF shows_log_tables(2) [OF es(2)]] by (simp add: history_ok_def)
  have ok: "projections_ok en (jr_database s) (length es)" using holds_projections_ok [OF es(1)] .
  have "durable_position (jr_database s) p \<le> length es"
    using ok by (auto simp: durable_position_def projections_ok_def dest!: map_of_SomeD split: option.split)
  then show "fst (v p) \<le> length hist" using es(4-6) by (simp add: documents_def projection_view_def)
qed

lemma redb_position:
  assumes hold: "redb_holds en s hist v" and p: "plain_name p"
  shows "after (projection_position en p) s (\<lambda>s' r. redb_holds en s' hist v \<and> answer (reliable en) (fst (v p)) r)"
proof -
  have v: "fst (v p) = durable_position (jr_database s) p"
    using hold p by (auto simp: redb_holds_def documents_def projection_view_def)
  have "projection_prefix p = Inr (p @ [CHR 0x00])" using p by (simp add: projection_prefix_ok)
  then show ?thesis
    unfolding projection_position_def after_bind v
    by (auto simp: after_primitive reliable_def redb_holds_agrees hold intro!: after_begin_exactI)
qed

lemma redb_get:
  assumes hold: "redb_holds en s hist v" and p: "plain_name p" "plain_name key"
  shows "after (projection_get en p key) s (\<lambda>s' r. redb_holds en s' hist v \<and> answer (reliable en) (snd (v p) key) r)"
proof -
  let ?k = "p @ [CHR 0x00] @ key" and ?records = "db_projection_records (jr_database s)"
  from hold obtain es log where es: "journal_holds en s es log" "v = documents en (projection_view (jr_database s))"
    by (elim redb_holdsE)
  have v: "snd (v p) key = Option.bind (table_get ?records ?k) (decode_document en)"
    using p by (simp add: es(2) documents_def projection_view_def own_records_def)
  have name: "projection_record_key p key = Inr ?k" using p by (simp add: projection_record_key_ok)
  have ok: "\<forall>record \<in> set ?records. check_record en record = Inr ()"
    using holds_projections_ok [OF es(1)] by (simp add: projections_ok_def)
  have "\<exists>d. cd_of_value en b = Inr d" if "table_get ?records ?k = Some b" for b
  proof -
    have "check_record en (?k, b) = Inr ()" using ok that by (auto dest: map_of_SomeD)
    then show ?thesis
      using p by (auto simp: check_record_def split_once_plain decode_journal_json_def bind_r_Inr_iff map_err_Inr_iff)
  qed
  then have "decode_record en (table_get ?records ?k) = Inr (snd (v p) key)"
    unfolding v by (auto simp: decode_record_def decode_document_def adapter_json_def split: option.split)
  then show ?thesis
    unfolding projection_get_def after_bind name
    by (auto simp: after_primitive reliable_def redb_holds_agrees hold intro!: after_begin_exactI)
qed

lemma kept_mode:
  assumes "projections_changed s s' \<or> agrees s s'"
  shows "jr_recovery_mode s' = jr_recovery_mode s"
  using assms
proof
  assume "projections_changed s s'"
  then obtain w where "s' = s\<lparr>jr_world := w, jr_database := jr_database s'\<rparr>" by (auto simp: projections_changed_def)
  then show ?thesis by (metis RedbEventJournal.select_convs(5) RedbEventJournal.surjective RedbEventJournal.update_convs(1,8))
qed (simp add: agreesD)

lemma redb_apply:
  assumes hold: "redb_holds en s hist v" and sound: "list_all (sound_batch (stable_payload en) (length hist)) batches"
    and v': "apply_views batches v = Some v'"
  shows "after (projection_apply_all en batches) s (\<lambda>s' r. r = Inr () \<and> redb_holds en s' hist v'
    \<or> \<not> reliable en \<and> (\<exists>e. r = Inl e \<and> fault e) \<and> redb_holds en s' hist v)"
proof -
  from hold obtain es log where es: "journal_holds en s es log" "\<not> jr_recovery_mode s" "length es < u64_max"
      "length log = length es" "hist = zip (map durable es) (map ne_payload log)"
      "v = documents en (projection_view (jr_database s))" by (elim redb_holdsE)
  have sorted: "projections_sorted (jr_database s)"
    using holds_projections_ok [OF es(1)] by (simp add: projections_ok_def projections_sorted_def)
  obtain views' where views: "fold_r (view_apply en) batches (projection_view (jr_database s)) = Inr views'"
      "documents en views' = v'"
    using apply_documents [OF sound] v' es(6) by blast
  have each: "sound_batch (stable_payload en) (length es) batch" if "batch \<in> set batches" for batch
    using sound that es(4,5) by (simp add: list_all_iff)
  have fits: "\<forall>batch \<in> set batches. projectable en (length es) batch"
    and encodes: "\<forall>batch \<in> set batches. \<exists>eb. encode_projection_batch en batch = Inr eb"
    using sound_batch_encodes [OF each] by blast+
  have "after (projection_apply_all en batches) s (\<lambda>s' r. (applied_views en batches s s' r \<and> journal_holds en s' es log)
      \<and> (reliable en \<longrightarrow> (\<forall>e. r = Inl e \<longrightarrow> \<not> fault e)))"
    using apply_all_after [OF sorted, of en batches] holds_apply [OF es(1) fits] apply_all_answers [OF _ encodes, of s]
    by (intro after_both) (auto elim: after_mono simp: after_run)
  then show ?thesis
  proof (rule after_mono, elim conjE)
    fix t r assume t: "applied_views en batches s t r" "journal_holds en t es log"
      and answered: "reliable en \<longrightarrow> (\<forall>e. r = Inl e \<longrightarrow> \<not> fault e)"
    show "r = Inr () \<and> redb_holds en t hist v' \<or> \<not> reliable en \<and> (\<exists>e. r = Inl e \<and> fault e) \<and> redb_holds en t hist v"
    proof (cases r)
      case (Inl e)
      then have "agrees s t" "fault e" using t(1) views(1) by (auto simp: applied_views_def)
      then show ?thesis using Inl answered hold redb_holds_agrees by blast
    next
      case (Inr u)
      then have changed: "projections_changed s t" and view: "projection_view (jr_database t) = views'"
        using t(1) views(1) by (simp_all add: applied_views_def)
      have "\<not> jr_recovery_mode t" using kept_mode changed es(2) by blast
      then have "redb_holds en t hist v'"
        unfolding redb_holds_def using t(2) es(3,5) view views(2) by blast
      then show ?thesis using Inr by simp
    qed
  qed
qed

lemma redb_reset:
  assumes hold: "redb_holds en s hist v" and p: "plain_name p"
  shows "after (projection_reset en p) s (\<lambda>s' r. r = Inr () \<and> redb_holds en s' hist (v(p := (0, Map.empty)))
    \<or> \<not> reliable en \<and> (\<exists>e. r = Inl e \<and> fault e) \<and> redb_holds en s' hist v)"
proof -
  from hold obtain es log where es: "journal_holds en s es log" "\<not> jr_recovery_mode s" "length es < u64_max"
      "hist = zip (map durable es) (map ne_payload log)" "v = documents en (projection_view (jr_database s))"
    by (elim redb_holdsE)
  have sorted: "projections_sorted (jr_database s)"
    using holds_projections_ok [OF es(1)] by (simp add: projections_ok_def projections_sorted_def)
  have name: "projection_prefix p = Inr (p @ [CHR 0x00])" using p by (simp add: projection_prefix_ok)
  have "answers (\<lambda>_. True) (projection_reset en p)" if "reliable en"
    unfolding projection_reset_def name
    using that by (auto intro!: answers_bind answers_lift answers_begin answers_commit)
  then have answered: "reliable en \<longrightarrow> after (projection_reset en p) s (\<lambda>s' r. \<forall>e. r = Inl e \<longrightarrow> \<not> fault e)"
    by (auto simp: answers_def elim: after_mono)
  have "after (projection_reset en p) s (\<lambda>s' r. ((case r of
      Inl e \<Rightarrow> agrees s s' \<and> fault e
    | Inr _ \<Rightarrow> projections_changed s s'
        \<and> projection_view (jr_database s') = (projection_view (jr_database s))(p := (0, Map.empty)))
      \<and> journal_holds en s' es log) \<and> (reliable en \<longrightarrow> (\<forall>e. r = Inl e \<longrightarrow> \<not> fault e)))"
    using reset_after [OF sorted p, of en] holds_reset [OF es(1), of p] answered
    by (intro after_both) (auto simp: after_run)
  then show ?thesis
  proof (rule after_mono, elim conjE)
    fix t and r :: "(StoreError, unit) result"
    assume t: "case r of Inl e \<Rightarrow> agrees s t \<and> fault e
        | Inr _ \<Rightarrow> projections_changed s t
            \<and> projection_view (jr_database t) = (projection_view (jr_database s))(p := (0, Map.empty))"
      "journal_holds en t es log" and answered: "reliable en \<longrightarrow> (\<forall>e. r = Inl e \<longrightarrow> \<not> fault e)"
    show "r = Inr () \<and> redb_holds en t hist (v(p := (0, Map.empty)))
      \<or> \<not> reliable en \<and> (\<exists>e. r = Inl e \<and> fault e) \<and> redb_holds en t hist v"
    proof (cases r)
      case (Inl e)
      then show ?thesis using t(1) answered hold redb_holds_agrees [of s t] by auto
    next
      case (Inr u)
      then have changed: "projections_changed s t"
        and view: "projection_view (jr_database t) = (projection_view (jr_database s))(p := (0, Map.empty))"
        using t(1) by simp_all
      have "documents en (projection_view (jr_database t)) = v(p := (0, Map.empty))"
        by (auto simp: view es(5) documents_def fun_eq_iff)
      moreover have "\<not> jr_recovery_mode t" using kept_mode changed es(2) by blast
      ultimately have "redb_holds en t hist (v(p := (0, Map.empty)))"
        unfolding redb_holds_def using t(2) es(3,4) by metis
      then show ?thesis using Inr by simp
    qed
  qed
qed

section \<open>Instances\<close>

lemma redb_services:
  assumes "lawful en"
  shows "projection_services (redb_journal en) (redb_store en) (redb_holds en) (reliable en) (stable_payload en)"
  by unfold_locales (simp_all add: redb_journal_def redb_store_def redb_head redb_work [OF assms, unfolded One_nat_def]
      redb_payload [OF assms] redb_history redb_position redb_get redb_apply redb_reset, auto simp: redb_holds_def)

locale lawful_journal =
  fixes en :: "('b, 'k, 'w) JournalEnv"
  assumes lawful: "lawful en"

sublocale lawful_journal \<subseteq> redb: projection_services "redb_journal en" "redb_store en" "redb_holds en" "reliable en" "stable_payload en"
  using lawful by (rule redb_services)

end
