(* ===== verification/RedbPages.thy ===== *)
theory RedbPages
  imports RedbServices ProjectionHandlers
begin

text \<open>
  Pages of a projection as the callers of the store see them, and what startup recovery reads:
  the effects that began and have no terminal event.
\<close>

section \<open>The contract of pages\<close>

locale page_services = projection_services J S holds live storable
  for J :: "'s EventJournalPort" and S :: "'s ProjectionStorePort" and holds live storable +
  assumes page_law: "holds s hist v \<Longrightarrow> plain_name p \<Longrightarrow> CHR 0x00 \<notin> set key_prefix \<Longrightarrow>
    (\<forall>cursor. after_key = Some cursor \<longrightarrow> CHR 0x00 \<notin> set cursor) \<Longrightarrow>
    after (ps_list_after S p key_prefix after_key limit) s (\<lambda>s' r. holds s' hist v
      \<and> answer live (view_page (snd (v p)) key_prefix after_key limit) r)"

section \<open>Pages of the redb store\<close>

lemma view_page_rows:
  assumes rows: "sorted_wrt (<) (map fst rows)" and keys: "\<And>key. (\<exists>b. (key, b) \<in> set rows) \<longleftrightarrow> key \<in> dom records"
    and decoded: "\<And>key b. (key, b) \<in> set rows \<Longrightarrow> \<exists>d. cd_of_value en b = Inr d \<and> records key = Some d"
  shows "decode_rows en (take limit (filter (\<lambda>row. in_page key_prefix after_key (fst row)) rows))
    = Inr (view_page records key_prefix after_key limit)"
proof -
  let ?kept = "filter (\<lambda>row. in_page key_prefix after_key (fst row)) rows"
  have sorted: "sorted_wrt (<) (map fst ?kept)"
    using rows by (induction rows) auto
  have "set (map fst ?kept) = {key \<in> dom records. in_page key_prefix after_key key}"
    using keys by force
  then have kept: "sorted_list_of_set {key \<in> dom records. in_page key_prefix after_key key} = map fst ?kept"
    using sorted by (metis sorted_list_of_set.idem_if_sorted_distinct strict_sorted_iff)
  have "decode_rows en part = Inr (map (\<lambda>key. (key, the (records key))) (map fst part))" if "set part \<subseteq> set rows" for part
    using that
  proof (induction part)
    case (Cons row part)
    obtain key b where row: "row = (key, b)" by (cases row)
    then obtain d where "cd_of_value en b = Inr d" "records key = Some d" using decoded [of key b] Cons.prems by auto
    then show ?case using Cons row by (simp add: decode_rows_def adapter_json_def)
  qed (simp add: decode_rows_def)
  moreover have "set (take limit ?kept) \<subseteq> set rows" by (auto dest: in_set_takeD)
  ultimately show ?thesis unfolding view_page_def kept take_map by blast
qed

lemma projection_rows_iff: "(key, b) \<in> set (projection_rows ns records) \<longleftrightarrow> (ns @ key, b) \<in> set records"
  by (force simp: projection_rows_def prefix_def)

lemma projection_rows_sorted:
  assumes "table_ok records"
  shows "sorted_wrt (<) (map fst (projection_rows ns records))"
  using assms
proof (induction records)
  case (Cons e records)
  have "drop (length ns) (fst e) < drop (length ns) (fst x)" if "x \<in> set records" "prefix ns (fst x)" "prefix ns (fst e)" for x
    using Cons.prems that by (auto simp: prefix_def append_less_iff)
  then show ?case using Cons by (auto simp: projection_rows_def)
qed (simp add: projection_rows_def)

lemma projection_record_key_iff: "projection_record_key p key = Inr k \<longleftrightarrow> plain_name p \<and> plain_name key \<and> k = p @ [CHR 0x00] @ key"
  by (auto simp: projection_record_key_def plain_name_def)

lemma redb_page:
  assumes hold: "redb_holds en s hist v" and p: "plain_name p" "CHR 0x00 \<notin> set key_prefix"
    and cursor: "\<forall>cursor. after_key = Some cursor \<longrightarrow> CHR 0x00 \<notin> set cursor"
  shows "after (projection_list_after en p key_prefix after_key limit) s (\<lambda>s' r. redb_holds en s' hist v
    \<and> answer (reliable en) (view_page (snd (v p)) key_prefix after_key limit) r)"
proof -
  let ?records = "db_projection_records (jr_database s)" and ?ns = "p @ [CHR 0x00]"
  let ?rows = "projection_rows ?ns ?records"
  from hold obtain es log where es: "journal_holds en s es log" "v = documents en (projection_view (jr_database s))"
    by (elim redb_holdsE)
  have ok: "\<forall>record \<in> set ?records. check_record en record = Inr ()" and sorted: "table_ok ?records"
    using holds_projections_ok [OF es(1)] by (simp_all add: projections_ok_def)
  have held: "snd (v p) key = (if plain_name key then Option.bind (table_get ?records (?ns @ key)) (decode_document en) else None)" for key
    using p by (simp add: es(2) documents_def projection_view_def own_records_def)
  have stored: "(?ns @ key, b) \<in> set ?records \<longleftrightarrow> table_get ?records (?ns @ key) = Some b" for key b
    using table_get_Some_iff [OF sorted] by blast
  have row: "\<exists>d. cd_of_value en b = Inr d \<and> snd (v p) key = Some d" if "(key, b) \<in> set ?rows" for key b
  proof -
    have entry: "(?ns @ key, b) \<in> set ?records" using that unfolding projection_rows_iff .
    then have "check_record en (?ns @ key, b) = Inr ()" using ok by blast
    then obtain d where "cd_of_value en b = Inr d" "plain_name key"
      using p by (auto simp: check_record_def split_once_plain decode_journal_json_def bind_r_Inr_iff map_err_Inr_iff
          projection_record_key_iff)
    then show ?thesis using entry unfolding held stored by (simp add: decode_document_def)
  qed
  have "(\<exists>b. (key, b) \<in> set ?rows) \<longleftrightarrow> key \<in> dom (snd (v p))" for key
  proof
    assume "key \<in> dom (snd (v p))"
    then have "table_get ?records (?ns @ key) \<noteq> None" unfolding dom_def mem_Collect_eq held
      by (cases "table_get ?records (?ns @ key)") (auto split: if_splits)
    then obtain b where "(?ns @ key, b) \<in> set ?records" unfolding stored by blast
    then show "\<exists>b. (key, b) \<in> set ?rows" unfolding projection_rows_iff ..
  qed (use row in blast)
  note page = view_page_rows [where en = en, OF projection_rows_sorted [OF sorted] this row]
  have fault: "fault (StoreAdapter m)" for m by (simp add: fault_def)
  show ?thesis
  proof (rule after_mono [OF list_after_page [OF sorted p]])
    show "after_key = Some cursor \<Longrightarrow> CHR 0x00 \<notin> set cursor" for cursor using cursor by blast
    fix t r assume *: "agrees s t \<and> r = (if limit = 0 then Inr [] else case snd (en_begin en (jr_world s)) of
         Some m \<Rightarrow> Inl (StoreAdapter m)
       | None \<Rightarrow> decode_rows en (take limit (filter (\<lambda>row. in_page key_prefix after_key (fst row)) ?rows)))"
    then have "redb_holds en t hist v" using hold redb_holds_agrees by blast
    moreover have "answer (reliable en) (view_page (snd (v p)) key_prefix after_key limit) r"
      using * by (auto simp: page answer_def reliable_def fault view_page_def split: option.split)
    ultimately show "redb_holds en t hist v \<and> answer (reliable en) (view_page (snd (v p)) key_prefix after_key limit) r" ..
  qed
qed

section \<open>Pending effects\<close>

text \<open>The effects that began and did not end, in the order of their streams.\<close>

definition unfinished_streams :: "EventEnvelope list \<Rightarrow> string list" where
  "unfinished_streams events = filter (\<lambda>stream. starts_with ''effect:'' stream \<and> unfinished stream events \<noteq> None)
     (sort (remdups (map ev_stream_id events)))"

definition unfinished_effects :: "EventEnvelope list \<Rightarrow> PendingEffect list" where
  "unfinished_effects events = map (\<lambda>stream. the (unfinished stream events)) (unfinished_streams events)"

lemma unfinished_known: "unfinished stream events \<noteq> None \<Longrightarrow> stream \<in> ev_stream_id ` set events"
  unfolding unfinished_iff by force

lemma unfinished_streams_set:
  "set (unfinished_streams events) = {stream. starts_with ''effect:'' stream \<and> unfinished stream events \<noteq> None}"
  using unfinished_known by (fastforce simp: unfinished_streams_def)

lemma recovery_page:
  "view_page (recovery_records events) ''effect:'' None limit
    = map (\<lambda>stream. (stream, pending_effect_value (the (unfinished stream events)))) (take limit (unfinished_streams events))"
proof -
  have "{key \<in> dom (recovery_records events). in_page ''effect:'' None key} = set (unfinished_streams events)"
    by (auto simp: unfinished_streams_set recovery_records_def in_page_def dom_def split: if_splits)
  moreover have "sorted_list_of_set (set (unfinished_streams events)) = unfinished_streams events"
    by (rule sorted_list_of_set.idem_if_sorted_distinct) (simp_all add: unfinished_streams_def sorted_filter [where f = "\<lambda>x. x", simplified])
  moreover have "the (recovery_records events stream) = pending_effect_value (the (unfinished stream events))"
    if "stream \<in> set (take limit (unfinished_streams events))" for stream
    using in_set_takeD [OF that] unfolding unfinished_streams_set by (auto simp: recovery_records_def)
  ultimately show ?thesis unfolding view_page_def by simp
qed

lemma pending_rows:
  assumes "set streams \<subseteq> set (unfinished_streams events)"
  shows "traverse (pending_effect_row serde_error)
      (map (\<lambda>stream. (stream, pending_effect_value (the (unfinished stream events)))) streams)
    = Inr (map (\<lambda>stream. the (unfinished stream events)) streams)"
  using assms
proof (induction streams)
  case (Cons stream streams)
  then obtain effect where "unfinished stream events = Some effect" unfolding unfinished_streams_set by auto
  then show ?case
    using Cons unfinished_stream by (auto simp: pending_effect_row_def pending_effect_round_trip)
qed simp

context page_services
begin

lemma pending_effects_exact:
  assumes hold: "holds s hist v" and records: "snd (v EFFECT_RECOVERY_PROJECTION) = recovery_records events"
  shows "after (pending_effects serde_error S limit) s (\<lambda>s' r. holds s' hist v
    \<and> answer live (take limit (unfinished_effects events)) r)"
proof -
  have "plain_name EFFECT_RECOVERY_PROJECTION" by (simp add: EFFECT_RECOVERY_PROJECTION_def plain_name_def)
  then have "after (ps_list_after S EFFECT_RECOVERY_PROJECTION ''effect:'' None limit) s (\<lambda>s' r. holds s' hist v
      \<and> answer live (view_page (recovery_records events) ''effect:'' None limit) r)"
    using page_law [OF hold, of EFFECT_RECOVERY_PROJECTION "''effect:''" None limit]
    by (simp add: records)
  moreover have "traverse (pending_effect_row serde_error) (view_page (recovery_records events) ''effect:'' None limit)
      = Inr (take limit (unfinished_effects events))"
    unfolding recovery_page by (subst pending_rows) (auto simp: unfinished_effects_def take_map dest: in_set_takeD)
  ultimately show ?thesis
    unfolding pending_effects_def after_bind
    by (auto elim!: after_mono simp: after_primitive answer_def split: sum.split)
qed

end

lemma redb_page_services:
  assumes "lawful en"
  shows "page_services (redb_journal en) (redb_store en) (redb_holds en) (reliable en) (stable_payload en)"
  by (rule page_services.intro [OF redb_services [OF assms]]) (unfold_locales, simp add: redb_store_def redb_page)

sublocale lawful_journal \<subseteq> pages: page_services "redb_journal en" "redb_store en" "redb_holds en" "reliable en" "stable_payload en"
  using lawful by (rule redb_page_services)

end
