(* ===== verification/ExternalWorkRuns.thy ===== *)
theory ExternalWorkRuns
  imports ExternalWork RedbPages
begin

text \<open>
  What the queue does over services that keep their contract: a consumer is shown the events
  behind its checkpoint, and acknowledging them moves the checkpoint, so that every event is
  seen and none is seen again.
\<close>

section \<open>The contract\<close>

locale queue_services = projection_services J S holds live storable
  for J :: "'s EventJournalPort" and S :: "'s ProjectionStorePort" and holds live storable +
  assumes single_law: "ps_apply S batch = ps_apply_all S [batch]"

lemma redb_queue_services:
  assumes "lawful en"
  shows "queue_services (redb_journal en) (redb_store en) (redb_holds en) (reliable en) (stable_payload en)"
  by (rule queue_services.intro [OF redb_services [OF assms]]) (unfold_locales, simp add: redb_store_def projection_apply_def)

sublocale lawful_journal \<subseteq> queues: queue_services "redb_journal en" "redb_store en" "redb_holds en" "reliable en" "stable_payload en"
  using lawful by (rule redb_queue_services)

section \<open>Names\<close>

definition consumer_name :: "string \<Rightarrow> bool" where
  "consumer_name consumer \<longleftrightarrow> consumer \<noteq> [] \<and> length consumer \<le> 128 \<and> code_chars consumer"

lemma projection_of_consumer:
  assumes "consumer_name consumer"
  shows "external_work_projection consumer = Inr (EXTERNAL_WORK_PREFIX @ consumer)"
    "external_work_retry_projection consumer = Inr (EXTERNAL_WORK_RETRY_PREFIX @ consumer)"
  using assms by (simp_all add: consumer_name_def external_work_projection_def external_work_retry_projection_def)

lemma consumer_plain:
  assumes "consumer_name consumer"
  shows "plain_name (EXTERNAL_WORK_PREFIX @ consumer)" "plain_name (EXTERNAL_WORK_RETRY_PREFIX @ consumer)"
proof -
  have "CHR 0x00 \<notin> set consumer"
    using assms by (auto simp: consumer_name_def code_chars_def list_all_iff is_ascii_alphanumeric_def
        is_ascii_alphabetic_def is_ascii_digit_def is_ascii_uppercase_def is_ascii_lowercase_def)
  then show "plain_name (EXTERNAL_WORK_PREFIX @ consumer)" "plain_name (EXTERNAL_WORK_RETRY_PREFIX @ consumer)"
    by (simp_all add: plain_name_def EXTERNAL_WORK_PREFIX_def EXTERNAL_WORK_RETRY_PREFIX_def)
qed

section \<open>Pending and acknowledged work\<close>

text \<open>The items behind a checkpoint.\<close>

definition items_after :: "(EventEnvelope \<times> json) list \<Rightarrow> nat \<Rightarrow> nat \<Rightarrow> ProjectionWorkItem list" where
  "items_after hist n k = map (work_item \<circ> fst) (take k (drop n hist))"

context queue_services
begin

lemma ask_bind:
  assumes "after m s (\<lambda>s' r. holds s' hist v \<and> answer live x r)"
    and "\<And>s'. holds s' hist v \<Longrightarrow> after (f x) s' Q"
    and "\<And>s' e. holds s' hist v \<Longrightarrow> \<not> live \<Longrightarrow> fault e \<Longrightarrow> Q s' (Inl e)"
  shows "after (a_bind m f) s Q"
  unfolding after_bind by (rule after_mono [OF assms(1)]) (auto simp: assms(2,3) answer_def split: sum.split)

lemma verify_item_exact:
  assumes "holds s hist v" "i < length hist"
  shows "after (verify_item \<lparr>eq_journal = J, eq_store = S\<rparr> (work_item (fst (hist ! i)))) s
    (\<lambda>s' r. holds s' hist v \<and> answer live () r)"
proof -
  have ok: "history_ok hist" using history_law [OF assms(1)] .
  then have sequence: "wi_global_sequence (work_item (fst (hist ! i))) = Suc i" "Suc i \<le> u64_max"
    using assms(2) by (auto simp: history_ok_def work_item_def)
  have one: "map (work_item \<circ> fst) (take 1 (drop (Suc i - 1) hist)) = [work_item (fst (hist ! i))]"
    using assms(2) by (simp add: take_Suc_conv_app_nth Cons_nth_drop_Suc [symmetric])
  show ?thesis
    unfolding verify_item_def sequence JournalExternalWorkQueue.select_convs
    by (rule ask_bind [OF work_law [OF assms(1) _ sequence(2), of 1, unfolded one]]) (simp_all add: after_primitive)
qed

lemma check_items_exact:
  assumes "holds s hist v" "n \<le> length hist"
  shows "after (check_items \<lparr>eq_journal = J, eq_store = S\<rparr> gap (Suc n) (items_after hist n k)) s
    (\<lambda>s' r. holds s' hist v \<and> answer live () r)"
  using assms
proof (induction k arbitrary: n s)
  case (Suc k)
  have ok: "history_ok hist" using history_law [OF Suc.prems(1)] .
  show ?case
  proof (cases "n < length hist")
    case True
    then have sequence: "wi_global_sequence (work_item (fst (hist ! n))) = Suc n" "Suc n + 1 \<le> u64_max"
      using ok by (auto simp: history_ok_def work_item_def)
    have items: "items_after hist n (Suc k) = work_item (fst (hist ! n)) # items_after hist (Suc n) k"
      using True by (simp add: items_after_def Cons_nth_drop_Suc [symmetric])
    show ?thesis
      unfolding items using True sequence
      by (simp add: sequence, intro ask_bind [OF verify_item_exact [OF Suc.prems(1) True]] Suc.IH) simp_all
  next
    case False
    then show ?thesis using Suc.prems by (simp add: items_after_def after_primitive)
  qed
qed (simp add: items_after_def after_primitive)

lemma pending_exact:
  assumes hold: "holds s hist v" and consumer: "consumer_name consumer"
    and limit: "0 < limit" "limit \<le> MAX_EXTERNAL_WORK_BATCH"
  shows "after (pending_work \<lparr>eq_journal = J, eq_store = S\<rparr> consumer limit) s (\<lambda>s' r. holds s' hist v
    \<and> answer live (items_after hist (fst (v (EXTERNAL_WORK_PREFIX @ consumer))) limit) r)"
proof -
  let ?n = "fst (v (EXTERNAL_WORK_PREFIX @ consumer))"
  have n: "?n \<le> length hist" "Suc ?n \<le> u64_max"
    using behind_law [OF hold, of "EXTERNAL_WORK_PREFIX @ consumer"] history_law [OF hold] by (auto simp: history_ok_def)
  have work: "after (ej_read_projection_work J (Suc ?n) limit) t (\<lambda>s' r. holds s' hist v
      \<and> answer live (items_after hist ?n limit) r)" if "holds t hist v" for t
    using work_law [OF that _ n(2), of limit] by (simp add: items_after_def)
  show ?thesis
    unfolding pending_work_def work_position_def
    using limit n(2)
    by (simp add: projection_of_consumer [OF consumer])
      (rule ask_bind [OF position_law [OF hold consumer_plain(1) [OF consumer]]], simp_all,
       rule ask_bind [OF work], simp_all, rule ask_bind [OF check_items_exact [OF _ n(1)]], simp_all add: after_primitive)
qed

text \<open>Acknowledging work at the checkpoint moves it past that work and changes nothing else.\<close>

lemma acknowledge_exact:
  assumes hold: "holds s hist v" and consumer: "consumer_name consumer"
    and k: "0 < k" "k \<le> MAX_EXTERNAL_WORK_BATCH" "fst (v (EXTERNAL_WORK_PREFIX @ consumer)) + k \<le> length hist"
  shows "after (acknowledge_batch \<lparr>eq_journal = J, eq_store = S\<rparr> consumer (fst (v (EXTERNAL_WORK_PREFIX @ consumer)))
      (items_after hist (fst (v (EXTERNAL_WORK_PREFIX @ consumer))) k)) s
    (\<lambda>s' r. r = Inr (fst (v (EXTERNAL_WORK_PREFIX @ consumer)) + k)
        \<and> holds s' hist (v(EXTERNAL_WORK_PREFIX @ consumer := (fst (v (EXTERNAL_WORK_PREFIX @ consumer)) + k,
            snd (v (EXTERNAL_WORK_PREFIX @ consumer)))))
      \<or> \<not> live \<and> (\<exists>e. r = Inl e \<and> fault e) \<and> holds s' hist v)"
proof -
  let ?p = "EXTERNAL_WORK_PREFIX @ consumer"
  let ?n = "fst (v ?p)" and ?items = "items_after hist (fst (v ?p)) k"
  let ?batch = "\<lparr>pb_projection = ?p, pb_expected_position = ?n, pb_through_sequence = ?n + k, pb_mutations = []\<rparr>"
  have n: "?n \<le> length hist" "Suc ?n \<le> u64_max"
    using behind_law [OF hold, of ?p] history_law [OF hold] by (auto simp: history_ok_def)
  have items: "length ?items = k" "?items \<noteq> []" using k by (auto simp: items_after_def)
  have "last ?items = work_item (fst (hist ! (?n + k - 1)))"
    using k items by (simp add: last_conv_nth items_after_def)
  then have last: "wi_global_sequence (last ?items) = ?n + k"
    using history_law [OF hold] k by (simp add: history_ok_def work_item_def)
  have sound: "list_all (sound_batch storable (length hist)) [?batch]"
    using consumer_plain(1) [OF consumer] k by (simp add: sound_batch_def)
  have applied: "apply_views [?batch] v = Some (v(?p := (?n + k, snd (v ?p))))"
    by (simp add: advance_def)
  show ?thesis
    unfolding acknowledge_batch_def
    using k items n(2)
    by (simp add: projection_of_consumer [OF consumer] last Let_def single_law)
      (rule ask_bind [OF check_items_exact [OF hold n(1)]],
       auto simp: after_bind after_primitive intro!: after_mono [OF apply_law [OF _ sound applied]] split: sum.splits)
qed

end

section \<open>Failed attempts on the redb store\<close>

definition redb_queue :: "('b, 'k, 'w) JournalEnv \<Rightarrow> ('b, 'k, 'w) RedbEventJournal JournalExternalWorkQueue" where
  "redb_queue en = \<lparr>eq_journal = redb_journal en, eq_store = redb_store en\<rparr>"

lemma apply_one:
  assumes lawful: "lawful en" and reliable: "reliable en" and hold: "redb_holds en s hist v"
    and batch: "plain_name (pb_projection batch)" "list_all (sound_mutation (stable_payload en)) (pb_mutations batch)"
      "fst (v (pb_projection batch)) = pb_expected_position batch" "pb_expected_position batch < pb_through_sequence batch"
  shows "after (projection_apply en batch) s (\<lambda>t r. r = Inr () \<and> projections_changed s t
    \<and> documents en (projection_view (jr_database t))
        = advance (pb_projection batch) (pb_through_sequence batch) (pb_mutations batch) v)"
proof -
  from hold obtain es log where es: "journal_holds en s es log" "v = documents en (projection_view (jr_database s))"
    by (elim redb_holdsE)
  have sorted: "projections_sorted (jr_database s)"
    using holds_projections_ok [OF es(1)] by (simp add: projections_ok_def projections_sorted_def)
  let ?views = "(projection_view (jr_database s))(pb_projection batch := (pb_through_sequence batch,
      fold (view_mutation en) (pb_mutations batch) (snd (projection_view (jr_database s) (pb_projection batch)))))"
  have views: "fold_r (view_apply en) [batch] (projection_view (jr_database s)) = Inr ?views"
    using batch(3) by (simp add: es(2) view_apply_def documents_def Let_def)
  have advanced: "documents en ?views = advance (pb_projection batch) (pb_through_sequence batch) (pb_mutations batch) v"
    using mutations_documents [OF batch(2)] by (simp add: es(2) documents_def advance_def fun_eq_iff)
  have "\<exists>e. encode_mutation en (pb_projection batch) m = Inr e" if "m \<in> set (pb_mutations batch)" for m
  proof -
    have "sound_mutation (stable_payload en) m" using batch(2) that by (simp add: list_all_iff)
    then show ?thesis using batch(1) by (cases m) (auto simp: encode_mutation_ok sound_mutation_def stable_payload_def)
  qed
  then have "\<exists>ms. traverse (encode_mutation en (pb_projection batch)) (pb_mutations batch) = Inr ms"
    using traverse_Inl by (metis sum.exhaust sum.distinct(1))
  then have "\<forall>b \<in> set [batch]. \<exists>eb. encode_projection_batch en b = Inr eb"
    using batch(1,4) by (auto simp: encode_projection_batch_def projection_prefix_def plain_name_def reject_if_def)
  from after_both [OF apply_all_after [OF sorted] apply_all_answers [OF reliable this, of s]] show ?thesis
    unfolding projection_apply_def
    by (rule after_mono) (auto simp: applied_views_def views simp flip: advanced simp del: fold_r.simps split: sum.splits)
qed

text \<open>What a stored document says of the attempts so far.\<close>

definition stored_attempts :: "json option \<Rightarrow> ExternalWorkRetryState option \<Rightarrow> bool" where
  "stored_attempts doc existing \<longleftrightarrow> (case doc of None \<Rightarrow> existing = None
     | Some v \<Rightarrow> existing \<noteq> None \<and> retry_state_parse v = existing)"

text \<open>The item that fails, if any, is the first that is pending.\<close>

definition next_item :: "(EventEnvelope \<times> json) list \<Rightarrow> nat \<Rightarrow> ProjectionWorkItem option \<Rightarrow> bool" where
  "next_item hist n item \<longleftrightarrow> (\<forall>i. item = Some i \<longrightarrow> n < length hist \<and> i = work_item (fst (hist ! n)))"

definition failure_recorded ::
    "('b, 'k, 'w) JournalEnv \<Rightarrow> (EventEnvelope \<times> json) list \<Rightarrow> store_view \<Rightarrow> string \<Rightarrow> ExternalWorkRetryState
      \<Rightarrow> ('b, 'k, 'w) RedbEventJournal \<Rightarrow> bool" where
  "failure_recorded en hist v p state t \<longleftrightarrow> (\<exists>s. redb_holds en s hist v \<and> projections_changed s t
     \<and> documents en (projection_view (jr_database t))
       = v(p := (fst (v p) + 1, (snd (v p))(EXTERNAL_WORK_RETRY_KEY := Some (retry_state_value state)))))"

context lawful_journal
begin

lemma failure_attempt_applied:
  assumes reliable: "reliable en" and hold: "redb_holds en s hist v" and p: "plain_name p"
    and existing: "stored_attempts (snd (v p) EXTERNAL_WORK_RETRY_KEY) existing"
    and next_: "next_state existing = Inr state" and stable: "stable_payload en (retry_state_value state)"
  shows "after (contended (Suc n) (failure_attempt env (redb_queue en) p next_state) (redb_store en)) s
    (\<lambda>t r. r = Inr state \<and> failure_recorded en hist v p state t)"
    (is "after _ _ ?done")
proof -
  let ?batch = "retry_batch p (fst (v p)) (Upsert EXTERNAL_WORK_RETRY_KEY (retry_state_value state))"
  have key: "plain_name EXTERNAL_WORK_RETRY_KEY" by (simp add: EXTERNAL_WORK_RETRY_KEY_def plain_name_def)
  have room: "fst (v p) + 1 \<le> u64_max"
    using redb.behind_law [OF hold, of p] redb.history_law [OF hold] by (simp add: history_ok_def)
  have parsed: "(case snd (v p) EXTERNAL_WORK_RETRY_KEY of None \<Rightarrow> Inr None
      | Some v \<Rightarrow> map_sum id Some (retry_state_from_value env v)) = Inr existing"
    using existing by (auto simp: stored_attempts_def retry_state_from_value_def split: option.splits)
  have batch: "after (ps_apply (redb_store en) ?batch) s' (\<lambda>t r. r = Inr () \<and> failure_recorded en hist v p state t)"
    if s': "redb_holds en s' hist v" for s'
  proof -
    have "after (projection_apply en ?batch) s' (\<lambda>t r. r = Inr () \<and> projections_changed s' t
        \<and> documents en (projection_view (jr_database t)) = advance p (fst (v p) + 1) (pb_mutations ?batch) v)"
      using apply_one [OF lawful reliable s', of ?batch] p key stable room
      by (simp add: retry_batch_def sound_mutation_def)
    then show ?thesis
      by (simp add: redb_store_def, elim after_mono)
        (use s' in \<open>auto simp: failure_recorded_def advance_def mutate_def retry_batch_def\<close>)
  qed
  have attempt: "after (a_bind (a_catch (ps_apply (redb_store en) ?batch)) (\<lambda>applied. case applied of
      Inr _ \<Rightarrow> a_return state | Inl (Conflict _ _ _) \<Rightarrow> f | Inl error \<Rightarrow> a_fail error)) s' ?done"
    if "redb_holds en s' hist v" for s' f
    using batch [OF that] by (auto simp: after_bind after_catch after_primitive elim!: after_mono)
  have read: "after (failure_attempt env (redb_queue en) p next_state) s
      (\<lambda>s' r. redb_holds en s' hist v \<and> r = Inr (Inr (?batch, state)))"
    unfolding failure_attempt_def redb_queue_def JournalExternalWorkQueue.select_convs
    by (rule queues.ask_bind [OF redb.position_law [OF hold p]], rule queues.ask_bind [OF redb.get_law [where hist = hist and v = v, OF _ p key]])
      (simp_all add: parsed next_ after_primitive reliable)
  show ?thesis
    unfolding contended.simps after_bind [of "failure_attempt env _ _ _"]
    by (rule after_mono [OF read]) (auto intro: attempt)
qed

lemma record_failure_exact:
  assumes reliable: "reliable en" and hold: "redb_holds en s hist v" and consumer: "consumer_name consumer"
    and input: "rt_parse env failed_at = Some at" "rt_is_utc env at" "valid_code error_code" "valid_error error"
    and item: "next_item hist (fst (v (EXTERNAL_WORK_PREFIX @ consumer))) item"
    and existing: "stored_attempts (snd (v (EXTERNAL_WORK_RETRY_PREFIX @ consumer)) EXTERNAL_WORK_RETRY_KEY) existing"
    and next_: "next_retry_state env consumer (Suc (fst (v (EXTERNAL_WORK_PREFIX @ consumer)))) (map_option wi_event_id item)
      failed_at at retryable error_code error existing = Inr state"
    and stable: "stable_payload en (retry_state_value state)"
  shows "after (record_failure env (redb_queue en) consumer item failed_at retryable error_code error) s
    (\<lambda>t r. r = Inr state \<and> failure_recorded en hist v (EXTERNAL_WORK_RETRY_PREFIX @ consumer) state t)"
    (is "after _ _ ?done")
proof -
  let ?n = "fst (v (EXTERNAL_WORK_PREFIX @ consumer))" and ?retry = "EXTERNAL_WORK_RETRY_PREFIX @ consumer"
  have n: "saturating_add64 ?n 1 = Suc ?n"
    using redb.behind_law [OF hold, of "EXTERNAL_WORK_PREFIX @ consumer"] redb.history_law [OF hold]
    by (simp add: history_ok_def)
  have sequence: "wi_global_sequence i = Suc ?n" if "item = Some i" for i
    using item that redb.history_law [OF hold] by (auto simp: next_item_def history_ok_def work_item_def)
  have stored: "after (contended MAX_RETRY_STATE_ATTEMPTS (failure_attempt env (redb_queue en) ?retry
      (next_retry_state env consumer (Suc ?n) (map_option wi_event_id item) failed_at at retryable error_code error))
      (redb_store en)) s' ?done" if "redb_holds en s' hist v" for s'
    unfolding MAX_RETRY_STATE_ATTEMPTS_def numeral_eq_Suc pred_numeral_simps
    by (rule failure_attempt_applied [where existing = existing, OF reliable that consumer_plain(2) [OF consumer] existing])
      (simp_all add: next_ stable)
  have checked: "after (case item of None \<Rightarrow> a_return () | Some item \<Rightarrow>
      a_bind (a_reject (wi_global_sequence item \<noteq> Suc ?n)
         (StoreAdapter ''external-work failure must refer to the next pending item'')) (\<lambda>_.
       verify_item (redb_queue en) item)) s' (\<lambda>s'' r. redb_holds en s'' hist v \<and> answer (reliable en) () r)"
    if "redb_holds en s' hist v" for s'
    using queues.verify_item_exact [OF that, of ?n] item that sequence
    by (cases item) (auto simp: after_primitive next_item_def redb_queue_def)
  have global: "(case item of None \<Rightarrow> Suc ?n | Some item \<Rightarrow> wi_global_sequence item) = Suc ?n"
    using sequence by (cases item) auto
  have store: "eq_store (redb_queue en) = redb_store en" by (simp add: redb_queue_def)
  show ?thesis
    unfolding record_failure_def retry_timestamp_def work_position_def projection_of_consumer [OF consumer] store
    by (simp only: input ok_or_simps bind_r_simps a_bind_simps simp_thms if_True if_False a_reject_simps,
        rule queues.ask_bind [OF redb.position_law [OF hold consumer_plain(1) [OF consumer]]],
        unfold n global Let_def, rule queues.ask_bind [OF checked], assumption)
      (simp_all add: stored reliable)
qed

end

section \<open>Verification of a position ahead of the head\<close>

lemma check_all_fails: "check_all f xs = Inl e \<Longrightarrow> \<exists>x \<in> set xs. f x = Inl e"
proof (induction xs)
  case (Cons x xs)
  then show ?case by (cases "f x") auto
qed simp

lemma position_ahead:
  assumes "(projection, position) \<in> set table" "head < position"
  shows "\<exists>m. check_positions head message table = Inl (Verification m)"
proof (cases "check_positions head message table")
  case (Inl e)
  from check_all_fails [OF this [unfolded check_positions_def]] show ?thesis
    unfolding Inl by (auto simp: reject_if_def bind_r_def map_err_def split: sum.splits if_splits)
next
  case (Inr u)
  then have "(\<lambda>(projection, position).
     bind_r (map_err (\<lambda>_. Verification ''stored projection name is invalid'') (projection_prefix projection)) (\<lambda>_.
     reject_if (position > head) (Verification (message projection position)))) (projection, position) = Inr ()"
    using assms(1) unfolding check_positions_def check_all_Inr_iff by blast
  then show ?thesis using assms(2) by (simp add: bind_r_Inr_iff)
qed

text \<open>A snapshot that differs from a verified one in its projections, with one of them ahead.\<close>

lemma snapshot_ahead:
  assumes ok: "verify_snapshot en protection keys anchor db = Inr report" and only: "projections_only db db'"
    and ahead: "(projection, position) \<in> set (db_projection_positions db')" "vr_last_sequence report < position"
  shows "\<exists>m. verify_snapshot en protection keys anchor db' = Inl (Verification m)"
proof -
  obtain records positions where db': "db' = db\<lparr>db_projection_records := records, db_projection_positions := positions\<rparr>"
    using only by (auto simp: projections_only_def)
  have checks: "check_indexed db' = check_indexed db" "check_queued en db' = check_queued en db"
    by (simp_all add: db' check_indexed_def check_queued_def fun_eq_iff)
  have entry: "verify_entry en protection keys db' = verify_entry en protection keys db"
    unfolding verify_entry_def checks ..
  have same: "latest_checkpoint en db' = latest_checkpoint en db" "index_in_use en db' = index_in_use en db"
      "last_sequence en db' = last_sequence en db" "last_hash en db' = last_hash en db"
      "db_events db' = db_events db" "db_outbox db' = db_outbox db" "db_stream_versions db' = db_stream_versions db"
    by (simp_all add: db' latest_checkpoint_def index_in_use_def index_version_def meta_entry_def last_sequence_def
        last_hash_def)
  obtain m where "check_positions (vr_last_sequence report) (\<lambda>projection position. ''projection '' @ projection @ '' position ''
          @ nat_text position @ '' is ahead of journal head '' @ nat_text (vr_last_sequence report)) (db_projection_positions db')
      = Inl (Verification m)"
    using position_ahead [OF ahead] by blast
  then show ?thesis
    using ok unfolding verify_snapshot_def same entry by (auto simp: bind_r_Inr_iff Let_def)
qed

lemma failure_ahead:
  assumes lawful: "lawful en" and reliable: "reliable en" and p: "plain_name p" "length hist \<le> fst (v p)"
    and recorded: "failure_recorded en hist v p state t"
  shows "after (verify_journal en) t (\<lambda>t' r. \<exists>reason. r = Inl (Verification reason)
    \<and> jr_recovery_mode t' \<and> jr_recovery_reason t' = Some reason)"
proof -
  obtain s where s: "redb_holds en s hist v" "projections_changed s t"
      "documents en (projection_view (jr_database t))
        = v(p := (fst (v p) + 1, (snd (v p))(EXTERNAL_WORK_RETRY_KEY := Some (retry_state_value state))))"
    using recorded by (auto simp: failure_recorded_def)
  then obtain es log where es: "shows_log en s es log" "length es < u64_max" "length hist = length es"
    by (elim redb_holdsE) auto
  have ok: "database_ok en (jr_payload_protection s) (jr_keys s) (jr_database s) es"
      "index_state en (jr_database s) es"
    using es(1) by (simp_all add: shows_log_def journal_inv_def index_state_def)
  obtain anchor where anchor: "kp_load_anchor en (jr_keys s) = Inr anchor" "\<And>a. anchor = Some a \<Longrightarrow> anchor_ok es a"
    using ok(1) by (auto simp: database_ok_def keys_ok_def)
  obtain report where report: "verify_snapshot en (jr_payload_protection s) (jr_keys s) anchor (jr_database s) = Inr report"
      "vr_last_sequence report = length es"
    using verify_snapshot_ok [OF lawful ok es(2) anchor(2)] by blast
  have only: "projections_only (jr_database s) (jr_database t)"
    using s(2) by (simp add: projections_changed_def)
  obtain w where t: "t = s\<lparr>jr_world := w, jr_database := jr_database t\<rparr>"
    using s(2) by (auto simp: projections_changed_def)
  have kept: "jr_keys t = jr_keys s" "jr_payload_protection t = jr_payload_protection s"
    by (subst t, simp)+
  have "durable_position (jr_database t) p = fst (v p) + 1"
    using arg_cong [OF s(3), of "\<lambda>f. fst (f p)"] p(1) by (simp add: documents_def projection_view_def)
  then have "(p, fst (v p) + 1) \<in> set (db_projection_positions (jr_database t))"
    by (auto simp: durable_position_def split: option.splits dest: map_of_SomeD)
  from snapshot_ahead [OF report(1) only this] obtain m where
      m: "verify_snapshot en (jr_payload_protection s) (jr_keys s) anchor (jr_database t) = Inl (Verification m)"
    using p(2) es(3) report(2) by auto
  have "after (verify_inner en) t (\<lambda>t' r. r = Inl (Verification m))"
    using reliable
    by (auto simp: verify_inner_def begin_transaction_def on_world_def reliable_def after_def a_bind_def a_get_def
        a_lift_def anchor(1) kept m split: prod.split option.split dest: arg_cong [of _ _ snd])
  then show ?thesis
    unfolding verify_journal_def after_quarantine by (rule after_mono) simp
qed

end
