(* ===== verification/WorkerProperties.thy ===== *)
theory WorkerProperties
  imports RedbPages JournalProperties
begin

text \<open>
  The projection worker over the redb journal: rebuilding ends with every projection ready, and
  what startup recovery then reads are exactly the effects without a terminal event.
\<close>

text \<open>The services of the example, with every contract the redb journal keeps.\<close>

interpretation example_services: lawful_journal example_env
  by unfold_locales (rule example_lawful)

section \<open>The worker's hypotheses hold\<close>

lemma effect_reduction_sound:
  assumes "\<And>effect. storable (pending_effect_value effect)"
    and "\<And>e. e \<in> fst ` set hist \<Longrightarrow> CHR 0x00 \<notin> set (ev_stream_id e)"
  shows "reduction_sound storable hist (EffectRecoveryProjection serde_error) (effect_reduction serde_error)"
proof -
  have "list_all (sound_mutation storable) ms"
    if ev: "ev \<in> set hist" and ms: "event_mutations (EffectRecoveryProjection serde_error) (effect_reduction serde_error) ev x = Inr ms"
    for ev x ms
  proof -
    obtain e payload where e: "ev = (e, payload)" by (cases ev)
    have "CHR 0x00 \<notin> set (ev_stream_id e)" using ev e assms(2) by force
    then have "starts_with ''effect:'' (ev_stream_id e) \<Longrightarrow> plain_name (ev_stream_id e)"
      by (auto simp: plain_name_def prefix_def)
    then show ?thesis
      using ms assms(1)
      by (auto simp: e event_mutations_def EffectRecoveryProjection_def effect_reduction_def effect_update_def upsert_def
          sound_mutation_def split: if_splits option.splits)
  qed
  then show ?thesis unfolding reduction_sound_def by blast
qed


context page_services
begin

lemma effects_rebuilt:
  assumes live: "live" and hold: "holds s hist v"
    and W: "worker_new J S [EffectRecoveryProjection serde_error] = Inr W"
    and streams: "\<And>e. e \<in> fst ` set hist \<Longrightarrow> CHR 0x00 \<notin> set (ev_stream_id e)"
    and sound: "\<And>effect. storable (pending_effect_value effect)" and bound: "length hist \<le> 256 * 16384"
  shows "after (rebuild W EFFECT_RECOVERY_PROJECTION) s (\<lambda>t r. \<exists>report v'. r = Inr report
    \<and> holds t hist v' \<and> list_all st_ready (rr_projections report)
    \<and> snd (v' EFFECT_RECOVERY_PROJECTION) = recovery_records (map fst hist)
    \<and> after (pending_effects serde_error S limit) t (\<lambda>t' r'.
         r' = Inr (take limit (unfinished_effects (map fst hist))) \<and> holds t' hist v'))"
proof -
  let ?h = "EffectRecoveryProjection serde_error :: 's ProjectionHandler" and ?red = "\<lambda>_. effect_reduction serde_error"
  have w: "pw_journal W = J" "pw_store W = S" "pw_handlers W = [?h]"
    using W by (auto simp: worker_new_def reject_if_def)
  have name: "ph_name ?h = EFFECT_RECOVERY_PROJECTION" by (simp add: EffectRecoveryProjection_def)
  have worker: "worker_ok W hist ?red"
    by (simp add: worker_ok_def w effect_handler_law [of hist, OF streams]
        effect_reduction_sound [of storable hist, OF sound streams])
  obtain n where replay: "replay ?h (effect_reduction serde_error) hist (0, Map.empty) = Inr (n, recovery_records (map fst hist))"
    using effect_replay by blast
  have total: "replayable ?red hist (pw_handlers W) (v(ph_name ?h := (0, Map.empty)))"
    by (simp add: replayable_def w replay)
  have listed: "?h \<in> set (pw_handlers W)" by (simp add: w)
  show ?thesis
  proof (rule after_mono [OF rebuild_exact [OF worker live hold listed total bound, unfolded name]])
    fix t r
    assume "\<exists>rep v'. r = Inr rep \<and> holds t hist v'
      \<and> replay ?h (effect_reduction serde_error) hist (0, Map.empty) = Inr (v' EFFECT_RECOVERY_PROJECTION)
      \<and> replayed ?red hist (pw_handlers W) (v(EFFECT_RECOVERY_PROJECTION := (0, Map.empty))) v' \<and> list_all st_ready (rr_projections rep)"
    then obtain rep v' where *: "r = Inr rep" "holds t hist v'" "list_all st_ready (rr_projections rep)"
      "snd (v' EFFECT_RECOVERY_PROJECTION) = recovery_records (map fst hist)"
      using replay by (metis Inr_inject snd_conv)
    have "after (pending_effects serde_error S limit) t (\<lambda>t' r'.
         r' = Inr (take limit (unfinished_effects (map fst hist))) \<and> holds t' hist v')"
      using pending_effects_exact [OF *(2,4), of serde_error limit] live by (auto elim!: after_mono simp: answer_def)
    then show "\<exists>report v'. r = Inr report \<and> holds t hist v' \<and> list_all st_ready (rr_projections report)
      \<and> snd (v' EFFECT_RECOVERY_PROJECTION) = recovery_records (map fst hist)
      \<and> after (pending_effects serde_error S limit) t (\<lambda>t' r'.
           r' = Inr (take limit (unfinished_effects (map fst hist))) \<and> holds t' hist v')"
      using * by blast
  qed
qed

end

section \<open>The example\<close>

definition effect_event :: NewEvent where
  "effect_event = example_event\<lparr>ne_stream_id := ''effect:1'', ne_event_type := ''effect.started.v1''\<rparr>"

lemma example_pending_stable: "stable_payload example_env (pending_effect_value effect)"
  unfolding pending_effect_value_def json_u64_def by (rule example_stable_object) simp

text \<open>A journal with the start of one effect.\<close>

lemma example_effect_journal:
  "\<exists>s e v. redb_holds example_env s [(e, JStr ''hello'')] v \<and> ev_stream_id e = ''effect:1''
    \<and> ev_event_type e = ''effect.started.v1''"
proof -
  have "after (append_batch example_env [effect_event]) example_journal (\<lambda>s' r. \<exists>persisted. r = Inr persisted
      \<and> \<not> jr_recovery_mode s' \<and> shows_log example_env s' ([] @ persisted) ([] @ [effect_event]))"
    by (rule append_batch_commits [OF example_lawful example_reliable example_shows])
      (simp_all add: effect_event_def example_event_def log_version_def u64_max_def)
  then obtain s es where s: "\<not> jr_recovery_mode s" "shows_log example_env s es [effect_event]"
      "s = fst (append_batch example_env [effect_event] example_journal)"
    by (auto simp: after_run)
  have "length es = 1" using s(2) by (auto simp: shows_log_def dest: list_all2_lengthD)
  then obtain e where es: "es = [e]" by (cases es) auto
  have "represents example_env (jr_payload_protection s) (jr_keys s) e effect_event"
    using s(2) by (simp add: shows_log_def es)
  then have e: "ev_stream_id e = ''effect:1''" "ev_event_type e = ''effect.started.v1''"
    by (simp_all add: represents_def envelope_of_def effect_event_def example_event_def)
  have "journal_holds example_env example_journal [] []"
    by (rule shows_holds [OF example_shows]) (simp_all add: example_env_def)
  from holds_call [OF example_lawful this, of "CallAppend [effect_event]"] obtain es' log' where
      "journal_holds example_env (fst (journal_call example_env (CallAppend [effect_event]) example_journal)) es' log'"
    by (auto simp: effect_event_def example_event_def)
  then have "jr_payload_protection s = kp_payload_protection example_env"
    by (simp add: journal_holds_def s(3) discard_def a_bind_def a_return_def split: prod.splits sum.splits)
  with s(2) have "journal_holds example_env s [e] [effect_event]"
    unfolding es
    by (rule shows_holds) (simp_all add: effect_event_def example_event_def log_version_def)
  then have "redb_holds example_env s [(durable e, JStr ''hello'')] (documents example_env (projection_view (jr_database s)))"
    using s(1) unfolding redb_holds_def
    by (intro exI [of _ "[e]"] exI [of _ "[effect_event]"]) (simp add: u64_max_def effect_event_def example_event_def)
  then show ?thesis
    by (intro exI [of _ s] exI [of _ "durable e"] exI conjI) (simp_all add: e durable_def)
qed

section \<open>Properties\<close>



end
