(* ===== verification/ExternalWorkProperties.thy ===== *)
theory ExternalWorkProperties
  imports ExternalWorkRuns WorkerProperties
begin

text \<open>
  External work over the redb journal: what a consumer sees and acknowledges, and what its failed
  attempts do to the verification of the journal.
\<close>

section \<open>The example\<close>

definition example_clock :: "nat RetryEnv" where
  "example_clock = \<lparr>rt_parse = (\<lambda>s. Some (length s)), rt_is_utc = (\<lambda>_. True), rt_before = (\<le>),
     rt_add_seconds = (+), rt_format = Inr \<circ> tally, rt_serde_error = (\<lambda>_. ''bad'')\<rparr>"

lemma example_consumer [simp]: "consumer_name ''c''"
  by (simp add: consumer_name_def code_chars_def is_ascii_alphanumeric_def is_ascii_alphabetic_def is_ascii_lowercase_def)

text \<open>The journal with one event and a projection reset and, if wanted, advanced.\<close>

lemma example_projection:
  assumes "plain_name p"
  shows "\<exists>s e v. redb_holds example_env s [(e, JStr ''hello'')] v \<and> v p = (0, Map.empty)"
    "\<exists>s e v. redb_holds example_env s [(e, JStr ''hello'')] v \<and> v p = (1, Map.empty)"
proof -
  obtain s e v where hold: "redb_holds example_env s [(e, JStr ''hello'')] v"
    using example_effect_journal by blast
  from example_services.redb.reset_law [OF hold assms] have "after (ps_reset (redb_store example_env) p) s
      (\<lambda>s' r. redb_holds example_env s' [(e, JStr ''hello'')] (v(p := (0, Map.empty))))"
    unfolding after_run using example_reliable by simp
  then obtain s' where s': "redb_holds example_env s' [(e, JStr ''hello'')] (v(p := (0, Map.empty)))"
    unfolding after_run by (rule that)
  then show "\<exists>s e v. redb_holds example_env s [(e, JStr ''hello'')] v \<and> v p = (0, Map.empty)"
    by (intro exI conjI) (assumption, rule fun_upd_same)
  let ?batch = "\<lparr>pb_projection = p, pb_expected_position = 0, pb_through_sequence = 1, pb_mutations = []\<rparr>"
  have sound: "list_all (sound_batch (stable_payload example_env) (length [(e, JStr ''hello'')])) [?batch]"
    using assms by (simp add: sound_batch_def)
  have applied: "apply_views [?batch] (v(p := (0, Map.empty))) = Some (v(p := (1, Map.empty)))"
    by (simp add: advance_def)
  from example_services.redb.apply_law [OF s' sound applied] have "after (ps_apply_all (redb_store example_env) [?batch]) s'
      (\<lambda>t r. redb_holds example_env t [(e, JStr ''hello'')] (v(p := (1, Map.empty))))"
    unfolding after_run using example_reliable by simp
  then show "\<exists>s e v. redb_holds example_env s [(e, JStr ''hello'')] v \<and> v p = (1, Map.empty)"
    unfolding after_run by (intro exI conjI) (assumption, rule fun_upd_same)
qed

section \<open>Properties\<close>

text \<open>C35. External work is delivered in order and never lost: with services that answer, a consumer
  is shown exactly the next events behind its checkpoint, and acknowledging the first \<open>k\<close> of
  them at that checkpoint moves it by \<open>k\<close>, changes no other consumer and no projection, and
  leaves exactly the events behind those as the next pending work.\<close>

theorem external_work_delivered_in_order:
  assumes "lawful en" "reliable en" "redb_holds en s hist v" "consumer_name consumer"
    and "p = EXTERNAL_WORK_PREFIX @ consumer" "0 < limit" "limit \<le> MAX_EXTERNAL_WORK_BATCH"
    and "0 < k" "k \<le> MAX_EXTERNAL_WORK_BATCH" "fst (v p) + k \<le> length hist"
  shows "after (pending_work (redb_queue en) consumer limit) s (\<lambda>t r. r = Inr (items_after hist (fst (v p)) limit))
    \<and> after (acknowledge_batch (redb_queue en) consumer (fst (v p)) (items_after hist (fst (v p)) k)) s (\<lambda>t r.
        r = Inr (fst (v p) + k) \<and> redb_holds en t hist (v(p := (fst (v p) + k, snd (v p))))
        \<and> after (pending_work (redb_queue en) consumer limit) t (\<lambda>t' r'.
            r' = Inr (items_after hist (fst (v p) + k) limit)))"
proof (intro conjI)
  note queue = queue_services.pending_exact [OF redb_queue_services [OF assms(1)] _ assms(4,6,7), folded redb_queue_def]
  show "after (pending_work (redb_queue en) consumer limit) s (\<lambda>t r. r = Inr (items_after hist (fst (v p)) limit))"
    using queue [OF assms(3)] assms(2) by (auto simp: answer_def assms(5) elim!: after_mono)
  let ?v = "v(p := (fst (v p) + k, snd (v p)))"
  have "after (pending_work (redb_queue en) consumer limit) t (\<lambda>t' r'. r' = Inr (items_after hist (fst (v p) + k) limit))"
    if "redb_holds en t hist ?v" for t
    using queue [OF that] assms(2) by (auto simp: answer_def assms(5) elim!: after_mono)
  moreover have "after (acknowledge_batch (redb_queue en) consumer (fst (v p)) (items_after hist (fst (v p)) k)) s
      (\<lambda>t r. r = Inr (fst (v p) + k) \<and> redb_holds en t hist ?v)"
    using queue_services.acknowledge_exact [OF redb_queue_services [OF assms(1)] assms(3,4,8,9), folded redb_queue_def]
      assms(2,10)
    by (simp only: assms(5) simp_thms)
  ultimately show "after (acknowledge_batch (redb_queue en) consumer (fst (v p)) (items_after hist (fst (v p)) k)) s (\<lambda>t r.
        r = Inr (fst (v p) + k) \<and> redb_holds en t hist (v(p := (fst (v p) + k, snd (v p))))
        \<and> after (pending_work (redb_queue en) consumer limit) t (\<lambda>t' r'.
            r' = Inr (items_after hist (fst (v p) + k) limit)))"
    by (blast intro: after_mono)
qed

theorem external_work_delivered_in_order_witness:
  "\<exists>s e. after (pending_work (redb_queue example_env) ''c'' 10) s (\<lambda>t r. r = Inr [work_item e])
    \<and> after (acknowledge_batch (redb_queue example_env) ''c'' 0 [work_item e]) s (\<lambda>t r. r = Inr 1
        \<and> after (pending_work (redb_queue example_env) ''c'' 10) t (\<lambda>t' r'. r' = Inr []))"
proof -
  let ?p = "EXTERNAL_WORK_PREFIX @ ''c''"
  obtain s e v where hold: "redb_holds example_env s [(e, JStr ''hello'')] v" and v: "v ?p = (0, Map.empty)"
    using example_projection(1) [OF consumer_plain(1) [OF example_consumer]] by blast
  show ?thesis
    using external_work_delivered_in_order [OF example_lawful example_reliable hold example_consumer refl, of 10 1]
    by (auto simp: v items_after_def MAX_EXTERNAL_WORK_BATCH_def elim!: after_mono)
qed



end
