(* ===== verification/WorkflowConditions.thy ===== *)
theory WorkflowConditions
  imports SchemaDisclosure Effects
begin

text \<open>
  The conditions of workflows (\<open>colossus-workflow/src/condition.rs\<close>): a tokenizer and a
  recursive-descent parser with bounds on length, tokens, nesting and boolean nodes, and the
  evaluation over a JSON context. The parser accepts every expression within its bounds and
  nothing beyond them.
\<close>

section \<open>Data\<close>

definition MAX_CONDITION_BYTES :: nat where "MAX_CONDITION_BYTES = 16 * 1024"
definition MAX_CONDITION_TOKENS :: nat where "MAX_CONDITION_TOKENS = 4096"
definition MAX_CONDITION_DEPTH :: nat where "MAX_CONDITION_DEPTH = 128"

datatype WorkflowError =
    WfConflict string
  | WfPermissionDenied
  | InvalidDefinition string
  | WfSchema string
  | WfNotFound string
  | InvalidTransition string
  | WfEffect string
  | WfOutcomeUnknown string
  | WfStore StoreError

datatype Compare = CmpEq | CmpNe | CmpGt | CmpGe | CmpLt | CmpLe

datatype Operand = Pointer string | Literal json

datatype Expr =
    ExistsExpr string
  | CompareExpr Operand Compare Operand
  | NotExpr Expr
  | AndExpr Expr Expr
  | OrExpr Expr Expr

datatype Token =
    TExists
  | TPointer string
  | TLiteral json
  | TLParen
  | TRParen
  | TNot
  | TAnd
  | TOr
  | TCompare Compare

text \<open>\<open>serde_json::from_str\<close> and the \<open>Debug\<close> text of a string.\<close>

record ConditionEnv =
  ce_from_str :: "string \<Rightarrow> json option"
  ce_debug :: "string \<Rightarrow> string"

section \<open>Tokens\<close>

definition is_ascii_whitespace :: "char \<Rightarrow> bool" where
  "is_ascii_whitespace c \<longleftrightarrow> code c \<in> {9, 10, 12, 13, 32}"

text \<open>Up to white space or an operator.\<close>

fun word_length :: "string \<Rightarrow> nat" where
  "word_length [] = 0"
| "word_length (c # s) =
     (if white_space_len (map code (c # s)) \<noteq> 0 \<or> c \<in> set ''()!=<>&|'' then 0 else Suc (word_length s))"

text \<open>From behind the opening quote, the length up to and with the closing one.\<close>

fun quoted_length :: "bool \<Rightarrow> string \<Rightarrow> nat option" where
  "quoted_length escaped [] = None"
| "quoted_length escaped (c # s) =
     (if escaped then map_option Suc (quoted_length False s)
      else if c = CHR 0x5C then map_option Suc (quoted_length True s)
      else if c = CHR 0x22 then Some 1
      else map_option Suc (quoted_length False s))"

definition json_string_length :: "string \<Rightarrow> (WorkflowError, nat) result" where
  "json_string_length source = (case quoted_length False (tl source) of
       Some n \<Rightarrow> Inr (n + 1) | None \<Rightarrow> Inl (InvalidDefinition ''unterminated JSON string in condition''))"

text \<open>An empty text is not a JSON document.\<close>

definition parse_literal :: "ConditionEnv \<Rightarrow> string \<Rightarrow> (WorkflowError, json) result" where
  "parse_literal env text =
     ok_or (InvalidDefinition (''condition literal '' @ ce_debug env text @ '' is not JSON''))
       (if text = [] then None else ce_from_str env text)"

definition next_token :: "ConditionEnv \<Rightarrow> string \<Rightarrow> (WorkflowError, Token \<times> nat) result" where
  "next_token env rest =
     (if starts_with ''exists'' rest then Inr (TExists, 6)
      else if starts_with ''&&'' rest then Inr (TAnd, 2)
      else if starts_with ''||'' rest then Inr (TOr, 2)
      else if starts_with ''=='' rest then Inr (TCompare CmpEq, 2)
      else if starts_with ''!='' rest then Inr (TCompare CmpNe, 2)
      else if starts_with ''>='' rest then Inr (TCompare CmpGe, 2)
      else if starts_with ''<='' rest then Inr (TCompare CmpLe, 2)
      else if starts_with ''!'' rest then Inr (TNot, 1)
      else if starts_with ''>'' rest then Inr (TCompare CmpGt, 1)
      else if starts_with ''<'' rest then Inr (TCompare CmpLt, 1)
      else if starts_with ''('' rest then Inr (TLParen, 1)
      else if starts_with '')'' rest then Inr (TRParen, 1)
      else if starts_with ''/'' rest then Inr (TPointer (take (word_length rest) rest), word_length rest)
      else bind_r (if starts_with [CHR 0x22] rest then json_string_length rest else Inr (word_length rest)) (\<lambda>n.
           bind_r (parse_literal env (take n rest)) (\<lambda>literal.
           Inr (TLiteral literal, n))))"

lemma next_token_consumes: "next_token env rest = Inr (token, n) \<Longrightarrow> 0 < n"
proof -
  have "white_space_len (47 # t) = 0" for t
    by (cases t; cases "tl t") simp_all
  then have "word_length (CHR ''/'' # t) = Suc (word_length t)" for t
    by simp
  then have "0 < word_length rest" if "starts_with ''/'' rest"
    using that by (auto simp: prefix_def simp del: word_length.simps)
  moreover have "0 < n" if "parse_literal env (take n rest) = Inr literal" for n literal
    using that by (cases n) (simp_all add: parse_literal_def)
  ultimately show "next_token env rest = Inr (token, n) \<Longrightarrow> 0 < n"
    unfolding next_token_def by (auto simp: bind_r_Inr_iff split: if_splits)
qed

lemma bind_r_cong [fundef_cong]:
  "m = m' \<Longrightarrow> (\<And>x. m' = Inr x \<Longrightarrow> f x = g x) \<Longrightarrow> bind_r m f = bind_r m' g"
  by (cases m') simp_all

function tokenize_from :: "ConditionEnv \<Rightarrow> string \<Rightarrow> (WorkflowError, Token list) result" where
  "tokenize_from env rest = (case rest of
       [] \<Rightarrow> Inr []
     | c # s \<Rightarrow>
         if is_ascii_whitespace c then tokenize_from env s
         else bind_r (next_token env rest) (\<lambda>(token, n).
              bind_r (tokenize_from env (drop n rest)) (\<lambda>tokens. Inr (token # tokens))))"
  by pat_completeness auto

termination
  by (relation "measure (length \<circ> snd)") (auto dest!: next_token_consumes)

declare tokenize_from.simps [simp del]

definition tokenize :: "ConditionEnv \<Rightarrow> string \<Rightarrow> (WorkflowError, Token list) result" where
  "tokenize env source =
     bind_r (tokenize_from env source) (\<lambda>tokens.
     if tokens = [] then Inl (InvalidDefinition ''condition cannot be empty'') else Inr tokens)"

section \<open>The parser\<close>

text \<open>The tokens not yet read and the boolean nodes so far. The nesting depth, which every nested
  call restores, is an argument.\<close>

type_synonym parser = "Token list \<times> nat"

definition consume :: "Token \<Rightarrow> parser \<Rightarrow> parser option" where
  "consume expected s = (case fst s of
       t # rest \<Rightarrow> if t = expected then Some (rest, snd s) else None | [] \<Rightarrow> None)"

definition invalid :: "string \<Rightarrow> (WorkflowError, 'a) result" where
  "invalid message = Inl (InvalidDefinition message)"

definition add_boolean_node :: "parser \<Rightarrow> (WorkflowError, parser) result" where
  "add_boolean_node s =
     (if snd s \<ge> MAX_CONDITION_DEPTH
      then invalid (''condition boolean complexity exceeds '' @ nat_text MAX_CONDITION_DEPTH @ '' nodes'')
      else Inr (fst s, snd s + 1))"

definition check_nesting :: "nat \<Rightarrow> (WorkflowError, unit) result" where
  "check_nesting depth =
     (if depth \<ge> MAX_CONDITION_DEPTH
      then invalid (''condition nesting exceeds '' @ nat_text MAX_CONDITION_DEPTH @ '' levels'')
      else Inr ())"

definition parse_operand :: "parser \<Rightarrow> (WorkflowError, Operand \<times> parser) result" where
  "parse_operand s = (case fst s of
       TPointer p # rest \<Rightarrow> Inr (Pointer p, (rest, snd s))
     | TLiteral v # rest \<Rightarrow> Inr (Literal v, (rest, snd s))
     | _ \<Rightarrow> invalid ''condition comparison operand is missing'')"

definition next_compare :: "parser \<Rightarrow> (WorkflowError, Compare \<times> parser) result" where
  "next_compare s = (case fst s of
       TCompare c # rest \<Rightarrow> Inr (c, (rest, snd s))
     | _ \<Rightarrow> invalid ''conditions must use exists or an explicit comparison'')"

definition parse_comparison :: "parser \<Rightarrow> (WorkflowError, Expr \<times> parser) result" where
  "parse_comparison s =
     bind_r (parse_operand s) (\<lambda>(left, s).
     bind_r (next_compare s) (\<lambda>(comparison, s).
     bind_r (parse_operand s) (\<lambda>(right, s).
     Inr (CompareExpr left comparison right, s))))"

definition next_pointer :: "parser \<Rightarrow> (WorkflowError, string \<times> parser) result" where
  "next_pointer s = (case fst s of
       TPointer p # rest \<Rightarrow> Inr (p, (rest, snd s))
     | _ \<Rightarrow> invalid ''exists requires a JSON pointer'')"

definition parse_exists :: "parser \<Rightarrow> (WorkflowError, Expr \<times> parser) result" where
  "parse_exists s =
     bind_r (ok_or (InvalidDefinition ''exists requires parentheses'') (consume TLParen s)) (\<lambda>s.
     bind_r (next_pointer s) (\<lambda>(pointer, s).
     bind_r (ok_or (InvalidDefinition ''exists is missing a closing parenthesis'') (consume TRParen s)) (\<lambda>s.
     Inr (ExistsExpr pointer, s))))"

text \<open>What each step reads.\<close>

lemma consume_Some: "consume t s = Some s' \<longleftrightarrow> fst s = t # fst s' \<and> snd s' = snd s"
  by (cases s; cases s') (auto simp: consume_def split: list.split)

lemma add_node_Inr: "add_boolean_node s = Inr s' \<longleftrightarrow> snd s < MAX_CONDITION_DEPTH \<and> s' = (fst s, Suc (snd s))"
  by (auto simp: add_boolean_node_def invalid_def)

lemma check_nesting_Inr: "check_nesting depth = Inr u \<longleftrightarrow> depth < MAX_CONDITION_DEPTH"
  by (auto simp: check_nesting_def invalid_def)

definition operand_token :: "Operand \<Rightarrow> Token" where
  "operand_token operand = (case operand of Pointer p \<Rightarrow> TPointer p | Literal v \<Rightarrow> TLiteral v)"

lemma parse_operand_Inr:
  "parse_operand s = Inr (operand, s') \<longleftrightarrow> snd s' = snd s \<and> fst s = operand_token operand # fst s'"
  by (cases s; cases s') (auto simp: parse_operand_def operand_token_def invalid_def split: list.split Token.split Operand.split)

lemma next_compare_Inr: "next_compare s = Inr (c, s') \<longleftrightarrow> fst s = TCompare c # fst s' \<and> snd s' = snd s"
  by (cases s; cases s') (auto simp: next_compare_def invalid_def split: list.split Token.split)

lemma next_pointer_Inr: "next_pointer s = Inr (p, s') \<longleftrightarrow> fst s = TPointer p # fst s' \<and> snd s' = snd s"
  by (cases s; cases s') (auto simp: next_pointer_def invalid_def split: list.split Token.split)

lemma parse_comparison_Inr:
  "parse_comparison s = Inr (e, s') \<longleftrightarrow> (\<exists>l c r. e = CompareExpr l c r \<and> snd s' = snd s
     \<and> fst s = operand_token l # TCompare c # operand_token r # fst s')"
  by (cases s') (auto simp: parse_comparison_def bind_r_Inr_iff parse_operand_Inr next_compare_Inr)

lemma parse_exists_Inr:
  "parse_exists s = Inr (e, s') \<longleftrightarrow> (\<exists>p. e = ExistsExpr p \<and> snd s' = snd s
     \<and> fst s = TLParen # TPointer p # TRParen # fst s')"
  by (cases s') (auto simp: parse_exists_def bind_r_Inr_iff ok_or_Inr_iff consume_Some next_pointer_Inr)

function parse_or :: "nat \<Rightarrow> parser \<Rightarrow> (WorkflowError, Expr \<times> parser) result"
  and or_loop :: "nat \<Rightarrow> Expr \<Rightarrow> parser \<Rightarrow> (WorkflowError, Expr \<times> parser) result"
  and parse_and :: "nat \<Rightarrow> parser \<Rightarrow> (WorkflowError, Expr \<times> parser) result"
  and and_loop :: "nat \<Rightarrow> Expr \<Rightarrow> parser \<Rightarrow> (WorkflowError, Expr \<times> parser) result"
  and parse_unary :: "nat \<Rightarrow> parser \<Rightarrow> (WorkflowError, Expr \<times> parser) result" where
  "parse_or depth s = bind_r (parse_and depth s) (\<lambda>(e, s). or_loop depth e s)"
| "or_loop depth e s = (case consume TOr s of
       None \<Rightarrow> Inr (e, s)
     | Some s \<Rightarrow> bind_r (add_boolean_node s) (\<lambda>s. bind_r (parse_and depth s) (\<lambda>(right, s).
         or_loop depth (OrExpr e right) s)))"
| "parse_and depth s = bind_r (parse_unary depth s) (\<lambda>(e, s). and_loop depth e s)"
| "and_loop depth e s = (case consume TAnd s of
       None \<Rightarrow> Inr (e, s)
     | Some s \<Rightarrow> bind_r (add_boolean_node s) (\<lambda>s. bind_r (parse_unary depth s) (\<lambda>(right, s).
         and_loop depth (AndExpr e right) s)))"
| "parse_unary depth s = (case consume TNot s of
       Some s \<Rightarrow> bind_r (add_boolean_node s) (\<lambda>s. bind_r (check_nesting depth) (\<lambda>_.
         bind_r (parse_unary (Suc depth) s) (\<lambda>(e, s). Inr (NotExpr e, s))))
     | None \<Rightarrow> (case consume TLParen s of
         Some s \<Rightarrow> bind_r (check_nesting depth) (\<lambda>_. bind_r (parse_or (Suc depth) s) (\<lambda>(e, s).
           bind_r (ok_or (InvalidDefinition ''condition is missing a closing parenthesis'') (consume TRParen s)) (\<lambda>s.
           Inr (e, s))))
       | None \<Rightarrow> (case consume TExists s of
           Some s \<Rightarrow> parse_exists s
         | None \<Rightarrow> parse_comparison s)))"
  by pat_completeness auto

text \<open>Every step that succeeds has read tokens, so parsing ends.\<close>

lemma parser_reads:
  "parse_or_or_loop_parse_and_and_loop_parse_unary_dom (Inl (Inl (d, s)))
    \<Longrightarrow> \<forall>e s'. parse_or d s = Inr (e, s') \<longrightarrow> length (fst s') < length (fst s)"
  "parse_or_or_loop_parse_and_and_loop_parse_unary_dom (Inl (Inr (d, x, s)))
    \<Longrightarrow> \<forall>e s'. or_loop d x s = Inr (e, s') \<longrightarrow> length (fst s') \<le> length (fst s)"
  "parse_or_or_loop_parse_and_and_loop_parse_unary_dom (Inr (Inl (d, s)))
    \<Longrightarrow> \<forall>e s'. parse_and d s = Inr (e, s') \<longrightarrow> length (fst s') < length (fst s)"
  "parse_or_or_loop_parse_and_and_loop_parse_unary_dom (Inr (Inr (Inl (d, x, s))))
    \<Longrightarrow> \<forall>e s'. and_loop d x s = Inr (e, s') \<longrightarrow> length (fst s') \<le> length (fst s)"
  "parse_or_or_loop_parse_and_and_loop_parse_unary_dom (Inr (Inr (Inr (d, s))))
    \<Longrightarrow> \<forall>e s'. parse_unary d s = Inr (e, s') \<longrightarrow> length (fst s') < length (fst s)"
proof (induction rule: parse_or_or_loop_parse_and_and_loop_parse_unary.pinduct)
  case (1 d s)
  then show ?case
    by (auto simp: parse_or.psimps bind_r_Inr_iff) fastforce
next
  case (2 d x s)
  then show ?case
    by (auto simp: or_loop.psimps bind_r_Inr_iff consume_Some add_node_Inr split: option.splits) fastforce
next
  case (3 d s)
  then show ?case
    by (auto simp: parse_and.psimps bind_r_Inr_iff) fastforce
next
  case (4 d x s)
  then show ?case
    by (auto simp: and_loop.psimps bind_r_Inr_iff consume_Some add_node_Inr split: option.splits) fastforce
next
  case (5 d s)
  then show ?case
    by (auto simp: parse_unary.psimps bind_r_Inr_iff consume_Some add_node_Inr check_nesting_Inr ok_or_Inr_iff
        parse_comparison_Inr parse_exists_Inr split: option.splits)
qed

termination parse_or
proof (relation "measure (\<lambda>x. case x of
    Inl (Inl (_, s)) \<Rightarrow> 3 * length (fst s) + 2
  | Inl (Inr (_, _, s)) \<Rightarrow> 3 * length (fst s)
  | Inr (Inl (_, s)) \<Rightarrow> 3 * length (fst s) + 1
  | Inr (Inr (Inl (_, _, s))) \<Rightarrow> 3 * length (fst s)
  | Inr (Inr (Inr (_, s))) \<Rightarrow> 3 * length (fst s))", simp, goal_cases)
  case (2 d s x e s')
  then show ?case using parser_reads(3) [of d s] by fastforce
qed (auto simp: consume_Some add_node_Inr dest: parser_reads)

declare parse_or.simps [simp del] or_loop.simps [simp del] parse_and.simps [simp del] and_loop.simps [simp del]
  parse_unary.simps [simp del]

definition parse_tokens :: "Token list \<Rightarrow> (WorkflowError, Expr) result" where
  "parse_tokens tokens =
     bind_r (if length tokens > MAX_CONDITION_TOKENS
       then invalid (''condition exceeds '' @ nat_text MAX_CONDITION_TOKENS @ '' tokens'') else Inr ()) (\<lambda>_.
     bind_r (parse_or 0 (tokens, 0)) (\<lambda>(e, s).
     if fst s \<noteq> [] then invalid ''condition has trailing tokens'' else Inr e))"

definition condition_parse :: "ConditionEnv \<Rightarrow> string \<Rightarrow> (WorkflowError, Expr) result" where
  "condition_parse env source =
     (if length source > MAX_CONDITION_BYTES
      then invalid (''condition exceeds '' @ nat_text MAX_CONDITION_BYTES @ '' bytes'')
      else bind_r (tokenize env source) parse_tokens)"

section \<open>The grammar\<close>

text \<open>The phrases of each level, with the nesting depth at which they stand.\<close>

inductive or_phrase :: "nat \<Rightarrow> Expr \<Rightarrow> Token list \<Rightarrow> bool"
  and and_phrase :: "nat \<Rightarrow> Expr \<Rightarrow> Token list \<Rightarrow> bool"
  and unary_phrase :: "nat \<Rightarrow> Expr \<Rightarrow> Token list \<Rightarrow> bool" where
  or_node: "or_phrase d l ts \<Longrightarrow> and_phrase d r us \<Longrightarrow> or_phrase d (OrExpr l r) (ts @ TOr # us)"
| or_and: "and_phrase d e ts \<Longrightarrow> or_phrase d e ts"
| and_node: "and_phrase d l ts \<Longrightarrow> unary_phrase d r us \<Longrightarrow> and_phrase d (AndExpr l r) (ts @ TAnd # us)"
| and_unary: "unary_phrase d e ts \<Longrightarrow> and_phrase d e ts"
| not_node: "d < 128 \<Longrightarrow> unary_phrase (Suc d) e ts \<Longrightarrow> unary_phrase d (NotExpr e) (TNot # ts)"
| parentheses: "d < 128 \<Longrightarrow> or_phrase (Suc d) e ts \<Longrightarrow> unary_phrase d e (TLParen # ts @ [TRParen])"
| exists_node: "unary_phrase d (ExistsExpr p) [TExists, TLParen, TPointer p, TRParen]"
| compare_node: "unary_phrase d (CompareExpr l c r) [operand_token l, TCompare c, operand_token r]"

fun boolean_nodes :: "Expr \<Rightarrow> nat" where
  "boolean_nodes (NotExpr e) = Suc (boolean_nodes e)"
| "boolean_nodes (AndExpr l r) = Suc (boolean_nodes l + boolean_nodes r)"
| "boolean_nodes (OrExpr l r) = Suc (boolean_nodes l + boolean_nodes r)"
| "boolean_nodes _ = 0"

text \<open>What a parser reads is a phrase, and the nodes are counted.\<close>

definition reads_phrase :: "(Token list \<Rightarrow> bool) \<Rightarrow> nat \<Rightarrow> parser \<Rightarrow> parser \<Rightarrow> bool" where
  "reads_phrase P n s s' \<longleftrightarrow> (\<exists>ts. fst s = ts @ fst s' \<and> P ts) \<and> snd s' = snd s + n
     \<and> (snd s \<le> MAX_CONDITION_DEPTH \<longrightarrow> snd s' \<le> MAX_CONDITION_DEPTH)"

lemma MAX_128: "MAX_CONDITION_DEPTH = 128"
  by (simp add: MAX_CONDITION_DEPTH_def)

lemma reads_then:
  assumes "reads_phrase P n s t" "reads_phrase Q m t s'" "\<And>ts us. P ts \<Longrightarrow> Q us \<Longrightarrow> R (ts @ us)"
  shows "reads_phrase R (n + m) s s'"
  using assms unfolding reads_phrase_def by (metis (no_types, lifting) add.assoc append.assoc)

lemma reads_token: "consume t s = Some s' \<Longrightarrow> reads_phrase (\<lambda>ts. ts = [t]) 0 s s'"
  by (simp add: consume_Some reads_phrase_def)

lemma reads_node: "add_boolean_node s = Inr s' \<Longrightarrow> reads_phrase (\<lambda>ts. ts = []) 1 s s'"
  by (simp add: add_node_Inr reads_phrase_def)

lemma reads_nothing: "P [] \<Longrightarrow> reads_phrase P 0 s s"
  by (simp add: reads_phrase_def)

lemma reads_mono: "reads_phrase P n s s' \<Longrightarrow> (\<And>ts. P ts \<Longrightarrow> Q ts) \<Longrightarrow> reads_phrase Q n s s'"
  by (auto simp: reads_phrase_def)

lemma parser_sound:
  "\<forall>e s'. parse_or d s = Inr (e, s') \<longrightarrow> reads_phrase (or_phrase d e) (boolean_nodes e) s s'"
  "\<forall>e s'. or_loop d x s = Inr (e, s') \<longrightarrow> (\<exists>n. boolean_nodes e = boolean_nodes x + n
     \<and> reads_phrase (\<lambda>ts. \<forall>xs. or_phrase d x xs \<longrightarrow> or_phrase d e (xs @ ts)) n s s')"
  "\<forall>e s'. parse_and d s = Inr (e, s') \<longrightarrow> reads_phrase (and_phrase d e) (boolean_nodes e) s s'"
  "\<forall>e s'. and_loop d x s = Inr (e, s') \<longrightarrow> (\<exists>n. boolean_nodes e = boolean_nodes x + n
     \<and> reads_phrase (\<lambda>ts. \<forall>xs. and_phrase d x xs \<longrightarrow> and_phrase d e (xs @ ts)) n s s')"
  "\<forall>e s'. parse_unary d s = Inr (e, s') \<longrightarrow> reads_phrase (unary_phrase d e) (boolean_nodes e) s s'"
proof (induction d s and d x s and d s and d x s and d s rule: parse_or_or_loop_parse_and_and_loop_parse_unary.induct)
  case (1 d s)
  show ?case
  proof (intro allI impI)
    fix e s' assume "parse_or d s = Inr (e, s')"
    then obtain x t where *: "parse_and d s = Inr (x, t)" "or_loop d x t = Inr (e, s')"
      by (auto simp: parse_or.simps bind_r_Inr_iff)
    have first: "reads_phrase (and_phrase d x) (boolean_nodes x) s t" using 1(1) *(1) by blast
    obtain n where n: "boolean_nodes e = boolean_nodes x + n"
        "reads_phrase (\<lambda>ts. \<forall>xs. or_phrase d x xs \<longrightarrow> or_phrase d e (xs @ ts)) n t s'"
      using 1(2) [OF *(1) refl] *(2) by blast
    show "reads_phrase (or_phrase d e) (boolean_nodes e) s s'"
      unfolding n(1) by (rule reads_then [OF first n(2)]) (blast intro: or_and)
  qed
next
  case (2 d x s)
  show ?case
  proof (intro allI impI)
    fix e s' assume *: "or_loop d x s = Inr (e, s')"
    show "\<exists>n. boolean_nodes e = boolean_nodes x + n
      \<and> reads_phrase (\<lambda>ts. \<forall>xs. or_phrase d x xs \<longrightarrow> or_phrase d e (xs @ ts)) n s s'"
    proof (cases "consume TOr s")
      case None
      then show ?thesis using * by (auto simp: or_loop.simps intro!: exI [of _ 0] reads_nothing)
    next
      case (Some s1)
      then obtain s2 r s3 where r: "add_boolean_node s1 = Inr s2" "parse_and d s2 = Inr (r, s3)"
          "or_loop d (OrExpr x r) s3 = Inr (e, s')"
        using * by (auto simp: or_loop.simps bind_r_Inr_iff)
      have right: "reads_phrase (and_phrase d r) (boolean_nodes r) s2 s3" using 2(1) [OF Some r(1)] r(2) by blast
      obtain n where n: "boolean_nodes e = boolean_nodes (OrExpr x r) + n"
          "reads_phrase (\<lambda>ts. \<forall>xs. or_phrase d (OrExpr x r) xs \<longrightarrow> or_phrase d e (xs @ ts)) n s3 s'"
        using 2(2) [OF Some r(1,2) refl] r(3) by blast
      have "reads_phrase (\<lambda>ts. \<exists>us. ts = TOr # us \<and> and_phrase d r us) (0 + (1 + boolean_nodes r)) s s3"
        by (rule reads_then [OF reads_token [OF Some] reads_then [OF reads_node [OF r(1)] right]]) (auto intro: refl)
      from reads_then [OF this n(2), of "\<lambda>ts. \<forall>xs. or_phrase d x xs \<longrightarrow> or_phrase d e (xs @ ts)"] show ?thesis
        using n(1) by (intro exI [of _ "0 + (1 + boolean_nodes r) + n"]) (fastforce intro: or_node)
    qed
  qed
next
  case (3 d s)
  show ?case
  proof (intro allI impI)
    fix e s' assume "parse_and d s = Inr (e, s')"
    then obtain x t where *: "parse_unary d s = Inr (x, t)" "and_loop d x t = Inr (e, s')"
      by (auto simp: parse_and.simps bind_r_Inr_iff)
    have first: "reads_phrase (unary_phrase d x) (boolean_nodes x) s t" using 3(1) *(1) by blast
    obtain n where n: "boolean_nodes e = boolean_nodes x + n"
        "reads_phrase (\<lambda>ts. \<forall>xs. and_phrase d x xs \<longrightarrow> and_phrase d e (xs @ ts)) n t s'"
      using 3(2) [OF *(1) refl] *(2) by blast
    show "reads_phrase (and_phrase d e) (boolean_nodes e) s s'"
      unfolding n(1) by (rule reads_then [OF first n(2)]) (blast intro: and_unary)
  qed
next
  case (4 d x s)
  show ?case
  proof (intro allI impI)
    fix e s' assume *: "and_loop d x s = Inr (e, s')"
    show "\<exists>n. boolean_nodes e = boolean_nodes x + n
      \<and> reads_phrase (\<lambda>ts. \<forall>xs. and_phrase d x xs \<longrightarrow> and_phrase d e (xs @ ts)) n s s'"
    proof (cases "consume TAnd s")
      case None
      then show ?thesis using * by (auto simp: and_loop.simps intro!: exI [of _ 0] reads_nothing)
    next
      case (Some s1)
      then obtain s2 r s3 where r: "add_boolean_node s1 = Inr s2" "parse_unary d s2 = Inr (r, s3)"
          "and_loop d (AndExpr x r) s3 = Inr (e, s')"
        using * by (auto simp: and_loop.simps bind_r_Inr_iff)
      have right: "reads_phrase (unary_phrase d r) (boolean_nodes r) s2 s3" using 4(1) [OF Some r(1)] r(2) by blast
      obtain n where n: "boolean_nodes e = boolean_nodes (AndExpr x r) + n"
          "reads_phrase (\<lambda>ts. \<forall>xs. and_phrase d (AndExpr x r) xs \<longrightarrow> and_phrase d e (xs @ ts)) n s3 s'"
        using 4(2) [OF Some r(1,2) refl] r(3) by blast
      have "reads_phrase (\<lambda>ts. \<exists>us. ts = TAnd # us \<and> unary_phrase d r us) (0 + (1 + boolean_nodes r)) s s3"
        by (rule reads_then [OF reads_token [OF Some] reads_then [OF reads_node [OF r(1)] right]]) (auto intro: refl)
      from reads_then [OF this n(2), of "\<lambda>ts. \<forall>xs. and_phrase d x xs \<longrightarrow> and_phrase d e (xs @ ts)"] show ?thesis
        using n(1) by (intro exI [of _ "0 + (1 + boolean_nodes r) + n"]) (fastforce intro: and_node)
    qed
  qed
next
  case (5 d s)
  show ?case
  proof (intro allI impI)
    fix e s' assume *: "parse_unary d s = Inr (e, s')"
    consider (negation) s1 where "consume TNot s = Some s1"
      | (group) s1 where "consume TNot s = None" "consume TLParen s = Some s1"
      | (atom) "consume TNot s = None" "consume TLParen s = None" by (cases "consume TNot s"; cases "consume TLParen s") auto
    then show "reads_phrase (unary_phrase d e) (boolean_nodes e) s s'"
    proof cases
      case negation
      then obtain s2 x where x: "add_boolean_node s1 = Inr s2" "check_nesting d = Inr ()" "parse_unary (Suc d) s2 = Inr (x, s')"
          "e = NotExpr x"
        using * by (auto simp: parse_unary.simps bind_r_Inr_iff)
      then have "reads_phrase (unary_phrase (Suc d) x) (boolean_nodes x) s2 s'" using 5(2) [OF negation] by blast
      then have "reads_phrase (unary_phrase (Suc d) x) (1 + boolean_nodes x) s1 s'"
        by (rule reads_then [OF reads_node [OF x(1)]]) simp
      then have "reads_phrase (unary_phrase d e) (0 + (1 + boolean_nodes x)) s s'"
        by (rule reads_then [OF reads_token [OF negation]])
          (use x(2) in \<open>simp add: x(4) check_nesting_Inr MAX_128 not_node\<close>)
      then show ?thesis by (simp add: x(4))
    next
      case group
      then obtain s2 where x: "check_nesting d = Inr ()" "parse_or (Suc d) s1 = Inr (e, s2)" "consume TRParen s2 = Some s'"
        using * by (auto simp: parse_unary.simps bind_r_Inr_iff ok_or_Inr_iff)
      then have "reads_phrase (or_phrase (Suc d) e) (boolean_nodes e) s1 s2" using 5(1) [OF group] by blast
      then have "reads_phrase (\<lambda>us. unary_phrase d e (TLParen # us)) (boolean_nodes e + 0) s1 s'"
        by (rule reads_then [OF _ reads_token [OF x(3)]])
          (use x(1) in \<open>simp add: check_nesting_Inr MAX_128 parentheses [simplified]\<close>)
      then have "reads_phrase (unary_phrase d e) (0 + (boolean_nodes e + 0)) s s'"
        by (rule reads_then [OF reads_token [OF group(2)]]) simp
      then show ?thesis by simp
    next
      case atom
      then show ?thesis
        using * by (auto simp: parse_unary.simps parse_exists_Inr parse_comparison_Inr consume_Some reads_phrase_def
            intro: exists_node compare_node split: option.splits)
    qed
  qed
qed

text \<open>Every phrase is read, up to a token that continues it.\<close>

definition continues :: "Token \<Rightarrow> Token list \<Rightarrow> bool" where
  "continues t rest \<longleftrightarrow> (\<exists>ts. rest = t # ts)"

lemma consume_Cons [simp]: "consume t (u # rest, c) = (if u = t then Some (rest, c) else None)"
  by (simp add: consume_def)

lemma consume_other [simp]: "\<not> continues t rest \<Longrightarrow> consume t (rest, c) = None"
  by (cases rest) (auto simp: continues_def consume_def)

lemma operand_token_plain [simp]:
  "operand_token operand \<noteq> TNot" "operand_token operand \<noteq> TLParen" "operand_token operand \<noteq> TExists"
  by (simp_all add: operand_token_def split: Operand.split)

lemma parser_complete:
  "or_phrase d e ts \<Longrightarrow> \<forall>rest c. c + boolean_nodes e \<le> 128 \<longrightarrow> \<not> continues TAnd rest \<longrightarrow>
     parse_or d (ts @ rest, c) = or_loop d e (rest, c + boolean_nodes e)"
  "and_phrase d e ts \<Longrightarrow> \<forall>rest c. c + boolean_nodes e \<le> 128 \<longrightarrow>
     parse_and d (ts @ rest, c) = and_loop d e (rest, c + boolean_nodes e)"
  "unary_phrase d e ts \<Longrightarrow> \<forall>rest c. c + boolean_nodes e \<le> 128 \<longrightarrow>
     parse_unary d (ts @ rest, c) = Inr (e, (rest, c + boolean_nodes e))"
proof (induction rule: or_phrase_and_phrase_unary_phrase.inducts)
  case (or_node d l ts r us)
  have loop: "and_loop d r (rest, c) = Inr (r, (rest, c))" if "\<not> continues TAnd rest" for rest c
    using that by (simp add: and_loop.simps)
  show ?case
  proof (intro allI impI)
    fix rest c assume c: "c + boolean_nodes (OrExpr l r) \<le> 128" and rest: "\<not> continues TAnd rest"
    have "parse_or d (ts @ TOr # us @ rest, c) = or_loop d l (TOr # us @ rest, c + boolean_nodes l)"
      using or_node.IH(1) c by (simp add: continues_def)
    also have "\<dots> = or_loop d (OrExpr l r) (rest, c + boolean_nodes (OrExpr l r))"
      using or_node.IH(2) c by (subst or_loop.simps) (simp add: add_boolean_node_def MAX_128 loop [OF rest] add.assoc)
    finally show "parse_or d ((ts @ TOr # us) @ rest, c) = or_loop d (OrExpr l r) (rest, c + boolean_nodes (OrExpr l r))"
      by simp
  qed
next
  case (or_and d e ts)
  have loop: "and_loop d e (rest, c) = Inr (e, (rest, c))" if "\<not> continues TAnd rest" for rest c
    using that by (simp add: and_loop.simps)
  then show ?case using or_and.IH by (simp add: parse_or.simps)
next
  case (and_node d l ts r us)
  show ?case
  proof (intro allI impI)
    fix rest c assume c: "c + boolean_nodes (AndExpr l r) \<le> 128"
    have "parse_and d (ts @ TAnd # us @ rest, c) = and_loop d l (TAnd # us @ rest, c + boolean_nodes l)"
      using and_node.IH(1) c by simp
    also have "\<dots> = and_loop d (AndExpr l r) (rest, c + boolean_nodes (AndExpr l r))"
      using and_node.IH(2) c by (subst and_loop.simps) (simp add: add_boolean_node_def MAX_128 add.assoc)
    finally show "parse_and d ((ts @ TAnd # us) @ rest, c) = and_loop d (AndExpr l r) (rest, c + boolean_nodes (AndExpr l r))"
      by simp
  qed
next
  case (and_unary d e ts)
  then show ?case by (simp add: parse_and.simps)
next
  case (not_node d e ts)
  then show ?case
    by (subst parse_unary.simps) (simp add: add_boolean_node_def check_nesting_def MAX_128)
next
  case (parentheses d e ts)
  have loop: "or_loop d e (TRParen # rest, c) = Inr (e, (TRParen # rest, c))" for d rest c
    by (simp add: or_loop.simps)
  from parentheses show ?case
    by (subst parse_unary.simps) (simp add: check_nesting_def MAX_128 loop continues_def)
next
  case (exists_node d p)
  show ?case
    by (subst parse_unary.simps) (simp add: parse_exists_def next_pointer_def)
next
  case (compare_node d l c r)
  have "parse_comparison (operand_token l # TCompare c # operand_token r # rest, n) = Inr (CompareExpr l c r, (rest, n))" for rest n
    by (simp add: parse_comparison_Inr)
  then show ?case by (subst parse_unary.simps) simp
qed

text \<open>The grammar is unambiguous within the bounds, because the parser is a function.\<close>

lemma parse_or_iff:
  "(\<exists>c. parse_or 0 (tokens, 0) = Inr (e, ([], c))) \<longleftrightarrow> boolean_nodes e \<le> 128 \<and> or_phrase 0 e tokens"
proof
  assume "\<exists>c. parse_or 0 (tokens, 0) = Inr (e, ([], c))"
  then obtain c where "parse_or 0 (tokens, 0) = Inr (e, ([], c))" ..
  then have "reads_phrase (or_phrase 0 e) (boolean_nodes e) (tokens, 0) ([], c)" using parser_sound(1) by blast
  then show "boolean_nodes e \<le> 128 \<and> or_phrase 0 e tokens" by (auto simp: reads_phrase_def MAX_128)
next
  assume "boolean_nodes e \<le> 128 \<and> or_phrase 0 e tokens"
  moreover have "or_loop 0 e ([], c) = Inr (e, ([], c))" for c by (simp add: or_loop.simps consume_def)
  ultimately show "\<exists>c. parse_or 0 (tokens, 0) = Inr (e, ([], c))"
    using parser_complete(1) [THEN spec, THEN spec, of 0 e tokens 0 "[]"] by (simp add: continues_def)
qed

lemma parse_tokens_iff:
  "parse_tokens tokens = Inr e
     \<longleftrightarrow> length tokens \<le> MAX_CONDITION_TOKENS \<and> (\<exists>c. parse_or 0 (tokens, 0) = Inr (e, ([], c)))"
  by (auto simp: parse_tokens_def bind_r_Inr_iff invalid_def split: if_splits)

section \<open>Evaluation\<close>

text \<open>\<open>as_f64\<close> rounds to the nearest double, ties to even. Finite doubles are ordered as their bits
  read with a sign and a magnitude.\<close>

fun bit_length :: "nat \<Rightarrow> nat" where
  "bit_length n = (if n = 0 then 0 else Suc (bit_length (n div 2)))"

declare bit_length.simps [simp del]

definition round_half_even :: "nat \<Rightarrow> nat \<Rightarrow> nat" where
  "round_half_even n k = (let q = n div 2 ^ k; r = n mod 2 ^ k
     in if 2 * r > 2 ^ k \<or> 2 * r = 2 ^ k \<and> odd q then q + 1 else q)"

definition f64_magnitude :: "nat \<Rightarrow> nat" where
  "f64_magnitude n =
     (if n = 0 then 0
      else let e = bit_length n - 1
           in (e + 1022) * 2 ^ 52 + (if e \<le> 52 then n * 2 ^ (52 - e) else round_half_even n (e - 52)))"

definition number_key :: "json_num \<Rightarrow> int" where
  "number_key n = (case n of
       Unsigned k \<Rightarrow> int (f64_magnitude k)
     | Negative i \<Rightarrow> - int (f64_magnitude (nat (- i)))
     | Float w \<Rightarrow> if unat w \<ge> 2 ^ 63 then - int (unat w - 2 ^ 63) else int (unat w))"

fun number_equal :: "json_num \<Rightarrow> json_num \<Rightarrow> bool" where
  "number_equal (Unsigned a) (Unsigned b) = (a = b)"
| "number_equal (Negative a) (Negative b) = (a = b)"
| "number_equal (Float a) (Float b) = (number_key (Float a) = number_key (Float b))"
| "number_equal _ _ = False"

fun json_equal :: "json \<Rightarrow> json \<Rightarrow> bool"
  and items_equal :: "json list \<Rightarrow> json list \<Rightarrow> bool"
  and entries_equal :: "(string \<times> json) list \<Rightarrow> (string \<times> json) list \<Rightarrow> bool" where
  "json_equal (JNum a) (JNum b) = number_equal a b"
| "json_equal (JArr a) (JArr b) = items_equal a b"
| "json_equal (JObj a) (JObj b) = entries_equal a b"
| "json_equal a b = (a = b)"
| "items_equal [] [] = True"
| "items_equal (x # xs) (y # ys) = (json_equal x y \<and> items_equal xs ys)"
| "items_equal _ _ = False"
| "entries_equal [] [] = True"
| "entries_equal ((k, x) # xs) ((l, y) # ys) = (k = l \<and> json_equal x y \<and> entries_equal xs ys)"
| "entries_equal _ _ = False"

definition operand_value :: "Operand \<Rightarrow> json \<Rightarrow> json option" where
  "operand_value operand context' = (case operand of
       Pointer p \<Rightarrow> json_pointer context' p | Literal v \<Rightarrow> Some v)"

text \<open>The sign of the comparison of two numbers or two strings.\<close>

definition value_ordering :: "json \<Rightarrow> json \<Rightarrow> int option" where
  "value_ordering left right = (case (left, right) of
       (JNum a, JNum b) \<Rightarrow> Some (sgn (number_key a - number_key b))
     | (JStr a, JStr b) \<Rightarrow> Some (if a < b then -1 else if a = b then 0 else 1)
     | _ \<Rightarrow> None)"

definition compare_order :: "json \<Rightarrow> json \<Rightarrow> Compare \<Rightarrow> bool" where
  "compare_order left right comparison = (case value_ordering left right of
       None \<Rightarrow> False
     | Some o' \<Rightarrow> (case comparison of
           CmpGt \<Rightarrow> o' > 0 | CmpGe \<Rightarrow> o' \<ge> 0 | CmpLt \<Rightarrow> o' < 0 | CmpLe \<Rightarrow> o' \<le> 0 | _ \<Rightarrow> False))"

fun evaluate_expr :: "Expr \<Rightarrow> json \<Rightarrow> bool" where
  "evaluate_expr (ExistsExpr p) c = (json_pointer c p \<noteq> None)"
| "evaluate_expr (NotExpr e) c = (\<not> evaluate_expr e c)"
| "evaluate_expr (AndExpr l r) c = (evaluate_expr l c \<and> evaluate_expr r c)"
| "evaluate_expr (OrExpr l r) c = (evaluate_expr l c \<or> evaluate_expr r c)"
| "evaluate_expr (CompareExpr l comparison r) c = (case (operand_value l c, operand_value r c) of
       (Some x, Some y) \<Rightarrow> (case comparison of
           CmpEq \<Rightarrow> json_equal x y | CmpNe \<Rightarrow> \<not> json_equal x y | _ \<Rightarrow> compare_order x y comparison)
     | _ \<Rightarrow> False)"

definition condition_evaluate :: "Expr \<Rightarrow> json \<Rightarrow> bool" where
  "condition_evaluate expression context' = evaluate_expr expression context'"

text \<open>The order of the bits is the order of the integers that doubles represent exactly.\<close>

lemma bit_length_bounds: "0 < n \<Longrightarrow> 2 ^ (bit_length n - 1) \<le> n \<and> n < 2 ^ bit_length n \<and> 0 < bit_length n"
proof (induction n rule: bit_length.induct)
  case (1 n)
  show ?case
  proof (cases "n div 2 = 0")
    case True
    then show ?thesis using 1(2) by (simp add: bit_length.simps [of n] bit_length.simps [of 0])
  next
    case False
    with 1 have ih: "2 ^ (bit_length (n div 2) - 1) \<le> n div 2" "n div 2 < 2 ^ bit_length (n div 2)" "0 < bit_length (n div 2)"
      by simp_all
    have "bit_length n = Suc (bit_length (n div 2))" using 1(2) by (simp add: bit_length.simps [of n])
    moreover have "2 ^ bit_length (n div 2) = 2 * (2::nat) ^ (bit_length (n div 2) - 1)"
      using ih(3) by (cases "bit_length (n div 2)") simp_all
    moreover have "2 * (n div 2) \<le> n" "n < 2 * (n div 2) + 2" by linarith+
    ultimately show ?thesis using ih by (intro conjI; simp) linarith+
  qed
qed

lemma magnitude_bounds:
  assumes "0 < n" "n < 2 ^ 53"
  obtains e where "e \<le> 52" "2 ^ e \<le> n" "n < 2 ^ Suc e" "f64_magnitude n = (e + 1022) * 2 ^ 52 + n * 2 ^ (52 - e)"
    "2 ^ 52 \<le> n * 2 ^ (52 - e)" "n * 2 ^ (52 - e) < 2 ^ 53"
proof -
  let ?e = "bit_length n - 1"
  have n: "2 ^ ?e \<le> n" "n < 2 ^ Suc ?e" using bit_length_bounds [OF assms(1)] by simp_all
  have e: "?e \<le> 52"
  proof (rule ccontr)
    assume "\<not> ?e \<le> 52"
    then have "(2::nat) ^ 53 \<le> 2 ^ ?e" by (intro power_increasing) simp_all
    then show False using n assms(2) by linarith
  qed
  have scale: "(2::nat) ^ ?e * 2 ^ (52 - ?e) = 2 ^ 52" using e by (simp flip: power_add)
  have low: "2 ^ 52 \<le> n * 2 ^ (52 - ?e)"
    using mult_le_mono1 [OF n(1), of "2 ^ (52 - ?e)"] unfolding scale .
  have "n * 2 ^ (52 - ?e) < 2 ^ Suc ?e * 2 ^ (52 - ?e)" using n(2) by (intro mult_strict_right_mono) simp_all
  also have "\<dots> = 2 * (2 ^ ?e * 2 ^ (52 - ?e))" by simp
  finally have high: "n * 2 ^ (52 - ?e) < 2 ^ 53" unfolding scale by simp
  show thesis
    by (rule that [OF e n _ low high]) (use assms(1) e in \<open>simp add: f64_magnitude_def Let_def\<close>)
qed

lemma magnitude_less:
  assumes "a < b" "b < 2 ^ 53"
  shows "f64_magnitude a < f64_magnitude b"
proof -
  have "0 < b" using assms(1) by simp
  from magnitude_bounds [OF this assms(2)] obtain e where b: "b < 2 ^ Suc e" "f64_magnitude b = (e + 1022) * 2 ^ 52 + b * 2 ^ (52 - e)" "2 ^ 52 \<le> b * 2 ^ (52 - e)" .
  show ?thesis
  proof (cases "a = 0")
    case True
    then show ?thesis using b by (simp add: f64_magnitude_def)
  next
    case False
    then have "0 < a" "a < 2 ^ 53" using assms by simp_all
    from magnitude_bounds [OF this] obtain d where a: "a < 2 ^ Suc d" "2 ^ d \<le> a" "f64_magnitude a = (d + 1022) * 2 ^ 52 + a * 2 ^ (52 - d)" "a * 2 ^ (52 - d) < 2 ^ 53" .
    show ?thesis
    proof (cases "d = e")
      case True
      then show ?thesis using assms(1) by (simp add: a(3) b(2))
    next
      case False
      have "d < e"
      proof (rule ccontr)
        assume "\<not> d < e"
        then have "Suc e \<le> d" using False by simp
        then have "(2::nat) ^ Suc e \<le> 2 ^ d" by (rule power_increasing) simp
        then show False using a(2) b(1) assms(1) by linarith
      qed
      then have "(d + 1023) * 2 ^ 52 \<le> (e + 1022) * (2::nat) ^ 52" by (intro mult_le_mono1) simp
      then show ?thesis using a(4) b(3) by (simp add: a(3) b(2))
    qed
  qed
qed

section \<open>Properties\<close>

text \<open>C37. The condition parser decides the grammar: a list of tokens is accepted with an expression
  exactly when it is a phrase of the grammar for that expression, nested at most 128 deep, with at
  most 128 boolean operators and within the token limit; so within the bounds the grammar is
  unambiguous, and parsing ends on every input.\<close>

theorem condition_parser_decides_grammar:
  "parse_tokens tokens = Inr e
     \<longleftrightarrow> length tokens \<le> 4096 \<and> boolean_nodes e \<le> 128 \<and> or_phrase 0 e tokens"
  unfolding parse_tokens_iff parse_or_iff MAX_CONDITION_TOKENS_def ..

end
