(* ===== verification/WorkflowDefinitions.thy ===== *)
theory WorkflowDefinitions
  imports WorkflowConditions Tables
begin

text \<open>
  The validation of workflow definitions (\<open>colossus-workflow/src/validation.rs\<close>): structural
  limits, unique step identifiers, conditions, compensation, and the graph of calls between
  registered workflows.
\<close>

section \<open>Data\<close>

definition MAX_WORKFLOW_BYTES :: nat where "MAX_WORKFLOW_BYTES = 1024 * 1024"
definition MAX_CONCURRENCY :: nat where "MAX_CONCURRENCY = 64"
definition MAX_STEP_BUDGET :: nat where "MAX_STEP_BUDGET = 10000"
definition MAX_FOREACH_ITEMS :: nat where "MAX_FOREACH_ITEMS = 1000"
definition MAX_WORKFLOW_CALL_DEPTH :: nat where "MAX_WORKFLOW_CALL_DEPTH = 16"

text \<open>The options of an agent step play no part in the validation and are kept as a type.\<close>

datatype 'o WorkflowStep =
    AgentStep string string 'o "string option"
  | ToolStep string string json "string option"
  | CallStep string string string json
  | ApprovalStep string string
  | ConditionStep string string "'o WorkflowStep list" "'o WorkflowStep list"
  | ParallelStep string "'o WorkflowStep list list" nat
  | ForeachStep string string nat "'o WorkflowStep list"
  | WaitForInputStep string string json
  | EmitStep string json

record WorkflowMetadata =
  wm_name :: string
  wm_version :: string
  wm_description :: string
  wm_scheduled_task :: bool

record 'o WorkflowDefinition =
  wd_api_version :: string
  wd_kind :: string
  wd_metadata :: WorkflowMetadata
  wd_inputs :: json
  wd_outputs :: json
  wd_capabilities :: "string list"
  wd_max_concurrency :: nat
  wd_step_budget :: nat
  wd_steps :: "'o WorkflowStep list"
  wd_compensation :: "'o WorkflowStep list"

record 'o ValidatedWorkflow =
  vw_definition :: "'o WorkflowDefinition"
  vw_content_hash :: string

text \<open>The YAML and JSON parsers, the JSON Schema compiler and the hash.\<close>

record 'o WorkflowEnv =
  we_condition :: ConditionEnv
  we_yaml :: "string \<Rightarrow> (string, 'o WorkflowDefinition) result"
  we_to_string :: "json \<Rightarrow> (string, string) result"
  we_from_value :: "json \<Rightarrow> (string, 'o WorkflowDefinition) result"
  we_schema :: "json \<Rightarrow> (string, unit) result"
  we_sha256_hex :: "string \<Rightarrow> string"

section \<open>Steps\<close>

fun step_id :: "'o WorkflowStep \<Rightarrow> string" where
  "step_id (AgentStep i _ _ _) = i"
| "step_id (ToolStep i _ _ _) = i"
| "step_id (CallStep i _ _ _) = i"
| "step_id (ApprovalStep i _) = i"
| "step_id (ConditionStep i _ _ _) = i"
| "step_id (ParallelStep i _ _) = i"
| "step_id (ForeachStep i _ _ _) = i"
| "step_id (WaitForInputStep i _ _) = i"
| "step_id (EmitStep i _) = i"

definition valid_step_id :: "string \<Rightarrow> bool" where
  "valid_step_id i \<longleftrightarrow> i \<noteq> [] \<and> list_all (\<lambda>c. is_ascii_alphanumeric c \<or> c \<in> {CHR ''_'', CHR ''-'', CHR ''.''}) i"

definition valid_name :: "string \<Rightarrow> bool" where
  "valid_name name = list_all (\<lambda>c. is_ascii_lowercase c \<or> is_ascii_digit c \<or> c \<in> {CHR ''.'', CHR ''-''}) name"

fun step_retryable :: "'o WorkflowStep \<Rightarrow> bool" where
  "step_retryable (AgentStep _ _ _ idempotency) = (idempotency \<noteq> None)"
| "step_retryable (ToolStep _ _ _ idempotency) = (idempotency \<noteq> None)"
| "step_retryable (CallStep _ _ _ _) = True"
| "step_retryable _ = False"

definition scoped_execution_id :: "string \<Rightarrow> string \<Rightarrow> string" where
  "scoped_execution_id scope i = (if scope = [] then i else scope @ ''/'' @ i)"

fun find_step :: "'o WorkflowStep list \<Rightarrow> string \<Rightarrow> 'o WorkflowStep option"
  and find_below :: "'o WorkflowStep \<Rightarrow> string \<Rightarrow> 'o WorkflowStep option"
  and find_branch :: "'o WorkflowStep list list \<Rightarrow> string \<Rightarrow> 'o WorkflowStep option" where
  "find_step [] i = None"
| "find_step (step # steps) i =
     (if step_id step = i then Some step
      else case find_below step i of Some s \<Rightarrow> Some s | None \<Rightarrow> find_step steps i)"
| "find_below (ConditionStep _ _ yes no) i =
     (case find_step yes i of Some s \<Rightarrow> Some s | None \<Rightarrow> find_step no i)"
| "find_below (ParallelStep _ branches _) i = find_branch branches i"
| "find_below (ForeachStep _ _ _ steps) i = find_step steps i"
| "find_below _ i = None"
| "find_branch [] i = None"
| "find_branch (branch # branches) i =
     (case find_step branch i of Some s \<Rightarrow> Some s | None \<Rightarrow> find_branch branches i)"

section \<open>Validation of the steps\<close>

definition refuse :: "string \<Rightarrow> (WorkflowError, 'a) result" where
  "refuse message = Inl (InvalidDefinition message)"

definition refuse_if :: "bool \<Rightarrow> string \<Rightarrow> (WorkflowError, unit) result" where
  "refuse_if b message = reject_if b (InvalidDefinition message)"

definition check_schema :: "'o WorkflowEnv \<Rightarrow> string \<Rightarrow> json \<Rightarrow> (WorkflowError, unit) result" where
  "check_schema env what schema = map_err (\<lambda>e. WfSchema (''invalid '' @ what @ '' schema: '' @ e)) (we_schema env schema)"

text \<open>The identifiers seen so far, with one more.\<close>

definition take_id :: "(string \<Rightarrow> string) \<Rightarrow> string \<Rightarrow> string \<Rightarrow> string set \<Rightarrow> (WorkflowError, string set) result" where
  "take_id debug what i ids =
     (if \<not> valid_step_id i \<or> i \<in> ids then refuse (what @ '' id '' @ debug i @ '' is invalid or duplicated'')
      else Inr (insert i ids))"

definition u32_max :: nat where "u32_max = 2 ^ 32 - 1"

definition add_count :: "nat \<Rightarrow> nat \<Rightarrow> nat" where
  "add_count a b = min (a + b) u32_max"

fun validate_steps :: "'o WorkflowEnv \<Rightarrow> nat \<Rightarrow> 'o WorkflowStep list \<Rightarrow> string set \<Rightarrow> (WorkflowError, nat \<times> string set) result"
  and validate_step :: "'o WorkflowEnv \<Rightarrow> nat \<Rightarrow> 'o WorkflowStep \<Rightarrow> string set \<Rightarrow> (WorkflowError, nat \<times> string set) result"
  and validate_branches :: "'o WorkflowEnv \<Rightarrow> nat \<Rightarrow> 'o WorkflowStep list list \<Rightarrow> string set \<Rightarrow> (WorkflowError, nat \<times> string set) result"
where
  "validate_steps env concurrency [] ids = Inr (0, ids)"
| "validate_steps env concurrency (step # steps) ids =
     bind_r (take_id (ce_debug (we_condition env)) ''step'' (step_id step) ids) (\<lambda>ids.
     bind_r (validate_step env concurrency step ids) (\<lambda>(below, ids).
     bind_r (validate_steps env concurrency steps ids) (\<lambda>(rest, ids).
     Inr (add_count (add_count 1 below) rest, ids))))"
| "validate_step env concurrency (AgentStep _ _ _ idempotency) ids =
     bind_r (refuse_if (idempotency = Some []) ''idempotency strategy cannot be empty'') (\<lambda>_. Inr (0, ids))"
| "validate_step env concurrency (ToolStep _ _ _ idempotency) ids =
     bind_r (refuse_if (idempotency = Some []) ''idempotency strategy cannot be empty'') (\<lambda>_. Inr (0, ids))"
| "validate_step env concurrency (CallStep _ workflow version _) ids =
     bind_r (refuse_if (workflow = [] \<or> version = []) ''subworkflow name and version are required'') (\<lambda>_. Inr (0, ids))"
| "validate_step env concurrency (ConditionStep _ expression yes no) ids =
     bind_r (condition_parse (we_condition env) expression) (\<lambda>_.
     bind_r (validate_steps env concurrency yes ids) (\<lambda>(n, ids).
     bind_r (validate_steps env concurrency no ids) (\<lambda>(m, ids).
     Inr (add_count n m, ids))))"
| "validate_step env concurrency (ParallelStep _ branches max_concurrency) ids =
     bind_r (refuse_if (branches = [] \<or> max_concurrency = 0 \<or> max_concurrency > concurrency)
       ''parallel branches must be non-empty and locally bounded'') (\<lambda>_.
     validate_branches env concurrency branches ids)"
| "validate_step env concurrency (ForeachStep _ items max_items steps) ids =
     bind_r (refuse_if (\<not> starts_with ''/'' items \<or> max_items = 0 \<or> max_items > MAX_FOREACH_ITEMS \<or> steps = [])
       ''foreach needs a JSON pointer, 1..=1000 item limit, and steps'') (\<lambda>_.
     validate_steps env concurrency steps ids)"
| "validate_step env concurrency (WaitForInputStep _ _ schema) ids =
     bind_r (check_schema env ''wait_for_input'' schema) (\<lambda>_. Inr (0, ids))"
| "validate_step env concurrency (ApprovalStep _ _) ids = Inr (0, ids)"
| "validate_step env concurrency (EmitStep _ _) ids = Inr (0, ids)"
| "validate_branches env concurrency [] ids = Inr (0, ids)"
| "validate_branches env concurrency (branch # branches) ids =
     bind_r (refuse_if (branch = []) ''parallel branches cannot be empty'') (\<lambda>_.
     bind_r (validate_steps env concurrency branch ids) (\<lambda>(n, ids).
     bind_r (validate_branches env concurrency branches ids) (\<lambda>(m, ids).
     Inr (add_count n m, ids))))"

fun validate_compensation :: "(string \<Rightarrow> string) \<Rightarrow> 'o WorkflowStep list \<Rightarrow> string set \<Rightarrow> (WorkflowError, string set) result" where
  "validate_compensation debug [] ids = Inr ids"
| "validate_compensation debug (step # steps) ids =
     bind_r (take_id debug ''compensation step'' (step_id step) ids) (\<lambda>ids.
     bind_r (case step of
         AgentStep _ _ _ idempotency \<Rightarrow> refuse_if (idempotency = None \<or> idempotency = Some [])
           ''compensation effects require an explicit idempotency strategy''
       | ToolStep _ _ _ idempotency \<Rightarrow> refuse_if (idempotency = None \<or> idempotency = Some [])
           ''compensation effects require an explicit idempotency strategy''
       | _ \<Rightarrow> refuse ''compensation supports only idempotent agent or tool steps'') (\<lambda>_.
     validate_compensation debug steps ids))"

text \<open>The number of steps must fit a \<open>u32\<close>; the text is that of the conversion error.\<close>

definition validate_compensation_steps ::
    "(string \<Rightarrow> string) \<Rightarrow> 'o WorkflowStep list \<Rightarrow> string set \<Rightarrow> (WorkflowError, nat \<times> string set) result" where
  "validate_compensation_steps debug steps ids =
     bind_r (validate_compensation debug steps ids) (\<lambda>ids.
     bind_r (refuse_if (length steps > u32_max) ''out of range integral type conversion attempted'') (\<lambda>_.
     Inr (length steps, ids)))"

section \<open>Calls\<close>

fun workflow_references :: "'o WorkflowStep list \<Rightarrow> (string \<times> string) list"
  and step_references :: "'o WorkflowStep \<Rightarrow> (string \<times> string) list"
  and branch_references :: "'o WorkflowStep list list \<Rightarrow> (string \<times> string) list" where
  "workflow_references [] = []"
| "workflow_references (step # steps) = step_references step @ workflow_references steps"
| "step_references (CallStep _ workflow version _) = [(workflow, version)]"
| "step_references (ConditionStep _ _ yes no) = workflow_references yes @ workflow_references no"
| "step_references (ParallelStep _ branches _) = branch_references branches"
| "step_references (ForeachStep _ _ _ steps) = workflow_references steps"
| "step_references _ = []"
| "branch_references [] = []"
| "branch_references (branch # branches) = workflow_references branch @ branch_references branches"

fun reject_direct_workflow_cycle :: "'o WorkflowStep list \<Rightarrow> string \<Rightarrow> string \<Rightarrow> (WorkflowError, unit) result"
  and reject_below :: "'o WorkflowStep \<Rightarrow> string \<Rightarrow> string \<Rightarrow> (WorkflowError, unit) result"
  and reject_branches :: "'o WorkflowStep list list \<Rightarrow> string \<Rightarrow> string \<Rightarrow> (WorkflowError, unit) result" where
  "reject_direct_workflow_cycle [] name version = Inr ()"
| "reject_direct_workflow_cycle (step # steps) name version =
     bind_r (reject_below step name version) (\<lambda>_. reject_direct_workflow_cycle steps name version)"
| "reject_below (CallStep _ workflow called_version _) name version =
     refuse_if (workflow = name \<and> called_version = version) ''workflow cannot directly call its own name and version''"
| "reject_below (ConditionStep _ _ yes no) name version =
     bind_r (reject_direct_workflow_cycle yes name version) (\<lambda>_. reject_direct_workflow_cycle no name version)"
| "reject_below (ParallelStep _ branches _) name version = reject_branches branches name version"
| "reject_below (ForeachStep _ _ _ steps) name version = reject_direct_workflow_cycle steps name version"
| "reject_below _ name version = Inr ()"
| "reject_branches [] name version = Inr ()"
| "reject_branches (branch # branches) name version =
     bind_r (reject_direct_workflow_cycle branch name version) (\<lambda>_. reject_branches branches name version)"

text \<open>What the repository has under a name and a version, with its hash. The lookup acts on the
  state of the repository.\<close>

type_synonym ('s, 'o) definitions =
  "string \<Rightarrow> string \<Rightarrow> ('s, StoreError, ('o WorkflowDefinition \<times> string) option) action"

definition a_map_err :: "('e \<Rightarrow> 'f) \<Rightarrow> ('s, 'e, 'a) action \<Rightarrow> ('s, 'f, 'a) action" where
  "a_map_err f m = (\<lambda>s. case m s of (s', r) \<Rightarrow> (s', map_err f r))"

definition call_text :: "string \<times> string \<Rightarrow> string" where
  "call_text = (\<lambda>(name, version). name @ '':'' @ version)"

fun join_calls :: "(string \<times> string) list \<Rightarrow> string" where
  "join_calls [] = []"
| "join_calls [k] = call_text k"
| "join_calls (k # ks) = call_text k @ '' -> '' @ join_calls ks"

definition called_definition ::
    "('s, 'o) definitions \<Rightarrow> 'o WorkflowDefinition \<Rightarrow> bool \<Rightarrow> string \<times> string \<Rightarrow> ('s, WorkflowError, 'o WorkflowDefinition option) action" where
  "called_definition repository proposed require_complete key =
     (if key = (wm_name (wd_metadata proposed), wm_version (wd_metadata proposed)) then a_return (Some proposed)
      else a_bind (a_map_err WfStore (repository (fst key) (snd key))) (\<lambda>found.
        case found of
          Some (definition', _) \<Rightarrow> a_return (Some definition')
        | None \<Rightarrow> if require_complete then a_fail (WfNotFound (call_text key)) else a_return None))"

text \<open>The stack of the calls that lead to a workflow grows with every level of the recursion.\<close>

function visit :: "('s, 'o) definitions \<Rightarrow> 'o WorkflowDefinition \<Rightarrow> bool \<Rightarrow> string \<times> string \<Rightarrow> (string \<times> string) list
    \<Rightarrow> ('s, WorkflowError, unit) action"
  and visit_all :: "('s, 'o) definitions \<Rightarrow> 'o WorkflowDefinition \<Rightarrow> bool \<Rightarrow> (string \<times> string) list \<Rightarrow> (string \<times> string) list
    \<Rightarrow> ('s, WorkflowError, unit) action" where
  "visit repository proposed require_complete key stack =
     (if key \<in> set stack then a_lift (refuse (''workflow call cycle detected: ''
          @ join_calls (dropWhile (\<lambda>entry. entry \<noteq> key) stack @ [key])))
      else if length stack \<ge> MAX_WORKFLOW_CALL_DEPTH then
        a_lift (refuse (''workflow call depth exceeds '' @ nat_text MAX_WORKFLOW_CALL_DEPTH))
      else a_bind (called_definition repository proposed require_complete key) (\<lambda>found.
        case found of
          None \<Rightarrow> a_return ()
        | Some definition' \<Rightarrow> visit_all repository proposed require_complete (workflow_references (wd_steps definition'))
            (stack @ [key])))"
| "visit_all repository proposed require_complete [] stack = a_return ()"
| "visit_all repository proposed require_complete (key # keys) stack =
     a_bind (visit repository proposed require_complete key stack) (\<lambda>_.
     visit_all repository proposed require_complete keys stack)"
  by pat_completeness auto

termination
  by (relation "measures [\<lambda>x. case x of Inl (_, _, _, _, stack) \<Rightarrow> MAX_WORKFLOW_CALL_DEPTH - length stack
        | Inr (_, _, _, _, stack) \<Rightarrow> MAX_WORKFLOW_CALL_DEPTH - length stack,
      \<lambda>x. case x of Inl _ \<Rightarrow> 0 | Inr (_, _, _, keys, _) \<Rightarrow> length keys]") auto

declare visit.simps [simp del]

definition validate_call_graph :: "('s, 'o) definitions \<Rightarrow> 'o WorkflowDefinition \<Rightarrow> bool \<Rightarrow> ('s, WorkflowError, unit) action" where
  "validate_call_graph repository proposed require_complete =
     visit repository proposed require_complete
       (wm_name (wd_metadata proposed), wm_version (wd_metadata proposed)) []"

section \<open>Validation of a definition\<close>

fun check_capabilities :: "string set \<Rightarrow> string list \<Rightarrow> (WorkflowError, unit) result" where
  "check_capabilities seen [] = Inr ()"
| "check_capabilities seen (c # cs) =
     bind_r (refuse_if (c = [] \<or> c \<in> seen) ''capabilities must be non-empty and unique'') (\<lambda>_.
     check_capabilities (insert c seen) cs)"

definition validate_parsed :: "'o WorkflowEnv \<Rightarrow> 'o WorkflowDefinition \<Rightarrow> string \<Rightarrow> (WorkflowError, 'o ValidatedWorkflow) result" where
  "validate_parsed env d raw =
     (let name = wm_name (wd_metadata d); version = wm_version (wd_metadata d); debug = ce_debug (we_condition env)
      in bind_r (refuse_if (wd_api_version d \<noteq> ''colossus.dev/v1alpha1'' \<or> wd_kind d \<noteq> ''Workflow'')
           ''apiVersion must be colossus.dev/v1alpha1 and kind must be Workflow'') (\<lambda>_.
         bind_r (refuse_if (name = [] \<or> version = [] \<or> wm_description (wd_metadata d) = [])
           ''metadata name, version, and description are required'') (\<lambda>_.
         bind_r (refuse_if (\<not> valid_name name)
           ''workflow name must use lowercase letters, digits, dots, or hyphens'') (\<lambda>_.
         bind_r (refuse_if (\<not> (1 \<le> wd_max_concurrency d \<and> wd_max_concurrency d \<le> MAX_CONCURRENCY))
           (''maxConcurrency must be between 1 and '' @ nat_text MAX_CONCURRENCY)) (\<lambda>_.
         bind_r (refuse_if (\<not> (1 \<le> wd_step_budget d \<and> wd_step_budget d \<le> MAX_STEP_BUDGET))
           (''stepBudget must be between 1 and '' @ nat_text MAX_STEP_BUDGET)) (\<lambda>_.
         bind_r (refuse_if (wd_steps d = []) ''at least one root step is required'') (\<lambda>_.
         bind_r (check_schema env ''input'' (wd_inputs d)) (\<lambda>_.
         bind_r (check_schema env ''output'' (wd_outputs d)) (\<lambda>_.
         bind_r (validate_steps env (wd_max_concurrency d) (wd_steps d) {}) (\<lambda>(n, ids).
         bind_r (validate_compensation_steps debug (wd_compensation d) ids) (\<lambda>(m, ids).
         bind_r (reject_direct_workflow_cycle (wd_steps d) name version) (\<lambda>_.
         bind_r (reject_direct_workflow_cycle (wd_compensation d) name version) (\<lambda>_.
         let step_count = add_count n m
         in bind_r (refuse_if (step_count > wd_step_budget d)
              (''definition contains '' @ nat_text step_count @ '' steps but budget is '' @ nat_text (wd_step_budget d))) (\<lambda>_.
            bind_r (check_capabilities {} (wd_capabilities d)) (\<lambda>_.
            Inr \<lparr>vw_definition = d, vw_content_hash = we_sha256_hex env raw\<rparr>)))))))))))))))"

definition validate_definition :: "'o WorkflowEnv \<Rightarrow> string \<Rightarrow> (WorkflowError, 'o ValidatedWorkflow) result" where
  "validate_definition env yaml =
     bind_r (refuse_if (length yaml > MAX_WORKFLOW_BYTES)
       (''definition exceeds '' @ nat_text MAX_WORKFLOW_BYTES @ '' bytes'')) (\<lambda>_.
     bind_r (refuse_if (contains_str ''!!'' yaml \<or> contains_str ''&'' yaml \<or> contains_str ''*'' yaml)
       ''YAML tags, anchors, and aliases are prohibited'') (\<lambda>_.
     bind_r (map_err InvalidDefinition (we_yaml env yaml)) (\<lambda>d. validate_parsed env d yaml)))"

definition validate_task_definition :: "'o WorkflowEnv \<Rightarrow> json \<Rightarrow> (WorkflowError, 'o ValidatedWorkflow) result" where
  "validate_task_definition env v =
     bind_r (map_err InvalidDefinition (we_to_string env v)) (\<lambda>raw.
     bind_r (refuse_if (length raw > MAX_WORKFLOW_BYTES) ''task definition exceeds its bound'') (\<lambda>_.
     bind_r (map_err InvalidDefinition (we_from_value env v)) (\<lambda>d. validate_parsed env d raw)))"

end
