(* ===== verification/WorkflowRuns.thy ===== *)
theory WorkflowRuns
  imports WorkflowDefinitions Ports
begin

text \<open>
  Durable runs of workflows: the state of a run that its events give (\<open>fold_run\<close>), the
  definitions a repository holds, and the events of the service
  (\<open>colossus-workflow/src/repository.rs\<close>, \<open>service.rs\<close>). The repository is the one over the
  event journal.
\<close>

section \<open>Data\<close>

datatype WorkflowTriggerKind = TriggerSchedule | TriggerWebhook | TriggerSubscription

record WorkflowRun =
  wr_run_id :: string
  wr_workflow_name :: string
  wr_workflow_version :: string
  wr_workflow_hash :: string
  wr_parent_run_id :: "string option"
  wr_parent_step_id :: "string option"
  wr_parent_execution_id :: "string option"
  wr_trigger_kind :: "WorkflowTriggerKind option"
  wr_trigger_id :: "string option"
  wr_trigger_occurrence :: "string option"
  wr_call_depth :: nat
  wr_status :: WorkflowStatus
  wr_inputs :: json
  wr_outputs :: "json option"
  wr_failure_reason :: "string option"
  wr_completed_steps :: nat
  wr_waiting_step_id :: "string option"
  wr_waiting_execution_id :: "string option"
  wr_waiting_reason :: "string option"
  wr_waiting_child_run_id :: "string option"

record WorkflowEffect =
  wf_kind :: string
  wf_action :: string
  wf_content :: json
  wf_idempotency :: "string option"
  wf_credential_references :: "CredentialReference list"
  wf_allowed_tools :: "string list"
  wf_run_id :: string
  wf_step_id :: string
  wf_definition_step_id :: string
  wf_workflow_hash :: string
  wf_attempt :: nat
  wf_compensation :: bool

text \<open>The service with its journal, the runner of its effects (the call that starts an effect and
  the answer that is awaited), and the packages it uses: schemas, serialisers, identifiers, the
  trace context of a span and the choices of the scheduler.\<close>

record ('s, 'o) WorkflowService =
  ws_journal :: "'s EventJournalPort"
  ws_begin :: "WorkflowEffect \<Rightarrow> 's \<Rightarrow> 's"
  ws_answer :: "WorkflowEffect \<Rightarrow> ('s, WorkflowError, json) action"
  ws_env :: "'o WorkflowEnv"
  ws_validator :: "json \<Rightarrow> (string, json \<Rightarrow> string list) result"
  ws_definition_value :: "'o WorkflowDefinition \<Rightarrow> json"
  ws_options_value :: "'o \<Rightarrow> json"
  ws_serde_error :: "json \<Rightarrow> string"
  ws_uuid :: "'s \<Rightarrow> 's \<times> string"
  ws_trace_context :: "string \<Rightarrow> string \<Rightarrow> 's \<Rightarrow> json"
  ws_schedule :: "'s \<Rightarrow> 's \<times> nat"

section \<open>Documents\<close>

definition json_object :: "(string \<times> json) list \<Rightarrow> json" where
  "json_object entries = JObj (fold (\<lambda>(k, v). table_insert k v) entries [])"

definition json_text :: "string option \<Rightarrow> json" where
  "json_text v = (case v of Some s \<Rightarrow> JStr s | None \<Rightarrow> JNull)"

definition json_count :: "nat \<Rightarrow> json" where
  "json_count n = JNum (Unsigned n)"

text \<open>\<open>value[key] = x\<close>. The code indexes objects only; on another value but null it would panic.\<close>

definition json_index_set :: "json \<Rightarrow> string \<Rightarrow> json \<Rightarrow> json" where
  "json_index_set v k x = (case v of
       JObj entries \<Rightarrow> JObj (table_insert k x entries)
     | JNull \<Rightarrow> JObj [(k, x)]
     | _ \<Rightarrow> v)"

definition json_index :: "json \<Rightarrow> string \<Rightarrow> json" where
  "json_index v k = (case json_get v k of Some x \<Rightarrow> x | None \<Rightarrow> JNull)"

definition string_field :: "json \<Rightarrow> string \<Rightarrow> (StoreError, string) result" where
  "string_field v field = ok_or (Verification (''run field '' @ field @ '' is absent'')) (get_str v field)"

section \<open>The state of a run\<close>

definition run_stream :: "string \<Rightarrow> string" where
  "run_stream run_id = ''workflow-run:'' @ run_id"

text \<open>A unit variant deserialises from its name or from an object of its name and null.\<close>

definition trigger_kind_from_value :: "(json \<Rightarrow> string) \<Rightarrow> json \<Rightarrow> (string, WorkflowTriggerKind) result" where
  "trigger_kind_from_value serde_error v =
     (let named = (\<lambda>name. v = JStr name \<or> v = JObj [(name, JNull)])
      in if named ''schedule'' then Inr TriggerSchedule
         else if named ''webhook'' then Inr TriggerWebhook
         else if named ''subscription'' then Inr TriggerSubscription
         else Inl (serde_error v))"

definition queued_run :: "(json \<Rightarrow> string) \<Rightarrow> string \<Rightarrow> string \<Rightarrow> json \<Rightarrow> (StoreError, WorkflowRun) result" where
  "queued_run serde_error run_id event_type start =
     bind_r (string_field start ''workflow_name'') (\<lambda>name.
     bind_r (string_field start ''workflow_version'') (\<lambda>version.
     bind_r (string_field start ''workflow_hash'') (\<lambda>hash.
     bind_r (case json_get start ''trigger_kind'' of
         None \<Rightarrow> Inr None
       | Some v \<Rightarrow> bind_r (map_err Verification (trigger_kind_from_value serde_error v)) (\<lambda>kind. Inr (Some kind))) (\<lambda>kind.
     Inr \<lparr>wr_run_id = run_id, wr_workflow_name = name, wr_workflow_version = version, wr_workflow_hash = hash,
       wr_parent_run_id = get_str start ''parent_run_id'', wr_parent_step_id = get_str start ''parent_step_id'',
       wr_parent_execution_id = get_str start ''parent_execution_id'', wr_trigger_kind = kind,
       wr_trigger_id = get_str start ''trigger_id'', wr_trigger_occurrence = get_str start ''trigger_occurrence'',
       wr_call_depth = (case Option.bind (json_get start ''call_depth'') as_u64 of
          Some depth \<Rightarrow> if depth < 2 ^ 16 then depth else 1 | None \<Rightarrow> 1),
       wr_status = (if event_type = ''workflow.run.queued.v1'' then Queued else Running),
       wr_inputs = json_index start ''inputs'', wr_outputs = None, wr_failure_reason = None, wr_completed_steps = 0,
       wr_waiting_step_id = None, wr_waiting_execution_id = None, wr_waiting_reason = None, wr_waiting_child_run_id = None\<rparr>))))"

definition not_waiting :: "WorkflowRun \<Rightarrow> WorkflowRun" where
  "not_waiting run = run\<lparr>wr_waiting_step_id := None, wr_waiting_execution_id := None, wr_waiting_reason := None,
     wr_waiting_child_run_id := None\<rparr>"

definition run_event :: "string \<Rightarrow> json \<Rightarrow> WorkflowRun \<Rightarrow> WorkflowRun" where
  "run_event event_type payload run =
     (if event_type = ''workflow.run.queued.v1'' then run\<lparr>wr_status := Queued\<rparr>
      else if event_type = ''workflow.run.started.v1'' then not_waiting (run\<lparr>wr_status := Running, wr_failure_reason := None\<rparr>)
      else if event_type = ''workflow.step.completed.v1'' then
        run\<lparr>wr_completed_steps := (case Option.bind (json_get payload ''root_index'') as_u64 of
          Some index \<Rightarrow> let n = saturating_add64 index 1 in if n \<le> u32_max then n else wr_completed_steps run
        | None \<Rightarrow> wr_completed_steps run)\<rparr>
      else if event_type = ''workflow.run.waiting.v1'' then
        run\<lparr>wr_status := Waiting, wr_waiting_step_id := get_str payload ''step_id'',
          wr_waiting_execution_id := get_str payload ''execution_id'', wr_waiting_reason := get_str payload ''reason'',
          wr_waiting_child_run_id := get_str payload ''child_run_id''\<rparr>
      else if event_type = ''workflow.run.resumed.v1'' then not_waiting (run\<lparr>wr_status := Running, wr_failure_reason := None\<rparr>)
      else if event_type = ''workflow.run.completed.v1'' then
        not_waiting (run\<lparr>wr_status := Completed, wr_outputs := json_get payload ''outputs'', wr_failure_reason := None\<rparr>)
      else if event_type = ''workflow.run.failed.v1'' then
        not_waiting (run\<lparr>wr_status := Failed, wr_failure_reason := get_str payload ''reason''\<rparr>)
      else if event_type = ''workflow.run.cancelled.v1'' then not_waiting (run\<lparr>wr_status := Cancelled\<rparr>)
      else if event_type = ''workflow.run.interrupted.v1'' then not_waiting (run\<lparr>wr_status := Interrupted\<rparr>)
      else run)"

definition fold_run_events ::
    "('s, 'o) WorkflowService \<Rightarrow> string \<Rightarrow> EventEnvelope list \<Rightarrow> ('s, WorkflowRun option) store_op" where
  "fold_run_events svc run_id events = (case events of
       [] \<Rightarrow> a_return None
     | first # rest \<Rightarrow>
         a_bind (ej_decrypt_payload (ws_journal svc) first) (\<lambda>start.
         a_bind (a_lift (queued_run (ws_serde_error svc) run_id (ev_event_type first) start)) (\<lambda>run.
         a_bind (a_fold (\<lambda>event run. a_bind (ej_decrypt_payload (ws_journal svc) event) (\<lambda>payload.
           a_return (run_event (ev_event_type event) payload run))) rest run) (\<lambda>run.
         a_return (Some run)))))"

definition fold_run :: "('s, 'o) WorkflowService \<Rightarrow> string \<Rightarrow> ('s, WorkflowRun option) store_op" where
  "fold_run svc run_id =
     a_bind (ej_read_stream (ws_journal svc) (run_stream run_id)) (fold_run_events svc run_id)"

section \<open>Definitions\<close>

definition definition_stream :: "string \<Rightarrow> string \<Rightarrow> string" where
  "definition_stream name version = ''workflow-definition:'' @ name @ '':'' @ version"

definition repository_definition :: "('s, 'o) WorkflowService \<Rightarrow> ('s, 'o) definitions" where
  "repository_definition svc name version =
     a_bind (ej_read_stream (ws_journal svc) (definition_stream name version)) (\<lambda>events.
     if events = [] then a_return None
     else a_bind (ej_decrypt_payload (ws_journal svc) (last events)) (\<lambda>payload.
       a_bind (a_lift (ok_or (Verification ''definition payload is absent'') (json_get payload ''definition''))) (\<lambda>value.
       a_bind (a_lift (map_err Verification (we_from_value (ws_env svc) value))) (\<lambda>definition'.
       a_bind (a_lift (ok_or (Verification ''definition hash is absent'') (get_str payload ''content_hash''))) (\<lambda>hash.
       a_return (Some (definition', hash)))))))"

definition repository_register ::
    "('s, 'o) WorkflowService \<Rightarrow> 'o WorkflowDefinition \<Rightarrow> string \<Rightarrow> string \<Rightarrow> ('s, unit) store_op" where
  "repository_register svc d content_hash provenance =
     (let J = ws_journal svc; stream = definition_stream (wm_name (wd_metadata d)) (wm_version (wd_metadata d))
      in a_bind (ej_read_stream J stream) (\<lambda>existing.
         a_bind (if existing = [] then a_return None
           else a_bind (ej_decrypt_payload J (last existing)) (\<lambda>payload. a_return (get_str payload ''content_hash''))) (\<lambda>known.
         if known = Some content_hash then a_return ()
         else a_bind (\<lambda>s. case ws_uuid svc s of (s', correlation) \<Rightarrow> (s', Inr correlation)) (\<lambda>correlation.
           a_bind (ej_append J \<lparr>ne_event_version = 1, ne_stream_id = stream, ne_expected_stream_version = length existing,
             ne_classification = WorkflowClass,
             ne_event_type = (if existing = [] then ''workflow.definition.registered.v1'' else ''workflow.definition.changed.v1''),
             ne_actor = \<lparr>actor_type = User, actor_id = ''workflow-registrar''\<rparr>,
             ne_context = default_context\<lparr>cx_correlation_id := correlation\<rparr>,
             ne_payload = json_object [(''definition'', ws_definition_value svc d), (''content_hash'', JStr content_hash),
               (''provenance'', JStr provenance), (''trust_invalidated'', JBool (existing \<noteq> []))]\<rparr>) (\<lambda>_. a_return ())))))"

section \<open>Instances of schemas\<close>

fun join_text :: "string \<Rightarrow> string list \<Rightarrow> string" where
  "join_text separator [] = []"
| "join_text separator [s] = s"
| "join_text separator (s # rest) = s @ separator @ join_text separator rest"

definition validate_instance ::
    "('s, 'o) WorkflowService \<Rightarrow> json \<Rightarrow> json \<Rightarrow> string \<Rightarrow> (WorkflowError, unit) result" where
  "validate_instance svc schema instance' label =
     bind_r (map_err WfSchema (ws_validator svc schema)) (\<lambda>validator.
     let errors = take 8 (validator instance')
     in reject_if (errors \<noteq> []) (WfSchema (label @ '': '' @ join_text ''; '' errors)))"

fun workflow_error_text :: "WorkflowError \<Rightarrow> string" where
  "workflow_error_text (WfConflict m) = ''workflow control conflict: '' @ m"
| "workflow_error_text WfPermissionDenied = ''workflow control is not authorized''"
| "workflow_error_text (InvalidDefinition m) = ''invalid workflow definition: '' @ m"
| "workflow_error_text (WfSchema m) = ''workflow schema validation failed: '' @ m"
| "workflow_error_text (WfNotFound m) = ''workflow record not found: '' @ m"
| "workflow_error_text (InvalidTransition m) = ''invalid workflow transition: '' @ m"
| "workflow_error_text (WfEffect m) = ''workflow effect failed: '' @ m"
| "workflow_error_text (WfOutcomeUnknown m) = ''workflow effect outcome unknown: '' @ m"
| "workflow_error_text (WfStore e) = store_error_text e"

end
