(* ===== verification/WorkflowProperties.thy ===== *)
theory WorkflowProperties
  imports WorkflowDefinitions
begin

text \<open>
  What an accepted workflow definition is (\<open>well_formed_workflow\<close>), stated on the flat list of
  its steps, with the proof that the validation accepts exactly those; and what an accepted graph
  of calls is: every chain of calls from the proposed workflow is short, free of repetition and
  resolvable, which is again exactly what the recursive visit accepts.
\<close>

section \<open>The steps of a definition\<close>

text \<open>Every step, the nested ones after the step that holds them.\<close>

fun all_steps :: "'o WorkflowStep list \<Rightarrow> 'o WorkflowStep list"
  and steps_below :: "'o WorkflowStep \<Rightarrow> 'o WorkflowStep list"
  and steps_of_branches :: "'o WorkflowStep list list \<Rightarrow> 'o WorkflowStep list" where
  "all_steps [] = []"
| "all_steps (step # steps) = step # steps_below step @ all_steps steps"
| "steps_below (ConditionStep _ _ yes no) = all_steps yes @ all_steps no"
| "steps_below (ParallelStep _ branches _) = steps_of_branches branches"
| "steps_below (ForeachStep _ _ _ steps) = all_steps steps"
| "steps_below _ = []"
| "steps_of_branches [] = []"
| "steps_of_branches (branch # branches) = all_steps branch @ steps_of_branches branches"

text \<open>What a step has to satisfy by itself.\<close>

fun step_fine :: "'o WorkflowEnv \<Rightarrow> nat \<Rightarrow> 'o WorkflowStep \<Rightarrow> bool" where
  "step_fine env concurrency (AgentStep _ _ _ idempotency) = (idempotency \<noteq> Some [])"
| "step_fine env concurrency (ToolStep _ _ _ idempotency) = (idempotency \<noteq> Some [])"
| "step_fine env concurrency (CallStep _ workflow version _) = (workflow \<noteq> [] \<and> version \<noteq> [])"
| "step_fine env concurrency (ApprovalStep _ _) = True"
| "step_fine env concurrency (ConditionStep _ expression _ _) = is_ok (condition_parse (we_condition env) expression)"
| "step_fine env concurrency (ParallelStep _ branches bound) =
     (branches \<noteq> [] \<and> [] \<notin> set branches \<and> 1 \<le> bound \<and> bound \<le> concurrency)"
| "step_fine env concurrency (ForeachStep _ items bound steps) =
     (starts_with ''/'' items \<and> 1 \<le> bound \<and> bound \<le> 1000 \<and> steps \<noteq> [])"
| "step_fine env concurrency (WaitForInputStep _ _ schema) = is_ok (we_schema env schema)"
| "step_fine env concurrency (EmitStep _ _) = True"

fun compensation_fine :: "'o WorkflowStep \<Rightarrow> bool" where
  "compensation_fine (AgentStep _ _ _ idempotency) = (idempotency \<noteq> None \<and> idempotency \<noteq> Some [])"
| "compensation_fine (ToolStep _ _ _ idempotency) = (idempotency \<noteq> None \<and> idempotency \<noteq> Some [])"
| "compensation_fine _ = False"

definition fresh_ids :: "string set \<Rightarrow> 'o WorkflowStep list \<Rightarrow> bool" where
  "fresh_ids ids steps \<longleftrightarrow> list_all (\<lambda>s. valid_step_id (step_id s)) steps
     \<and> distinct (map step_id steps) \<and> set (map step_id steps) \<inter> ids = {}"

lemma fresh_ids_simps [simp]:
  "fresh_ids ids []"
  "fresh_ids ids (s # ss) \<longleftrightarrow> valid_step_id (step_id s) \<and> step_id s \<notin> ids \<and> fresh_ids (insert (step_id s) ids) ss"
  "fresh_ids ids (xs @ ys) \<longleftrightarrow> fresh_ids ids xs \<and> fresh_ids (ids \<union> set (map step_id xs)) ys"
  unfolding fresh_ids_def by auto

definition well_formed_workflow :: "'o WorkflowEnv \<Rightarrow> 'o WorkflowDefinition \<Rightarrow> bool" where
  "well_formed_workflow env d \<longleftrightarrow>
     (let steps = all_steps (wd_steps d); m = wd_metadata d
      in wd_api_version d = ''colossus.dev/v1alpha1'' \<and> wd_kind d = ''Workflow''
        \<and> wm_name m \<noteq> [] \<and> wm_version m \<noteq> [] \<and> wm_description m \<noteq> [] \<and> valid_name (wm_name m)
        \<and> wd_max_concurrency d \<in> {1..64} \<and> wd_step_budget d \<in> {1..10000}
        \<and> is_ok (we_schema env (wd_inputs d)) \<and> is_ok (we_schema env (wd_outputs d))
        \<and> wd_steps d \<noteq> []
        \<and> length steps + length (wd_compensation d) \<le> wd_step_budget d
        \<and> list_all (step_fine env (wd_max_concurrency d)) steps
        \<and> list_all compensation_fine (wd_compensation d)
        \<and> fresh_ids {} (steps @ wd_compensation d)
        \<and> (wm_name m, wm_version m) \<notin> set (workflow_references (wd_steps d))
        \<and> [] \<notin> set (wd_capabilities d) \<and> distinct (wd_capabilities d))"

section \<open>The validation decides well-formedness\<close>

lemma refuse_if_Inr_iff [result_simps]: "refuse_if b message = Inr u \<longleftrightarrow> \<not> b"
  by (simp add: refuse_if_def)

lemma take_id_Inr_iff [result_simps]:
  "take_id debug what i ids = Inr ids' \<longleftrightarrow> valid_step_id i \<and> i \<notin> ids \<and> ids' = insert i ids"
  by (auto simp: take_id_def refuse_def)

lemma check_schema_Inr_iff [result_simps]: "check_schema env what schema = Inr u \<longleftrightarrow> is_ok (we_schema env schema)"
  by (auto simp: check_schema_def map_err_Inr_iff is_ok_iff)

lemma add_count_min: "add_count (min a u32_max) (min b u32_max) = min (a + b) u32_max"
  by (simp add: add_count_def)

lemma add_count_min_Suc: "add_count (add_count (Suc 0) (min a u32_max)) (min b u32_max) = min (Suc (a + b)) u32_max"
  by (simp add: add_count_def)

lemmas count_simps = add_count_min add_count_min_Suc

lemma validate_steps_Inr_iff:
  "validate_steps env concurrency steps ids = Inr (n, ids') \<longleftrightarrow>
     list_all (step_fine env concurrency) (all_steps steps) \<and> fresh_ids ids (all_steps steps)
     \<and> n = min (length (all_steps steps)) u32_max \<and> ids' = ids \<union> set (map step_id (all_steps steps))"
  "validate_step env concurrency step ids = Inr (n, ids') \<longleftrightarrow>
     step_fine env concurrency step \<and> list_all (step_fine env concurrency) (steps_below step) \<and> fresh_ids ids (steps_below step)
     \<and> n = min (length (steps_below step)) u32_max \<and> ids' = ids \<union> set (map step_id (steps_below step))"
  "validate_branches env concurrency branches ids = Inr (n, ids') \<longleftrightarrow>
     [] \<notin> set branches \<and> list_all (step_fine env concurrency) (steps_of_branches branches) \<and> fresh_ids ids (steps_of_branches branches)
     \<and> n = min (length (steps_of_branches branches)) u32_max \<and> ids' = ids \<union> set (map step_id (steps_of_branches branches))"
proof (induction steps and step and branches arbitrary: ids n ids' and ids n ids' and ids n ids'
    rule: all_steps_steps_below_steps_of_branches.induct)
  case (2 step steps)
  show ?case by (auto simp: bind_r_Inr_iff take_id_Inr_iff split_beta 2 count_simps)
next
  case (3 i e yes no)
  show ?case by (auto simp: bind_r_Inr_iff split_beta 3 count_simps is_ok_iff)
next
  case (4 i branches bound)
  show ?case by (auto simp: bind_r_Inr_iff refuse_if_Inr_iff 4)
next
  case (5 i items bound steps)
  show ?case by (auto simp: bind_r_Inr_iff refuse_if_Inr_iff 5 MAX_FOREACH_ITEMS_def)
next
  case (8 branch branches)
  show ?case by (auto simp: bind_r_Inr_iff refuse_if_Inr_iff split_beta 8 count_simps)
qed (auto simp: bind_r_Inr_iff refuse_if_Inr_iff check_schema_Inr_iff is_ok_iff)

lemma validate_compensation_Inr_iff:
  "validate_compensation debug steps ids = Inr ids' \<longleftrightarrow>
     list_all compensation_fine steps \<and> fresh_ids ids steps \<and> ids' = ids \<union> set (map step_id steps)"
proof (induction steps arbitrary: ids)
  case (Cons step steps)
  show ?case
    by (cases step) (auto simp: bind_r_Inr_iff take_id_Inr_iff refuse_if_Inr_iff refuse_def Cons)
qed auto

lemma reject_direct_workflow_cycle_Inr_iff:
  fixes steps :: "'o WorkflowStep list" and step :: "'o WorkflowStep" and branches :: "'o WorkflowStep list list"
  shows
  "reject_direct_workflow_cycle steps name version = Inr u \<longleftrightarrow> (name, version) \<notin> set (workflow_references steps)"
  "reject_below step name version = Inr u \<longleftrightarrow> (name, version) \<notin> set (step_references step)"
  "reject_branches branches name version = Inr u \<longleftrightarrow> (name, version) \<notin> set (branch_references branches)"
  by (induction steps and step and branches rule: workflow_references_step_references_branch_references.induct)
    (auto simp: bind_r_Inr_iff refuse_if_Inr_iff)

lemma compensation_calls_nothing: "list_all compensation_fine steps \<Longrightarrow> workflow_references steps = []"
proof (induction steps)
  case (Cons step steps)
  then show ?case by (cases step) simp_all
qed simp

lemma check_capabilities_Inr_iff:
  "check_capabilities seen cs = Inr u \<longleftrightarrow> [] \<notin> set cs \<and> distinct cs \<and> set cs \<inter> seen = {}"
  by (induction cs arbitrary: seen) (auto simp: bind_r_Inr_iff refuse_if_Inr_iff)

lemma step_count_within:
  assumes "budget \<le> 10000"
  shows "m \<le> u32_max \<and> \<not> add_count (min n u32_max) m > budget \<longleftrightarrow> n + m \<le> budget"
  using assms by (auto simp: add_count_def u32_max_def)

lemmas validation_simps =
  bind_r_Inr_iff refuse_if_Inr_iff check_schema_Inr_iff validate_steps_Inr_iff validate_compensation_Inr_iff
  reject_direct_workflow_cycle_Inr_iff check_capabilities_Inr_iff validate_compensation_steps_def

lemma validate_parsed_Inr_iff:
  "validate_parsed env d raw = Inr v \<longleftrightarrow>
     well_formed_workflow env d \<and> v = \<lparr>vw_definition = d, vw_content_hash = we_sha256_hex env raw\<rparr>"
proof (cases "wd_step_budget d \<le> 10000 \<and> list_all compensation_fine (wd_compensation d)")
  case True
  note step_count_within [of "wd_step_budget d" "length (wd_compensation d)" "length (all_steps (wd_steps d))"]
  then have count: "length (wd_compensation d) \<le> u32_max
      \<and> add_count (min (length (all_steps (wd_steps d))) u32_max) (length (wd_compensation d)) \<le> wd_step_budget d
      \<longleftrightarrow> length (all_steps (wd_steps d)) + length (wd_compensation d) \<le> wd_step_budget d"
    using True by (simp add: not_less)
  have none: "workflow_references (wd_compensation d) = []" using True by (simp add: compensation_calls_nothing)
  show ?thesis
    unfolding well_formed_workflow_def Let_def
    by (simp add: validate_parsed_def Let_def validation_simps split_paired_Ex MAX_CONCURRENCY_def MAX_STEP_BUDGET_def
        none True not_less flip: count) blast
next
  case False
  then show ?thesis
    unfolding well_formed_workflow_def Let_def
    by (auto simp: validate_parsed_def Let_def validation_simps split_paired_Ex MAX_STEP_BUDGET_def)
qed

lemma find_append: "find P (xs @ ys) = (case find P xs of Some x \<Rightarrow> Some x | None \<Rightarrow> find P ys)"
  by (induction xs) auto

lemma find_step_first:
  fixes steps :: "'o WorkflowStep list" and step :: "'o WorkflowStep" and branches :: "'o WorkflowStep list list"
  shows
  "find_step steps i = find (\<lambda>s. step_id s = i) (all_steps steps)"
  "find_below step i = find (\<lambda>s. step_id s = i) (steps_below step)"
  "find_branch branches i = find (\<lambda>s. step_id s = i) (steps_of_branches branches)"
  by (induction steps and step and branches rule: all_steps_steps_below_steps_of_branches.induct)
    (auto simp: find_append split: option.splits)

lemma find_distinct:
  "distinct (map f xs) \<Longrightarrow> x \<in> set xs \<Longrightarrow> find (\<lambda>y. f y = f x) xs = Some x"
  by (induction xs) auto

section \<open>Chains of calls\<close>

text \<open>A repository whose lookups leave its state alone. One workflow calls another when the
  definition found for the first refers to the second; a chain starts at the proposed workflow.\<close>

definition steady :: "('s, 'o) definitions \<Rightarrow> 's \<Rightarrow> bool" where
  "steady repository s \<longleftrightarrow> (\<forall>name version. fst (repository name version s) = s)"

definition found_definition ::
    "('s, 'o) definitions \<Rightarrow> 'o WorkflowDefinition \<Rightarrow> bool \<Rightarrow> 's \<Rightarrow> string \<times> string \<Rightarrow> (WorkflowError, 'o WorkflowDefinition option) result" where
  "found_definition repository proposed complete s k = snd (called_definition repository proposed complete k s)"

definition calls :: "('s, 'o) definitions \<Rightarrow> 'o WorkflowDefinition \<Rightarrow> 's \<Rightarrow> string \<times> string \<Rightarrow> string \<times> string \<Rightarrow> bool" where
  "calls repository proposed s caller callee \<longleftrightarrow>
     (case found_definition repository proposed False s caller of
       Inr (Some d) \<Rightarrow> callee \<in> set (workflow_references (wd_steps d))
     | _ \<Rightarrow> False)"

fun chain_from :: "('s, 'o) definitions \<Rightarrow> 'o WorkflowDefinition \<Rightarrow> 's \<Rightarrow> string \<times> string \<Rightarrow> (string \<times> string) list \<Rightarrow> bool" where
  "chain_from repository proposed s k [] = True"
| "chain_from repository proposed s k (l # ls) \<longleftrightarrow> calls repository proposed s k l \<and> chain_from repository proposed s l ls"

definition proposed_key :: "'o WorkflowDefinition \<Rightarrow> string \<times> string" where
  "proposed_key d = (wm_name (wd_metadata d), wm_version (wd_metadata d))"

text \<open>A chain of calls that may stand on top of the calls \<open>stack\<close>.\<close>

definition sound_chain ::
    "('s, 'o) definitions \<Rightarrow> 'o WorkflowDefinition \<Rightarrow> bool \<Rightarrow> 's \<Rightarrow> (string \<times> string) list \<Rightarrow> (string \<times> string) list \<Rightarrow> bool" where
  "sound_chain repository proposed complete s stack ks \<longleftrightarrow>
     distinct (stack @ ks) \<and> length (stack @ ks) \<le> 16 \<and> is_ok (found_definition repository proposed complete s (last ks))"

lemma bind_same:
  "fst (m s) = s \<Longrightarrow> a_bind m f s = (case snd (m s) of Inl e \<Rightarrow> (s, Inl e) | Inr x \<Rightarrow> f x s)"
  by (cases "m s") (auto simp: a_bind_def)

lemma called_definition_steady:
  assumes "steady repository s"
  shows "called_definition repository proposed complete key s = (s, found_definition repository proposed complete s key)"
proof -
  have "fst (called_definition repository proposed complete key s) = s"
    using assms by (auto simp: called_definition_def a_bind_def a_map_err_def a_return_def a_fail_def steady_def
        split: prod.splits sum.splits option.splits) (metis fst_conv)+
  then show ?thesis by (simp add: found_definition_def prod_eq_iff)
qed

lemma found_definition_complete:
  "found_definition repository proposed complete s k = Inr (Some d) \<longleftrightarrow> found_definition repository proposed False s k = Inr (Some d)"
  by (auto simp: found_definition_def called_definition_def a_bind_def a_return_def a_fail_def
      split: prod.splits sum.splits option.splits)

lemma visit_iff:
  "steady repository s \<Longrightarrow> distinct stack \<Longrightarrow> fst (visit repository proposed complete key stack s) = s
     \<and> (snd (visit repository proposed complete key stack s) = Inr u \<longleftrightarrow>
     (\<forall>ks. chain_from repository proposed s key ks \<longrightarrow> sound_chain repository proposed complete s stack (key # ks)))"
  "steady repository s \<Longrightarrow> distinct stack \<Longrightarrow> fst (visit_all repository proposed complete keys stack s) = s
     \<and> (snd (visit_all repository proposed complete keys stack s) = Inr u \<longleftrightarrow>
     (\<forall>key \<in> set keys. \<forall>ks. chain_from repository proposed s key ks \<longrightarrow> sound_chain repository proposed complete s stack (key # ks)))"
proof (induction repository proposed complete key stack and repository proposed complete keys stack arbitrary: u and u
    rule: visit_visit_all.induct)
  case (1 repository proposed complete key stack)
  let ?sound = "\<lambda>stack ks. sound_chain repository proposed complete s stack ks"
  show ?case
  proof (cases "key \<in> set stack \<or> length stack \<ge> 16")
    case True
    then have "\<not> ?sound stack [key]" by (auto simp: sound_chain_def)
    moreover have "fst (visit repository proposed complete key stack s) = s"
      "snd (visit repository proposed complete key stack s) \<noteq> Inr u"
      using True by (auto simp: visit.simps MAX_WORKFLOW_CALL_DEPTH_def refuse_def a_lift_def)
    moreover have "chain_from repository proposed s key []" by simp
    ultimately show ?thesis by blast
  next
    case False
    then have fresh: "distinct (stack @ [key])" "key \<notin> set stack" "\<not> MAX_WORKFLOW_CALL_DEPTH \<le> length stack"
      using 1(3) by (auto simp: MAX_WORKFLOW_CALL_DEPTH_def)
    have deeper: "?sound stack (key # l # ls) = ?sound (stack @ [key]) (l # ls)" for l ls
      by (simp add: sound_chain_def)
    have chains: "(\<forall>ks. chain_from repository proposed s key ks \<longrightarrow> ?sound stack (key # ks)) \<longleftrightarrow>
        ?sound stack [key] \<and> (\<forall>l. calls repository proposed s key l \<longrightarrow>
          (\<forall>ls. chain_from repository proposed s l ls \<longrightarrow> ?sound (stack @ [key]) (l # ls)))"
      (is "(\<forall>ks. ?P ks) \<longleftrightarrow> _")
    proof -
      have "(\<forall>ks. ?P ks) \<longleftrightarrow> ?P [] \<and> (\<forall>l ls. ?P (l # ls))" by (metis list.exhaust)
      then show ?thesis by (auto simp: deeper)
    qed
    have sound: "?sound stack [key] \<longleftrightarrow> is_ok (found_definition repository proposed complete s key)"
      using False 1(3) by (auto simp: sound_chain_def)
    note found = called_definition_steady [OF 1(2), of proposed complete key]
    show ?thesis
    proof (cases "\<exists>d. found_definition repository proposed complete s key = Inr (Some d)")
      case True
      then obtain d where d: "found_definition repository proposed complete s key = Inr (Some d)" by blast
      then have "calls repository proposed s key l \<longleftrightarrow> l \<in> set (workflow_references (wd_steps d))" for l
        using found_definition_complete [of repository proposed complete s key d] by (simp add: calls_def)
      then show ?thesis
        using 1(1) [OF fresh(2,3) 1(2) fresh(1)] fresh sound d
        by (simp add: visit.simps chains Ball_def a_bind_def found)
    next
      case False
      then have "\<not> calls repository proposed s key l" for l
        using found_definition_complete [of repository proposed complete s key]
        by (auto simp: calls_def split: sum.splits option.splits)
      then show ?thesis
        using fresh sound False
        by (cases "found_definition repository proposed complete s key")
          (auto simp: visit.simps chains a_bind_def found a_return_def split: option.splits)
    qed
  qed
next
  case (3 repository proposed complete key keys stack)
  then show ?case
    by (cases "snd (visit repository proposed complete key stack s)") (auto simp: bind_same)
qed (simp add: a_return_def)

section \<open>Properties\<close>

text \<open>C38. A definition is accepted exactly when its text is within 1 MiB, has no tags, anchors or
  aliases, parses, and is well formed: between 1 and 64 concurrent steps, no more than the step
  budget (at most 10000) of steps over all levels and the compensation, all with valid identifiers
  that differ from each other, every step satisfying its own rule (conditions that parse, bounded
  non-empty branches, item limits, schemas that compile), compensation of idempotent effects only,
  no call of itself, and distinct capabilities; and the result holds the definition with the hash
  of the text.\<close>

theorem workflow_accepted_iff_well_formed:
  "validate_definition env yaml = Inr v \<longleftrightarrow>
     length yaml \<le> 1048576 \<and> \<not> contains_str ''!!'' yaml \<and> \<not> contains_str ''&'' yaml \<and> \<not> contains_str ''*'' yaml
     \<and> we_yaml env yaml = Inr (vw_definition v) \<and> well_formed_workflow env (vw_definition v)
     \<and> vw_content_hash v = we_sha256_hex env yaml"
  by (cases v) (auto simp: validate_definition_def bind_r_Inr_iff refuse_if_Inr_iff map_err_Inr_iff validate_parsed_Inr_iff
      MAX_WORKFLOW_BYTES_def)

text \<open>In an accepted definition every step, however deep, is the one that a lookup of its
  identifier finds.\<close>

theorem accepted_steps_found:
  assumes "validate_parsed env d raw = Inr v" "s \<in> set (all_steps (wd_steps d))"
  shows "find_step (wd_steps d) (step_id s) = Some s"
  using assms by (auto simp: validate_parsed_Inr_iff well_formed_workflow_def Let_def fresh_ids_def find_step_first
      intro: find_distinct)

text \<open>C39. The graph of calls is accepted exactly when every chain of calls that starts at the
  proposed workflow visits no workflow twice, is at most 16 workflows long, and ends at a workflow
  that the lookup answers for (when completeness is required, that it finds); checking it leaves a
  repository alone whose lookups do.\<close>

theorem call_graph_accepted_iff_chains_end:
  assumes "steady repository s"
  shows "fst (validate_call_graph repository proposed complete s) = s
     \<and> (snd (validate_call_graph repository proposed complete s) = Inr () \<longleftrightarrow>
       (\<forall>ks. chain_from repository proposed s (proposed_key proposed) ks \<longrightarrow>
          distinct (proposed_key proposed # ks) \<and> length (proposed_key proposed # ks) \<le> 16
          \<and> is_ok (found_definition repository proposed complete s (last (proposed_key proposed # ks)))))"
  unfolding validate_call_graph_def proposed_key_def [symmetric]
  using visit_iff(1) [OF assms, of "[]"] by (simp add: sound_chain_def)

section \<open>An accepted workflow\<close>

definition example_metadata :: "string \<Rightarrow> WorkflowMetadata" where
  "example_metadata name = \<lparr>wm_name = name, wm_version = ''1.0.0'', wm_description = ''Ships a release'', wm_scheduled_task = False\<rparr>"

definition example_definition :: "string \<Rightarrow> unit WorkflowStep list \<Rightarrow> unit WorkflowDefinition" where
  "example_definition name steps = \<lparr>wd_api_version = ''colossus.dev/v1alpha1'', wd_kind = ''Workflow'',
     wd_metadata = example_metadata name, wd_inputs = JObj [], wd_outputs = JObj [], wd_capabilities = [''git.status''],
     wd_max_concurrency = 2, wd_step_budget = 20, wd_steps = steps,
     wd_compensation = [ToolStep ''undo'' ''git.reset'' JNull (Some ''once'')]\<rparr>"

definition release_workflow :: "unit WorkflowDefinition" where
  "release_workflow = example_definition ''release''
     [ConditionStep ''gate'' ''exists(/inputs/x)'' [ParallelStep ''both'' [[EmitStep ''a'' JNull], [EmitStep ''b'' JNull]] 2] [],
      CallStep ''notify'' ''notice'' ''1.0.0'' JNull]"

definition notice_workflow :: "unit WorkflowDefinition" where
  "notice_workflow = example_definition ''notice'' [EmitStep ''sent'' JNull]"

definition example_workflow_env :: "unit WorkflowEnv" where
  "example_workflow_env = \<lparr>we_condition = \<lparr>ce_from_str = (\<lambda>_. None), ce_debug = (\<lambda>s. s)\<rparr>,
     we_yaml = (\<lambda>_. Inr release_workflow), we_to_string = (\<lambda>_. Inr []), we_from_value = (\<lambda>_. Inr release_workflow),
     we_schema = (\<lambda>_. Inr ()), we_sha256_hex = (\<lambda>s. s)\<rparr>"

definition example_definitions :: "(unit, unit) definitions" where
  "example_definitions name version = a_return (if name = ''notice'' then Some (notice_workflow, []) else None)"

lemma release_workflow_accepted:
  "validate_parsed example_workflow_env release_workflow [] = Inr \<lparr>vw_definition = release_workflow, vw_content_hash = []\<rparr>"
  by code_simp

theorem accepted_steps_found_witness:
  "find_step (wd_steps release_workflow) ''b'' = Some (EmitStep ''b'' JNull)"
proof -
  have "EmitStep ''b'' JNull \<in> set (all_steps (wd_steps release_workflow))" by code_simp
  from accepted_steps_found [OF release_workflow_accepted, unfolded ValidatedWorkflow.simps, OF this] show ?thesis by simp
qed

theorem call_graph_accepted_iff_chains_end_witness:
  "snd (validate_call_graph example_definitions release_workflow True ()) = Inr ()
     \<and> is_ok (found_definition example_definitions release_workflow True () (''notice'', ''1.0.0''))"
proof -
  have steady: "steady example_definitions ()" by (simp add: steady_def)
  have ok: "snd (validate_call_graph example_definitions release_workflow True ()) = Inr ()" by code_simp
  have chain: "chain_from example_definitions release_workflow () (proposed_key release_workflow) [(''notice'', ''1.0.0'')]" by code_simp
  from call_graph_accepted_iff_chains_end [OF steady, of release_workflow True] ok chain
  have "is_ok (found_definition example_definitions release_workflow True () (last [proposed_key release_workflow, (''notice'', ''1.0.0'')]))"
    by blast
  with ok show ?thesis by simp
qed

end
