(* ===== verification/WorkflowRunProperties.thy ===== *)
theory WorkflowRunProperties
  imports WorkflowRuns WorkflowProperties
begin

text \<open>
  What the reconstruction of a run from its events guarantees: the status is that of the last event
  that decides one, and the details of waiting belong to a run that waits.
\<close>

section \<open>The status of a run\<close>

text \<open>The events that decide the status.\<close>

fun lifecycle_status :: "string \<Rightarrow> WorkflowStatus option" where
  "lifecycle_status t = map_of
     [(''workflow.run.queued.v1'', Queued), (''workflow.run.started.v1'', Running), (''workflow.run.waiting.v1'', Waiting),
      (''workflow.run.resumed.v1'', Running), (''workflow.run.completed.v1'', Completed), (''workflow.run.failed.v1'', Failed),
      (''workflow.run.cancelled.v1'', Cancelled), (''workflow.run.interrupted.v1'', Interrupted)] t"

text \<open>The last of them, or the kind of the first event.\<close>

definition status_of :: "string list \<Rightarrow> WorkflowStatus" where
  "status_of types = (case find (\<lambda>t. lifecycle_status t \<noteq> None) (rev (tl types)) of
       Some t \<Rightarrow> the (lifecycle_status t)
     | None \<Rightarrow> if hd types = ''workflow.run.queued.v1'' then Queued else Running)"

definition idle :: "WorkflowRun \<Rightarrow> bool" where
  "idle run \<longleftrightarrow> wr_waiting_step_id run = None \<and> wr_waiting_execution_id run = None
     \<and> wr_waiting_reason run = None \<and> wr_waiting_child_run_id run = None"

lemma run_event_status:
  "wr_status (run_event t p run) = (case lifecycle_status t of Some st \<Rightarrow> st | None \<Rightarrow> wr_status run)"
  by (simp add: run_event_def not_waiting_def)

lemma run_event_identity:
  "wr_run_id (run_event t p run) = wr_run_id run" "wr_call_depth (run_event t p run) = wr_call_depth run"
  "wr_workflow_hash (run_event t p run) = wr_workflow_hash run" "wr_inputs (run_event t p run) = wr_inputs run"
  by (simp_all add: run_event_def not_waiting_def)

lemma run_event_steps:
  "wr_completed_steps run \<le> u32_max \<Longrightarrow> wr_completed_steps (run_event t p run) \<le> u32_max"
  by (simp add: run_event_def not_waiting_def Let_def split: option.split)

lemma run_event_idle:
  "t \<noteq> ''workflow.run.queued.v1'' \<Longrightarrow> wr_status run = Waiting \<or> idle run
    \<Longrightarrow> wr_status (run_event t p run) = Waiting \<or> idle (run_event t p run)"
  by (auto simp: run_event_def not_waiting_def idle_def)

section \<open>The reconstruction is a fold\<close>

abbreviation replayed :: "EventEnvelope list \<Rightarrow> json list \<Rightarrow> WorkflowRun \<Rightarrow> WorkflowRun" where
  "replayed events payloads \<equiv> fold (\<lambda>(event, payload). run_event (ev_event_type event) payload) (zip events payloads)"

lemma fold_run_events_replays:
  "after (fold_run_events svc run_id events) s (\<lambda>s' r. case r of
      Inl e \<Rightarrow> True
    | Inr None \<Rightarrow> events = []
    | Inr (Some run) \<Rightarrow> \<exists>start first payloads. events \<noteq> [] \<and> length payloads = length (tl events)
        \<and> queued_run (ws_serde_error svc) run_id (ev_event_type (hd events)) start = Inr first
        \<and> run = replayed (tl events) payloads first)"
proof (cases events)
  case Nil
  then show ?thesis by (simp add: fold_run_events_def after_primitive)
next
  case (Cons event rest)
  have replay: "after (a_fold (\<lambda>event run. a_bind (ej_decrypt_payload (ws_journal svc) event) (\<lambda>payload.
      a_return (run_event (ev_event_type event) payload run))) rest first) t (\<lambda>s' r. case r of Inl e \<Rightarrow> True
        | Inr run \<Rightarrow> \<exists>payloads. length payloads = length rest \<and> run = replayed rest payloads first)" for first t
  proof (rule after_fold [where I = "\<lambda>xs run s. \<exists>seen payloads. rest = seen @ xs \<and> length payloads = length seen
        \<and> run = replayed seen payloads first"], goal_cases)
    case 1
    show ?case by (intro exI [of _ "[]"]) simp
  next
    case (2 x ys run t)
    then obtain seen payloads where seen: "rest = seen @ x # ys" "length payloads = length seen" "run = replayed seen payloads first"
      by blast
    have "\<exists>seen' payloads'. rest = seen' @ ys \<and> length payloads' = length seen'
        \<and> run_event (ev_event_type x) p run = replayed seen' payloads' first" for p
      by (intro exI [of _ "seen @ [x]"] exI [of _ "payloads @ [p]"]) (simp add: seen)
    then show ?case by (auto simp: after_run a_bind_def a_return_def split: prod.split sum.split)
  qed auto
  show ?thesis
    unfolding fold_run_events_def Cons list.case after_bind
    by (auto simp: after_primitive after_run [of "ej_decrypt_payload _ _"] split: sum.split intro!: after_mono [OF replay]) blast
qed

lemma replayed_invariant:
  assumes "length payloads = length events" "P run" "\<And>event payload run. event \<in> set events \<Longrightarrow> P run \<Longrightarrow> P (run_event (ev_event_type event) payload run)"
  shows "P (replayed events payloads run)"
  using assms by (induction events payloads arbitrary: run rule: list_induct2') auto

lemma replayed_status:
  "length payloads = length events \<Longrightarrow> wr_status (replayed events payloads run)
    = (case find (\<lambda>t. lifecycle_status t \<noteq> None) (rev (map ev_event_type events)) of
        Some t \<Rightarrow> the (lifecycle_status t) | None \<Rightarrow> wr_status run)"
proof (induction events arbitrary: payloads rule: rev_induct)
  case (snoc event events)
  then obtain ps p where "payloads = ps @ [p]" "length ps = length events" by (cases payloads rule: rev_cases) auto
  then show ?case
    using snoc.IH [of ps] by (simp add: run_event_status del: lifecycle_status.simps split: option.split)
qed simp

lemma queued_run_fields:
  assumes "queued_run serde_error run_id t start = Inr run"
  shows "wr_run_id run = run_id" "wr_call_depth run < 2 ^ 16" "wr_completed_steps run = 0" "idle run"
    "wr_status run = (if t = ''workflow.run.queued.v1'' then Queued else Running)"
  using assms by (auto simp: queued_run_def bind_r_Inr_iff idle_def split: option.split)

section \<open>Properties\<close>

text \<open>C40. The run that a repository reconstructs from a stream of events has the identity asked for, a
  call depth and a number of completed steps within their machine types, and the status of the last
  event that decides one; unless that run is queued a second time, it carries details of waiting
  only while it waits.\<close>

theorem reconstructed_run_consistent:
  assumes "''workflow.run.queued.v1'' \<notin> set (map ev_event_type (tl events))"
  shows "after (fold_run_events svc run_id events) s (\<lambda>s' r. \<forall>run. r = Inr (Some run) \<longrightarrow>
     events \<noteq> [] \<and> wr_run_id run = run_id \<and> wr_call_depth run < 2 ^ 16 \<and> wr_completed_steps run < 2 ^ 32
     \<and> wr_status run = status_of (map ev_event_type events) \<and> (wr_status run = Waiting \<or> idle run))"
proof (rule after_mono [OF fold_run_events_replays], intro allI impI)
  fix s' r run
  assume "case r of Inl e \<Rightarrow> True | Inr None \<Rightarrow> events = []
      | Inr (Some run) \<Rightarrow> \<exists>start first payloads. events \<noteq> [] \<and> length payloads = length (tl events)
        \<and> queued_run (ws_serde_error svc) run_id (ev_event_type (hd events)) start = Inr first
        \<and> run = replayed (tl events) payloads first" "r = Inr (Some run)"
  then obtain start first payloads where run: "events \<noteq> []" "length payloads = length (tl events)"
      "queued_run (ws_serde_error svc) run_id (ev_event_type (hd events)) start = Inr first"
      "run = replayed (tl events) payloads first" by auto
  note fields = queued_run_fields [OF run(3)]
  note kept = replayed_invariant [OF run(2), of _ first, folded run(4)]
  have "wr_run_id run = run_id" "wr_call_depth run < 2 ^ 16"
    using kept [of "\<lambda>run. wr_run_id run = run_id"] kept [of "\<lambda>run. wr_call_depth run < 2 ^ 16"] fields(1,2)
    by (simp_all add: run_event_identity)
  moreover have "wr_completed_steps run \<le> u32_max"
    using kept [of "\<lambda>run. wr_completed_steps run \<le> u32_max"] fields(3) by (simp add: run_event_steps)
  then have "wr_completed_steps run < 2 ^ 32" by (simp add: u32_max_def)
  moreover have "wr_status run = Waiting \<or> idle run"
  proof (rule kept)
    fix event payload run' assume event: "event \<in> set (tl events)" and waiting: "wr_status run' = Waiting \<or> idle run'"
    have "ev_event_type event \<in> set (map ev_event_type (tl events))" using event by simp
    then have "ev_event_type event \<noteq> ''workflow.run.queued.v1''" using assms by metis
    then show "wr_status (run_event (ev_event_type event) payload run') = Waiting
        \<or> idle (run_event (ev_event_type event) payload run')"
      using waiting by (rule run_event_idle)
  qed (use fields in simp)
  moreover have "wr_status run = status_of (map ev_event_type events)"
    unfolding run(4) replayed_status [OF run(2)] status_of_def fields(5)
    using run(1) by (simp add: hd_map map_tl del: lifecycle_status.simps)
  ultimately show "events \<noteq> [] \<and> wr_run_id run = run_id \<and> wr_call_depth run < 2 ^ 16 \<and> wr_completed_steps run < 2 ^ 32
     \<and> wr_status run = status_of (map ev_event_type events) \<and> (wr_status run = Waiting \<or> idle run)"
    using run(1) by blast
qed

section \<open>A waiting run\<close>

definition example_run_event :: "string \<Rightarrow> EventEnvelope" where
  "example_run_event event_type = \<lparr>ev_schema_version = 1, ev_event_version = 1, ev_event_id = [], ev_global_sequence = 1,
     ev_stream_id = run_stream ''r'', ev_stream_version = 1, ev_classification = WorkflowClass, ev_event_type = event_type,
     ev_actor = \<lparr>actor_type = Workflow, actor_id = ''r''\<rparr>, ev_context = default_context, ev_occurred_at = [],
     ev_payload = \<lparr>ep_key_id = [], ep_algorithm = [], ep_nonce = [], ep_ciphertext = [], ep_plaintext_hash = []\<rparr>,
     ev_previous_hash = [], ev_record_hash = []\<rparr>"

text \<open>Every payload reads as the same document.\<close>

definition example_payload :: json where
  "example_payload = json_object [(''workflow_name'', JStr ''release''), (''workflow_version'', JStr ''1.0.0''),
     (''workflow_hash'', JStr ''h''), (''step_id'', JStr ''gate''), (''root_index'', json_count 0)]"

definition example_run_journal :: "unit EventJournalPort" where
  "example_run_journal = \<lparr>ej_append = (\<lambda>_. a_fail RecoveryMode), ej_append_batch = (\<lambda>_. a_fail RecoveryMode),
     ej_read_stream = (\<lambda>_. a_return []), ej_read_stream_from = (\<lambda>_ _ _. a_return []),
     ej_read_stream_backwards = (\<lambda>_ _ _. a_return []), ej_list_stream_ids = (\<lambda>_ _ _. a_return []),
     ej_read_global = (\<lambda>_ _. a_return []), ej_read_projection_work = (\<lambda>_ _. a_return []), ej_head = a_return (0, []),
     ej_decrypt_payload = (\<lambda>_. a_return example_payload), ej_is_recovery_mode = (\<lambda>_. True)\<rparr>"

definition example_workflow_service :: "(unit, unit) WorkflowService" where
  "example_workflow_service = \<lparr>ws_journal = example_run_journal, ws_begin = (\<lambda>_ s. s), ws_answer = (\<lambda>_. a_return JNull),
     ws_env = example_workflow_env, ws_validator = (\<lambda>_. Inr (\<lambda>_. [])), ws_definition_value = (\<lambda>_. JNull),
     ws_options_value = (\<lambda>_. JNull), ws_serde_error = (\<lambda>_. []), ws_uuid = (\<lambda>s. (s, [])), ws_trace_context = (\<lambda>_ _ _. JNull),
     ws_schedule = (\<lambda>s. (s, 0))\<rparr>"

theorem reconstructed_run_consistent_witness:
  "\<exists>run. snd (fold_run_events example_workflow_service ''r'' (map example_run_event
       [''workflow.run.queued.v1'', ''workflow.run.started.v1'', ''workflow.step.completed.v1'', ''workflow.run.waiting.v1'']) ())
     = Inr (Some run) \<and> wr_status run = Waiting \<and> wr_completed_steps run < 2 ^ 32"
proof -
  let ?events = "map example_run_event
    [''workflow.run.queued.v1'', ''workflow.run.started.v1'', ''workflow.step.completed.v1'', ''workflow.run.waiting.v1'']"
  have "case snd (fold_run_events example_workflow_service ''r'' ?events ()) of
      Inr (Some run) \<Rightarrow> wr_status run = Waiting | _ \<Rightarrow> False" by code_simp
  then obtain run where run: "snd (fold_run_events example_workflow_service ''r'' ?events ()) = Inr (Some run)" "wr_status run = Waiting"
    by (auto split: sum.splits option.splits)
  have "''workflow.run.queued.v1'' \<notin> set (map ev_event_type (tl ?events))" by (simp add: example_run_event_def)
  from reconstructed_run_consistent [OF this, of example_workflow_service "''r''" "()"] run show ?thesis
    by (auto simp: after_run)
qed

end
