(* ===== verification/Spec2Isabelle.thy ===== *)
theory Spec2Isabelle
  imports Access Registry Network GatewayProperties JournalRunProperties ProjectionProperties ExternalWorkProperties WorkflowRunProperties
begin

text \<open>
  \<^bold>\<open>Colossus: the policy-mediated effect core, its journal and its workflows.\<close>

  Colossus runs model-driven agents. Everything an agent, a workflow or a client wants to do to
  the outside world is an \<^emph>\<open>effect\<close>; the crate \<open>colossus-policy\<close> mediates every effect, the
  crate \<open>colossus-access\<close> resolves which tools and actions a configuration offers. Whatever
  happens is recorded as events in an encrypted, hash-chained journal
  (\<open>colossus-journal-redb\<close>), whose database also holds the projections that the workers of
  \<open>colossus-projection\<close> derive from the events. The crate \<open>colossus-workflow\<close> accepts and runs
  declarative workflows. The crates \<open>colossus-domain\<close>, \<open>colossus-contracts\<close> and
  \<open>colossus-ports\<close> hold the vocabulary they share.

  \<^bold>\<open>Conventions.\<close> A Rust \<open>Result<T, E>\<close> is a value of \<^typ>\<open>'e + 'a\<close> with \<open>Inl\<close> for
  \<open>Err\<close>; a \<open>String\<close> is its UTF-8 byte sequence; \<open>BTreeMap\<close> and JSON objects are association
  lists; counters of type \<open>u64\<close> that the code adds with \<open>checked_add\<close> or \<open>saturating_add\<close>
  are natural numbers with that addition written out. Code that is not in the repository (the
  operating system, DNS, \<open>serde_json\<close>, URL and path canonicalisation, cryptographic
  primitives) is a parameter: a field of a record of functions that the definitions take. What
  a property needs of a parameter is a hypothesis of that property.

  \<^bold>\<open>Theories of the policy core.\<close>

  \<^item> \<open>Prelude\<close>: results, saturating arithmetic, byte strings, lists.
  \<^item> \<open>Domain\<close>: the six wire enumerations of \<open>colossus-domain/src/lib.rs\<close>. The locale
    \<open>wire_enum\<close> states what a display function and a parser owe each other; it is interpreted
    on each enumeration.
  \<^item> \<open>Json\<close>, \<open>Contracts\<close>: JSON documents; the records of \<open>colossus-contracts\<close> and the
    backtracking tool-name matcher of \<open>tool_pattern.rs\<close>, with a proof that it terminates and
    decides the wildcard language.
  \<^item> \<open>Access\<close>, \<open>Registry\<close>: profiles, overrides, prerequisites and the resolver of
    \<open>colossus-access\<close>, and its table of built-in tools and actions.
  \<^item> \<open>Network\<close>: the public-address classification and the pinning of resolved addresses of
    \<open>colossus-network/src/http.rs\<close>.
  \<^item> \<open>Redaction\<close>, \<open>SchemaDisclosure\<close>: removal of hard secrets from what a policy sees, and
    the worklist scan that lets JSON schemas of tools pass unchanged.
  \<^item> \<open>Effects\<close>, \<open>Boundary\<close>, \<open>Kernel\<close>, \<open>BuiltinPolicy\<close>: the error values, the
    acknowledgement gate for running outside a sandbox as a state machine, the safety kernel
    (\<open>kernel.rs\<close>) with every check of a request, a decision and its obligations, and the
    deny-by-default policy with its builders.
  \<^item> \<open>Gateway\<close>: \<open>gateway.rs\<close> and \<open>gateway/fence.rs\<close>. The state is a world of any type,
    on which the services act, and the sequence of the gateway's own interactions (events
    appended, decisions, approvals, executions, chunks delivered). An adapter is the finite tree
    of what the gateway can see of it while it holds the ownership lease.
  \<^item> \<open>GatewaySafety\<close>, \<open>GatewayCompletion\<close>: rules that compose what a computation may do to
    the sequence (\<open>yields\<close>, \<open>emits\<close>) and what it certainly does with services that answer
    (\<open>ends\<close>), and what every function of the gateway does by them.
  \<^item> \<open>GatewayProperties\<close>: the properties of whole runs, with a concrete composition of
    services as witness.

  \<^bold>\<open>Theories of the journal.\<close>

  \<^item> \<open>Tables\<close>: ordered tables with range reads, as the embedded database has them, and the
    error-and-state computations of the persistent components (\<open>a_bind\<close>).
  \<^item> \<open>Keys\<close>: the key providers of \<open>keys.rs\<close>; the locale \<open>key_provider\<close> states what sealing
    and anchoring rely on and is interpreted on the in-memory and the disabled provider.
  \<^item> \<open>Journal\<close>, \<open>JournalReads\<close>, \<open>JournalStartup\<close>: the handle (\<open>RedbEventJournal\<close>: database,
    keys, recovery mode, checkpoint counters), appending, checkpoints and payloads
    (\<open>append.rs\<close>, \<open>checkpoint.rs\<close>, \<open>payload.rs\<close>), reads (\<open>streams.rs\<close>,
    \<open>event_journal.rs\<close>), and verification and opening (\<open>verification.rs\<close>, \<open>startup.rs\<close>). A
    transaction is a copy of the tables that is committed or dropped; the services of the
    environment (codec, cipher, clock, commit) may fail at every step.
  \<^item> \<open>JournalLog\<close>, \<open>JournalAppend\<close>, \<open>JournalHistory\<close>, \<open>JournalProgress\<close>: the invariant that
    ties the tables to one list of envelopes (\<open>journal_holds\<close>), the abstract log, that
    appending refines it, what reads return, and that appends succeed when the services answer.
  \<^item> \<open>JournalIntegrity\<close>, \<open>JournalOpening\<close>, \<open>JournalTamper\<close>, \<open>JournalRuns\<close>: verification of
    what the journal wrote, every path of opening, tamper evidence for tables of unknown origin,
    and whole lives of a database as an inductive relation over openings, calls and failures.
  \<^item> \<open>JournalExample\<close>, \<open>JournalProperties\<close>, \<open>JournalRunProperties\<close>: a concrete environment,
    and the properties with their witnesses in it.

  \<^bold>\<open>Theories of the projections.\<close>

  \<^item> \<open>Projections\<close>, \<open>ProjectionViews\<close>, \<open>ProjectionProperties\<close>: the projection store
    (\<open>journal/projections.rs\<close>), the abstract store of positions and values, and the refinement.
  \<^item> \<open>Ports\<close>: the traits of \<open>colossus-ports\<close> as records of operations, with the redb journal as
    one instance of each.
  \<^item> \<open>ProjectionServices\<close>: the locale \<open>projection_services\<close>, the contract of a journal and a
    store that share a state; \<open>RedbServices\<close> discharges it for the redb journal in the locale
    \<open>lawful_journal\<close>, which is interpreted on the example. \<open>RedbPages\<close> and
    \<open>ExternalWorkRuns\<close> extend it (\<open>page_services\<close>, \<open>queue_services\<close>).
  \<^item> \<open>ProjectionWorker\<close>, \<open>ProjectionReplay\<close>, \<open>ProjectionHandlers\<close>, \<open>WorkerProperties\<close>:
    \<open>worker.rs\<close> with its overlay, the replay of a history that a round and a drain compute, the
    session, work and effect-recovery reducers, and what startup recovery reads.
  \<^item> \<open>ExternalWork\<close>, \<open>ExternalWorkRuns\<close>, \<open>ExternalWorkProperties\<close>: the queue of work for
    external consumers (\<open>external_work.rs\<close>) and its retry records.

  \<^bold>\<open>Theories of the workflows.\<close>

  \<^item> \<open>WorkflowConditions\<close>: \<open>condition.rs\<close>: tokens, parser and evaluation; the parser decides a
    grammar stated as inductive phrases.
  \<^item> \<open>WorkflowDefinitions\<close>, \<open>WorkflowProperties\<close>: \<open>validation.rs\<close>; what is accepted is exactly
    the well-formed definitions and the call graphs whose chains end. The definitions called are
    looked up in a repository, which is an action on the state of the world.
  \<^item> \<open>WorkflowRuns\<close>, \<open>WorkflowRunProperties\<close>: the event-sourced repository
    (\<open>repository.rs\<close>) over the journal of \<open>Ports\<close>: the run that a stream of events gives and the
    definitions it holds. The status of a run is that of the last event that decides one.

  \<^bold>\<open>Bounds and fuel.\<close> No model runs on fuel. Recursions that are not structural (trimming,
  the pattern matcher, the worklist of the schema scan, decimal rendering, the tokenizer and
  parser of conditions, paging loops, draining a projection, visiting the graph of calls) have
  termination proofs; adapters are finite trees, so driving one is structural recursion. The
  bounds are those of the code: 4096 acknowledgements, 256 rounds of 16384 events in a rebuild, 4096 tokens,
  128 levels and 128 operators of a condition, 16 workflows in a chain of calls. Journal properties
  assume fewer than \<open>2 ^ 64 - 1\<close> events where the code's counter would be exhausted.

  \<^bold>\<open>Not modelled.\<close> Lock poisoning and the scheduling of threads: operations that take a lock
  are atomic steps. Of the journal: creation of the tables and the file and platform key stores.
  Of the projections: the memory, workflow and session-activity reducers and the query
  repositories. Of the workflows: the executor of runs (\<open>execution.rs\<close>), schedules, calendars,
  webhooks, subscriptions and controls. The remaining crates are listed in the manifest with the reason: most of
  them are transports, user interfaces, operating-system adapters and persistent repositories.
\<close>

end
